(* ===== verification/Prelude.thy ===== *)
theory Prelude
  imports Main "HOL-Library.AList" "HOL-Library.List_Lexorder" "HOL-Library.Char_ord"
begin

text \<open>
  Shared vocabulary of the development.

  \<^item> Results: Python code that may raise is a value of a sum type, \<open>Inl\<close> the exception and
    \<open>Inr\<close> the value; \<open>and_then\<close> is sequencing, \<open>fold_res\<close> a loop that threads a state and
    stops at the first exception, \<open>map_res\<close> a comprehension that stops at the first exception.
  \<^item> Keyed tuples: the states of the runtime keep their entities in tuples that are searched and
    updated by an identifier; \<open>find_by\<close> and \<open>replace_by\<close> are the two idioms.
  \<^item> The interface of an event-sourced machine (a step function that consumes events with
    consecutive sequence numbers), with what every replay of such a machine satisfies.
\<close>

named_theorems res_simps "inversion and evaluation rules of the result type"
named_theorems keyed_simps "rules for tuples that are searched and updated by identifier"

section \<open>Results\<close>

definition and_then :: "'x + 'a \<Rightarrow> ('a \<Rightarrow> 'x + 'b) \<Rightarrow> 'x + 'b" where
  "and_then m f = (case m of Inl e \<Rightarrow> Inl e | Inr a \<Rightarrow> f a)"

lemma and_then_simps [simp]:
  "and_then (Inl e) f = Inl e"
  "and_then (Inr a) f = f a"
  by (simp_all add: and_then_def)

lemma and_then_cong [fundef_cong]:
  "m = m' \<Longrightarrow> (\<And>a. m' = Inr a \<Longrightarrow> f a = f' a) \<Longrightarrow> and_then m f = and_then m' f'"
  by (auto simp: and_then_def split: sum.splits)

lemma and_then_Inr_iff [res_simps]:
  "and_then m f = Inr b \<longleftrightarrow> (\<exists>a. m = Inr a \<and> f a = Inr b)"
  by (auto simp: and_then_def split: sum.splits)

lemma and_then_Inl_iff:
  "and_then m f = Inl e \<longleftrightarrow> m = Inl e \<or> (\<exists>a. m = Inr a \<and> f a = Inl e)"
  by (auto simp: and_then_def split: sum.splits)

lemma and_then_assoc: "and_then (and_then m f) g = and_then m (\<lambda>a. and_then (f a) g)"
  by (simp add: and_then_def split: sum.splits)

lemma and_then_Inr_right [simp]: "and_then m Inr = m"
  by (simp add: and_then_def split: sum.splits)

lemma if_Inl_eq_Inr_iff [res_simps]:
  "(if c then Inl e else m) = Inr b \<longleftrightarrow> \<not> c \<and> m = Inr b"
  by simp

lemma if_else_Inl_eq_Inr_iff [res_simps]:
  "(if c then m else Inl e) = Inr b \<longleftrightarrow> c \<and> m = Inr b"
  by simp

primrec fold_res :: "('s \<Rightarrow> 'e \<Rightarrow> 'x + 's) \<Rightarrow> 's \<Rightarrow> 'e list \<Rightarrow> 'x + 's" where
  "fold_res f s [] = Inr s"
| "fold_res f s (e # es) = and_then (f s e) (\<lambda>s'. fold_res f s' es)"

lemma fold_res_append: "fold_res f s (xs @ ys) = and_then (fold_res f s xs) (\<lambda>s'. fold_res f s' ys)"
  by (induction xs arbitrary: s) (simp_all add: and_then_assoc)

lemma fold_res_snoc: "fold_res f s (xs @ [x]) = and_then (fold_res f s xs) (\<lambda>s'. f s' x)"
  by (simp add: fold_res_append)

lemma fold_res_inv:
  assumes step: "\<And>s x s'. x \<in> set xs \<Longrightarrow> P s \<Longrightarrow> f s x = Inr s' \<Longrightarrow> P s'"
    and "P s" and "fold_res f s xs = Inr s'"
  shows "P s'"
  using assms
proof (induction xs arbitrary: s)
  case Nil
  then show ?case by simp
next
  case (Cons x xs)
  then show ?case by (auto simp: res_simps)
qed

lemma fold_res_same:
  assumes "fold_res f s xs = Inr s'"
    and "\<And>s x s'. x \<in> set xs \<Longrightarrow> f s x = Inr s' \<Longrightarrow> g s' = g s"
  shows "g s' = g s"
  using assms
proof (induction xs arbitrary: s)
  case Nil
  then show ?case by simp
next
  case (Cons x xs)
  then obtain t where t: "f s x = Inr t" "fold_res f t xs = Inr s'" by (auto simp: and_then_Inr_iff)
  have "g s' = g t" using t(2) Cons.prems(2) by (intro Cons.IH) auto
  also have "g t = g s" using t(1) by (intro Cons.prems(2)) auto
  finally show ?case .
qed

primrec map_res :: "('a \<Rightarrow> 'x + 'b) \<Rightarrow> 'a list \<Rightarrow> 'x + 'b list" where
  "map_res f [] = Inr []"
| "map_res f (x # xs) = and_then (f x) (\<lambda>y. and_then (map_res f xs) (\<lambda>ys. Inr (y # ys)))"

lemma map_res_cong [fundef_cong]:
  "xs = ys \<Longrightarrow> (\<And>x. x \<in> set ys \<Longrightarrow> f x = g x) \<Longrightarrow> map_res f xs = map_res g ys"
  by (induction ys arbitrary: xs) auto

lemma map_res_Inr_iff [res_simps]:
  "map_res f xs = Inr ys \<longleftrightarrow> list_all2 (\<lambda>x y. f x = Inr y) xs ys"
  by (induction xs arbitrary: ys) (auto simp: res_simps list_all2_Cons1)

lemma map_res_total: "(\<And>x. x \<in> set xs \<Longrightarrow> f x = Inr (g x)) \<Longrightarrow> map_res f xs = Inr (map g xs)"
  by (induction xs) simp_all

lemma map_res_source: "map_res f xs = Inr ys \<Longrightarrow> y \<in> set ys \<Longrightarrow> \<exists>x \<in> set xs. f x = Inr y"
  unfolding map_res_Inr_iff by (induction rule: list_all2_induct) auto

lemma map_res_map: "map_res f (map g xs) = map_res (f \<circ> g) xs"
  by (induction xs) simp_all

section \<open>Keyed tuples\<close>

text \<open>\<open>next((item for item in items if item.key == k), None)\<close>\<close>

definition find_by :: "('e \<Rightarrow> 'k) \<Rightarrow> 'k \<Rightarrow> 'e list \<Rightarrow> 'e option" where
  "find_by key k xs = find (\<lambda>x. key x = k) xs"

text \<open>\<open>tuple(new if item.key == new.key else item for item in items)\<close>\<close>

definition replace_by :: "('e \<Rightarrow> 'k) \<Rightarrow> 'e \<Rightarrow> 'e list \<Rightarrow> 'e list" where
  "replace_by key y xs = map (\<lambda>x. if key x = key y then y else x) xs"

lemma find_by_Nil [simp, code]: "find_by key k [] = None"
  by (simp add: find_by_def)

lemma find_by_Cons [simp, code]:
  "find_by key k (x # xs) = (if key x = k then Some x else find_by key k xs)"
  by (simp add: find_by_def)

lemma find_by_None_iff [keyed_simps]: "find_by key k xs = None \<longleftrightarrow> k \<notin> key ` set xs"
  by (induction xs) auto

lemma find_by_SomeD: "find_by key k xs = Some x \<Longrightarrow> x \<in> set xs \<and> key x = k"
  by (induction xs) (auto split: if_splits)

lemma find_by_append [keyed_simps]:
  "find_by key k (xs @ ys) = (case find_by key k xs of None \<Rightarrow> find_by key k ys | Some x \<Rightarrow> Some x)"
  by (induction xs) auto

lemma find_by_distinct:
  "distinct (map key xs) \<Longrightarrow> x \<in> set xs \<Longrightarrow> find_by key (key x) xs = Some x"
  by (induction xs) (auto simp: image_iff)

lemma find_by_Some_iff:
  "distinct (map key xs) \<Longrightarrow> find_by key k xs = Some x \<longleftrightarrow> x \<in> set xs \<and> key x = k"
  using find_by_SomeD find_by_distinct by metis

lemma replace_by_keys [simp]: "map key (replace_by key y xs) = map key xs"
  by (induction xs) (auto simp: replace_by_def)

lemma replace_by_Nil_iff [simp]: "replace_by key y xs = [] \<longleftrightarrow> xs = []" "[] = replace_by key y xs \<longleftrightarrow> xs = []"
  by (auto simp: replace_by_def)

lemma find_by_replace_by [keyed_simps]:
  "find_by key k (replace_by key y xs) =
     (if k = key y then map_option (\<lambda>_. y) (find_by key k xs) else find_by key k xs)"
  by (induction xs) (auto simp: replace_by_def)

lemma set_replace_by:
  "x \<in> set (replace_by key y xs) \<Longrightarrow> x = y \<or> (x \<in> set xs \<and> key x \<noteq> key y)"
  by (auto simp: replace_by_def split: if_splits)

lemma replace_by_mem:
  "x \<in> set xs \<Longrightarrow> key x \<noteq> key y \<Longrightarrow> x \<in> set (replace_by key y xs)"
  by (force simp: replace_by_def)

lemma replace_by_self: "x \<in> set xs \<Longrightarrow> key x = key y \<Longrightarrow> y \<in> set (replace_by key y xs)"
  by (force simp: replace_by_def)

lemma replace_by_map:
  assumes "distinct (map key xs)" and "x \<in> set xs" and "key x = key y" and "f x = f y"
  shows "map f (replace_by key y xs) = map f xs"
proof -
  have "f y = f z" if "z \<in> set xs" "key z = key y" for z
    using inj_onD [of key "set xs" z x] assms that by (simp add: distinct_map)
  then show ?thesis by (simp add: replace_by_def)
qed

lemma replace_by_image:
  "distinct (map key xs) \<Longrightarrow> x \<in> set xs \<Longrightarrow> key x = key y \<Longrightarrow> f x = f y \<Longrightarrow> f ` set (replace_by key y xs) = f ` set xs"
  using replace_by_map [of key xs x y f] by (metis list.set_map)

lemma insort_key_map: "insort_key f (g x) (map g xs) = map g (insort_key (\<lambda>x. f (g x)) x xs)"
  by (induction xs) auto

lemma sort_key_map: "sort_key f (map g xs) = map g (sort_key (\<lambda>x. f (g x)) xs)"
  by (induction xs) (simp_all add: insort_key_map)

lemma acyclic_disjoint_Un:
  assumes "acyclic A" and "acyclic B" and "Field A \<inter> Field B = {}"
  shows "acyclic (A \<union> B)"
proof -
  have stay: "(x \<in> Field A \<longrightarrow> (x, y) \<in> A\<^sup>+ \<and> y \<in> Field A) \<and> (x \<in> Field B \<longrightarrow> (x, y) \<in> B\<^sup>+ \<and> y \<in> Field B)"
    if "(x, y) \<in> (A \<union> B)\<^sup>+" for x y
    using that
  proof (induction rule: trancl_induct)
    case (base y)
    then show ?case using assms(3) by (auto intro: FieldI2 dest: FieldI1)
  next
    case (step y z)
    then have "(y, z) \<in> A \<and> y \<in> Field A \<and> z \<in> Field A \<or> (y, z) \<in> B \<and> y \<in> Field B \<and> z \<in> Field B"
      by (auto intro: FieldI1 FieldI2)
    then show ?case using step.IH assms(3) by (blast intro: trancl_into_trancl)
  qed
  have "(x, x) \<notin> (A \<union> B)\<^sup>+" for x
  proof
    assume cycle: "(x, x) \<in> (A \<union> B)\<^sup>+"
    then have "x \<in> Field (A \<union> B)" by (auto dest!: tranclD intro: FieldI1)
    then have "(x, x) \<in> A\<^sup>+ \<or> (x, x) \<in> B\<^sup>+" using stay [OF cycle] by (auto simp: Field_Un)
    then show False using assms(1,2) by (auto simp: acyclic_def)
  qed
  then show ?thesis by (simp add: acyclic_def)
qed

section \<open>Event-sourced machines\<close>

text \<open>
  What a client of an event stream relies on: a step function that accepts an event only when its
  sequence number is the successor of the state's, and then records that number. The clients are
  the replay of a mission's events and the head check of the command bus.
\<close>

locale event_machine =
  fixes step :: "'s \<Rightarrow> 'e \<Rightarrow> 'x + 's"
    and seq_of :: "'s \<Rightarrow> int"
    and event_seq :: "'e \<Rightarrow> int"
  assumes step_number: "step s e = Inr s' \<Longrightarrow> event_seq e = seq_of s + 1"
    and step_seq: "step s e = Inr s' \<Longrightarrow> seq_of s' = event_seq e"
begin

lemma step_next: "step s e = Inr s' \<Longrightarrow> seq_of s' = seq_of s + 1"
  using step_number step_seq by force

lemma run_seq: "fold_res step s es = Inr s' \<Longrightarrow> seq_of s' = seq_of s + int (length es)"
  by (induction es arbitrary: s) (auto simp: res_simps dest: step_next)

lemma run_numbers: "fold_res step s es = Inr s' \<Longrightarrow>
  map event_seq es = map (\<lambda>i. seq_of s + int i) [1..<Suc (length es)]"
proof (induction es arbitrary: s)
  case Nil
  then show ?case by simp
next
  case (Cons e es)
  then obtain t where t: "step s e = Inr t" "fold_res step t es = Inr s'"
    by (auto simp: res_simps)
  then have seqs: "event_seq e = seq_of s + 1" "seq_of t = seq_of s + 1"
    using step_number step_seq by force+
  have "map (\<lambda>i. seq_of s + int i) [1..<Suc (Suc (length es))]
      = (seq_of s + 1) # map (\<lambda>i. seq_of s + int i) [Suc 1..<Suc (Suc (length es))]"
    by (subst upt_conv_Cons) auto
  also have "map (\<lambda>i. seq_of s + int i) [Suc 1..<Suc (Suc (length es))]
      = map (\<lambda>i. seq_of t + int i) [1..<Suc (length es)]"
    using seqs by (simp add: map_Suc_upt [symmetric] o_def del: upt_Suc)
  finally show ?case using Cons.IH [OF t(2)] seqs by (simp del: upt_Suc)
qed

lemma run_split:
  assumes "fold_res step s (es @ fs) = Inr s'"
  obtains t where "fold_res step s es = Inr t" and "fold_res step t fs = Inr s'"
  using assms by (auto simp: fold_res_append res_simps)

lemma run_seq_mono: "fold_res step s es = Inr s' \<Longrightarrow> seq_of s \<le> seq_of s'"
  using run_seq by force

end

text \<open>The same with an invariant that every step keeps: every replay keeps it.\<close>

locale invariant_machine = event_machine step seq_of event_seq
  for step :: "'s \<Rightarrow> 'e \<Rightarrow> 'x + 's" and seq_of :: "'s \<Rightarrow> int" and event_seq :: "'e \<Rightarrow> int" +
  fixes inv :: "'s \<Rightarrow> bool"
  assumes inv_step: "inv s \<Longrightarrow> step s e = Inr s' \<Longrightarrow> inv s'"
begin

lemma run_inv: "inv s \<Longrightarrow> fold_res step s es = Inr s' \<Longrightarrow> inv s'"
  by (rule fold_res_inv [where P = inv and f = step and xs = es]) (auto intro: inv_step)

end

text \<open>A relation between the states before and after, reflexive and transitive, that every step
  satisfies: every replay satisfies it.\<close>

locale monotone_machine = invariant_machine step seq_of event_seq inv
  for step :: "'s \<Rightarrow> 'e \<Rightarrow> 'x + 's" and seq_of :: "'s \<Rightarrow> int" and event_seq :: "'e \<Rightarrow> int"
    and inv :: "'s \<Rightarrow> bool" +
  fixes evolves :: "'s \<Rightarrow> 's \<Rightarrow> bool"
  assumes evolves_refl: "evolves s s"
    and evolves_trans: "evolves s t \<Longrightarrow> evolves t u \<Longrightarrow> evolves s u"
    and evolves_step: "inv s \<Longrightarrow> step s e = Inr s' \<Longrightarrow> evolves s s'"
begin

lemma run_evolves: "inv s \<Longrightarrow> fold_res step s es = Inr s' \<Longrightarrow> evolves s s'"
proof (induction es arbitrary: s)
  case Nil
  then show ?case by (simp add: evolves_refl)
next
  case (Cons e es)
  then obtain t where t: "step s e = Inr t" "fold_res step t es = Inr s'"
    by (auto simp: res_simps)
  with Cons.prems have "evolves t s'" by (blast intro: Cons.IH inv_step)
  with t(1) Cons.prems show ?case by (blast intro: evolves_trans evolves_step)
qed

end

end
