(* ===== verification/PyValues.thy ===== *)
theory PyValues
  imports Prelude
begin

text \<open>
  The values the runtime computes with: JSON documents (command payloads, event payloads, the
  dictionaries of \<open>to_dict\<close>), Python exceptions, and the Python primitives the source applies to
  such values (\<open>dict.get\<close>, truthiness and \<open>or\<close>, \<open>str\<close>, \<open>int\<close>, \<open>isinstance\<close>, equality).

  A string is its UTF-8 byte sequence, so the byte order of \<open>sort_keys\<close> and of SQLite's
  \<open>ORDER BY\<close> is the order of the characters; \<open>str.strip\<close> removes the white space of Unicode.  JSON
  numbers are integers: every number the runtime itself reads or writes is one, and a payload with
  floating-point numbers is outside the model.  A dictionary is an association list in which the
  first entry of a key counts; key order is not observable in the program, and \<open>canon\<close> picks the
  representative with sorted, distinct keys.
\<close>

section \<open>JSON documents\<close>

datatype json =
    JNull
  | JBool bool
  | JInt int
  | JStr string
  | JList "json list"
  | JObj "(string \<times> json) list"

type_synonym dict = "(string \<times> json) list"

section \<open>Exceptions\<close>

text \<open>The package's own \<open>RuntimeError\<close> (durable_core/contracts.py) carries a code, a message and
  details; the other constructors are the built-in exceptions the modelled code can raise and the
  errors of the sqlite3 module (\<open>IntegrityErr\<close> and \<open>OperationalErr\<close> are subclasses of
  \<open>DatabaseErr\<close> there).\<close>

record rt_error =
  err_code :: string
  err_message :: string
  err_details :: dict

datatype exn =
    RuntimeErr rt_error
  | ValueErr string
  | TypeErr string
  | KeyErr string
  | OperationalErr string
  | IntegrityErr string
  | DatabaseErr string
  | OtherExn string

type_synonym 'a py = "exn + 'a"

abbreviation runtime_error_with :: "string \<Rightarrow> string \<Rightarrow> dict \<Rightarrow> exn + 'a" where
  "runtime_error_with code message details \<equiv>
     Inl (RuntimeErr \<lparr>err_code = code, err_message = message, err_details = details\<rparr>)"

abbreviation runtime_error :: "string \<Rightarrow> string \<Rightarrow> exn + 'a" where
  "runtime_error code message \<equiv> runtime_error_with code message []"

section \<open>Text\<close>

definition is_space :: "char \<Rightarrow> bool" where
  "is_space c = (let n = of_char c :: nat in (9 \<le> n \<and> n \<le> 13) \<or> (28 \<le> n \<and> n \<le> 32))"

text \<open>For evaluation, the tests on characters are read off their bits.\<close>

lemma is_space_code [code]:
  "is_space (Char b0 b1 b2 b3 b4 b5 b6 b7) \<longleftrightarrow>
     \<not> b7 \<and> \<not> b6 \<and> (if b5 then \<not> (b4 \<or> b3 \<or> b2 \<or> b1 \<or> b0) else b3 \<and> (if b4 then b2 else (b2 \<or> b1 \<or> b0) \<and> \<not> (b2 \<and> b1)))"
  by (cases b0; cases b1; cases b2; cases b3; cases b4; cases b5; cases b6; cases b7; simp add: is_space_def)

definition starts_with :: "string \<Rightarrow> string \<Rightarrow> bool" where
  "starts_with pre s = (take (length pre) s = pre)"

text \<open>White space as \<open>str.isspace\<close> has it.  Text is kept as its bytes in UTF-8, so the white space beyond ASCII
  (U+0085, U+00A0, U+1680, U+2000 to U+200A, U+2028, U+2029, U+202F, U+205F and U+3000) is two or three
  characters long.\<close>

definition wide_spaces :: "string list" where
  "wide_spaces =
     [[CHR 0xC2, CHR 0x85], [CHR 0xC2, CHR 0xA0], [CHR 0xE1, CHR 0x9A, CHR 0x80]] @
     map (\<lambda>c. [CHR 0xE2, CHR 0x80, c])
       [CHR 0x80, CHR 0x81, CHR 0x82, CHR 0x83, CHR 0x84, CHR 0x85, CHR 0x86, CHR 0x87, CHR 0x88, CHR 0x89, CHR 0x8A,
        CHR 0xA8, CHR 0xA9, CHR 0xAF] @
     [[CHR 0xE2, CHR 0x81, CHR 0x9F], [CHR 0xE3, CHR 0x80, CHR 0x80]]"

text \<open>Drop the white space at the front; \<open>wide\<close> lists the white space that is longer than one character.\<close>

fun skip_spaces :: "string list \<Rightarrow> string \<Rightarrow> string" where
  "skip_spaces wide [] = []"
| "skip_spaces wide (c # s) =
     (if is_space c then skip_spaces wide s
      else if digit7 c then
        (case find (\<lambda>w. starts_with w (c # s)) wide of
           None \<Rightarrow> c # s
         | Some w \<Rightarrow> skip_spaces wide (drop (length w - 1) s))
      else c # s)"

text \<open>\<open>value.strip()\<close>, and \<open>value.strip()\<close> as a condition: something is left.\<close>

definition strip :: "string \<Rightarrow> string" where
  "strip s = rev (skip_spaces (map rev wide_spaces) (rev (skip_spaces wide_spaces s)))"

definition nonblank :: "string \<Rightarrow> bool" where
  "nonblank s = (skip_spaces wide_spaces s \<noteq> [])"

lemma nonblank_nonempty: "nonblank s \<Longrightarrow> s \<noteq> []"
  by (auto simp: nonblank_def)

lemma nonblank_code [code]:
  "nonblank [] \<longleftrightarrow> False"
  "nonblank (c # s) \<longleftrightarrow>
     (if is_space c then nonblank s else if digit7 c then skip_spaces wide_spaces (c # s) \<noteq> [] else True)"
  by (simp_all add: nonblank_def)

definition digit_char :: "nat \<Rightarrow> char" where
  "digit_char n = char_of (48 + n)"

fun show_nat :: "nat \<Rightarrow> string" where
  "show_nat n = (if n < 10 then [digit_char n] else show_nat (n div 10) @ [digit_char (n mod 10)])"

declare show_nat.simps [simp del]

definition show_int :: "int \<Rightarrow> string" where
  "show_int i = (if i < 0 then CHR ''-'' # show_nat (nat (- i)) else show_nat (nat i))"

section \<open>Dictionaries\<close>

text \<open>\<open>d.get(k)\<close>, \<open>d.get(k, default)\<close> and \<open>d[k]\<close>.\<close>

definition dget :: "dict \<Rightarrow> string \<Rightarrow> json" where
  "dget d k = (case map_of d k of None \<Rightarrow> JNull | Some v \<Rightarrow> v)"

definition dget_default :: "dict \<Rightarrow> string \<Rightarrow> json \<Rightarrow> json" where
  "dget_default d k v = (case map_of d k of None \<Rightarrow> v | Some w \<Rightarrow> w)"

definition dindex :: "dict \<Rightarrow> string \<Rightarrow> json py" where
  "dindex d k = (case map_of d k of None \<Rightarrow> Inl (KeyErr k) | Some v \<Rightarrow> Inr v)"

definition dhas :: "dict \<Rightarrow> string \<Rightarrow> bool" where
  "dhas d k = (map_of d k \<noteq> None)"

lemma dget_Nil [simp]: "dget [] k = JNull"
  by (simp add: dget_def)

lemma dget_Cons [simp]: "dget ((k', v) # d) k = (if k = k' then v else dget d k)"
  by (auto simp: dget_def)

lemma dget_default_Nil [simp]: "dget_default [] k v = v"
  by (simp add: dget_default_def)

lemma dget_default_Cons [simp]:
  "dget_default ((k', v) # d) k w = (if k = k' then v else dget_default d k w)"
  by (auto simp: dget_default_def)

lemma dindex_Nil [simp]: "dindex [] k = Inl (KeyErr k)"
  by (simp add: dindex_def)

lemma dindex_Cons [simp]: "dindex ((k', v) # d) k = (if k = k' then Inr v else dindex d k)"
  by (auto simp: dindex_def)

lemma dhas_Nil [simp]: "dhas [] k = False"
  by (simp add: dhas_def)

lemma dhas_Cons [simp]: "dhas ((k', v) # d) k = (k = k' \<or> dhas d k)"
  by (auto simp: dhas_def)

lemma dindex_dget:
  "dindex d k = Inr v \<Longrightarrow> dget d k = v \<and> dget_default d k w = v \<and> dhas d k"
  by (auto simp: dindex_def dget_def dget_default_def dhas_def split: option.splits)

section \<open>Types and conversions\<close>

fun is_mapping :: "json \<Rightarrow> bool" where
  "is_mapping (JObj _) = True"
| "is_mapping _ = False"

fun is_list :: "json \<Rightarrow> bool" where
  "is_list (JList _) = True"
| "is_list _ = False"

fun is_str :: "json \<Rightarrow> bool" where
  "is_str (JStr _) = True"
| "is_str _ = False"

text \<open>\<open>isinstance(v, int)\<close>: Python's \<open>bool\<close> is a subclass of \<open>int\<close>.\<close>

fun is_int :: "json \<Rightarrow> bool" where
  "is_int (JInt _) = True"
| "is_int (JBool _) = True"
| "is_int _ = False"

fun is_bool :: "json \<Rightarrow> bool" where
  "is_bool (JBool _) = True"
| "is_bool _ = False"

fun truthy :: "json \<Rightarrow> bool" where
  "truthy JNull = False"
| "truthy (JBool b) = b"
| "truthy (JInt i) = (i \<noteq> 0)"
| "truthy (JStr s) = (s \<noteq> [])"
| "truthy (JList xs) = (xs \<noteq> [])"
| "truthy (JObj d) = (d \<noteq> [])"

definition py_or :: "json \<Rightarrow> json \<Rightarrow> json" where
  "py_or a b = (if truthy a then a else b)"

text \<open>\<open>dict(v)\<close>: a mapping is copied.  \<open>dict\<close> of a list of pairs would build a mapping in Python;
  no caller passes one, and the model raises the \<open>TypeError\<close> of every other argument.\<close>

fun dict_of :: "json \<Rightarrow> dict py" where
  "dict_of (JObj d) = Inr d"
| "dict_of _ = Inl (TypeErr ''object is not a mapping'')"

text \<open>\<open>repr\<close> of a string: single quotes unless the text holds a single quote and no double one.\<close>

definition hex_digit :: "nat \<Rightarrow> char" where
  "hex_digit n = (if n < 10 then char_of (48 + n) else char_of (87 + n))"

definition repr_char :: "char \<Rightarrow> char \<Rightarrow> string" where
  "repr_char q c =
     (let n = of_char c :: nat in
      if c = q \<or> c = CHR 0x5C then [CHR 0x5C, c]
      else if n = 10 then [CHR 0x5C, CHR ''n'']
      else if n = 13 then [CHR 0x5C, CHR ''r'']
      else if n = 9 then [CHR 0x5C, CHR ''t'']
      else if n < 32 \<or> n = 127 then [CHR 0x5C, CHR ''x'', hex_digit (n div 16), hex_digit (n mod 16)]
      else [c])"

definition repr_str :: "string \<Rightarrow> string" where
  "repr_str s =
     (let q = (if CHR 0x27 \<in> set s \<and> CHR 0x22 \<notin> set s then CHR 0x22 else CHR 0x27)
      in [q] @ concat (map (repr_char q) s) @ [q])"

definition comma_join :: "string list \<Rightarrow> string" where
  "comma_join xs = concat (case xs of [] \<Rightarrow> [] | y # ys \<Rightarrow> y # map (\<lambda>s. '', '' @ s) ys)"

fun py_repr :: "json \<Rightarrow> string" where
  "py_repr JNull = ''None''"
| "py_repr (JBool b) = (if b then ''True'' else ''False'')"
| "py_repr (JInt i) = show_int i"
| "py_repr (JStr s) = repr_str s"
| "py_repr (JList xs) = ''['' @ comma_join (map py_repr xs) @ '']''"
| "py_repr (JObj d) = ''{'' @ comma_join (map (\<lambda>(k, v). repr_str k @ '': '' @ py_repr v) d) @ ''}''"

text \<open>\<open>str(v)\<close>: the text itself for a string, \<open>repr\<close> for everything else.\<close>

fun py_str :: "json \<Rightarrow> string" where
  "py_str (JStr s) = s"
| "py_str v = py_repr v"

text \<open>\<open>int(v)\<close>.  A string is read as an optional sign and decimal digits between white space
  (underscores between digits are the one further form Python accepts; no identifier of the
  runtime has it).\<close>

definition is_digit :: "char \<Rightarrow> bool" where
  "is_digit c = (let n = of_char c :: nat in 48 \<le> n \<and> n \<le> 57)"

lemma is_digit_code [code]:
  "is_digit (Char b0 b1 b2 b3 b4 b5 b6 b7) \<longleftrightarrow> \<not> b7 \<and> \<not> b6 \<and> b5 \<and> b4 \<and> \<not> (b3 \<and> (b2 \<or> b1))"
  by (cases b0; cases b1; cases b2; cases b3; cases b4; cases b5; cases b6; cases b7; simp add: is_digit_def)

definition digit_val :: "char \<Rightarrow> nat" where
  "digit_val c = of_char c - 48"

definition digits_value :: "string \<Rightarrow> nat" where
  "digits_value s = foldl (\<lambda>n c. 10 * n + digit_val c) 0 s"

definition int_of_text :: "string \<Rightarrow> int py" where
  "int_of_text s =
     (let t = strip s;
          neg = (case t of c # _ \<Rightarrow> c = CHR ''-'' | [] \<Rightarrow> False);
          u = (case t of c # r \<Rightarrow> if c = CHR ''-'' \<or> c = CHR ''+'' then r else t | [] \<Rightarrow> [])
      in if u \<noteq> [] \<and> list_all is_digit u
         then Inr (if neg then - int (digits_value u) else int (digits_value u))
         else Inl (ValueErr (''invalid literal for int() with base 10: '' @ repr_str s)))"

fun py_int :: "json \<Rightarrow> int py" where
  "py_int (JInt i) = Inr i"
| "py_int (JBool b) = Inr (if b then 1 else 0)"
| "py_int (JStr s) = int_of_text s"
| "py_int _ = Inl (TypeErr ''int() argument must be a string or a number'')"

lemma py_int_reread:
  "dindex d k = Inr v \<Longrightarrow> py_int v = Inr n' \<Longrightarrow> py_int (dget_default d k w) = Inr n \<Longrightarrow> n' = n"
  using dindex_dget [of d k v w] by simp

text \<open>An optional string or number of a dataclass as a JSON value, and such a field read back: the
  dataclasses annotate it \<open>str | None\<close> or \<open>int | None\<close>, and a value of another type, which
  Python would store unchecked, raises here.\<close>

fun jopt :: "string option \<Rightarrow> json" where
  "jopt None = JNull"
| "jopt (Some s) = JStr s"

fun jopt_int :: "int option \<Rightarrow> json" where
  "jopt_int None = JNull"
| "jopt_int (Some i) = JInt i"

fun as_opt_str :: "json \<Rightarrow> string option py" where
  "as_opt_str JNull = Inr None"
| "as_opt_str (JStr s) = Inr (Some s)"
| "as_opt_str _ = Inl (TypeErr ''expected a string or None'')"

fun as_opt_int :: "json \<Rightarrow> int option py" where
  "as_opt_int JNull = Inr None"
| "as_opt_int (JInt i) = Inr (Some i)"
| "as_opt_int _ = Inl (TypeErr ''expected an integer or None'')"

lemma as_opt_str_jopt [simp]: "as_opt_str (jopt x) = Inr x"
  by (cases x) simp_all

lemma as_opt_int_jopt [simp]: "as_opt_int (jopt_int x) = Inr x"
  by (cases x) simp_all

text \<open>\<open>v.values()\<close> and the elements of a list.\<close>

fun dvalues :: "json \<Rightarrow> json list py" where
  "dvalues (JObj d) = Inr (map snd d)"
| "dvalues _ = Inl (TypeErr ''object has no attribute values'')"

fun elements :: "json \<Rightarrow> json list py" where
  "elements (JList xs) = Inr xs"
| "elements (JObj d) = Inr (map (\<lambda>p. JStr (fst p)) d)"
| "elements (JStr s) = Inr (map (\<lambda>c. JStr [c]) s)"
| "elements _ = Inl (TypeErr ''object is not iterable'')"

text \<open>\<open>v[k]\<close> and \<open>v.get(k)\<close> on a value that is expected to be a mapping.\<close>

fun as_dict :: "json \<Rightarrow> dict py" where
  "as_dict (JObj d) = Inr d"
| "as_dict _ = Inl (TypeErr ''indices must be a mapping'')"

text \<open>An \<open>Enum\<close> looked up by value.\<close>

definition enum_of :: "('a \<Rightarrow> string) \<Rightarrow> 'a list \<Rightarrow> string \<Rightarrow> 'a py" where
  "enum_of value members s =
     (case find_by value s members of
        None \<Rightarrow> Inl (ValueErr (repr_str s @ '' is not a valid member''))
      | Some m \<Rightarrow> Inr m)"

lemma enum_of_value:
  "distinct (map value members) \<Longrightarrow> m \<in> set members \<Longrightarrow> enum_of value members (value m) = Inr m"
  by (simp add: enum_of_def find_by_distinct)

lemma enum_of_Inr: "enum_of value members s = Inr m \<Longrightarrow> m \<in> set members \<and> value m = s"
  by (auto simp: enum_of_def dest: find_by_SomeD split: option.splits)

section \<open>Key order and equality\<close>

text \<open>The value that \<open>canonical_json\<close> prints: \<open>_plain\<close> rebuilds every dictionary, and the \<open>sort_keys\<close> of
  \<open>json.dumps\<close> orders its keys.  It is the canonical representative: keys distinct and sorted at every level.\<close>

fun canon :: "json \<Rightarrow> json" where
  "canon (JList xs) = JList (map canon xs)"
| "canon (JObj d) = JObj (sort_key fst (AList.clearjunk (map (\<lambda>(k, v). (k, canon v)) d)))"
| "canon v = v"

definition canon_dict :: "dict \<Rightarrow> dict" where
  "canon_dict d = sort_key fst (AList.clearjunk (map (\<lambda>(k, v). (k, canon v)) d))"

lemma canon_JObj: "canon (JObj d) = JObj (canon_dict d)"
  by (simp add: canon_dict_def)

text \<open>Python's \<open>==\<close> on such values: dictionaries are compared without regard to key order, and
  \<open>True\<close> and \<open>False\<close> equal 1 and 0.\<close>

fun unbool :: "json \<Rightarrow> json" where
  "unbool (JBool b) = JInt (if b then 1 else 0)"
| "unbool (JList xs) = JList (map unbool xs)"
| "unbool (JObj d) = JObj (map (\<lambda>(k, v). (k, unbool v)) d)"
| "unbool v = v"

definition py_eq :: "json \<Rightarrow> json \<Rightarrow> bool" where
  "py_eq a b = (canon (unbool a) = canon (unbool b))"

end
