(* ===== verification/CanonicalJson.thy ===== *)
theory CanonicalJson
  imports PyValues
begin

text \<open>
  durable_core/canonical.py: the canonical text of a value (\<open>json.dumps\<close> with sorted keys, compact
  separators and unescaped non-ASCII text), its SHA-256 and the reading of such a text back
  (\<open>json.loads\<close>).  SHA-256 is the parameter \<open>sha\<close>, a function from texts to texts: the results
  that need it to tell two texts apart say which.

  Main results: reading the canonical text of a value gives the value's canonical representative
  (\<open>json_loads_canonical\<close>), hence two values have the same canonical text exactly when they have
  the same representative (\<open>canonical_json_eq_iff\<close>).
\<close>

section \<open>Canonical representatives\<close>

lemma clearjunk_map_snd:
  "AList.clearjunk (map (\<lambda>(k, v). (k, f v)) d) = map (\<lambda>(k, v). (k, f v)) (AList.clearjunk d)"
proof (induction d rule: AList.clearjunk.induct)
  case 1
  then show ?case by simp
next
  case (2 p ps)
  have "AList.delete (fst p) (map (\<lambda>(k, v). (k, f v)) ps) = map (\<lambda>(k, v). (k, f v)) (AList.delete (fst p) ps)"
    by (induction ps) (auto simp: AList.delete_eq)
  with 2 show ?case by (cases p) (simp only: list.map prod.case AList.clearjunk.simps fst_conv)
qed

lemma insort_key_map_snd:
  "insort_key fst (k, f v) (map (\<lambda>(k, v). (k, f v)) d) = map (\<lambda>(k, v). (k, f v)) (insort_key fst (k, v) d)"
  by (induction d) auto

lemma sort_key_map_snd:
  "sort_key fst (map (\<lambda>(k, v). (k, f v)) d) = map (\<lambda>(k, v). (k, f v)) (sort_key fst d)"
  by (induction d) (auto simp: insort_key_map_snd)

lemma map_of_sort_key:
  assumes "distinct (map fst d)"
  shows "map_of (sort_key fst d) = map_of d"
proof -
  have "distinct (map fst (sort_key fst d))"
    using assms by (simp add: distinct_map)
  then show ?thesis using assms by (intro map_of_inject_set [THEN iffD2]) auto
qed

lemma map_of_canon_dict: "map_of (canon_dict d) = map_option canon \<circ> map_of d"
proof -
  have "map_of (canon_dict d) = map_of (AList.clearjunk (map (\<lambda>(k, v). (k, canon v)) d))"
    unfolding canon_dict_def by (rule map_of_sort_key) (rule AList.distinct_clearjunk)
  also have "\<dots> = map_option canon \<circ> map_of d"
    by (simp add: AList.map_of_clearjunk map_of_map)
  finally show ?thesis .
qed

lemma dget_canon_dict: "dget (canon_dict d) k = canon (dget d k)"
  by (auto simp: dget_def map_of_canon_dict split: option.splits)

lemma canon_dict_distinct: "distinct (map fst (canon_dict d))"
  using AList.distinct_clearjunk [of "map (\<lambda>(k, v). (k, canon v)) d"]
  by (simp add: canon_dict_def distinct_map)

lemma canon_dict_sorted: "sorted (map fst (canon_dict d))"
  by (simp add: canon_dict_def)

lemma clearjunk_mem: "p \<in> set (AList.clearjunk d) \<Longrightarrow> p \<in> set d"
proof (induction d rule: AList.clearjunk.induct)
  case (2 q ps)
  then show ?case by (auto simp: AList.delete_eq)
qed simp

lemma canon_dict_in_image: "p \<in> set (canon_dict d) \<Longrightarrow> snd p \<in> canon ` snd ` set d"
proof -
  assume "p \<in> set (canon_dict d)"
  then have "p \<in> set (AList.clearjunk (map (\<lambda>(k, v). (k, canon v)) d))"
    by (simp add: canon_dict_def)
  then have "p \<in> set (map (\<lambda>(k, v). (k, canon v)) d)" by (rule clearjunk_mem)
  then show ?thesis by force
qed

lemma canon_dict_unchanged:
  assumes "\<And>p. p \<in> set d \<Longrightarrow> canon (snd p) = snd p"
    and "distinct (map fst d)" and "sorted (map fst d)"
  shows "canon_dict d = d"
proof -
  have "map (\<lambda>(k, v). (k, canon v)) d = d"
    by (rule map_idI) (use assms(1) in force)
  then show ?thesis
    using assms(2,3) by (simp add: canon_dict_def AList.distinct_clearjunk_id sorted_sort_id sort_key_id_if_sorted)
qed

lemma canon_canon [simp]: "canon (canon v) = canon v"
proof (induction v)
  case (JList xs)
  then show ?case by simp
next
  case (JObj d)
  have "canon_dict (canon_dict d) = canon_dict d"
  proof (rule canon_dict_unchanged)
    fix p assume "p \<in> set (canon_dict d)"
    then obtain q where "q \<in> set d" "snd p = canon (snd q)"
      using canon_dict_in_image by fastforce
    moreover have "canon (canon (snd q)) = canon (snd q)"
      using JObj [of q "snd q"] \<open>q \<in> set d\<close> by (cases q) simp
    ultimately show "canon (snd p) = snd p" by simp
  qed (simp_all add: canon_dict_distinct canon_dict_sorted)
  then show ?case by (simp only: canon_JObj)
qed simp_all

lemma canon_dict_idem [simp]: "canon_dict (canon_dict d) = canon_dict d"
  using canon_canon [of "JObj d"] by (simp only: canon_JObj json.inject)

text \<open>The representative depends on the dictionary as a map only.\<close>

lemma canon_dict_eqI:
  assumes "map_option canon \<circ> map_of d = map_option canon \<circ> map_of d'"
  shows "canon_dict d = canon_dict d'"
proof -
  have "map_of (canon_dict d) = map_of (canon_dict d')"
    using assms by (simp add: map_of_canon_dict)
  then have same: "set (canon_dict d) = set (canon_dict d')"
    using map_of_inject_set canon_dict_distinct by blast
  show ?thesis
  proof (rule map_sorted_distinct_set_unique [where f = fst, OF _ _ _ _ _ same])
    show "inj_on fst (set (canon_dict d) \<union> set (canon_dict d'))"
      using canon_dict_distinct same by (metis Un_absorb distinct_map)
  qed (simp_all only: canon_dict_distinct canon_dict_sorted)
qed

lemma canon_dict_eq_iff: "canon_dict d = canon_dict d' \<longleftrightarrow> map_option canon \<circ> map_of d = map_option canon \<circ> map_of d'"
  using canon_dict_eqI map_of_canon_dict by metis

lemma py_eq_refl [simp]: "py_eq v v"
  by (simp add: py_eq_def)

lemma py_eq_JStr: "py_eq v (JStr s) \<Longrightarrow> v = JStr s"
  by (cases v) (auto simp: py_eq_def)

lemma py_eq_str: "py_eq v (JStr s) \<longleftrightarrow> v = JStr s" "py_eq (JStr s) v \<longleftrightarrow> v = JStr s"
  using py_eq_JStr [of v s] by (auto simp: py_eq_def)

lemma py_eq_JNull: "py_eq v JNull \<Longrightarrow> v = JNull"
  by (cases v) (auto simp: py_eq_def)

lemma unbool_canon: "unbool (canon v) = canon (unbool v)"
proof (induction v)
  case (JObj d)
  have eq: "map (\<lambda>x. (fst x, unbool (canon (snd x)))) d = map (\<lambda>x. (fst x, canon (unbool (snd x)))) d"
    using JObj by (intro map_cong) auto
  have "AList.clearjunk (map (\<lambda>x. (fst x, unbool (canon (snd x)))) d) =
      map (\<lambda>x. (fst x, unbool (snd x))) (AList.clearjunk (map (\<lambda>x. (fst x, canon (snd x))) d))"
    using clearjunk_map_snd [of unbool "map (\<lambda>x. (fst x, canon (snd x))) d"] by (simp add: o_def split_def)
  from this [unfolded eq] show ?case using sort_key_map_snd [of unbool "AList.clearjunk (map (\<lambda>x. (fst x, canon (snd x))) d)"]
    by (simp add: canon_dict_def o_def split_def)
qed simp_all

lemma py_eq_canon: "py_eq (canon v) v"
  by (simp add: py_eq_def unbool_canon)

section \<open>Rendering\<close>

text \<open>\<open>json.dumps(..., ensure_ascii=False, separators=(",", ":"))\<close>\<close>

definition esc_char :: "char \<Rightarrow> string" where
  "esc_char c =
     (let n = of_char c :: nat in
      if n = 34 then [CHR 0x5C, CHR 0x22]
      else if n = 92 then [CHR 0x5C, CHR 0x5C]
      else if n = 10 then [CHR 0x5C, CHR ''n'']
      else if n = 13 then [CHR 0x5C, CHR ''r'']
      else if n = 9 then [CHR 0x5C, CHR ''t'']
      else if n = 12 then [CHR 0x5C, CHR ''f'']
      else if n = 8 then [CHR 0x5C, CHR ''b'']
      else if n < 32 then [CHR 0x5C, CHR ''u'', CHR ''0'', CHR ''0'', hex_digit (n div 16), hex_digit (n mod 16)]
      else [c])"

lemma esc_char_code [code]:
  "esc_char (Char b0 b1 b2 b3 b4 b5 b6 b7) =
     (let c = Char b0 b1 b2 b3 b4 b5 b6 b7 in
      if b7 \<or> b6 \<or> b5 then if c = CHR 0x22 \<or> c = CHR 0x5C then [CHR 0x5C, c] else [c]
      else let n = of_char c :: nat in
        if n = 10 then [CHR 0x5C, CHR ''n'']
        else if n = 13 then [CHR 0x5C, CHR ''r'']
        else if n = 9 then [CHR 0x5C, CHR ''t'']
        else if n = 12 then [CHR 0x5C, CHR ''f'']
        else if n = 8 then [CHR 0x5C, CHR ''b'']
        else [CHR 0x5C, CHR ''u'', CHR ''0'', CHR ''0'', hex_digit (n div 16), hex_digit (n mod 16)])"
  by (cases b0; cases b1; cases b2; cases b3; cases b4; cases b5; cases b6; cases b7; simp add: esc_char_def Let_def)

definition quote :: "string \<Rightarrow> string" where
  "quote s = CHR 0x22 # concat (map esc_char s) @ [CHR 0x22]"

fun join_comma :: "string list \<Rightarrow> string" where
  "join_comma [] = []"
| "join_comma [x] = x"
| "join_comma (x # y # ys) = x @ CHR '','' # join_comma (y # ys)"

fun render :: "json \<Rightarrow> string" where
  "render JNull = ''null''"
| "render (JBool b) = (if b then ''true'' else ''false'')"
| "render (JInt i) = show_int i"
| "render (JStr s) = quote s"
| "render (JList xs) = CHR ''['' # join_comma (map render xs) @ '']''"
| "render (JObj d) = CHR ''{'' # join_comma (map (\<lambda>(k, v). quote k @ CHR '':'' # render v) d) @ ''}''"

definition canonical_json :: "json \<Rightarrow> string" where
  "canonical_json v = render (canon v)"

definition canonical_sha256 :: "(string \<Rightarrow> string) \<Rightarrow> json \<Rightarrow> string" where
  "canonical_sha256 sha v = sha (canonical_json v)"

section \<open>Reading\<close>

definition hex_val :: "char \<Rightarrow> nat option" where
  "hex_val c =
     (let n = of_char c :: nat in
      if 48 \<le> n \<and> n \<le> 57 then Some (n - 48)
      else if 97 \<le> n \<and> n \<le> 102 then Some (n - 87)
      else if 65 \<le> n \<and> n \<le> 70 then Some (n - 55)
      else None)"

definition unescape :: "char \<Rightarrow> char option" where
  "unescape c =
     (if c = CHR 0x22 \<or> c = CHR 0x5C \<or> c = CHR ''/'' then Some c
      else if c = CHR ''n'' then Some (CHR 0x0A)
      else if c = CHR ''r'' then Some (CHR 0x0D)
      else if c = CHR ''t'' then Some (CHR 0x09)
      else if c = CHR ''f'' then Some (CHR 0x0C)
      else if c = CHR ''b'' then Some (CHR 0x08)
      else None)"

text \<open>The rest of a string literal after its opening quote.  Of the hexadecimal (letter u) escapes the reader
  accepts the ones for single bytes below 128, which covers what \<open>json.dumps\<close> writes.\<close>

fun read_chars :: "string \<Rightarrow> (string \<times> string) option" where
  "read_chars [] = None"
| "read_chars (c # r) =
     (if c = CHR 0x22 then Some ([], r)
      else if c = CHR 0x5C then
        (case r of
           [] \<Rightarrow> None
         | e # r1 \<Rightarrow>
             if e = CHR ''u'' then
               (case r1 of
                  a # b # h # l # r2 \<Rightarrow>
                    (case (hex_val h, hex_val l) of
                       (Some x, Some y) \<Rightarrow>
                         if a = CHR ''0'' \<and> b = CHR ''0'' \<and> x < 8
                         then map_option (\<lambda>(t, r3). (char_of (16 * x + y) # t, r3)) (read_chars r2)
                         else None
                     | _ \<Rightarrow> None)
                | _ \<Rightarrow> None)
             else
               (case unescape e of
                  None \<Rightarrow> None
                | Some d \<Rightarrow> map_option (\<lambda>(t, r3). (d # t, r3)) (read_chars r1)))
      else map_option (\<lambda>(t, r3). (c # t, r3)) (read_chars r))"

definition read_number :: "string \<Rightarrow> (json \<times> string) option" where
  "read_number s =
     (let neg = (case s of c # _ \<Rightarrow> c = CHR ''-'' | [] \<Rightarrow> False);
          u = (if neg then tl s else s);
          ds = takeWhile is_digit u;
          r = dropWhile is_digit u
      in if ds = [] \<or> (case r of c # _ \<Rightarrow> c = CHR ''.'' \<or> c = CHR ''e'' \<or> c = CHR ''E'' | [] \<Rightarrow> False)
         then None
         else Some (JInt (if neg then - int (digits_value ds) else int (digits_value ds)), r))"

definition read_word :: "string \<Rightarrow> (json \<times> string) option" where
  "read_word s =
     (if starts_with ''null'' s then Some (JNull, drop 4 s)
      else if starts_with ''true'' s then Some (JBool True, drop 4 s)
      else if starts_with ''false'' s then Some (JBool False, drop 5 s)
      else read_number s)"

text \<open>A later entry of an object replaces an earlier one with the same key, as in Python.\<close>

definition dict_of_pairs :: "(string \<times> json) list \<Rightarrow> dict" where
  "dict_of_pairs ps = fold (\<lambda>(k, v) d. AList.update k v d) ps []"

fun parse_value :: "nat \<Rightarrow> string \<Rightarrow> (json \<times> string) option"
and read_elems :: "nat \<Rightarrow> string \<Rightarrow> (json list \<times> string) option"
and read_members :: "nat \<Rightarrow> string \<Rightarrow> ((string \<times> json) list \<times> string) option" where
  "parse_value 0 s = None"
| "parse_value (Suc n) s =
     (case s of
        [] \<Rightarrow> None
      | c # r \<Rightarrow>
          if c = CHR 0x22 then map_option (\<lambda>(t, r1). (JStr t, r1)) (read_chars r)
          else if c = CHR ''['' then
            (case r of
               [] \<Rightarrow> None
             | d # r1 \<Rightarrow> if d = CHR '']'' then Some (JList [], r1)
                          else map_option (\<lambda>(xs, r2). (JList xs, r2)) (read_elems n r))
          else if c = CHR ''{'' then
            (case r of
               [] \<Rightarrow> None
             | d # r1 \<Rightarrow> if d = CHR ''}'' then Some (JObj [], r1)
                          else map_option (\<lambda>(ps, r2). (JObj (dict_of_pairs ps), r2)) (read_members n r))
          else read_word s)"
| "read_elems 0 s = None"
| "read_elems (Suc n) s =
     (case parse_value n s of
        None \<Rightarrow> None
      | Some (v, r) \<Rightarrow>
          (case r of
             [] \<Rightarrow> None
           | d # r1 \<Rightarrow> if d = CHR '']'' then Some ([v], r1)
                        else if d = CHR '','' then map_option (\<lambda>(vs, r2). (v # vs, r2)) (read_elems n r1)
                        else None))"
| "read_members 0 s = None"
| "read_members (Suc n) s =
     (case s of
        [] \<Rightarrow> None
      | c # r \<Rightarrow>
          if c \<noteq> CHR 0x22 then None
          else (case read_chars r of
                  None \<Rightarrow> None
                | Some (k, r0) \<Rightarrow>
                    (case r0 of
                       [] \<Rightarrow> None
                     | e # r1 \<Rightarrow>
                         if e \<noteq> CHR '':'' then None
                         else (case parse_value n r1 of
                                 None \<Rightarrow> None
                               | Some (v, r2) \<Rightarrow>
                                   (case r2 of
                                      [] \<Rightarrow> None
                                    | d # r3 \<Rightarrow> if d = CHR ''}'' then Some ([(k, v)], r3)
                                                 else if d = CHR '','' then map_option (\<lambda>(ps, r4). ((k, v) # ps, r4)) (read_members n r3)
                                                 else None)))))"

definition json_loads :: "string \<Rightarrow> json py" where
  "json_loads s =
     (case parse_value (Suc (length s)) s of
        Some (v, []) \<Rightarrow> Inr v
      | _ \<Rightarrow> Inl (ValueErr ''invalid JSON document''))"

section \<open>Reading what was rendered\<close>

lemma of_char_eqI: "(of_char c :: nat) = of_char d \<Longrightarrow> c = d"
  by simp

lemma hex_val_hex_digit: "d < 16 \<Longrightarrow> hex_val (hex_digit d) = Some d"
  by (simp add: hex_val_def hex_digit_def)

lemma read_chars_esc: "read_chars (esc_char c @ r) = map_option (\<lambda>(t, r'). (c # t, r')) (read_chars r)"
proof -
  define n where "n = (of_char c :: nat)"
  then have c: "char_of n = c" by simp
  have "n \<in> {34, 92, 10, 13, 9, 12, 8} \<Longrightarrow>
      c \<in> {CHR 0x22, CHR 0x5C, CHR 0x0A, CHR 0x0D, CHR 0x09, CHR 0x0C, CHR 0x08}"
    by (elim insertE emptyE) (auto simp: n_def intro: of_char_eqI)
  then have "n \<in> {34, 92, 10, 13, 9, 12, 8} \<Longrightarrow> ?thesis"
    by (auto simp: esc_char_def unescape_def)
  moreover have "n < 32 \<Longrightarrow> n \<notin> {34, 92, 10, 13, 9, 12, 8} \<Longrightarrow> ?thesis"
    using c by (simp add: esc_char_def hex_val_hex_digit flip: n_def) auto
  moreover have "32 \<le> n \<Longrightarrow> n \<notin> {34, 92, 10, 13, 9, 12, 8} \<Longrightarrow> ?thesis"
    using n_def by (auto simp: esc_char_def)
  ultimately show ?thesis by (cases "n < 32") (auto simp: not_less)
qed

lemma read_chars_quoted: "read_chars (concat (map esc_char s) @ CHR 0x22 # r) = Some (s, r)"
  by (induction s) (simp_all add: read_chars_esc)

declare read_chars.simps(2) [simp del]

subsection \<open>Numbers\<close>

lemma digit_char_props:
  "n < 10 \<Longrightarrow> is_digit (digit_char n) \<and> digit_val (digit_char n) = n"
  by (simp add: is_digit_def digit_char_def digit_val_def)

lemma show_nat_digits: "show_nat n \<noteq> [] \<and> list_all is_digit (show_nat n)"
proof (induction n rule: show_nat.induct)
  case (1 n)
  then show ?case
    by (cases "n < 10") (simp_all add: show_nat.simps [of n] digit_char_props)
qed

lemma digits_value_snoc: "digits_value (s @ [c]) = 10 * digits_value s + digit_val c"
  by (simp add: digits_value_def)

lemma digits_value_show_nat: "digits_value (show_nat n) = n"
proof (induction n rule: show_nat.induct)
  case (1 n)
  show ?case
  proof (cases "n < 10")
    case True
    then show ?thesis
      by (simp add: show_nat.simps [of n] digits_value_def digit_char_props)
  next
    case False
    with 1 show ?thesis
      by (simp add: show_nat.simps [of n] digits_value_snoc digit_char_props)
  qed
qed

text \<open>What may follow a value in a rendered document.\<close>

definition ends_value :: "string \<Rightarrow> bool" where
  "ends_value r = (case r of [] \<Rightarrow> True | c # _ \<Rightarrow> c = CHR '','' \<or> c = CHR '']'' \<or> c = CHR ''}'')"

lemma ends_value_simps [simp]:
  "ends_value []" "ends_value (CHR '','' # r)" "ends_value (CHR '']'' # r)" "ends_value (CHR ''}'' # r)"
  by (simp_all add: ends_value_def)

lemma ends_value_span:
  assumes "list_all is_digit ds" and "ends_value r"
  shows "takeWhile is_digit (ds @ r) = ds" and "dropWhile is_digit (ds @ r) = r"
proof -
  have "takeWhile is_digit r = [] \<and> dropWhile is_digit r = r"
    using assms(2) by (cases r) (auto simp: ends_value_def is_digit_def)
  moreover have "\<And>c. c \<in> set ds \<Longrightarrow> is_digit c" using assms(1) by (simp add: list_all_iff)
  ultimately show "takeWhile is_digit (ds @ r) = ds" "dropWhile is_digit (ds @ r) = r"
    by (simp_all add: takeWhile_append2 dropWhile_append2)
qed

lemma minus_not_digit [simp]: "\<not> is_digit (CHR ''-'')"
  by (simp add: is_digit_def)

lemma read_number_show_int:
  assumes "ends_value r"
  shows "read_number (show_int i @ r) = Some (JInt i, r)"
proof -
  have no_frac: "\<not> (case r of c # _ \<Rightarrow> c = CHR ''.'' \<or> c = CHR ''e'' \<or> c = CHR ''E'' | [] \<Rightarrow> False)"
    using assms by (auto simp: ends_value_def split: list.splits)
  have digs: "show_nat n \<noteq> []" "list_all is_digit (show_nat n)" for n
    using show_nat_digits by blast+
  show ?thesis
  proof (cases "i < 0")
    case True
    then show ?thesis using no_frac digs
      by (simp add: read_number_def show_int_def ends_value_span [OF _ assms] digits_value_show_nat)
  next
    case False
    obtain c s where cs: "show_nat (nat i) = c # s" and "is_digit c"
      using digs [of "nat i"] by (cases "show_nat (nat i)") auto
    then have "c \<noteq> CHR ''-''" by auto
    with False cs no_frac digs [of "nat i"] show ?thesis
      using ends_value_span [OF digs(2) assms, of "nat i"] digits_value_show_nat [of "nat i"]
      by (simp add: read_number_def show_int_def)
  qed
qed

lemma read_value_show_int:
  assumes "ends_value r"
  shows "parse_value (Suc n) (show_int i @ r) = Some (JInt i, r)"
proof -
  obtain c s where cs: "show_int i @ r = c # s" and c: "c = CHR ''-'' \<or> is_digit c"
    using show_nat_digits [of "nat i"] show_nat_digits [of "nat (- i)"]
    by (cases "i < 0"; cases "show_nat (nat i)") (auto simp: show_int_def)
  then have "c \<noteq> CHR 0x22" "c \<noteq> CHR ''[''" "c \<noteq> CHR ''{''" "c \<noteq> CHR ''n''" "c \<noteq> CHR ''t''" "c \<noteq> CHR ''f''"
    by (auto simp: is_digit_def)
  then have "parse_value (Suc n) (c # s) = read_number (c # s)"
    by (simp add: read_word_def starts_with_def)
  with read_number_show_int [OF assms] cs show ?thesis by metis
qed

subsection \<open>Documents\<close>

text \<open>Objects have distinct keys at every level.\<close>

fun keys_ok :: "json \<Rightarrow> bool" where
  "keys_ok (JList xs) = list_all keys_ok xs"
| "keys_ok (JObj d) = (distinct (map fst d) \<and> list_all (\<lambda>(k, v). keys_ok v) d)"
| "keys_ok _ = True"

lemma keys_ok_canon: "keys_ok (canon v)"
proof (induction v)
  case (JList xs)
  then show ?case by (simp add: list_all_iff)
next
  case (JObj d)
  have "keys_ok (snd p)" if p: "p \<in> set (canon_dict d)" for p
  proof -
    obtain q where "q \<in> set d" "snd p = canon (snd q)"
      using canon_dict_in_image [OF p] by auto
    moreover have "keys_ok (canon (snd q))"
      using JObj [of q "snd q"] \<open>q \<in> set d\<close> by (cases q) simp
    ultimately show ?thesis by simp
  qed
  then show ?case
    by (simp only: canon_JObj keys_ok.simps) (auto simp: canon_dict_distinct list_all_iff)
qed simp_all

lemma update_fresh: "k \<notin> fst ` set d \<Longrightarrow> AList.update k v d = d @ [(k, v)]"
  by (induction d) auto

lemma dict_of_pairs_distinct:
  assumes "distinct (map fst ps)"
  shows "dict_of_pairs ps = ps"
proof -
  have "fold (\<lambda>(k, v) d. AList.update k v d) ps d = d @ ps"
    if "distinct (map fst (d @ ps))" for d
    using that by (induction ps arbitrary: d) (auto simp: update_fresh)
  with assms show ?thesis by (simp add: dict_of_pairs_def)
qed

lemma render_start: "\<exists>c s. render v = c # s \<and> c \<noteq> CHR '']''"
proof (cases v)
  case (JInt i)
  obtain a s where "show_nat (nat i) = a # s" "is_digit a"
    using show_nat_digits [of "nat i"] by (cases "show_nat (nat i)") auto
  moreover from this have "a \<noteq> CHR '']''" by (auto simp: is_digit_def)
  ultimately show ?thesis using JInt by (simp add: show_int_def)
qed (simp_all add: quote_def)

text \<open>The reader inverts the printer on one value, in any context that ends the value, given
  one unit of fuel more than the value's text has characters.\<close>

definition reads_back :: "json \<Rightarrow> bool" where
  "reads_back v \<longleftrightarrow> (\<forall>n r. length (render v) < n \<longrightarrow> ends_value r \<longrightarrow> parse_value n (render v @ r) = Some (v, r))"

lemma reads_backD:
  "reads_back v \<Longrightarrow> length (render v) < n \<Longrightarrow> ends_value r \<Longrightarrow> parse_value n (render v @ r) = Some (v, r)"
  by (simp add: reads_back_def)

lemma read_elems_render:
  assumes "\<And>x. x \<in> set xs \<Longrightarrow> reads_back x" and "xs \<noteq> []"
    and "length (join_comma (map render xs)) + 1 < n"
  shows "read_elems n (join_comma (map render xs) @ CHR '']'' # r) = Some (xs, r)"
  using assms
proof (induction xs arbitrary: n)
  case Nil
  then show ?case by simp
next
  case (Cons x xs)
  then obtain m where n: "n = Suc m" by (cases n) auto
  show ?case
  proof (cases xs)
    case Nil
    with Cons.prems n have "parse_value m (render x @ CHR '']'' # r) = Some (x, CHR '']'' # r)"
      by (intro reads_backD) auto
    then show ?thesis by (simp add: Nil n)
  next
    case (Cons y ys)
    let ?rest = "join_comma (map render xs) @ CHR '']'' # r"
    have len: "length (render x) < m" "length (join_comma (map render xs)) + 1 < m"
      using Cons.prems(3) n Cons by simp_all
    have "parse_value m (render x @ CHR '','' # ?rest) = Some (x, CHR '','' # ?rest)"
      using Cons.prems(1) len by (intro reads_backD) auto
    moreover have "read_elems m ?rest = Some (xs, r)"
      using Cons.prems(1) len Cons by (intro Cons.IH) auto
    ultimately show ?thesis by (simp add: Cons n)
  qed
qed

abbreviation render_entry :: "string \<times> json \<Rightarrow> string" where
  "render_entry \<equiv> \<lambda>(k, v). quote k @ CHR '':'' # render v"

lemma read_members_render:
  assumes "\<And>p. p \<in> set d \<Longrightarrow> reads_back (snd p)" and "d \<noteq> []"
    and "length (join_comma (map render_entry d)) + 1 < n"
  shows "read_members n (join_comma (map render_entry d) @ CHR ''}'' # r) = Some (d, r)"
  using assms
proof (induction d arbitrary: n)
  case Nil
  then show ?case by simp
next
  case (Cons p d)
  obtain k v where p: "p = (k, v)" by (cases p)
  from Cons obtain m where n: "n = Suc m" by (cases n) auto
  have key: "read_members (Suc m) (render_entry p @ t) =
      (case parse_value m (render v @ t) of
         None \<Rightarrow> None
       | Some (w, r2) \<Rightarrow>
           (case r2 of
              [] \<Rightarrow> None
            | c # r3 \<Rightarrow> if c = CHR ''}'' then Some ([(k, w)], r3)
                         else if c = CHR '','' then map_option (\<lambda>(ps, r4). ((k, w) # ps, r4)) (read_members m r3)
                         else None))" for t
    using read_chars_quoted [of k "CHR '':'' # render v @ t"] by (simp add: p quote_def)
  show ?case
  proof (cases d)
    case Nil
    with Cons.prems n p have "parse_value m (render v @ CHR ''}'' # r) = Some (v, CHR ''}'' # r)"
      by (intro reads_backD) auto
    with key [of "CHR ''}'' # r"] show ?thesis by (simp add: Nil n p)
  next
    case (Cons q ds)
    let ?rest = "join_comma (map render_entry d) @ CHR ''}'' # r"
    have len: "length (render v) < m" "length (join_comma (map render_entry d)) + 1 < m"
      using Cons.prems(3) n Cons p by simp_all
    have "parse_value m (render v @ CHR '','' # ?rest) = Some (v, CHR '','' # ?rest)"
      using Cons.prems(1) [of p] len p by (intro reads_backD) auto
    moreover have "read_members m ?rest = Some (d, r)"
      using Cons.prems(1) len Cons by (intro Cons.IH) auto
    ultimately show ?thesis using key [of "CHR '','' # ?rest"] by (simp add: Cons n p)
  qed
qed

lemma reads_back_keys_ok: "keys_ok v \<Longrightarrow> reads_back v"
proof (induction v)
  case (JList xs)
  then have elems: "\<And>x. x \<in> set xs \<Longrightarrow> reads_back x" by (auto simp: list_all_iff)
  show ?case unfolding reads_back_def
  proof (intro allI impI)
    fix n r assume n: "length (render (JList xs)) < n" and "ends_value r"
    then obtain m where m: "n = Suc m" by (cases n) auto
    show "parse_value n (render (JList xs) @ r) = Some (JList xs, r)"
    proof (cases xs)
      case Nil
      then show ?thesis by (simp add: m)
    next
      case (Cons x ys)
      obtain c s where c: "join_comma (map render xs) = c # s" "c \<noteq> CHR '']''"
        using render_start [of x] Cons by (cases ys) auto
      have "read_elems m (join_comma (map render xs) @ CHR '']'' # r) = Some (xs, r)"
        using elems n m Cons by (intro read_elems_render) auto
      then show ?thesis using c by (simp add: m)
    qed
  qed
next
  case (JObj d)
  then have vals: "\<And>p. p \<in> set d \<Longrightarrow> reads_back (snd p)"
    by (fastforce simp: list_all_iff)
  have dict: "dict_of_pairs d = d" using JObj.prems by (simp add: dict_of_pairs_distinct)
  show ?case unfolding reads_back_def
  proof (intro allI impI)
    fix n r assume n: "length (render (JObj d)) < n" and "ends_value r"
    then obtain m where m: "n = Suc m" by (cases n) auto
    show "parse_value n (render (JObj d) @ r) = Some (JObj d, r)"
    proof (cases d)
      case Nil
      then show ?thesis by (simp add: m)
    next
      case (Cons p ps)
      obtain c s where c: "join_comma (map render_entry d) = c # s" "c \<noteq> CHR ''}''"
        using Cons by (cases p; cases ps) (auto simp: quote_def)
      have "read_members m (join_comma (map render_entry d) @ CHR ''}'' # r) = Some (d, r)"
        using vals n m Cons by (intro read_members_render) auto
      then show ?thesis using c by (simp add: m dict)
    qed
  qed
next
  case (JStr s)
  show ?case unfolding reads_back_def
  proof (intro allI impI)
    fix n r assume n: "length (render (JStr s)) < n"
    then obtain m where "n = Suc m" by (cases n) auto
    then show "parse_value n (render (JStr s) @ r) = Some (JStr s, r)"
      by (simp add: quote_def read_chars_quoted)
  qed
next
  case (JInt i)
  show ?case unfolding reads_back_def
  proof (intro allI impI)
    fix n r assume "length (render (JInt i)) < n" and "ends_value r"
    then obtain m where "n = Suc m" by (cases n) auto
    then show "parse_value n (render (JInt i) @ r) = Some (JInt i, r)"
      using \<open>ends_value r\<close> by (simp only: render.simps read_value_show_int)
  qed
next
  case (JBool b)
  show ?case unfolding reads_back_def
  proof (intro allI impI)
    fix n r assume n: "length (render (JBool b)) < n"
    then obtain m where "n = Suc m" by (cases n) auto
    then show "parse_value n (render (JBool b) @ r) = Some (JBool b, r)"
      by (cases b) (simp_all add: read_word_def starts_with_def)
  qed
next
  case JNull
  show ?case unfolding reads_back_def
  proof (intro allI impI)
    fix n r assume n: "length (render JNull) < n"
    then obtain m where "n = Suc m" by (cases n) auto
    then show "parse_value n (render JNull @ r) = Some (JNull, r)"
      by (simp add: read_word_def starts_with_def)
  qed
qed

section \<open>The round trip\<close>

lemma json_loads_render: "keys_ok v \<Longrightarrow> json_loads (render v) = Inr v"
  using reads_backD [OF reads_back_keys_ok, of v "Suc (length (render v))" "[]"]
  by (simp add: json_loads_def)

lemma json_loads_canonical: "json_loads (canonical_json v) = Inr (canon v)"
  unfolding canonical_json_def by (rule json_loads_render) (rule keys_ok_canon)

lemma canonical_json_eq_iff: "canonical_json v = canonical_json w \<longleftrightarrow> canon v = canon w"
proof
  assume "canonical_json v = canonical_json w"
  then have "json_loads (canonical_json v) = json_loads (canonical_json w)" by simp
  then show "canon v = canon w" by (simp add: json_loads_canonical)
qed (simp add: canonical_json_def)

lemma canonical_json_canon [simp]: "canonical_json (canon v) = canonical_json v"
  by (simp add: canonical_json_eq_iff)

end
