(* ===== verification/CoreContracts.thy ===== *)
theory CoreContracts
  imports CanonicalJson
begin

text \<open>
  durable_core/contracts.py: the identifiers, commands, events, results and states of the durable
  core, with \<open>to_dict\<close> and \<open>from_dict\<close>.  A record is a dataclass, a \<open>make_\<close> function its
  constructor with the checks of \<open>__post_init__\<close>.  The fields \<open>attributes\<close> and \<open>definition\<close>
  hold the JSON value an event brought (\<open>payload.get(...) or {}\<close>), which need not be a mapping;
  \<open>to_dict\<close> raises when it is not.

  The interface \<open>dict_codec\<close> says what a row of a projection table relies on: a value written as
  canonical text reads back as the value (with its JSON parts in canonical order).
\<close>

section \<open>Statuses\<close>

datatype mission_status =
  Mission_CREATED | Mission_ACTIVE | Mission_PAUSED | Mission_BLOCKED
| Mission_COMPLETED | Mission_FAILED | Mission_CANCELLED

fun mission_status_value :: "mission_status \<Rightarrow> string" where
  "mission_status_value Mission_CREATED = ''CREATED''"
| "mission_status_value Mission_ACTIVE = ''ACTIVE''"
| "mission_status_value Mission_PAUSED = ''PAUSED''"
| "mission_status_value Mission_BLOCKED = ''BLOCKED''"
| "mission_status_value Mission_COMPLETED = ''COMPLETED''"
| "mission_status_value Mission_FAILED = ''FAILED''"
| "mission_status_value Mission_CANCELLED = ''CANCELLED''"

definition MissionStatus :: "string \<Rightarrow> mission_status py" where
  "MissionStatus = enum_of mission_status_value
     [Mission_CREATED, Mission_ACTIVE, Mission_PAUSED, Mission_BLOCKED, Mission_COMPLETED,
      Mission_FAILED, Mission_CANCELLED]"

datatype goal_status = Goal_ACTIVE | Goal_ACHIEVED | Goal_CANCELLED

fun goal_status_value :: "goal_status \<Rightarrow> string" where
  "goal_status_value Goal_ACTIVE = ''ACTIVE''"
| "goal_status_value Goal_ACHIEVED = ''ACHIEVED''"
| "goal_status_value Goal_CANCELLED = ''CANCELLED''"

definition GoalStatus :: "string \<Rightarrow> goal_status py" where
  "GoalStatus = enum_of goal_status_value [Goal_ACTIVE, Goal_ACHIEVED, Goal_CANCELLED]"

datatype session_status = Session_OPEN | Session_SUSPENDED | Session_CLOSED | Session_FAILED

fun session_status_value :: "session_status \<Rightarrow> string" where
  "session_status_value Session_OPEN = ''OPEN''"
| "session_status_value Session_SUSPENDED = ''SUSPENDED''"
| "session_status_value Session_CLOSED = ''CLOSED''"
| "session_status_value Session_FAILED = ''FAILED''"

definition SessionStatus :: "string \<Rightarrow> session_status py" where
  "SessionStatus = enum_of session_status_value
     [Session_OPEN, Session_SUSPENDED, Session_CLOSED, Session_FAILED]"

lemma MissionStatus_value [simp]: "MissionStatus (mission_status_value m) = Inr m"
  unfolding MissionStatus_def by (rule enum_of_value) (simp, cases m, simp_all)

lemma GoalStatus_value [simp]: "GoalStatus (goal_status_value m) = Inr m"
  unfolding GoalStatus_def by (rule enum_of_value) (simp, cases m, simp_all)

lemma SessionStatus_value [simp]: "SessionStatus (session_status_value m) = Inr m"
  unfolding SessionStatus_def by (rule enum_of_value) (simp, cases m, simp_all)

section \<open>Identifiers\<close>

definition require_id :: "string \<Rightarrow> string \<Rightarrow> string py" where
  "require_id name value =
     (if nonblank value then Inr value
      else Inl (ValueErr (name @ '' must be a non-empty string'')))"

record actor_ref =
  actor_type :: string
  actor_id :: string

definition make_ActorRef :: "string \<Rightarrow> string \<Rightarrow> actor_ref py" where
  "make_ActorRef t i =
     and_then (require_id ''actor.type'' t) (\<lambda>_.
     and_then (require_id ''actor.id'' i) (\<lambda>_.
     Inr \<lparr>actor_type = t, actor_id = i\<rparr>))"

definition actor_to_dict :: "actor_ref \<Rightarrow> dict" where
  "actor_to_dict a = [(''type'', JStr (actor_type a)), (''id'', JStr (actor_id a))]"

record mission =
  m_mission_id :: string
  m_attributes :: dict

definition make_Mission :: "string \<Rightarrow> dict \<Rightarrow> mission py" where
  "make_Mission m attrs =
     and_then (require_id ''mission_id'' m) (\<lambda>_.
     Inr \<lparr>m_mission_id = m, m_attributes = attrs\<rparr>)"

record goal =
  g_goal_id :: string
  g_mission_id :: string
  g_definition :: dict
  g_revision :: int

definition make_Goal :: "string \<Rightarrow> string \<Rightarrow> dict \<Rightarrow> int \<Rightarrow> goal py" where
  "make_Goal g m d r =
     and_then (require_id ''goal_id'' g) (\<lambda>_.
     and_then (require_id ''mission_id'' m) (\<lambda>_.
     if r < 1 then Inl (ValueErr ''revision must be positive'')
     else Inr \<lparr>g_goal_id = g, g_mission_id = m, g_definition = d, g_revision = r\<rparr>))"

record session =
  s_session_id :: string
  s_mission_id :: string
  s_attributes :: dict

definition make_Session :: "string \<Rightarrow> string \<Rightarrow> dict \<Rightarrow> session py" where
  "make_Session s m attrs =
     and_then (require_id ''session_id'' s) (\<lambda>_.
     and_then (require_id ''mission_id'' m) (\<lambda>_.
     Inr \<lparr>s_session_id = s, s_mission_id = m, s_attributes = attrs\<rparr>))"

section \<open>RuntimeError\<close>

definition make_RuntimeError :: "string \<Rightarrow> string \<Rightarrow> dict \<Rightarrow> rt_error py" where
  "make_RuntimeError code message details =
     and_then (require_id ''error.code'' code) (\<lambda>c.
     Inr \<lparr>err_code = c, err_message = message, err_details = details\<rparr>)"

definition error_to_dict :: "rt_error \<Rightarrow> dict" where
  "error_to_dict e =
     [(''code'', JStr (err_code e)), (''message'', JStr (err_message e)),
      (''details'', JObj (err_details e))]"

definition error_from_dict :: "dict \<Rightarrow> rt_error py" where
  "error_from_dict d =
     and_then (dindex d ''code'') (\<lambda>code.
     and_then (dict_of (py_or (dget d ''details'') (JObj []))) (\<lambda>details.
     make_RuntimeError (py_str code) (py_str (py_or (dget d ''message'') (JStr []))) details))"

section \<open>Commands and results\<close>

record command_envelope =
  c_command_id :: string
  c_type :: string
  c_mission_id :: string
  c_expected_seq :: int
  c_actor :: actor_ref
  c_payload :: dict
  c_session_id :: "string option"
  c_idempotency_key :: "string option"
  c_correlation_id :: "string option"
  c_schema_version :: int

definition command_to_dict :: "command_envelope \<Rightarrow> dict" where
  "command_to_dict c =
     [(''command_id'', JStr (c_command_id c)),
      (''type'', JStr (c_type c)),
      (''mission_id'', JStr (c_mission_id c)),
      (''session_id'', jopt (c_session_id c)),
      (''expected_seq'', JInt (c_expected_seq c)),
      (''actor'', JObj (actor_to_dict (c_actor c))),
      (''payload'', JObj (c_payload c)),
      (''idempotency_key'', jopt (c_idempotency_key c)),
      (''correlation_id'', jopt (c_correlation_id c)),
      (''schema_version'', JInt (c_schema_version c))]"

record command_result =
  cr_outcome :: string
  cr_command_id :: string
  cr_mission_id :: string
  cr_first_seq :: "int option"
  cr_last_seq :: "int option"
  cr_duplicate_of :: "string option"
  cr_error :: "rt_error option"
  cr_state_hash :: "string option"

definition result_ok :: "command_result \<Rightarrow> bool" where
  "result_ok r = (cr_outcome r = ''APPLIED'' \<or> cr_outcome r = ''DUPLICATE'')"

definition error_code :: "command_result \<Rightarrow> string option" where
  "error_code r = map_option err_code (cr_error r)"

definition result_to_dict :: "command_result \<Rightarrow> dict" where
  "result_to_dict r =
     [(''outcome'', JStr (cr_outcome r)),
      (''command_id'', JStr (cr_command_id r)),
      (''mission_id'', JStr (cr_mission_id r)),
      (''first_seq'', jopt_int (cr_first_seq r)),
      (''last_seq'', jopt_int (cr_last_seq r)),
      (''duplicate_of'', jopt (cr_duplicate_of r)),
      (''error'', case cr_error r of None \<Rightarrow> JNull | Some e \<Rightarrow> JObj (error_to_dict e)),
      (''state_hash'', jopt (cr_state_hash r))]"

definition result_from_dict :: "dict \<Rightarrow> command_result py" where
  "result_from_dict d =
     and_then (dindex d ''outcome'') (\<lambda>o1.
     and_then (dindex d ''command_id'') (\<lambda>c.
     and_then (dindex d ''mission_id'') (\<lambda>m.
     and_then (as_opt_int (dget d ''first_seq'')) (\<lambda>f.
     and_then (as_opt_int (dget d ''last_seq'')) (\<lambda>l.
     and_then (as_opt_str (dget d ''duplicate_of'')) (\<lambda>dup.
     and_then (case dget d ''error'' of JObj e \<Rightarrow> and_then (error_from_dict e) (\<lambda>x. Inr (Some x))
                                      | _ \<Rightarrow> Inr None) (\<lambda>err.
     and_then (as_opt_str (dget d ''state_hash'')) (\<lambda>h.
     Inr \<lparr>cr_outcome = py_str o1, cr_command_id = py_str c, cr_mission_id = py_str m,
          cr_first_seq = f, cr_last_seq = l, cr_duplicate_of = dup, cr_error = err, cr_state_hash = h\<rparr>))))))))"

section \<open>Events\<close>

record event_envelope =
  ev_event_id :: string
  ev_mission_id :: string
  ev_seq :: int
  ev_event_type :: string
  ev_entity_type :: string
  ev_entity_id :: string
  ev_command_id :: string
  ev_correlation_id :: string
  ev_initiator_type :: string
  ev_initiator_id :: string
  ev_payload :: dict
  ev_created_at :: string
  ev_session_id :: "string option"
  ev_schema_version :: int

definition event_to_dict :: "event_envelope \<Rightarrow> dict" where
  "event_to_dict e =
     [(''event_id'', JStr (ev_event_id e)),
      (''mission_id'', JStr (ev_mission_id e)),
      (''session_id'', jopt (ev_session_id e)),
      (''seq'', JInt (ev_seq e)),
      (''event_type'', JStr (ev_event_type e)),
      (''entity_type'', JStr (ev_entity_type e)),
      (''entity_id'', JStr (ev_entity_id e)),
      (''command_id'', JStr (ev_command_id e)),
      (''correlation_id'', JStr (ev_correlation_id e)),
      (''initiator_type'', JStr (ev_initiator_type e)),
      (''initiator_id'', JStr (ev_initiator_id e)),
      (''payload'', JObj (ev_payload e)),
      (''created_at'', JStr (ev_created_at e)),
      (''schema_version'', JInt (ev_schema_version e))]"

definition event_from_dict :: "dict \<Rightarrow> event_envelope py" where
  "event_from_dict d =
     and_then (dindex d ''event_id'') (\<lambda>i.
     and_then (dindex d ''mission_id'') (\<lambda>m.
     and_then (as_opt_str (dget d ''session_id'')) (\<lambda>s.
     and_then (and_then (dindex d ''seq'') py_int) (\<lambda>n.
     and_then (dindex d ''event_type'') (\<lambda>t.
     and_then (dindex d ''entity_type'') (\<lambda>et.
     and_then (dindex d ''entity_id'') (\<lambda>ei.
     and_then (dindex d ''command_id'') (\<lambda>c.
     and_then (dindex d ''correlation_id'') (\<lambda>co.
     and_then (dindex d ''initiator_type'') (\<lambda>it.
     and_then (dindex d ''initiator_id'') (\<lambda>ii.
     and_then (dict_of (py_or (dget d ''payload'') (JObj []))) (\<lambda>p.
     and_then (dindex d ''created_at'') (\<lambda>ca.
     and_then (py_int (dget_default d ''schema_version'' (JInt 1))) (\<lambda>v.
     Inr \<lparr>ev_event_id = py_str i, ev_mission_id = py_str m, ev_seq = n, ev_event_type = py_str t,
          ev_entity_type = py_str et, ev_entity_id = py_str ei, ev_command_id = py_str c,
          ev_correlation_id = py_str co, ev_initiator_type = py_str it, ev_initiator_id = py_str ii,
          ev_payload = p, ev_created_at = py_str ca, ev_session_id = s, ev_schema_version = v\<rparr>))))))))))))))"

section \<open>States\<close>

record mission_state =
  ms_mission_id :: string
  ms_status :: mission_status
  ms_active_goal_id :: "string option"
  ms_created_at :: string
  ms_updated_at :: string
  ms_attributes :: json

definition mission_to_dict :: "mission_state \<Rightarrow> dict py" where
  "mission_to_dict m =
     and_then (dict_of (ms_attributes m)) (\<lambda>attrs.
     Inr [(''mission_id'', JStr (ms_mission_id m)),
          (''status'', JStr (mission_status_value (ms_status m))),
          (''active_goal_id'', jopt (ms_active_goal_id m)),
          (''created_at'', JStr (ms_created_at m)),
          (''updated_at'', JStr (ms_updated_at m)),
          (''attributes'', JObj attrs)])"

record goal_state =
  gs_goal_id :: string
  gs_mission_id :: string
  gs_revision :: int
  gs_status :: goal_status
  gs_definition :: json
  gs_created_at :: string
  gs_updated_at :: string

definition goal_to_dict :: "goal_state \<Rightarrow> dict py" where
  "goal_to_dict g =
     and_then (dict_of (gs_definition g)) (\<lambda>def.
     Inr [(''goal_id'', JStr (gs_goal_id g)),
          (''mission_id'', JStr (gs_mission_id g)),
          (''revision'', JInt (gs_revision g)),
          (''status'', JStr (goal_status_value (gs_status g))),
          (''definition'', JObj def),
          (''created_at'', JStr (gs_created_at g)),
          (''updated_at'', JStr (gs_updated_at g))])"

record session_state =
  ss_session_id :: string
  ss_mission_id :: string
  ss_status :: session_status
  ss_created_at :: string
  ss_updated_at :: string
  ss_attributes :: json

definition session_to_dict :: "session_state \<Rightarrow> dict py" where
  "session_to_dict s =
     and_then (dict_of (ss_attributes s)) (\<lambda>attrs.
     Inr [(''session_id'', JStr (ss_session_id s)),
          (''mission_id'', JStr (ss_mission_id s)),
          (''status'', JStr (session_status_value (ss_status s))),
          (''created_at'', JStr (ss_created_at s)),
          (''updated_at'', JStr (ss_updated_at s)),
          (''attributes'', JObj attrs)])"

record runtime_state =
  rs_mission_id :: string
  rs_seq :: int
  rs_mission :: "mission_state option"
  rs_goals :: "goal_state list"
  rs_sessions :: "session_state list"

definition goal_of :: "runtime_state \<Rightarrow> string \<Rightarrow> goal_state option" where
  "goal_of s g = find_by gs_goal_id g (rs_goals s)"

definition session_of :: "runtime_state \<Rightarrow> string \<Rightarrow> session_state option" where
  "session_of s k = find_by ss_session_id k (rs_sessions s)"

text \<open>\<open>{x.key: x.to_dict() for x in sorted(items, key=lambda x: x.key)}\<close> and
  \<open>[X.from_dict(v) for v in values.values()]\<close>\<close>

definition sorted_entries :: "('a \<Rightarrow> dict py) \<Rightarrow> ('a \<Rightarrow> string) \<Rightarrow> 'a list \<Rightarrow> dict py" where
  "sorted_entries enc key xs =
     and_then (map_res (\<lambda>x. and_then (enc x) (\<lambda>d. Inr (key x, JObj d))) (sort_key key xs)) (\<lambda>ps.
     Inr (dict_of_pairs ps))"

definition decode_values :: "(dict \<Rightarrow> 'a py) \<Rightarrow> json \<Rightarrow> 'a list py" where
  "decode_values dec v =
     and_then (dvalues (py_or v (JObj []))) (map_res (\<lambda>v. and_then (as_dict v) dec))"

definition state_to_dict :: "runtime_state \<Rightarrow> dict py" where
  "state_to_dict s =
     and_then (case rs_mission s of None \<Rightarrow> Inr JNull
                                  | Some m \<Rightarrow> and_then (mission_to_dict m) (\<lambda>d. Inr (JObj d))) (\<lambda>mission.
     and_then (sorted_entries goal_to_dict gs_goal_id (rs_goals s)) (\<lambda>goals.
     and_then (sorted_entries session_to_dict ss_session_id (rs_sessions s)) (\<lambda>sessions.
     Inr [(''mission_id'', JStr (rs_mission_id s)),
          (''seq'', JInt (rs_seq s)),
          (''mission'', mission),
          (''goals'', JObj goals),
          (''sessions'', JObj sessions)])))"

text \<open>The comprehensions of \<open>RuntimeState.from_dict\<close>, one entity each.\<close>

definition mission_from_dict :: "dict \<Rightarrow> mission_state py" where
  "mission_from_dict d =
     and_then (dindex d ''mission_id'') (\<lambda>m.
     and_then (and_then (dindex d ''status'') (\<lambda>v. MissionStatus (py_str v))) (\<lambda>st.
     and_then (as_opt_str (dget d ''active_goal_id'')) (\<lambda>g.
     and_then (dindex d ''created_at'') (\<lambda>c.
     and_then (dindex d ''updated_at'') (\<lambda>u.
     and_then (dict_of (py_or (dget d ''attributes'') (JObj []))) (\<lambda>attrs.
     Inr \<lparr>ms_mission_id = py_str m, ms_status = st, ms_active_goal_id = g,
          ms_created_at = py_str c, ms_updated_at = py_str u, ms_attributes = JObj attrs\<rparr>))))))"

definition goal_from_dict :: "dict \<Rightarrow> goal_state py" where
  "goal_from_dict d =
     and_then (dindex d ''goal_id'') (\<lambda>g.
     and_then (dindex d ''mission_id'') (\<lambda>m.
     and_then (and_then (dindex d ''revision'') py_int) (\<lambda>r.
     and_then (and_then (dindex d ''status'') (\<lambda>v. GoalStatus (py_str v))) (\<lambda>st.
     and_then (dict_of (py_or (dget d ''definition'') (JObj []))) (\<lambda>def.
     and_then (dindex d ''created_at'') (\<lambda>c.
     and_then (dindex d ''updated_at'') (\<lambda>u.
     Inr \<lparr>gs_goal_id = py_str g, gs_mission_id = py_str m, gs_revision = r, gs_status = st,
          gs_definition = JObj def, gs_created_at = py_str c, gs_updated_at = py_str u\<rparr>)))))))"

definition session_from_dict :: "dict \<Rightarrow> session_state py" where
  "session_from_dict d =
     and_then (dindex d ''session_id'') (\<lambda>k.
     and_then (dindex d ''mission_id'') (\<lambda>m.
     and_then (and_then (dindex d ''status'') (\<lambda>v. SessionStatus (py_str v))) (\<lambda>st.
     and_then (dindex d ''created_at'') (\<lambda>c.
     and_then (dindex d ''updated_at'') (\<lambda>u.
     and_then (dict_of (py_or (dget d ''attributes'') (JObj []))) (\<lambda>attrs.
     Inr \<lparr>ss_session_id = py_str k, ss_mission_id = py_str m, ss_status = st,
          ss_created_at = py_str c, ss_updated_at = py_str u, ss_attributes = JObj attrs\<rparr>))))))"

definition state_from_dict :: "dict \<Rightarrow> runtime_state py" where
  "state_from_dict d =
     and_then (case dget d ''mission'' of JObj m \<Rightarrow> and_then (mission_from_dict m) (\<lambda>x. Inr (Some x))
                                        | _ \<Rightarrow> Inr None) (\<lambda>mission.
     and_then (decode_values goal_from_dict (dget d ''goals'')) (\<lambda>goals.
     and_then (decode_values session_from_dict (dget d ''sessions'')) (\<lambda>sessions.
     and_then (dindex d ''mission_id'') (\<lambda>m.
     and_then (py_int (dget_default d ''seq'' (JInt 0))) (\<lambda>n.
     Inr \<lparr>rs_mission_id = py_str m, rs_seq = n, rs_mission = mission, rs_goals = goals,
          rs_sessions = sessions\<rparr>)))))"

section \<open>Writing and reading\<close>

lemma dindex_canon [simp]:
  "dindex (canon_dict d) k = (case map_of d k of None \<Rightarrow> Inl (KeyErr k) | Some v \<Rightarrow> Inr (canon v))"
  by (simp add: dindex_def map_of_canon_dict split: option.splits)

lemma dget_default_canon:
  "canon v = v \<Longrightarrow> dget_default (canon_dict d) k v = canon (dget_default d k v)"
  by (simp add: dget_default_def map_of_canon_dict split: option.splits)

lemma canon_dict_Nil_iff [simp]: "canon_dict d = [] \<longleftrightarrow> d = []"
  using map_of_canon_dict [of d] by (cases d) (auto simp: fun_eq_iff canon_dict_def split: if_splits)

lemma canon_simps [simp]:
  "canon (jopt x) = jopt x" "canon (jopt_int i) = jopt_int i"
  by (cases x; simp) (cases i; simp)

lemma canon_obj [simp]: "canon (JObj d) = JObj (canon_dict d)"
  by (rule canon_JObj)

declare canon.simps(2) [simp del]

lemma dict_of_py_or [simp]: "dict_of (py_or (JObj d) (JObj [])) = Inr d"
  by (simp add: py_or_def)

lemma py_str_py_or [simp]: "py_str (py_or (JStr s) (JStr [])) = s"
  by (simp add: py_or_def)

lemma dict_of_Inr_iff [res_simps]: "dict_of v = Inr d \<longleftrightarrow> v = JObj d"
  by (cases v) auto

text \<open>The values of a dictionary in canonical order, its keys as they are.\<close>

definition canon_values :: "dict \<Rightarrow> dict" where
  "canon_values d = map (\<lambda>(k, v). (k, canon v)) d"

lemma canon_values_simps [simp]:
  "canon_values [] = []"
  "canon_values ((k, v) # d) = (k, canon v) # canon_values d"
  by (simp_all add: canon_values_def)

lemma canon_values_Nil_iff [simp]: "canon_values d = [] \<longleftrightarrow> d = []"
  by (simp add: canon_values_def)

lemma map_of_canon_values: "map_of (canon_values d) = map_option canon \<circ> map_of d"
  by (simp add: canon_values_def map_of_map)

lemma canon_dict_canon_values [simp]: "canon_dict (canon_values d) = canon_dict d"
  by (simp add: canon_dict_eq_iff map_of_canon_values fun_eq_iff option.map_comp o_def)

lemma canon_values_idem [simp]: "canon_values (canon_values d) = canon_values d"
  by (simp add: canon_values_def case_prod_beta)

lemma canon_dict_values: "canon_dict d = sort_key fst (AList.clearjunk (canon_values d))"
  by (simp add: canon_dict_def canon_values_def)

lemma canon_dict_cong: "canon_values d = canon_values d' \<Longrightarrow> canon_dict d = canon_dict d'"
  by (simp add: canon_dict_values)

lemma canon_dict_sorted_values:
  "distinct (map fst d) \<Longrightarrow> sorted (map fst d) \<Longrightarrow> canon_dict d = canon_values d"
  by (simp add: canon_dict_values canon_values_def case_prod_beta o_def
      AList.distinct_clearjunk_id sort_key_id_if_sorted)

text \<open>The interface of a stored record: \<open>enc\<close> and \<open>dec\<close> are its \<open>to_dict\<close> and \<open>from_dict\<close>,
  \<open>wf\<close> what its constructor checks and \<open>norm\<close> puts its JSON parts in canonical order.\<close>

locale dict_codec =
  fixes enc :: "'a \<Rightarrow> dict py"
    and dec :: "dict \<Rightarrow> 'a py"
    and wf :: "'a \<Rightarrow> bool"
    and norm :: "'a \<Rightarrow> 'a"
  assumes dec_canon: "wf x \<Longrightarrow> enc x = Inr d \<Longrightarrow> dec (canon_dict d) = Inr (norm x)"
    and enc_norm: "wf x \<Longrightarrow> enc x = Inr d \<Longrightarrow> \<exists>d'. enc (norm x) = Inr d' \<and> canon_values d' = canon_values d"
begin

lemma read_stored:
  assumes "wf x" and "enc x = Inr d"
  shows "and_then (json_loads (canonical_json (JObj d))) (\<lambda>v. and_then (as_dict v) dec) = Inr (norm x)"
  using dec_canon [OF assms] by (simp add: json_loads_canonical)

lemma read_stored_list:
  assumes "list_all2 (\<lambda>x d. wf x \<and> enc x = Inr d) xs ds"
  shows "map_res (\<lambda>t. and_then (json_loads t) (\<lambda>v. and_then (as_dict v) dec))
           (map (\<lambda>d. canonical_json (JObj d)) ds) = Inr (map norm xs)"
  using assms by (induction xs ds rule: list_all2_induct) (auto simp: read_stored simp del: json_loads_canonical)

lemma decode_canon_list:
  assumes "list_all2 (\<lambda>x d. wf x \<and> enc x = Inr d) xs ds"
  shows "map_res (\<lambda>v. and_then (as_dict v) dec) (map (\<lambda>d. canon (JObj d)) ds) = Inr (map norm xs)"
  using assms by (induction xs ds rule: list_all2_induct) (auto simp: dec_canon)

lemma norm_same_dict:
  assumes "wf x" and "enc x = Inr d"
  obtains d' where "enc (norm x) = Inr d'" and "canon_dict d' = canon_dict d"
  using enc_norm [OF assms] canon_dict_cong by blast

lemma decode_sorted_entries:
  assumes wf: "\<And>x. x \<in> set xs \<Longrightarrow> wf x" and dist: "distinct (map key xs)"
    and enc: "sorted_entries enc key xs = Inr ps"
  shows "decode_values dec (canon (JObj ps)) = Inr (map norm (sort_key key xs))"
proof -
  obtain ps' where ps': "list_all2 (\<lambda>x p. \<exists>d. enc x = Inr d \<and> p = (key x, JObj d)) (sort_key key xs) ps'"
    and ps: "ps = dict_of_pairs ps'"
    using enc by (auto simp: sorted_entries_def res_simps) (smt (verit) list_all2_mono)
  have keys: "map fst ps' = map key (sort_key key xs)"
    using ps' by (induction rule: list_all2_induct) auto
  then have "distinct (map fst ps')" "sorted (map fst ps')"
    using dist by (simp_all add: distinct_map)
  then have canon: "canon_dict ps = canon_values ps'"
    by (simp add: ps dict_of_pairs_distinct canon_dict_sorted_values)
  have "map_res (\<lambda>v. and_then (as_dict v) dec) (map snd (canon_values ps')) = Inr (map norm ys)"
    if "list_all2 (\<lambda>x p. \<exists>d. enc x = Inr d \<and> p = (key x, JObj d)) ys ps'" "\<forall>x \<in> set ys. wf x" for ys
    using that by (induction rule: list_all2_induct) (auto simp: dec_canon)
  from this [OF ps'] have "map_res (\<lambda>v. and_then (as_dict v) dec) (map snd (canon_values ps')) = Inr (map norm (sort_key key xs))"
    using wf by simp
  then show ?thesis by (cases ps') (simp_all add: decode_values_def canon py_or_def)
qed

lemma norm_sorted_entries:
  assumes wf: "\<And>x. x \<in> set xs \<Longrightarrow> wf x" and dist: "distinct (map key xs)"
    and key: "\<And>x. key (norm x) = key x"
    and enc: "sorted_entries enc key xs = Inr ps"
  shows "\<exists>ps'. sorted_entries enc key (map norm (sort_key key xs)) = Inr ps' \<and> canon_dict ps' = canon_dict ps"
proof -
  let ?entry = "\<lambda>x. and_then (enc x) (\<lambda>d. Inr (key x, JObj d))"
  let ?ys = "sort_key key xs"
  obtain qs where qs: "map_res ?entry ?ys = Inr qs" and ps: "ps = dict_of_pairs qs"
    using enc by (auto simp: sorted_entries_def res_simps)
  have sorted: "sort_key key (map norm ?ys) = map norm ?ys"
    by (rule sort_key_id_if_sorted) (simp add: key o_def)
  have ex: "\<exists>qs'. map_res ?entry (map norm zs) = Inr qs' \<and> canon_values qs' = canon_values qs"
    if "map_res ?entry zs = Inr qs" "\<And>x. x \<in> set zs \<Longrightarrow> wf x" for zs qs
    using that
  proof (induction zs arbitrary: qs)
    case Nil
    then show ?case by simp
  next
    case (Cons z zs)
    then obtain d rs where d: "enc z = Inr d" "map_res ?entry zs = Inr rs" "qs = (key z, JObj d) # rs"
      by (auto simp: and_then_Inr_iff)
    obtain d' where "enc (norm z) = Inr d'" "canon_dict d' = canon_dict d"
      using norm_same_dict [of z d] d Cons.prems by auto
    moreover obtain rs' where "map_res ?entry (map norm zs) = Inr rs'" "canon_values rs' = canon_values rs"
      using Cons.IH [OF d(2)] Cons.prems by auto
    ultimately show ?case using d by (simp add: key)
  qed
  obtain qs' where qs': "map_res ?entry (map norm ?ys) = Inr qs'" "canon_values qs' = canon_values qs"
    using ex [OF qs] wf by auto
  have "map fst qs = map fst qs'"
    using arg_cong [OF qs'(2), of "map fst"] by (simp add: canon_values_def case_prod_beta o_def)
  moreover have "distinct (map fst qs)"
  proof -
    have "map_res ?entry ys = Inr qs \<Longrightarrow> map fst qs = map key ys" for ys
      by (induction ys arbitrary: qs) (auto simp: and_then_Inr_iff)
    then show ?thesis using qs dist by (simp add: distinct_map)
  qed
  ultimately show ?thesis using qs' sorted
    by (auto simp: sorted_entries_def ps dict_of_pairs_distinct intro: canon_dict_cong)
qed

lemma norm_same_text:
  assumes "wf x" and "enc x = Inr d" and "enc (norm x) = Inr d'"
  shows "canonical_json (JObj d') = canonical_json (JObj d)"
  using norm_same_dict [OF assms(1,2)] assms(3) by (auto simp: canonical_json_eq_iff)

end

definition norm_error :: "rt_error \<Rightarrow> rt_error" where
  "norm_error e = e\<lparr>err_details := canon_dict (err_details e)\<rparr>"

definition norm_result :: "command_result \<Rightarrow> command_result" where
  "norm_result r = r\<lparr>cr_error := map_option norm_error (cr_error r)\<rparr>"

definition norm_mission :: "mission_state \<Rightarrow> mission_state" where
  "norm_mission m = m\<lparr>ms_attributes := canon (ms_attributes m)\<rparr>"

definition norm_goal :: "goal_state \<Rightarrow> goal_state" where
  "norm_goal g = g\<lparr>gs_definition := canon (gs_definition g)\<rparr>"

definition norm_session :: "session_state \<Rightarrow> session_state" where
  "norm_session s = s\<lparr>ss_attributes := canon (ss_attributes s)\<rparr>"

interpretation mission_codec: dict_codec mission_to_dict mission_from_dict "\<lambda>_. True" norm_mission
proof unfold_locales
  fix x d assume enc: "mission_to_dict x = Inr d"
  then obtain v where x: "ms_attributes x = JObj v"
    by (auto simp: mission_to_dict_def res_simps)
  show "mission_from_dict (canon_dict d) = Inr (norm_mission x)"
    using enc x by (clarsimp simp: mission_to_dict_def mission_from_dict_def norm_mission_def dget_canon_dict)
  show "\<exists>d'. mission_to_dict (norm_mission x) = Inr d' \<and> canon_values d' = canon_values d"
    using enc x by (clarsimp simp: mission_to_dict_def norm_mission_def)
qed

interpretation goal_codec: dict_codec goal_to_dict goal_from_dict "\<lambda>_. True" norm_goal
proof unfold_locales
  fix x d assume enc: "goal_to_dict x = Inr d"
  then obtain v where x: "gs_definition x = JObj v"
    by (auto simp: goal_to_dict_def res_simps)
  show "goal_from_dict (canon_dict d) = Inr (norm_goal x)"
    using enc x by (clarsimp simp: goal_to_dict_def goal_from_dict_def norm_goal_def dget_canon_dict)
  show "\<exists>d'. goal_to_dict (norm_goal x) = Inr d' \<and> canon_values d' = canon_values d"
    using enc x by (clarsimp simp: goal_to_dict_def norm_goal_def)
qed

interpretation session_codec: dict_codec session_to_dict session_from_dict "\<lambda>_. True" norm_session
proof unfold_locales
  fix x d assume enc: "session_to_dict x = Inr d"
  then obtain v where x: "ss_attributes x = JObj v"
    by (auto simp: session_to_dict_def res_simps)
  show "session_from_dict (canon_dict d) = Inr (norm_session x)"
    using enc x by (clarsimp simp: session_to_dict_def session_from_dict_def norm_session_def dget_canon_dict)
  show "\<exists>d'. session_to_dict (norm_session x) = Inr d' \<and> canon_values d' = canon_values d"
    using enc x by (clarsimp simp: session_to_dict_def norm_session_def)
qed

definition error_wf :: "rt_error \<Rightarrow> bool" where
  "error_wf e = nonblank (err_code e)"

definition result_wf :: "command_result \<Rightarrow> bool" where
  "result_wf r = (case cr_error r of None \<Rightarrow> True | Some e \<Rightarrow> error_wf e)"

interpretation error_codec: dict_codec "\<lambda>e. Inr (error_to_dict e)" error_from_dict error_wf norm_error
proof unfold_locales
  fix x d assume "error_wf x" and enc: "(Inr (error_to_dict x) :: dict py) = Inr d"
  then show "error_from_dict (canon_dict d) = Inr (norm_error x)"
    by (clarsimp simp: error_to_dict_def error_from_dict_def norm_error_def dget_canon_dict error_wf_def
         make_RuntimeError_def require_id_def)
  show "\<exists>d'. (Inr (error_to_dict (norm_error x)) :: dict py) = Inr d' \<and> canon_values d' = canon_values d"
    using enc by (clarsimp simp: error_to_dict_def norm_error_def)
qed

interpretation result_codec: dict_codec "\<lambda>r. Inr (result_to_dict r)" result_from_dict result_wf norm_result
proof unfold_locales
  fix x d assume wf: "result_wf x" and enc: "(Inr (result_to_dict x) :: dict py) = Inr d"
  show "result_from_dict (canon_dict d) = Inr (norm_result x)"
  proof (cases "cr_error x")
    case None
    then show ?thesis using enc
      by (clarsimp simp: result_to_dict_def result_from_dict_def norm_result_def dget_canon_dict)
  next
    case (Some e)
    then have "error_from_dict (canon_dict (error_to_dict e)) = Inr (norm_error e)"
      using wf by (simp add: result_wf_def error_codec.dec_canon)
    then show ?thesis using enc Some
      by (clarsimp simp: result_to_dict_def result_from_dict_def norm_result_def dget_canon_dict)
  qed
  show "\<exists>d'. (Inr (result_to_dict (norm_result x)) :: dict py) = Inr d' \<and> canon_values d' = canon_values d"
    using enc by (auto simp: result_to_dict_def norm_result_def error_to_dict_def norm_error_def
        intro!: canon_dict_cong split: option.split)
qed

definition event_norm :: "event_envelope \<Rightarrow> event_envelope" where
  "event_norm e = e\<lparr>ev_payload := canon_dict (ev_payload e)\<rparr>"

interpretation event_codec: dict_codec "\<lambda>e. Inr (event_to_dict e)" event_from_dict "\<lambda>_. True" event_norm
proof unfold_locales
  fix x d assume enc: "(Inr (event_to_dict x) :: dict py) = Inr d"
  show "event_from_dict (canon_dict d) = Inr (event_norm x)"
    using enc by (clarsimp simp: event_to_dict_def event_from_dict_def event_norm_def dget_canon_dict
        dget_default_canon)
  show "\<exists>d'. (Inr (event_to_dict (event_norm x)) :: dict py) = Inr d' \<and> canon_values d' = canon_values d"
    using enc by (clarsimp simp: event_to_dict_def event_norm_def)
qed

subsection \<open>The whole state\<close>

text \<open>Identifiers of goals and of sessions are distinct; the canonical form lists both by
  identifier.\<close>

definition state_ids_distinct :: "runtime_state \<Rightarrow> bool" where
  "state_ids_distinct s \<longleftrightarrow>
     distinct (map gs_goal_id (rs_goals s)) \<and> distinct (map ss_session_id (rs_sessions s))"

definition norm_state :: "runtime_state \<Rightarrow> runtime_state" where
  "norm_state s = s\<lparr>rs_mission := map_option norm_mission (rs_mission s),
     rs_goals := map norm_goal (sort_key gs_goal_id (rs_goals s)),
     rs_sessions := map norm_session (sort_key ss_session_id (rs_sessions s))\<rparr>"

lemma norm_keys [simp]:
  "gs_goal_id (norm_goal g) = gs_goal_id g"
  "ss_session_id (norm_session x) = ss_session_id x"
  by (simp_all add: norm_goal_def norm_session_def)

interpretation state_codec: dict_codec state_to_dict state_from_dict state_ids_distinct norm_state
proof unfold_locales
  fix s d assume wf: "state_ids_distinct s" and enc: "state_to_dict s = Inr d"
  then have dist: "distinct (map gs_goal_id (rs_goals s))" "distinct (map ss_session_id (rs_sessions s))"
    by (simp_all add: state_ids_distinct_def)
  obtain m g e where m: "(case rs_mission s of None \<Rightarrow> Inr JNull
        | Some m \<Rightarrow> and_then (mission_to_dict m) (\<lambda>d. Inr (JObj d))) = (Inr m :: json py)"
    and g: "sorted_entries goal_to_dict gs_goal_id (rs_goals s) = Inr g"
    and e: "sorted_entries session_to_dict ss_session_id (rs_sessions s) = Inr e"
    and d: "d = [(''mission_id'', JStr (rs_mission_id s)), (''seq'', JInt (rs_seq s)),
                 (''mission'', m), (''goals'', JObj g), (''sessions'', JObj e)]"
    using enc by (auto simp: state_to_dict_def res_simps)
  have mission: "(case canon m of JObj m \<Rightarrow> and_then (mission_from_dict m) (\<lambda>x. Inr (Some x))
                  | _ \<Rightarrow> Inr None) = Inr (map_option norm_mission (rs_mission s))"
    using m by (cases "rs_mission s") (auto simp: res_simps mission_codec.dec_canon)
  show "state_from_dict (canon_dict d) = Inr (norm_state s)"
    using mission goal_codec.decode_sorted_entries [OF _ dist(1) g]
      session_codec.decode_sorted_entries [OF _ dist(2) e]
    by (simp add: state_from_dict_def d dget_canon_dict dget_default_canon norm_state_def)
  obtain g' where g': "sorted_entries goal_to_dict gs_goal_id (rs_goals (norm_state s)) = Inr g'"
      "canon_dict g' = canon_dict g"
    using goal_codec.norm_sorted_entries [OF _ dist(1) _ g] by (auto simp: norm_state_def)
  obtain e' where e': "sorted_entries session_to_dict ss_session_id (rs_sessions (norm_state s)) = Inr e'"
      "canon_dict e' = canon_dict e"
    using session_codec.norm_sorted_entries [OF _ dist(2) _ e] by (auto simp: norm_state_def)
  have m': "\<exists>m'. (case rs_mission (norm_state s) of None \<Rightarrow> Inr JNull
        | Some m \<Rightarrow> and_then (mission_to_dict m) (\<lambda>d. Inr (JObj d))) = (Inr m' :: json py) \<and> canon m' = canon m"
    using m by (cases "rs_mission s")
      (auto simp: norm_state_def res_simps elim: mission_codec.norm_same_dict [OF TrueI])
  from m' obtain m' where "(case rs_mission (norm_state s) of None \<Rightarrow> Inr JNull
        | Some m \<Rightarrow> and_then (mission_to_dict m) (\<lambda>d. Inr (JObj d))) = (Inr m' :: json py)"
      "canon m' = canon m" by blast
  with g' e' show "\<exists>d'. state_to_dict (norm_state s) = Inr d' \<and> canon_values d' = canon_values d"
    by (simp add: state_to_dict_def d) (simp add: norm_state_def)
qed

end
