(* ===== verification/CoreReducer.thy ===== *)
theory CoreReducer
  imports CoreContracts
begin

text \<open>
  durable_core/reducer.py, the core part: \<open>initial_state\<close>, \<open>advance_shared_seq\<close> and \<open>reduce\<close>, the
  fold of the fifteen core event types into the state of one mission.

  \<open>core_step\<close> is the lifecycle contract as a relation without JSON, strings or exceptions; the
  reducer refines it (\<open>reduce_refines_core_step\<close>), and the invariants and monotonicity facts are
  proved by rule induction over the relation and transferred to replays through the interface
  \<open>monotone_machine\<close>.
\<close>

section \<open>The reducer\<close>

definition SUPPORTED_EVENTS :: "string list" where
  "SUPPORTED_EVENTS =
     [''mission.created'', ''mission.activated'', ''mission.paused'', ''mission.blocked'',
      ''mission.continued'', ''mission.completed'', ''mission.failed'', ''mission.cancelled'',
      ''goal.created'', ''goal.revised'', ''goal.status_changed'',
      ''session.opened'', ''session.suspended'', ''session.closed'', ''session.failed'']"

definition initial_state :: "string \<Rightarrow> runtime_state py" where
  "initial_state m =
     (if \<not> nonblank m then runtime_error ''RUNTIME_INVARIANT_VIOLATION'' ''mission_id must be non-empty''
      else Inr \<lparr>rs_mission_id = m, rs_seq = 0, rs_mission = None, rs_goals = [], rs_sessions = []\<rparr>)"

definition seq_message :: "int \<Rightarrow> int \<Rightarrow> string" where
  "seq_message expected received = ''expected seq '' @ show_int expected @ '', received '' @ show_int received"

definition advance_shared_seq :: "runtime_state \<Rightarrow> event_envelope \<Rightarrow> runtime_state py" where
  "advance_shared_seq s e =
     (if ev_schema_version e \<noteq> 1 then
        runtime_error ''UNSUPPORTED_EVENT_SCHEMA'' (''unsupported event schema: '' @ show_int (ev_schema_version e))
      else if ev_mission_id e \<noteq> rs_mission_id s then
        runtime_error ''RUNTIME_INVARIANT_VIOLATION'' ''event mission_id does not match state''
      else if ev_seq e \<noteq> rs_seq s + 1 then
        runtime_error ''EVENT_SEQUENCE_VIOLATION'' (seq_message (rs_seq s + 1) (ev_seq e))
      else if rs_mission s = None then
        runtime_error ''RUNTIME_INVARIANT_VIOLATION'' ''extension event requires an existing Mission''
      else Inr (s\<lparr>rs_seq := ev_seq e\<rparr>))"

definition replace_goal :: "runtime_state \<Rightarrow> goal_state \<Rightarrow> goal_state list" where
  "replace_goal s g = replace_by gs_goal_id g (rs_goals s)"

definition replace_session :: "runtime_state \<Rightarrow> session_state \<Rightarrow> session_state list" where
  "replace_session s x = replace_by ss_session_id x (rs_sessions s)"

definition require_mission :: "runtime_state \<Rightarrow> mission_state py" where
  "require_mission s =
     (case rs_mission s of
        None \<Rightarrow> runtime_error ''RUNTIME_INVARIANT_VIOLATION'' ''event requires an existing Mission''
      | Some m \<Rightarrow> Inr m)"

abbreviation violation :: "string \<Rightarrow> exn + 'a" where
  "violation message \<equiv> runtime_error ''RUNTIME_INVARIANT_VIOLATION'' message"

text \<open>The branches of \<open>reduce\<close> return the new \<open>(mission, goals, sessions)\<close>.\<close>

type_synonym core_parts = "mission_state option \<times> goal_state list \<times> session_state list"

definition reduce_mission_created :: "runtime_state \<Rightarrow> event_envelope \<Rightarrow> core_parts py" where
  "reduce_mission_created s e =
     (if rs_mission s \<noteq> None \<or> rs_seq s \<noteq> 0 then violation ''Mission may be created only once''
      else Inr (Some \<lparr>ms_mission_id = ev_mission_id e, ms_status = Mission_CREATED,
                     ms_active_goal_id = None, ms_created_at = ev_created_at e,
                     ms_updated_at = ev_created_at e,
                     ms_attributes = py_or (dget (ev_payload e) ''attributes'') (JObj [])\<rparr>,
                rs_goals s, rs_sessions s))"

definition allowed_sources :: "string \<Rightarrow> mission_status list py" where
  "allowed_sources t =
     (if t = ''mission.activated'' then Inr [Mission_CREATED]
      else if t = ''mission.paused'' then Inr [Mission_ACTIVE]
      else if t = ''mission.blocked'' then Inr [Mission_ACTIVE]
      else if t = ''mission.continued'' then Inr [Mission_PAUSED, Mission_BLOCKED]
      else if t = ''mission.completed'' then Inr [Mission_ACTIVE]
      else if t = ''mission.failed'' then Inr [Mission_ACTIVE, Mission_PAUSED, Mission_BLOCKED]
      else if t = ''mission.cancelled'' then Inr [Mission_CREATED, Mission_ACTIVE, Mission_PAUSED, Mission_BLOCKED]
      else Inl (KeyErr t))"

definition target_by_event :: "string \<Rightarrow> mission_status py" where
  "target_by_event t =
     (if t = ''mission.activated'' then Inr Mission_ACTIVE
      else if t = ''mission.paused'' then Inr Mission_PAUSED
      else if t = ''mission.blocked'' then Inr Mission_BLOCKED
      else if t = ''mission.continued'' then Inr Mission_ACTIVE
      else if t = ''mission.completed'' then Inr Mission_COMPLETED
      else if t = ''mission.failed'' then Inr Mission_FAILED
      else if t = ''mission.cancelled'' then Inr Mission_CANCELLED
      else Inl (KeyErr t))"

definition has_achieved_goal :: "runtime_state \<Rightarrow> bool" where
  "has_achieved_goal s = list_ex (\<lambda>g. gs_status g = Goal_ACHIEVED) (rs_goals s)"

definition reduce_mission_lifecycle :: "runtime_state \<Rightarrow> event_envelope \<Rightarrow> core_parts py" where
  "reduce_mission_lifecycle s e =
     and_then (require_mission s) (\<lambda>current.
     and_then (allowed_sources (ev_event_type e)) (\<lambda>sources.
     if ms_status current \<notin> set sources then violation ''Mission event violates lifecycle''
     else if ev_event_type e = ''mission.activated'' \<and> ms_active_goal_id current = None then
       violation ''activation fact requires an ACTIVE Goal''
     else if ev_event_type e = ''mission.completed'' \<and> \<not> has_achieved_goal s then
       violation ''completion fact requires an ACHIEVED Goal''
     else
       and_then (target_by_event (ev_event_type e)) (\<lambda>target.
       Inr (Some (current\<lparr>ms_status := target, ms_updated_at := ev_created_at e\<rparr>),
            rs_goals s, rs_sessions s))))"

definition reduce_goal_created :: "runtime_state \<Rightarrow> event_envelope \<Rightarrow> core_parts py" where
  "reduce_goal_created s e =
     and_then (require_mission s) (\<lambda>current.
     if goal_of s (ev_entity_id e) \<noteq> None then violation ''Goal already exists''
     else if ms_active_goal_id current \<noteq> None then violation ''Mission already has an ACTIVE Goal''
     else
       and_then (py_int (dget_default (ev_payload e) ''revision'' (JInt 0))) (\<lambda>rev1.
       if rev1 \<noteq> 1 \<or> \<not> py_eq (dget (ev_payload e) ''status'') (JStr ''ACTIVE'') then
         violation ''new Goal must be ACTIVE revision 1''
       else
         and_then (and_then (dindex (ev_payload e) ''revision'') py_int) (\<lambda>rev2.
         and_then (and_then (dindex (ev_payload e) ''status'') (\<lambda>v. GoalStatus (py_str v))) (\<lambda>status.
         Inr (Some (current\<lparr>ms_active_goal_id := Some (ev_entity_id e), ms_updated_at := ev_created_at e\<rparr>),
              rs_goals s @
                [\<lparr>gs_goal_id = ev_entity_id e, gs_mission_id = ev_mission_id e, gs_revision = rev2,
                  gs_status = status,
                  gs_definition = py_or (dget (ev_payload e) ''definition'') (JObj []),
                  gs_created_at = ev_created_at e, gs_updated_at = ev_created_at e\<rparr>],
              rs_sessions s)))))"

definition reduce_goal_revised :: "runtime_state \<Rightarrow> event_envelope \<Rightarrow> core_parts py" where
  "reduce_goal_revised s e =
     and_then (require_mission s) (\<lambda>current.
     case goal_of s (ev_entity_id e) of
       None \<Rightarrow> violation ''Goal revision references missing Goal''
     | Some g \<Rightarrow>
         if gs_status g \<noteq> Goal_ACTIVE then violation ''terminal Goal cannot be revised''
         else
           and_then (py_int (dget_default (ev_payload e) ''base_revision'' (JInt (- 1)))) (\<lambda>base.
           if base \<noteq> gs_revision g then violation ''Goal revision fact is not contiguous''
           else
             and_then (py_int (dget_default (ev_payload e) ''revision'' (JInt 0))) (\<lambda>rev1.
             if rev1 \<noteq> gs_revision g + 1 then violation ''Goal revision fact is not contiguous''
             else
               and_then (and_then (dindex (ev_payload e) ''revision'') py_int) (\<lambda>rev2.
               Inr (Some (current\<lparr>ms_updated_at := ev_created_at e\<rparr>),
                    replace_goal s (g\<lparr>gs_revision := rev2,
                                      gs_definition := py_or (dget (ev_payload e) ''definition'') (JObj []),
                                      gs_updated_at := ev_created_at e\<rparr>),
                    rs_sessions s)))))"

definition reduce_goal_status_changed :: "runtime_state \<Rightarrow> event_envelope \<Rightarrow> core_parts py" where
  "reduce_goal_status_changed s e =
     and_then (require_mission s) (\<lambda>current.
     case goal_of s (ev_entity_id e) of
       None \<Rightarrow> violation ''Goal status event references missing Goal''
     | Some g \<Rightarrow>
         and_then (and_then (dindex (ev_payload e) ''to_status'') (\<lambda>v. GoalStatus (py_str v))) (\<lambda>target.
         if gs_status g \<noteq> Goal_ACTIVE \<or> \<not> (target = Goal_ACHIEVED \<or> target = Goal_CANCELLED) then
           violation ''Goal status fact violates lifecycle''
         else
           Inr (Some (current\<lparr>ms_active_goal_id := None, ms_updated_at := ev_created_at e\<rparr>),
                replace_goal s (g\<lparr>gs_status := target, gs_updated_at := ev_created_at e\<rparr>),
                rs_sessions s)))"

definition reduce_session_opened :: "runtime_state \<Rightarrow> event_envelope \<Rightarrow> core_parts py" where
  "reduce_session_opened s e =
     and_then (require_mission s) (\<lambda>current.
     if session_of s (ev_entity_id e) \<noteq> None then violation ''Session already exists''
     else
       Inr (Some (current\<lparr>ms_updated_at := ev_created_at e\<rparr>),
            rs_goals s,
            rs_sessions s @
              [\<lparr>ss_session_id = ev_entity_id e, ss_mission_id = ev_mission_id e,
                ss_status = Session_OPEN, ss_created_at = ev_created_at e,
                ss_updated_at = ev_created_at e,
                ss_attributes = py_or (dget (ev_payload e) ''attributes'') (JObj [])\<rparr>]))"

definition allowed_session_sources :: "string \<Rightarrow> session_status list py" where
  "allowed_session_sources t =
     (if t = ''session.suspended'' then Inr [Session_OPEN]
      else if t = ''session.closed'' then Inr [Session_OPEN, Session_SUSPENDED]
      else if t = ''session.failed'' then Inr [Session_OPEN, Session_SUSPENDED]
      else Inl (KeyErr t))"

definition session_target :: "string \<Rightarrow> session_status py" where
  "session_target t =
     (if t = ''session.suspended'' then Inr Session_SUSPENDED
      else if t = ''session.closed'' then Inr Session_CLOSED
      else if t = ''session.failed'' then Inr Session_FAILED
      else Inl (KeyErr t))"

definition reduce_session_lifecycle :: "runtime_state \<Rightarrow> event_envelope \<Rightarrow> core_parts py" where
  "reduce_session_lifecycle s e =
     and_then (require_mission s) (\<lambda>current.
     case session_of s (ev_entity_id e) of
       None \<Rightarrow> violation ''Session event references missing Session''
     | Some x \<Rightarrow>
         and_then (allowed_session_sources (ev_event_type e)) (\<lambda>sources.
         if ss_status x \<notin> set sources then violation ''Session event violates lifecycle''
         else
           and_then (session_target (ev_event_type e)) (\<lambda>target.
           Inr (Some (current\<lparr>ms_updated_at := ev_created_at e\<rparr>),
                rs_goals s,
                replace_session s (x\<lparr>ss_status := target, ss_updated_at := ev_created_at e\<rparr>)))))"

definition reduce_parts :: "runtime_state \<Rightarrow> event_envelope \<Rightarrow> core_parts py" where
  "reduce_parts s e =
     (if ev_event_type e = ''mission.created'' then reduce_mission_created s e
      else if starts_with ''mission.'' (ev_event_type e) then reduce_mission_lifecycle s e
      else if ev_event_type e = ''goal.created'' then reduce_goal_created s e
      else if ev_event_type e = ''goal.revised'' then reduce_goal_revised s e
      else if ev_event_type e = ''goal.status_changed'' then reduce_goal_status_changed s e
      else if ev_event_type e = ''session.opened'' then reduce_session_opened s e
      else reduce_session_lifecycle s e)"

definition reduce :: "runtime_state \<Rightarrow> event_envelope \<Rightarrow> runtime_state py" where
  "reduce s e =
     (if ev_schema_version e \<noteq> 1 then
        runtime_error ''UNSUPPORTED_EVENT_SCHEMA'' (''unsupported event schema: '' @ show_int (ev_schema_version e))
      else if ev_event_type e \<notin> set SUPPORTED_EVENTS then
        runtime_error ''UNSUPPORTED_EVENT_TYPE'' (''unsupported event type: '' @ ev_event_type e)
      else if ev_mission_id e \<noteq> rs_mission_id s then
        violation ''event mission_id does not match state''
      else if ev_seq e \<noteq> rs_seq s + 1 then
        runtime_error ''EVENT_SEQUENCE_VIOLATION'' (seq_message (rs_seq s + 1) (ev_seq e))
      else
        and_then (reduce_parts s e) (\<lambda>(mission, goals, sessions).
        Inr \<lparr>rs_mission_id = rs_mission_id s, rs_seq = ev_seq e, rs_mission = mission,
             rs_goals = goals, rs_sessions = sessions\<rparr>))"

lemma reduce_supported: "reduce s e = Inr s' \<Longrightarrow> ev_event_type e \<in> set SUPPORTED_EVENTS"
  by (auto simp: reduce_def split: if_split_asm)

section \<open>The lifecycle contract\<close>

fun mission_edge :: "mission_status \<Rightarrow> mission_status \<Rightarrow> bool" where
  "mission_edge Mission_CREATED b \<longleftrightarrow> b = Mission_ACTIVE \<or> b = Mission_CANCELLED"
| "mission_edge Mission_ACTIVE b \<longleftrightarrow>
     b \<in> {Mission_PAUSED, Mission_BLOCKED, Mission_COMPLETED, Mission_FAILED, Mission_CANCELLED}"
| "mission_edge Mission_PAUSED b \<longleftrightarrow> b \<in> {Mission_ACTIVE, Mission_FAILED, Mission_CANCELLED}"
| "mission_edge Mission_BLOCKED b \<longleftrightarrow> b \<in> {Mission_ACTIVE, Mission_FAILED, Mission_CANCELLED}"
| "mission_edge _ b \<longleftrightarrow> False"

fun session_edge :: "session_status \<Rightarrow> session_status \<Rightarrow> bool" where
  "session_edge Session_OPEN b \<longleftrightarrow> b \<noteq> Session_OPEN"
| "session_edge Session_SUSPENDED b \<longleftrightarrow> b \<in> {Session_CLOSED, Session_FAILED}"
| "session_edge _ b \<longleftrightarrow> False"

definition mission_terminal :: "mission_status \<Rightarrow> bool" where
  "mission_terminal x \<longleftrightarrow> x \<in> {Mission_COMPLETED, Mission_FAILED, Mission_CANCELLED}"

inductive core_step :: "runtime_state \<Rightarrow> runtime_state \<Rightarrow> bool" where
  mission_created:
    "rs_mission s = None \<Longrightarrow> rs_seq s = 0 \<Longrightarrow>
     ms_mission_id m = rs_mission_id s \<Longrightarrow> ms_status m = Mission_CREATED \<Longrightarrow> ms_active_goal_id m = None \<Longrightarrow>
     core_step s (s\<lparr>rs_seq := rs_seq s + 1, rs_mission := Some m\<rparr>)"
| mission_moved:
    "rs_mission s = Some m \<Longrightarrow> mission_edge (ms_status m) b \<Longrightarrow>
     (ms_status m = Mission_CREATED \<Longrightarrow> b = Mission_ACTIVE \<Longrightarrow> ms_active_goal_id m \<noteq> None) \<Longrightarrow>
     (b = Mission_COMPLETED \<Longrightarrow> has_achieved_goal s) \<Longrightarrow>
     core_step s (s\<lparr>rs_seq := rs_seq s + 1, rs_mission := Some (m\<lparr>ms_status := b, ms_updated_at := t\<rparr>)\<rparr>)"
| goal_created:
    "rs_mission s = Some m \<Longrightarrow> goal_of s (gs_goal_id g) = None \<Longrightarrow> ms_active_goal_id m = None \<Longrightarrow>
     gs_status g = Goal_ACTIVE \<Longrightarrow> gs_revision g = 1 \<Longrightarrow> gs_mission_id g = rs_mission_id s \<Longrightarrow>
     core_step s (s\<lparr>rs_seq := rs_seq s + 1,
                    rs_mission := Some (m\<lparr>ms_active_goal_id := Some (gs_goal_id g), ms_updated_at := t\<rparr>),
                    rs_goals := rs_goals s @ [g]\<rparr>)"
| goal_revised:
    "rs_mission s = Some m \<Longrightarrow> goal_of s k = Some g \<Longrightarrow> gs_status g = Goal_ACTIVE \<Longrightarrow>
     core_step s (s\<lparr>rs_seq := rs_seq s + 1, rs_mission := Some (m\<lparr>ms_updated_at := t\<rparr>),
                    rs_goals := replace_goal s (g\<lparr>gs_revision := gs_revision g + 1,
                                                  gs_definition := d, gs_updated_at := t\<rparr>)\<rparr>)"
| goal_closed:
    "rs_mission s = Some m \<Longrightarrow> goal_of s k = Some g \<Longrightarrow> gs_status g = Goal_ACTIVE \<Longrightarrow> b \<noteq> Goal_ACTIVE \<Longrightarrow>
     core_step s (s\<lparr>rs_seq := rs_seq s + 1,
                    rs_mission := Some (m\<lparr>ms_active_goal_id := None, ms_updated_at := t\<rparr>),
                    rs_goals := replace_goal s (g\<lparr>gs_status := b, gs_updated_at := t\<rparr>)\<rparr>)"
| session_opened:
    "rs_mission s = Some m \<Longrightarrow> session_of s (ss_session_id x) = None \<Longrightarrow> ss_status x = Session_OPEN \<Longrightarrow>
     core_step s (s\<lparr>rs_seq := rs_seq s + 1, rs_mission := Some (m\<lparr>ms_updated_at := t\<rparr>),
                    rs_sessions := rs_sessions s @ [x]\<rparr>)"
| session_moved:
    "rs_mission s = Some m \<Longrightarrow> session_of s k = Some x \<Longrightarrow> session_edge (ss_status x) b \<Longrightarrow>
     core_step s (s\<lparr>rs_seq := rs_seq s + 1, rs_mission := Some (m\<lparr>ms_updated_at := t\<rparr>),
                    rs_sessions := replace_session s (x\<lparr>ss_status := b, ss_updated_at := t\<rparr>)\<rparr>)"

inductive_cases core_stepE: "core_step s s'"

text \<open>Extension events only advance the shared sequence number.\<close>

inductive shared_step :: "runtime_state \<Rightarrow> runtime_state \<Rightarrow> bool" where
  core: "core_step s s' \<Longrightarrow> shared_step s s'"
| advance: "rs_mission s \<noteq> None \<Longrightarrow> shared_step s (s\<lparr>rs_seq := rs_seq s + 1\<rparr>)"

section \<open>The reducer refines the contract\<close>

lemma allowed_target_edge:
  assumes "allowed_sources t = Inr sources" and "a \<in> set sources" and "target_by_event t = Inr b"
  shows "mission_edge a b \<and> (a = Mission_CREATED \<and> b = Mission_ACTIVE \<longrightarrow> t = ''mission.activated'')
    \<and> (b = Mission_COMPLETED \<longrightarrow> t = ''mission.completed'')"
  using assms by (auto simp: allowed_sources_def target_by_event_def split: if_splits)

lemma session_target_edge:
  assumes "allowed_session_sources t = Inr sources" and "a \<in> set sources" and "session_target t = Inr b"
  shows "session_edge a b"
  using assms unfolding allowed_session_sources_def session_target_def by (auto split: if_splits)

lemma reduce_parts_contract:
  assumes "reduce_parts s e = Inr (m, g, x)" and "ev_mission_id e = rs_mission_id s"
  shows "core_step s (s\<lparr>rs_seq := rs_seq s + 1, rs_mission := m, rs_goals := g, rs_sessions := x\<rparr>)"
proof -
  consider "reduce_mission_created s e = Inr (m, g, x)" | "reduce_mission_lifecycle s e = Inr (m, g, x)"
    | "reduce_goal_created s e = Inr (m, g, x)" | "reduce_goal_revised s e = Inr (m, g, x)"
    | "reduce_goal_status_changed s e = Inr (m, g, x)" | "reduce_session_opened s e = Inr (m, g, x)"
    | "reduce_session_lifecycle s e = Inr (m, g, x)"
    using assms(1) by (auto simp: reduce_parts_def split: if_splits)
  then show ?thesis
  proof cases
    case 1
    then show ?thesis using assms(2)
      using core_step.mission_created [of s "the m"]
      by (auto simp: reduce_mission_created_def res_simps)
  next
    case 2
    then show ?thesis
      by (auto simp: reduce_mission_lifecycle_def require_mission_def res_simps split: option.splits
          intro!: core_step.mission_moved dest: allowed_target_edge)
  next
    case 3
    then obtain c v where c: "rs_mission s = Some c" "goal_of s (ev_entity_id e) = None"
        "ms_active_goal_id c = None" and v: "dindex (ev_payload e) ''status'' = Inr v"
        "py_eq v (JStr ''ACTIVE'')"
      by (auto simp: reduce_goal_created_def require_mission_def res_simps dest: dindex_dget split: option.splits)
    from v(2) have "v = JStr ''ACTIVE''" by (rule py_eq_JStr)
    then have "and_then (dindex (ev_payload e) ''status'') (\<lambda>v. GoalStatus (py_str v)) = Inr Goal_ACTIVE"
      using GoalStatus_value [of Goal_ACTIVE] by (simp add: v)
    with 3 c assms(2) show ?thesis
      using core_step.goal_created [of s c "last g" "ev_created_at e"]
      by (auto simp: reduce_goal_created_def require_mission_def res_simps dest: py_int_reread)
  next
    case 4
    then obtain c h n where c: "rs_mission s = Some c" "goal_of s (ev_entity_id e) = Some h" "gs_status h = Goal_ACTIVE"
        and n: "n = gs_revision h + 1"
        and parts: "m = Some (c\<lparr>ms_updated_at := ev_created_at e\<rparr>)" "x = rs_sessions s"
          "g = replace_goal s (h\<lparr>gs_revision := n, gs_definition := py_or (dget (ev_payload e) ''definition'') (JObj []),
                                 gs_updated_at := ev_created_at e\<rparr>)"
      by (auto simp: reduce_goal_revised_def require_mission_def res_simps split: option.splits)
         (metis py_int_reread)
    show ?thesis using core_step.goal_revised [OF c] by (simp add: parts n)
  next
    case 5
    then show ?thesis
      by (auto simp: reduce_goal_status_changed_def require_mission_def res_simps split: option.splits
          intro!: core_step.goal_closed)
  next
    case 6
    then show ?thesis
      by (auto simp: reduce_session_opened_def require_mission_def res_simps split: option.splits
          intro!: core_step.session_opened)
  next
    case 7
    then show ?thesis
      by (auto simp: reduce_session_lifecycle_def require_mission_def res_simps split: option.splits
          intro!: core_step.session_moved dest: session_target_edge)
  qed
qed

lemma reduce_Inr:
  "reduce s e = Inr s' \<longleftrightarrow>
     ev_schema_version e = 1 \<and> ev_event_type e \<in> set SUPPORTED_EVENTS \<and>
     ev_mission_id e = rs_mission_id s \<and> ev_seq e = rs_seq s + 1 \<and>
     (\<exists>m g x. reduce_parts s e = Inr (m, g, x) \<and>
        s' = s\<lparr>rs_seq := rs_seq s + 1, rs_mission := m, rs_goals := g, rs_sessions := x\<rparr>)"
  by (auto simp: reduce_def res_simps)

lemma reduce_refines_core_step: "reduce s e = Inr s' \<Longrightarrow> core_step s s'"
  by (auto simp: reduce_Inr intro: reduce_parts_contract)

lemma advance_Inr:
  "advance_shared_seq s e = Inr s' \<longleftrightarrow>
     ev_schema_version e = 1 \<and> ev_mission_id e = rs_mission_id s \<and> ev_seq e = rs_seq s + 1 \<and>
     rs_mission s \<noteq> None \<and> s' = s\<lparr>rs_seq := rs_seq s + 1\<rparr>"
  by (auto simp: advance_shared_seq_def)

lemma advance_refines_shared_step: "advance_shared_seq s e = Inr s' \<Longrightarrow> shared_step s s'"
  by (auto simp: advance_Inr intro!: shared_step.advance)

section \<open>Invariant\<close>

text \<open>The mission knows its ACTIVE goal, and there is at most one: \<open>active_goal_id\<close> names a goal
  exactly when that goal is ACTIVE.\<close>

definition active_goal_ok :: "mission_state \<Rightarrow> goal_state list \<Rightarrow> bool" where
  "active_goal_ok m gs \<longleftrightarrow>
     (\<forall>g \<in> set gs. gs_status g = Goal_ACTIVE \<longleftrightarrow> ms_active_goal_id m = Some (gs_goal_id g)) \<and>
     (\<forall>k. ms_active_goal_id m = Some k \<longrightarrow> k \<in> gs_goal_id ` set gs)"

lemma active_goal_ok_updates [simp]:
  "active_goal_ok (m\<lparr>ms_updated_at := t\<rparr>) gs = active_goal_ok m gs"
  "active_goal_ok (m\<lparr>ms_status := b\<rparr>) gs = active_goal_ok m gs"
  by (simp_all add: active_goal_ok_def)

definition core_inv :: "runtime_state \<Rightarrow> bool" where
  "core_inv s \<longleftrightarrow>
     state_ids_distinct s \<and>
     (case rs_mission s of
        None \<Rightarrow> rs_seq s = 0 \<and> rs_goals s = [] \<and> rs_sessions s = []
      | Some m \<Rightarrow>
          rs_seq s \<ge> 1 \<and> ms_mission_id m = rs_mission_id s \<and>
          (\<forall>g \<in> set (rs_goals s). gs_mission_id g = rs_mission_id s \<and> gs_revision g \<ge> 1) \<and>
          active_goal_ok m (rs_goals s) \<and>
          (ms_status m = Mission_CREATED \<or> ms_status m = Mission_CANCELLED \<or> rs_goals s \<noteq> []) \<and>
          (ms_status m = Mission_COMPLETED \<longrightarrow> has_achieved_goal s))"

lemma core_inv_initial: "initial_state m = Inr s \<Longrightarrow> core_inv s"
  by (auto simp: initial_state_def core_inv_def state_ids_distinct_def split: if_splits)

lemma mission_edge_source: "mission_edge a b \<Longrightarrow> a \<notin> {Mission_COMPLETED, Mission_FAILED, Mission_CANCELLED}"
  by (cases a) auto

lemma mission_edge_created: "mission_edge a b \<Longrightarrow> b \<noteq> Mission_CREATED"
  by (cases a) auto

lemma goal_ofD: "goal_of s k = Some g \<Longrightarrow> g \<in> set (rs_goals s) \<and> gs_goal_id g = k"
  by (auto simp: goal_of_def dest: find_by_SomeD)

lemma session_ofD: "session_of s k = Some x \<Longrightarrow> x \<in> set (rs_sessions s) \<and> ss_session_id x = k"
  by (auto simp: session_of_def dest: find_by_SomeD)

lemma active_goal_ok_replace:
  assumes "active_goal_ok m gs" and "g \<in> set gs" and "gs_goal_id g' = gs_goal_id g"
    and "distinct (map gs_goal_id gs)"
    and "gs_status g' = Goal_ACTIVE \<longleftrightarrow> gs_status g = Goal_ACTIVE"
  shows "active_goal_ok m (replace_by gs_goal_id g' gs)"
proof -
  have "gs_goal_id ` set (replace_by gs_goal_id g' gs) = gs_goal_id ` set gs"
    by (metis list.set_map replace_by_keys)
  then show ?thesis using assms unfolding active_goal_ok_def
    by (auto dest!: set_replace_by)
qed

lemma active_goal_ok_close:
  assumes "active_goal_ok m gs" and "g \<in> set gs" and "gs_status g = Goal_ACTIVE"
    and "gs_goal_id g' = gs_goal_id g" and "gs_status g' \<noteq> Goal_ACTIVE"
  shows "active_goal_ok (m\<lparr>ms_active_goal_id := None\<rparr>) (replace_by gs_goal_id g' gs)"
  using assms unfolding active_goal_ok_def by (auto dest!: set_replace_by)

lemma has_achieved_replace:
  assumes "has_achieved_goal s" and "gs_goal_id g' = gs_goal_id g" and "goal_of s k = Some g"
    and "gs_status g = Goal_ACTIVE" and "distinct (map gs_goal_id (rs_goals s))"
    and "rs_goals t = replace_by gs_goal_id g' (rs_goals s)"
  shows "has_achieved_goal t"
proof -
  obtain h where h: "h \<in> set (rs_goals s)" "gs_status h = Goal_ACHIEVED"
    using assms(1) by (auto simp: has_achieved_goal_def list_ex_iff)
  have "gs_goal_id h \<noteq> gs_goal_id g"
    using h assms(3-5) goal_ofD [OF assms(3)] by (metis eq_key_imp_eq_value find_by_distinct goal_status.distinct(1) option.inject)
  then have "h \<in> set (rs_goals t)" using h assms(2,6) by (simp add: replace_by_mem)
  with h(2) show ?thesis by (auto simp: has_achieved_goal_def list_ex_iff)
qed

lemma core_step_inv: "core_step s s' \<Longrightarrow> core_inv s \<Longrightarrow> core_inv s'"
proof (induction rule: core_step.induct)
  case (mission_created s m)
  then show ?case by (simp add: core_inv_def active_goal_ok_def state_ids_distinct_def)
next
  case (mission_moved s m b t)
  then show ?case
    by (auto simp: core_inv_def active_goal_ok_def state_ids_distinct_def has_achieved_goal_def
        dest: mission_edge_created mission_edge_source)
next
  case (goal_created s m g t)
  then show ?case
    by (auto simp: core_inv_def active_goal_ok_def state_ids_distinct_def has_achieved_goal_def
        goal_of_def keyed_simps)
next
  case (goal_revised s m k g t d)
  note g = goal_ofD [OF goal_revised(2)]
  let ?g' = "g\<lparr>gs_revision := gs_revision g + 1, gs_definition := d, gs_updated_at := t\<rparr>"
  note achieved = has_achieved_replace [where g = g and g' = ?g', OF _ _ goal_revised(2,3)]
  show ?case using goal_revised g
    by (auto simp: core_inv_def state_ids_distinct_def replace_goal_def
        intro!: active_goal_ok_replace [where g = g] achieved dest!: set_replace_by)
next
  case (goal_closed s m k g b t)
  note g = goal_ofD [OF goal_closed(2)]
  let ?g' = "g\<lparr>gs_status := b, gs_updated_at := t\<rparr>"
  note achieved = has_achieved_replace [where g = g and g' = ?g', OF _ _ goal_closed(2,3)]
  show ?case using goal_closed g
    by (auto simp: core_inv_def state_ids_distinct_def replace_goal_def
        intro!: active_goal_ok_close [where g = g] achieved dest!: set_replace_by)
next
  case (session_opened s m x t)
  then show ?case
    by (auto simp: core_inv_def active_goal_ok_def state_ids_distinct_def has_achieved_goal_def
        session_of_def keyed_simps)
next
  case (session_moved s m k x b t)
  then show ?case
    by (auto simp: core_inv_def active_goal_ok_def state_ids_distinct_def has_achieved_goal_def
        replace_session_def)
qed

section \<open>What never changes back\<close>

definition goal_evolves :: "goal_state \<Rightarrow> goal_state \<Rightarrow> bool" where
  "goal_evolves g h \<longleftrightarrow>
     gs_goal_id h = gs_goal_id g \<and> gs_mission_id h = gs_mission_id g \<and> gs_created_at h = gs_created_at g \<and>
     gs_revision g \<le> gs_revision h \<and> (gs_status g \<noteq> Goal_ACTIVE \<longrightarrow> h = g)"

definition session_evolves :: "session_state \<Rightarrow> session_state \<Rightarrow> bool" where
  "session_evolves x y \<longleftrightarrow>
     ss_session_id y = ss_session_id x \<and> ss_created_at y = ss_created_at x \<and>
     ss_attributes y = ss_attributes x \<and>
     (ss_status x = Session_CLOSED \<or> ss_status x = Session_FAILED \<longrightarrow> y = x) \<and>
     (ss_status y = Session_OPEN \<longrightarrow> ss_status x = Session_OPEN)"

definition mission_evolves :: "mission_state \<Rightarrow> mission_state \<Rightarrow> bool" where
  "mission_evolves m n \<longleftrightarrow>
     ms_mission_id n = ms_mission_id m \<and> ms_created_at n = ms_created_at m \<and>
     ms_attributes n = ms_attributes m \<and>
     (mission_terminal (ms_status m) \<longrightarrow> ms_status n = ms_status m) \<and>
     (ms_status n = Mission_CREATED \<longrightarrow> ms_status m = Mission_CREATED)"

definition core_evolves :: "runtime_state \<Rightarrow> runtime_state \<Rightarrow> bool" where
  "core_evolves s t \<longleftrightarrow>
     rs_mission_id t = rs_mission_id s \<and> rs_seq s \<le> rs_seq t \<and>
     (\<forall>m. rs_mission s = Some m \<longrightarrow> (\<exists>n. rs_mission t = Some n \<and> mission_evolves m n)) \<and>
     (\<forall>k g. goal_of s k = Some g \<longrightarrow> (\<exists>h. goal_of t k = Some h \<and> goal_evolves g h)) \<and>
     (\<forall>k x. session_of s k = Some x \<longrightarrow> (\<exists>y. session_of t k = Some y \<and> session_evolves x y))"

lemma goal_evolves_refl [simp]: "goal_evolves g g"
  by (simp add: goal_evolves_def)

lemma session_evolves_refl [simp]: "session_evolves x x"
  by (simp add: session_evolves_def)

lemma mission_evolves_refl [simp]: "mission_evolves m m"
  by (simp add: mission_evolves_def)

lemma goal_evolves_trans: "goal_evolves g h \<Longrightarrow> goal_evolves h k \<Longrightarrow> goal_evolves g k"
  unfolding goal_evolves_def by (metis order_trans)

lemma session_evolves_trans: "session_evolves x y \<Longrightarrow> session_evolves y z \<Longrightarrow> session_evolves x z"
  unfolding session_evolves_def by metis

lemma mission_evolves_trans: "mission_evolves m n \<Longrightarrow> mission_evolves n k \<Longrightarrow> mission_evolves m k"
  unfolding mission_evolves_def by metis

lemma core_evolves_refl: "core_evolves s s"
  by (simp add: core_evolves_def)

lemma core_evolves_trans: "core_evolves s t \<Longrightarrow> core_evolves t u \<Longrightarrow> core_evolves s u"
proof -
  assume st: "core_evolves s t" and tu: "core_evolves t u"
  have "\<exists>k. rs_mission u = Some k \<and> mission_evolves m k" if "rs_mission s = Some m" for m
    using st tu that unfolding core_evolves_def by (meson mission_evolves_trans)
  moreover have "\<exists>h. goal_of u k = Some h \<and> goal_evolves g h" if "goal_of s k = Some g" for k g
    using st tu that unfolding core_evolves_def by (meson goal_evolves_trans)
  moreover have "\<exists>h. session_of u k = Some h \<and> session_evolves g h" if "session_of s k = Some g" for k g
    using st tu that unfolding core_evolves_def by (meson session_evolves_trans)
  moreover have "rs_mission_id u = rs_mission_id s \<and> rs_seq s \<le> rs_seq u"
    using st tu by (simp add: core_evolves_def)
  ultimately show ?thesis unfolding core_evolves_def by blast
qed

lemma core_step_evolves: "core_step s s' \<Longrightarrow> core_evolves s s'"
proof (induction rule: core_step.induct)
  case (mission_moved s m b t)
  then show ?case
    by (auto simp: core_evolves_def mission_evolves_def mission_terminal_def goal_of_def session_of_def
        dest: mission_edge_source mission_edge_created)
next
  case (session_moved s m k x b t)
  then show ?case using session_ofD [OF session_moved(2)]
    by (cases "ss_status x")
       (auto simp: core_evolves_def mission_evolves_def session_evolves_def goal_of_def session_of_def
        replace_session_def keyed_simps)
next
  case (goal_revised s m k g t d)
  then show ?case using goal_ofD [OF goal_revised(2)]
    by (auto simp: core_evolves_def mission_evolves_def goal_evolves_def goal_of_def session_of_def
        replace_goal_def keyed_simps)
next
  case (goal_closed s m k g b t)
  then show ?case using goal_ofD [OF goal_closed(2)]
    by (auto simp: core_evolves_def mission_evolves_def goal_evolves_def goal_of_def session_of_def
        replace_goal_def keyed_simps)
next
  case (mission_created s m)
  then show ?case by (auto simp: core_evolves_def goal_of_def session_of_def)
next
  case (goal_created s m g t)
  then show ?case
    by (auto simp: core_evolves_def mission_evolves_def goal_of_def session_of_def find_by_append)
next
  case (session_opened s m x t)
  then show ?case
    by (auto simp: core_evolves_def mission_evolves_def goal_of_def session_of_def find_by_append)
qed

lemma core_step_seq: "core_step s s' \<Longrightarrow> rs_seq s' = rs_seq s + 1"
  by (induction rule: core_step.induct) auto

lemma core_step_mission_id: "core_step s s' \<Longrightarrow> rs_mission_id s' = rs_mission_id s"
  by (induction rule: core_step.induct) auto

lemma advance_inv: "advance_shared_seq s e = Inr s' \<Longrightarrow> core_inv s \<Longrightarrow> core_inv s'"
  by (auto simp: advance_Inr core_inv_def state_ids_distinct_def has_achieved_goal_def)

lemma advance_evolves: "advance_shared_seq s e = Inr s' \<Longrightarrow> core_evolves s s'"
  by (auto simp: advance_Inr core_evolves_def goal_of_def session_of_def)

section \<open>Replay of core events\<close>

interpretation core_machine: monotone_machine reduce rs_seq ev_seq core_inv core_evolves
proof unfold_locales
  fix s e s' assume step: "reduce s e = Inr s'"
  show "ev_seq e = rs_seq s + 1" using step by (simp add: reduce_Inr)
  show "rs_seq s' = ev_seq e" using step by (auto simp: reduce_Inr)
  show "core_inv s'" if "core_inv s"
    using reduce_refines_core_step [OF step] that by (rule core_step_inv)
  show "core_evolves s s'" if "core_inv s"
    using reduce_refines_core_step [OF step] by (rule core_step_evolves)
next
  fix s t u
  show "core_evolves s s" by (rule core_evolves_refl)
  show "core_evolves s t \<Longrightarrow> core_evolves t u \<Longrightarrow> core_evolves s u" by (rule core_evolves_trans)
qed

end
