(* ===== verification/CoreHandlers.thy ===== *)
theory CoreHandlers
  imports CoreReducer
begin

text \<open>
  durable_core/handlers.py: the command handlers of the core, which check a command against the
  current state and answer with the events it means, or raise.

  Main result: the handlers are sound for the reducer (\<open>handle_sound\<close>), that is, every event a
  handler emits is accepted by \<open>reduce\<close> in the state the handler checked, so the command bus never
  fails after it has accepted a core command.
\<close>

section \<open>The handlers\<close>

definition SUPPORTED_COMMANDS :: "string list" where
  "SUPPORTED_COMMANDS =
     [''CREATE_MISSION'', ''CREATE_GOAL'', ''ACTIVATE_MISSION'', ''PAUSE_MISSION'', ''BLOCK_MISSION'',
      ''CONTINUE_MISSION'', ''COMPLETE_MISSION'', ''FAIL_MISSION'', ''CANCEL_MISSION'',
      ''REVISE_GOAL'', ''CHANGE_GOAL_STATUS'', ''OPEN_SESSION'', ''SUSPEND_SESSION'',
      ''CLOSE_SESSION'', ''FAIL_SESSION'']"

definition MISSION_TERMINAL :: "mission_status list" where
  "MISSION_TERMINAL = [Mission_COMPLETED, Mission_FAILED, Mission_CANCELLED]"

record pending_event =
  pe_event_type :: string
  pe_entity_type :: string
  pe_entity_id :: string
  pe_payload :: dict
  pe_session_id :: "string option"

definition invalid :: "string \<Rightarrow> 'a py" where
  "invalid message = runtime_error ''INVALID_STATE_TRANSITION'' message"

definition require_payload_text :: "dict \<Rightarrow> string \<Rightarrow> string py" where
  "require_payload_text payload key =
     (case dget payload key of
        JStr v \<Rightarrow> if nonblank v then Inr v
                  else runtime_error ''COMMAND_SCHEMA_INVALID'' (''payload.'' @ key @ '' must be a non-empty string'')
      | _ \<Rightarrow> runtime_error ''COMMAND_SCHEMA_INVALID'' (''payload.'' @ key @ '' must be a non-empty string''))"

definition handler_mission :: "runtime_state \<Rightarrow> mission_state py" where
  "handler_mission s =
     (case rs_mission s of
        None \<Rightarrow> runtime_error ''MISSION_NOT_FOUND'' (''Mission not found: '' @ rs_mission_id s)
      | Some m \<Rightarrow> Inr m)"

definition cannot_apply :: "string \<Rightarrow> string \<Rightarrow> string" where
  "cannot_apply status command = status @ '' cannot apply '' @ command"

text \<open>The dictionary \<open>transition\<close> of \<open>_mission_transition\<close>.\<close>

definition transition :: "string \<Rightarrow> (mission_status \<times> mission_status \<times> string) option" where
  "transition t =
     map_of [(''ACTIVATE_MISSION'', (Mission_CREATED, Mission_ACTIVE, ''mission.activated'')),
             (''PAUSE_MISSION'', (Mission_ACTIVE, Mission_PAUSED, ''mission.paused'')),
             (''BLOCK_MISSION'', (Mission_ACTIVE, Mission_BLOCKED, ''mission.blocked'')),
             (''COMPLETE_MISSION'', (Mission_ACTIVE, Mission_COMPLETED, ''mission.completed''))] t"

definition mission_target :: "command_envelope \<Rightarrow> runtime_state \<Rightarrow> mission_state \<Rightarrow> (mission_status \<times> string) py" where
  "mission_target c s m =
     (case transition (c_type c) of
        Some (source, target, event_type) \<Rightarrow>
          if ms_status m \<noteq> source then
            invalid (cannot_apply (mission_status_value (ms_status m)) (c_type c))
          else if c_type c = ''ACTIVATE_MISSION'' \<and> ms_active_goal_id m = None then
            runtime_error ''ACTIVE_GOAL_REQUIRED'' ''Mission activation requires a current ACTIVE Goal''
          else if c_type c = ''COMPLETE_MISSION'' \<and> \<not> has_achieved_goal s then
            runtime_error ''ACHIEVED_GOAL_REQUIRED'' ''Mission completion requires an ACHIEVED Goal''
          else Inr (target, event_type)
      | None \<Rightarrow>
          if c_type c = ''CONTINUE_MISSION'' then
            if ms_status m \<notin> set [Mission_PAUSED, Mission_BLOCKED] then
              invalid (cannot_apply (mission_status_value (ms_status m)) ''CONTINUE_MISSION'')
            else Inr (Mission_ACTIVE, ''mission.continued'')
          else if c_type c = ''FAIL_MISSION'' then
            if ms_status m \<notin> set [Mission_ACTIVE, Mission_PAUSED, Mission_BLOCKED] then
              invalid (cannot_apply (mission_status_value (ms_status m)) ''FAIL_MISSION'')
            else Inr (Mission_FAILED, ''mission.failed'')
          else if c_type c = ''CANCEL_MISSION'' then
            if ms_status m \<notin> set [Mission_CREATED, Mission_ACTIVE, Mission_PAUSED, Mission_BLOCKED] then
              invalid (cannot_apply (mission_status_value (ms_status m)) ''CANCEL_MISSION'')
            else Inr (Mission_CANCELLED, ''mission.cancelled'')
          else runtime_error ''UNSUPPORTED_COMMAND_TYPE'' (''unsupported command: '' @ c_type c))"

definition mission_transition :: "command_envelope \<Rightarrow> runtime_state \<Rightarrow> pending_event list py" where
  "mission_transition c s =
     and_then (handler_mission s) (\<lambda>m.
     and_then (mission_target c s m) (\<lambda>(target, event_type).
     Inr [\<lparr>pe_event_type = event_type, pe_entity_type = ''MISSION'', pe_entity_id = c_mission_id c,
           pe_payload = [(''from_status'', JStr (mission_status_value (ms_status m))),
                         (''to_status'', JStr (mission_status_value target)),
                         (''reason'', dget (c_payload c) ''reason'')],
           pe_session_id = None\<rparr>]))"

definition create_goal_command :: "command_envelope \<Rightarrow> mission_state \<Rightarrow> string \<Rightarrow> goal_state option \<Rightarrow> pending_event list py" where
  "create_goal_command c m g existing =
     (if existing \<noteq> None then
        runtime_error ''RUNTIME_INVARIANT_VIOLATION'' (''Goal already exists: '' @ g)
      else if ms_active_goal_id m \<noteq> None then
        runtime_error ''ACTIVE_GOAL_ALREADY_EXISTS'' ''Mission already has an ACTIVE Goal''
      else
        (let raw = dget (c_payload c) ''goal'';
             raw_definition = (if raw = JNull then JObj (filter (\<lambda>(k, v). k \<noteq> ''goal_id'') (c_payload c)) else raw)
         in case raw_definition of
              JObj d \<Rightarrow>
                Inr [\<lparr>pe_event_type = ''goal.created'', pe_entity_type = ''GOAL'', pe_entity_id = g,
                      pe_payload = [(''revision'', JInt 1), (''status'', JStr (goal_status_value Goal_ACTIVE)),
                                    (''definition'', JObj d)],
                      pe_session_id = None\<rparr>]
            | _ \<Rightarrow> runtime_error ''COMMAND_SCHEMA_INVALID'' ''payload.goal must be an object''))"

definition revise_goal_command :: "command_envelope \<Rightarrow> string \<Rightarrow> goal_state \<Rightarrow> pending_event list py" where
  "revise_goal_command c g existing =
     (let base = dget (c_payload c) ''base_revision'' in
      if \<not> is_int base then
        runtime_error ''COMMAND_SCHEMA_INVALID'' ''payload.base_revision must be an integer''
      else if \<not> py_eq base (JInt (gs_revision existing)) then
        runtime_error ''GOAL_REVISION_MISMATCH''
          (''expected Goal revision '' @ show_int (gs_revision existing) @ '', received '' @ py_str base)
      else
        (let given = dget_default (c_payload c) ''goal'' (dget (c_payload c) ''definition'');
             flattened = filter (\<lambda>(k, v). k \<notin> set [''goal_id'', ''base_revision'']) (c_payload c);
             definition_value =
               (if given = JNull then (if flattened = [] then JNull else JObj flattened) else given)
         in case definition_value of
              JObj d \<Rightarrow>
                Inr [\<lparr>pe_event_type = ''goal.revised'', pe_entity_type = ''GOAL'', pe_entity_id = g,
                      pe_payload = [(''base_revision'', base), (''revision'', JInt (gs_revision existing + 1)),
                                    (''definition'', JObj d)],
                      pe_session_id = None\<rparr>]
            | _ \<Rightarrow> runtime_error ''COMMAND_SCHEMA_INVALID'' ''REVISE_GOAL requires a full payload.goal object''))"

definition change_goal_status_command :: "command_envelope \<Rightarrow> string \<Rightarrow> goal_state \<Rightarrow> pending_event list py" where
  "change_goal_status_command c g existing =
     and_then (require_payload_text (c_payload c) ''status'') (\<lambda>raw.
     case GoalStatus raw of
       Inl _ \<Rightarrow> runtime_error ''COMMAND_SCHEMA_INVALID'' (''unsupported Goal status: '' @ raw)
     | Inr target \<Rightarrow>
         if target \<notin> set [Goal_ACHIEVED, Goal_CANCELLED] then
           invalid ''ACTIVE Goal may transition only to ACHIEVED or CANCELLED''
         else
           Inr [\<lparr>pe_event_type = ''goal.status_changed'', pe_entity_type = ''GOAL'', pe_entity_id = g,
                 pe_payload = [(''from_status'', JStr (goal_status_value (gs_status existing))),
                               (''to_status'', JStr (goal_status_value target))],
                 pe_session_id = None\<rparr>])"

definition goal_command :: "command_envelope \<Rightarrow> runtime_state \<Rightarrow> pending_event list py" where
  "goal_command c s =
     and_then (handler_mission s) (\<lambda>m.
     if ms_status m \<in> set MISSION_TERMINAL then invalid ''terminal Mission cannot mutate Goals''
     else
       and_then (require_payload_text (c_payload c) ''goal_id'') (\<lambda>g.
       if c_type c = ''CREATE_GOAL'' then create_goal_command c m g (goal_of s g)
       else
         (case goal_of s g of
            None \<Rightarrow> runtime_error ''GOAL_NOT_FOUND'' (''Goal not found: '' @ g)
          | Some existing \<Rightarrow>
              if gs_status existing \<noteq> Goal_ACTIVE then
                invalid ''terminal Goal cannot be revised or transitioned''
              else if c_type c = ''REVISE_GOAL'' then revise_goal_command c g existing
              else if c_type c = ''CHANGE_GOAL_STATUS'' then change_goal_status_command c g existing
              else runtime_error ''UNSUPPORTED_COMMAND_TYPE'' (''unsupported command: '' @ c_type c))))"

definition session_transition :: "string \<Rightarrow> (session_status list \<times> session_status \<times> string) option" where
  "session_transition t =
     map_of [(''SUSPEND_SESSION'', ([Session_OPEN], Session_SUSPENDED, ''session.suspended'')),
             (''CLOSE_SESSION'', ([Session_OPEN, Session_SUSPENDED], Session_CLOSED, ''session.closed'')),
             (''FAIL_SESSION'', ([Session_OPEN, Session_SUSPENDED], Session_FAILED, ''session.failed''))] t"

definition session_command :: "command_envelope \<Rightarrow> runtime_state \<Rightarrow> pending_event list py" where
  "session_command c s =
     and_then (handler_mission s) (\<lambda>_.
     case c_session_id c of
       None \<Rightarrow> runtime_error ''COMMAND_SCHEMA_INVALID'' ''session_id is required''
     | Some k \<Rightarrow>
         if \<not> nonblank k then runtime_error ''COMMAND_SCHEMA_INVALID'' ''session_id is required''
         else if c_type c = ''OPEN_SESSION'' then
           if session_of s k \<noteq> None then invalid ''Session already exists''
           else Inr [\<lparr>pe_event_type = ''session.opened'', pe_entity_type = ''SESSION'', pe_entity_id = k,
                      pe_payload = [(''attributes'', JObj (c_payload c))], pe_session_id = Some k\<rparr>]
         else
           (case session_of s k of
              None \<Rightarrow> runtime_error ''SESSION_NOT_FOUND'' (''Session not found: '' @ k)
            | Some existing \<Rightarrow>
                (case session_transition (c_type c) of
                   None \<Rightarrow> runtime_error ''UNSUPPORTED_COMMAND_TYPE'' (''unsupported command: '' @ c_type c)
                 | Some (sources, target, event_type) \<Rightarrow>
                     if ss_status existing \<notin> set sources then
                       invalid (cannot_apply (session_status_value (ss_status existing)) (c_type c))
                     else
                       Inr [\<lparr>pe_event_type = event_type, pe_entity_type = ''SESSION'', pe_entity_id = k,
                             pe_payload = [(''from_status'', JStr (session_status_value (ss_status existing))),
                                           (''to_status'', JStr (session_status_value target))],
                             pe_session_id = Some k\<rparr>])))"

definition handle :: "command_envelope \<Rightarrow> runtime_state \<Rightarrow> pending_event list py" where
  "handle c s =
     (if c_type c \<notin> set SUPPORTED_COMMANDS then
        runtime_error ''UNSUPPORTED_COMMAND_TYPE'' (''unsupported command: '' @ c_type c)
      else if c_type c = ''CREATE_MISSION'' then
        if rs_mission s \<noteq> None then
          runtime_error ''MISSION_ALREADY_EXISTS'' (''Mission already exists: '' @ c_mission_id c)
        else Inr [\<lparr>pe_event_type = ''mission.created'', pe_entity_type = ''MISSION'',
                   pe_entity_id = c_mission_id c, pe_payload = [(''attributes'', JObj (c_payload c))],
                   pe_session_id = None\<rparr>]
      else if c_type c \<in> set [''ACTIVATE_MISSION'', ''PAUSE_MISSION'', ''BLOCK_MISSION'', ''CONTINUE_MISSION'',
                              ''COMPLETE_MISSION'', ''FAIL_MISSION'', ''CANCEL_MISSION''] then
        mission_transition c s
      else if c_type c \<in> set [''CREATE_GOAL'', ''REVISE_GOAL'', ''CHANGE_GOAL_STATUS''] then
        goal_command c s
      else session_command c s)"

section \<open>Soundness for the reducer\<close>

text \<open>The event the bus makes of a pending event: it belongs to the state's mission, has the next
  sequence number and schema version 1, and carries the pending event's payload.\<close>

definition event_for :: "runtime_state \<Rightarrow> pending_event \<Rightarrow> event_envelope \<Rightarrow> bool" where
  "event_for s p e \<longleftrightarrow>
     ev_mission_id e = rs_mission_id s \<and> ev_seq e = rs_seq s + 1 \<and> ev_schema_version e = 1 \<and>
     ev_event_type e = pe_event_type p \<and> ev_entity_id e = pe_entity_id p \<and>
     ev_payload e = canon_dict (pe_payload p)"

lemma mission_target_edge:
  assumes "mission_target c s m = Inr (b, t)"
  shows "(\<exists>src. allowed_sources t = Inr src \<and> ms_status m \<in> set src) \<and> target_by_event t = Inr b \<and>
    (t = ''mission.activated'' \<longrightarrow> ms_active_goal_id m \<noteq> None) \<and>
    (t = ''mission.completed'' \<longrightarrow> has_achieved_goal s)"
proof -
  have "c_type c \<in> {''ACTIVATE_MISSION'', ''PAUSE_MISSION'', ''BLOCK_MISSION'', ''COMPLETE_MISSION'',
      ''CONTINUE_MISSION'', ''FAIL_MISSION'', ''CANCEL_MISSION''}"
    using assms by (simp add: mission_target_def transition_def split: if_split_asm)
  then show ?thesis using assms
    by (elim insertE emptyE)
       (clarsimp simp: mission_target_def transition_def invalid_def split: if_split_asm;
        simp add: allowed_sources_def target_by_event_def)+
qed

lemma target_supported:
  "target_by_event t = Inr b \<Longrightarrow>
     t \<in> set SUPPORTED_EVENTS \<and> t \<noteq> ''mission.created'' \<and> starts_with ''mission.'' t"
  by (clarsimp simp: target_by_event_def split: if_split_asm; simp add: SUPPORTED_EVENTS_def starts_with_def)

lemma mission_transition_sound:
  assumes "mission_transition c s = Inr ps"
  shows "\<exists>p. ps = [p] \<and> (\<forall>e. event_for s p e \<longrightarrow> (\<exists>s'. reduce s e = Inr s'))"
proof -
  obtain m target t where m: "rs_mission s = Some m" "mission_target c s m = Inr (target, t)"
    and p: "ps = [\<lparr>pe_event_type = t, pe_entity_type = ''MISSION'', pe_entity_id = c_mission_id c,
           pe_payload = [(''from_status'', JStr (mission_status_value (ms_status m))),
                         (''to_status'', JStr (mission_status_value target)),
                         (''reason'', dget (c_payload c) ''reason'')], pe_session_id = None\<rparr>]"
    using assms by (auto simp: mission_transition_def handler_mission_def res_simps split: option.splits)
  note edge = mission_target_edge [OF m(2)]
  note supported = target_supported [of t target]
  have "\<exists>y. reduce_mission_lifecycle s e = Inr y" if "ev_event_type e = t" for e
    using m edge that by (auto simp: reduce_mission_lifecycle_def require_mission_def)
  then show ?thesis using edge supported
    by (auto simp: p event_for_def reduce_Inr reduce_parts_def)
qed

lemma create_goal_sound:
  assumes "create_goal_command c m g (goal_of s g) = Inr ps" and "rs_mission s = Some m"
  shows "\<exists>p. ps = [p] \<and> (\<forall>e. event_for s p e \<longrightarrow> (\<exists>s'. reduce s e = Inr s'))"
proof -
  obtain d where free: "goal_of s g = None" "ms_active_goal_id m = None"
    and ps: "ps = [\<lparr>pe_event_type = ''goal.created'', pe_entity_type = ''GOAL'', pe_entity_id = g,
                pe_payload = [(''revision'', JInt 1), (''status'', JStr (goal_status_value Goal_ACTIVE)),
                              (''definition'', JObj d)], pe_session_id = None\<rparr>]"
    using assms(1) by (auto simp: create_goal_command_def Let_def split: if_splits json.splits)
  show ?thesis using free assms(2) GoalStatus_value [of Goal_ACTIVE]
    by (auto simp: ps event_for_def reduce_Inr reduce_parts_def reduce_goal_created_def require_mission_def
        SUPPORTED_EVENTS_def starts_with_def dget_canon_dict dget_default_canon)
qed

lemma is_int_py_eq: "is_int v \<Longrightarrow> py_eq v (JInt n) \<Longrightarrow> py_int v = Inr n"
  by (cases v) (auto simp: py_eq_def)

lemma canon_is_int: "is_int v \<Longrightarrow> canon v = v"
  by (cases v) auto

lemma revise_goal_sound:
  assumes "revise_goal_command c g old = Inr ps" and "rs_mission s = Some m"
    and "goal_of s g = Some old" and "gs_status old = Goal_ACTIVE"
  shows "\<exists>p. ps = [p] \<and> (\<forall>e. event_for s p e \<longrightarrow> (\<exists>s'. reduce s e = Inr s'))"
proof -
  obtain base d where base: "is_int base" "py_eq base (JInt (gs_revision old))"
    and ps: "ps = [\<lparr>pe_event_type = ''goal.revised'', pe_entity_type = ''GOAL'', pe_entity_id = g,
                pe_payload = [(''base_revision'', base), (''revision'', JInt (gs_revision old + 1)),
                              (''definition'', JObj d)], pe_session_id = None\<rparr>]"
    using assms(1) by (auto simp: revise_goal_command_def Let_def split: if_splits json.splits)
  have "py_int base = Inr (gs_revision old)" using base by (rule is_int_py_eq)
  then show ?thesis using assms(2-4) canon_is_int [OF base(1)]
    by (auto simp: ps event_for_def reduce_Inr reduce_parts_def reduce_goal_revised_def require_mission_def
        SUPPORTED_EVENTS_def starts_with_def dget_canon_dict dget_default_canon)
qed

lemma change_goal_status_sound:
  assumes "change_goal_status_command c g old = Inr ps" and "rs_mission s = Some m"
    and "goal_of s g = Some old" and "gs_status old = Goal_ACTIVE"
  shows "\<exists>p. ps = [p] \<and> (\<forall>e. event_for s p e \<longrightarrow> (\<exists>s'. reduce s e = Inr s'))"
proof -
  obtain target where target: "target = Goal_ACHIEVED \<or> target = Goal_CANCELLED"
    and ps: "ps = [\<lparr>pe_event_type = ''goal.status_changed'', pe_entity_type = ''GOAL'', pe_entity_id = g,
                pe_payload = [(''from_status'', JStr (goal_status_value (gs_status old))),
                              (''to_status'', JStr (goal_status_value target))], pe_session_id = None\<rparr>]"
    using assms(1) unfolding change_goal_status_command_def invalid_def and_then_Inr_iff
    by (elim exE conjE, case_tac "GoalStatus a") (auto split: if_split_asm)
  have "GoalStatus (goal_status_value target) = Inr target" by simp
  then show ?thesis using assms(2-4) target
    by (auto simp: ps event_for_def reduce_Inr reduce_parts_def reduce_goal_status_changed_def require_mission_def
        SUPPORTED_EVENTS_def starts_with_def dget_canon_dict simp del: GoalStatus_value goal_status_value.simps)
qed

lemma session_transition_edge:
  assumes "session_transition t = Some (src, b, ev)"
  shows "allowed_session_sources ev = Inr src \<and> session_target ev = Inr b \<and> ev \<in> set SUPPORTED_EVENTS
    \<and> \<not> starts_with ''mission.'' ev
    \<and> ev \<notin> {''mission.created'', ''goal.created'', ''goal.revised'', ''goal.status_changed'', ''session.opened''}"
  using assms
  by (clarsimp simp: session_transition_def split: if_split_asm;
      simp add: allowed_session_sources_def session_target_def SUPPORTED_EVENTS_def starts_with_def)

lemma session_command_sound:
  assumes "session_command c s = Inr ps"
  shows "\<exists>p. ps = [p] \<and> (\<forall>e. event_for s p e \<longrightarrow> (\<exists>s'. reduce s e = Inr s'))"
proof (cases "c_type c = ''OPEN_SESSION''")
  case True
  with assms obtain m k where m: "rs_mission s = Some m" "session_of s k = None"
    and ps: "ps = [\<lparr>pe_event_type = ''session.opened'', pe_entity_type = ''SESSION'', pe_entity_id = k,
                      pe_payload = [(''attributes'', JObj (c_payload c))], pe_session_id = Some k\<rparr>]"
    unfolding session_command_def handler_mission_def invalid_def
    by (cases "rs_mission s"; cases "c_session_id c") (simp_all add: and_then_Inr_iff split: if_split_asm)
  then show ?thesis
    by (simp add: ps event_for_def reduce_Inr reduce_parts_def
        reduce_session_opened_def require_mission_def SUPPORTED_EVENTS_def starts_with_def)
next
  case False
  with assms obtain m k x src b ev where m: "rs_mission s = Some m" "session_of s k = Some x"
      "session_transition (c_type c) = Some (src, b, ev)" "ss_status x \<in> set src"
    and ps: "ps = [\<lparr>pe_event_type = ev, pe_entity_type = ''SESSION'', pe_entity_id = k,
               pe_payload = [(''from_status'', JStr (session_status_value (ss_status x))),
                             (''to_status'', JStr (session_status_value b))], pe_session_id = Some k\<rparr>]"
    unfolding session_command_def handler_mission_def invalid_def
    by (cases "rs_mission s"; cases "c_session_id c") 
       (simp_all add: and_then_Inr_iff split: if_split_asm option.split_asm prod.split_asm)
  then show ?thesis using session_transition_edge [OF m(3)]
    by (auto simp: event_for_def reduce_Inr reduce_parts_def reduce_session_lifecycle_def require_mission_def)
qed

lemma goal_command_sound:
  assumes "goal_command c s = Inr ps"
  shows "\<exists>p. ps = [p] \<and> (\<forall>e. event_for s p e \<longrightarrow> (\<exists>s'. reduce s e = Inr s'))"
proof -
  obtain m where m: "rs_mission s = Some m"
    using assms unfolding goal_command_def handler_mission_def by (cases "rs_mission s") simp_all
  have "ms_status m \<notin> set MISSION_TERMINAL"
    using assms m by (simp add: goal_command_def handler_mission_def invalid_def split: if_split_asm)
  with assms m obtain g where
    rest: "(if c_type c = ''CREATE_GOAL'' then create_goal_command c m g (goal_of s g)
       else (case goal_of s g of
            None \<Rightarrow> runtime_error ''GOAL_NOT_FOUND'' (''Goal not found: '' @ g)
          | Some existing \<Rightarrow>
              if gs_status existing \<noteq> Goal_ACTIVE then
                invalid ''terminal Goal cannot be revised or transitioned''
              else if c_type c = ''REVISE_GOAL'' then revise_goal_command c g existing
              else if c_type c = ''CHANGE_GOAL_STATUS'' then change_goal_status_command c g existing
              else runtime_error ''UNSUPPORTED_COMMAND_TYPE'' (''unsupported command: '' @ c_type c))) = Inr ps"
    unfolding goal_command_def handler_mission_def
    by (auto simp only: option.case and_then_Inr_iff if_False)
  show ?thesis
  proof (cases "c_type c = ''CREATE_GOAL''")
    case True
    with rest m show ?thesis by (simp add: create_goal_sound)
  next
    case False
    with rest obtain old where old: "goal_of s g = Some old" "gs_status old = Goal_ACTIVE" and
      "revise_goal_command c g old = Inr ps \<or> change_goal_status_command c g old = Inr ps"
      unfolding invalid_def by (simp split: option.split_asm if_split_asm)
    then show ?thesis using m revise_goal_sound change_goal_status_sound by blast
  qed
qed

lemma handle_sound:
  assumes "handle c s = Inr ps" and "core_inv s"
  shows "\<exists>p. ps = [p] \<and> (\<forall>e. event_for s p e \<longrightarrow> (\<exists>s'. reduce s e = Inr s'))"
proof (cases "c_type c = ''CREATE_MISSION''")
  case True
  with assms(1) have "rs_mission s = None" and
    ps: "ps = [\<lparr>pe_event_type = ''mission.created'', pe_entity_type = ''MISSION'', pe_entity_id = c_mission_id c,
              pe_payload = [(''attributes'', JObj (c_payload c))], pe_session_id = None\<rparr>]"
    by (simp_all add: handle_def SUPPORTED_COMMANDS_def split: if_split_asm)
  then show ?thesis using assms(2)
    by (simp add: core_inv_def event_for_def reduce_Inr reduce_parts_def reduce_mission_created_def SUPPORTED_EVENTS_def)
next
  case False
  with assms(1) have "mission_transition c s = Inr ps \<or> goal_command c s = Inr ps \<or> session_command c s = Inr ps"
    unfolding handle_def by (simp only: if_False sum.distinct split: if_split_asm) simp_all
  then show ?thesis using mission_transition_sound goal_command_sound session_command_sound by blast
qed

text \<open>A core command produces core events only.\<close>

lemma event_for_exists: "\<exists>e. event_for s p e"
  by (rule exI [of _ "\<lparr>ev_event_id = [], ev_mission_id = rs_mission_id s, ev_seq = rs_seq s + 1, ev_event_type = pe_event_type p,
        ev_entity_type = [], ev_entity_id = pe_entity_id p, ev_command_id = [], ev_correlation_id = [], ev_initiator_type = [],
        ev_initiator_id = [], ev_payload = canon_dict (pe_payload p), ev_created_at = [], ev_session_id = None, ev_schema_version = 1\<rparr>"])
     (simp add: event_for_def)

lemma handle_event_types:
  assumes "handle c s = Inr ps" and "p \<in> set ps"
  shows "pe_event_type p \<in> set SUPPORTED_EVENTS"
proof (cases "c_type c = ''CREATE_MISSION''")
  case True
  with assms show ?thesis by (auto simp: handle_def SUPPORTED_COMMANDS_def SUPPORTED_EVENTS_def split: if_split_asm)
next
  case False
  with assms(1) have "mission_transition c s = Inr ps \<or> goal_command c s = Inr ps \<or> session_command c s = Inr ps"
    unfolding handle_def by (simp only: if_False sum.distinct split: if_split_asm) simp_all
  then have "\<exists>p. ps = [p] \<and> (\<forall>e. event_for s p e \<longrightarrow> (\<exists>s'. reduce s e = Inr s'))"
    using mission_transition_sound goal_command_sound session_command_sound by blast
  then obtain e s' where "event_for s p e" "reduce s e = Inr s'"
    using assms(2) event_for_exists [of s p] by (metis empty_iff empty_set set_ConsD)
  then show ?thesis using reduce_supported [of s e s'] by (simp add: event_for_def)
qed

end
