(* ===== verification/Database.thy ===== *)
theory Database
  imports CanonicalJson
begin

text \<open>
  The part of SQLite and of Python's \<open>sqlite3\<close> module that the runtime uses: tables of rows, the
  constraints of a table's definition, the statements the source issues, the authorizer hook, and
  the transaction that rolls back on an exception.

  A row is a dictionary from column to value.  A database is its schema objects, keyed as in
  \<open>sqlite_master\<close> by \<open>(type, name, tbl_name)\<close>, and the rows of every table in insertion order.
  Statements are values: a callback of an extension is the list of statements it executes and what
  it returns.  File access, locking and the pragmas of \<open>connect\<close> are not modelled; foreign keys are
  enforced, as \<open>PRAGMA foreign_keys=ON\<close> has it.
\<close>

section \<open>Schema and rows\<close>

type_synonym conds = "(string \<times> json) list"

text \<open>Columns with their \<open>NOT NULL\<close> flag, primary and unique keys, foreign keys
  \<open>(column, table, column)\<close>, and \<open>CHECK (column IN values)\<close>.\<close>

record table_def =
  td_columns :: "(string \<times> bool) list"
  td_keys :: "string list list"
  td_refs :: "(string \<times> string \<times> string) list"
  td_checks :: "(string \<times> json list) list"

text \<open>A unique index may be partial (\<open>WHERE\<close> conditions); a trigger aborts the statements of one
  kind on its table.\<close>

datatype object_def =
    TableDef table_def
  | UniqueIndexDef "string list" conds
  | AbortTriggerDef string string
  | OtherDef string

type_synonym object_key = "string \<times> string \<times> string"

record db =
  db_schema :: "(object_key \<times> object_def) list"
  db_rows :: "string \<Rightarrow> dict list"

definition empty_db :: db where
  "empty_db = \<lparr>db_schema = [], db_rows = (\<lambda>_. [])\<rparr>"

definition table_of :: "db \<Rightarrow> string \<Rightarrow> table_def option" where
  "table_of d t =
     (case map_of (db_schema d) (''table'', t, t) of Some (TableDef td) \<Rightarrow> Some td | _ \<Rightarrow> None)"

text \<open>The keys that must be unique among the rows a condition selects.\<close>

definition unique_keys :: "db \<Rightarrow> string \<Rightarrow> (string list \<times> conds) list" where
  "unique_keys d t =
     (case table_of d t of None \<Rightarrow> [] | Some td \<Rightarrow> map (\<lambda>k. (k, [])) (td_keys td)) @
     concat (map (\<lambda>((kind, name, tbl), def).
        case def of UniqueIndexDef cols cs \<Rightarrow> (if tbl = t then [(cols, cs)] else []) | _ \<Rightarrow> [])
        (db_schema d))"

definition abort_message :: "db \<Rightarrow> string \<Rightarrow> string \<Rightarrow> string option" where
  "abort_message d t action =
     (case concat (map (\<lambda>((kind, name, tbl), def).
        case def of AbortTriggerDef a m \<Rightarrow> (if tbl = t \<and> a = action then [m] else []) | _ \<Rightarrow> [])
        (db_schema d)) of [] \<Rightarrow> None | m # _ \<Rightarrow> Some m)"

text \<open>\<open>c1 = v1 AND c2 = v2\<close>; a comparison with \<open>NULL\<close> is never true.\<close>

definition row_matches :: "conds \<Rightarrow> dict \<Rightarrow> bool" where
  "row_matches cs r = list_all (\<lambda>(c, v). v \<noteq> JNull \<and> dget r c = v) cs"

definition select_rows :: "db \<Rightarrow> string \<Rightarrow> conds \<Rightarrow> dict list" where
  "select_rows d t cs = filter (row_matches cs) (db_rows d t)"

definition same_key :: "string list \<Rightarrow> conds \<Rightarrow> dict \<Rightarrow> dict \<Rightarrow> bool" where
  "same_key cols cs r q =
     (row_matches cs r \<and> row_matches cs q \<and>
      list_all (\<lambda>c. dget r c \<noteq> JNull \<and> dget r c = dget q c) cols)"

definition has_conflict :: "db \<Rightarrow> string \<Rightarrow> dict \<Rightarrow> bool" where
  "has_conflict d t r =
     list_ex (\<lambda>(cols, cs). list_ex (same_key cols cs r) (db_rows d t)) (unique_keys d t)"

text \<open>The constraints of a row by itself: known columns, \<open>NOT NULL\<close>, \<open>CHECK\<close>, foreign keys.\<close>

definition row_ok :: "db \<Rightarrow> table_def \<Rightarrow> dict \<Rightarrow> bool" where
  "row_ok d td r =
     (list_all (\<lambda>(c, required). required \<longrightarrow> dget r c \<noteq> JNull) (td_columns td) \<and>
      list_all (\<lambda>(c, vs). dget r c \<in> set vs) (td_checks td) \<and>
      list_all (\<lambda>(c, t, k). dget r c = JNull \<or> list_ex (\<lambda>q. dget q k = dget r c) (db_rows d t)) (td_refs td))"

section \<open>Statements\<close>

datatype sql =
    SqlInsert string dict
  | SqlDelete string conds
  | SqlUpdate string conds dict
  | SqlCreate string string string object_def
  | SqlDrop string string string
  | SqlAlter string object_def
  | SqlControl string

definition put_row :: "dict \<Rightarrow> dict \<Rightarrow> dict" where
  "put_row changes r = changes @ filter (\<lambda>(k, _). k \<notin> fst ` set changes) r"

definition insert_row :: "db \<Rightarrow> string \<Rightarrow> dict \<Rightarrow> db py" where
  "insert_row d t r =
     (case table_of d t of
        None \<Rightarrow> Inl (OperationalErr (''no such table: '' @ t))
      | Some td \<Rightarrow>
          if \<not> list_all (\<lambda>(k, _). k \<in> fst ` set (td_columns td)) r then
            Inl (OperationalErr (''table '' @ t @ '' has no such column''))
          else if \<not> row_ok d td r then Inl (IntegrityErr (''constraint failed: '' @ t))
          else if has_conflict d t r then Inl (IntegrityErr (''UNIQUE constraint failed: '' @ t))
          else Inr (d\<lparr>db_rows := (db_rows d)(t := db_rows d t @ [r])\<rparr>))"

definition delete_rows :: "db \<Rightarrow> string \<Rightarrow> conds \<Rightarrow> db py" where
  "delete_rows d t cs =
     (if table_of d t = None then Inl (OperationalErr (''no such table: '' @ t))
      else case abort_message d t ''DELETE'' of
        Some m \<Rightarrow>
          if select_rows d t cs = [] then Inr d else Inl (IntegrityErr m)
      | None \<Rightarrow> Inr (d\<lparr>db_rows := (db_rows d)(t := filter (\<lambda>r. \<not> row_matches cs r) (db_rows d t))\<rparr>))"

text \<open>An update that a key or a row constraint forbids is refused as a whole.\<close>

definition update_rows :: "db \<Rightarrow> string \<Rightarrow> conds \<Rightarrow> dict \<Rightarrow> db py" where
  "update_rows d t cs changes =
     (case table_of d t of
        None \<Rightarrow> Inl (OperationalErr (''no such table: '' @ t))
      | Some td \<Rightarrow>
          if select_rows d t cs = [] then Inr d
          else (case abort_message d t ''UPDATE'' of
            Some m \<Rightarrow> Inl (IntegrityErr m)
          | None \<Rightarrow>
              (let new = map (\<lambda>r. if row_matches cs r then put_row changes r else r) (db_rows d t);
                   unique = (\<lambda>(cols, wh). \<forall>i < length new. \<forall>j < i. \<not> same_key cols wh (new ! j) (new ! i))
               in if list_all (row_ok d td) new \<and> list_all unique (unique_keys d t)
                  then Inr (d\<lparr>db_rows := (db_rows d)(t := new)\<rparr>)
                  else Inl (IntegrityErr (''constraint failed: '' @ t)))))"

fun exec_sql :: "db \<Rightarrow> sql \<Rightarrow> db py" where
  "exec_sql d (SqlInsert t r) = insert_row d t r"
| "exec_sql d (SqlDelete t cs) = delete_rows d t cs"
| "exec_sql d (SqlUpdate t cs changes) = update_rows d t cs changes"
| "exec_sql d (SqlCreate kind name tbl def) =
     (if kind = ''table'' \<and> name \<noteq> tbl then Inl (OperationalErr ''syntax error'')
      else if map_of (db_schema d) (kind, name, tbl) \<noteq> None
      then Inl (OperationalErr (kind @ '' '' @ name @ '' already exists''))
      else Inr (d\<lparr>db_schema := db_schema d @ [((kind, name, tbl), def)]\<rparr>))"
| "exec_sql d (SqlDrop kind name tbl) =
     (if kind = ''table'' \<and> name \<noteq> tbl then Inl (OperationalErr ''syntax error'')
      else if map_of (db_schema d) (kind, name, tbl) = None
      then Inl (OperationalErr (''no such '' @ kind @ '': '' @ name))
      else if kind = ''table''
      then Inr (d\<lparr>db_schema := filter (\<lambda>((k, n, t), _). t \<noteq> tbl) (db_schema d),
                 db_rows := (db_rows d)(tbl := [])\<rparr>)
      else Inr (d\<lparr>db_schema := filter (\<lambda>(k, _). k \<noteq> (kind, name, tbl)) (db_schema d)\<rparr>))"
| "exec_sql d (SqlAlter t def) =
     (if table_of d t = None then Inl (OperationalErr (''no such table: '' @ t))
      else Inr (d\<lparr>db_schema := AList.update (''table'', t, t) def (db_schema d)\<rparr>))"
| "exec_sql d (SqlControl action) = Inr d"

text \<open>A table is its own \<open>tbl_name\<close>.\<close>

definition schema_ok :: "db \<Rightarrow> bool" where
  "schema_ok d = list_all (\<lambda>((kind, name, tbl), def). kind = ''table'' \<longrightarrow> name = tbl) (db_schema d)"

text \<open>\<open>CREATE ... IF NOT EXISTS\<close> and \<open>INSERT OR IGNORE\<close>\<close>

definition create_if_missing :: "db \<Rightarrow> object_key \<times> object_def \<Rightarrow> db" where
  "create_if_missing d p =
     (if map_of (db_schema d) (fst p) \<noteq> None then d else d\<lparr>db_schema := db_schema d @ [p]\<rparr>)"

definition insert_or_ignore :: "db \<Rightarrow> string \<Rightarrow> dict \<Rightarrow> db" where
  "insert_or_ignore d t r = (case insert_row d t r of Inl _ \<Rightarrow> d | Inr d' \<Rightarrow> d')"

section \<open>Authorizer\<close>

text \<open>The actions SQLite asks the authorizer about while it compiles a statement, with their first
  two arguments: the table of a row operation; for schema operations the object (and the table of
  an index, the table of an \<open>ALTER\<close>), together with the accesses to \<open>sqlite_master\<close> they imply.\<close>

type_synonym action = "string \<times> string \<times> string"

definition create_action :: "string \<Rightarrow> string" where
  "create_action kind =
     (if kind = ''table'' then ''SQLITE_CREATE_TABLE'' else if kind = ''index'' then ''SQLITE_CREATE_INDEX''
      else if kind = ''trigger'' then ''SQLITE_CREATE_TRIGGER'' else ''SQLITE_CREATE_VIEW'')"

definition drop_action :: "string \<Rightarrow> string" where
  "drop_action kind =
     (if kind = ''table'' then ''SQLITE_DROP_TABLE'' else if kind = ''index'' then ''SQLITE_DROP_INDEX''
      else if kind = ''trigger'' then ''SQLITE_DROP_TRIGGER'' else ''SQLITE_DROP_VIEW'')"

fun sql_actions :: "sql \<Rightarrow> action list" where
  "sql_actions (SqlInsert t r) = [(''SQLITE_INSERT'', t, [])]"
| "sql_actions (SqlDelete t cs) = [(''SQLITE_DELETE'', t, [])]"
| "sql_actions (SqlUpdate t cs changes) = map (\<lambda>(c, _). (''SQLITE_UPDATE'', t, c)) changes"
| "sql_actions (SqlCreate kind name tbl def) =
     [(''SQLITE_INSERT'', ''sqlite_master'', []),
      (create_action kind, name, if kind = ''table'' then [] else tbl)]"
| "sql_actions (SqlDrop kind name tbl) =
     [(''SQLITE_DELETE'', ''sqlite_master'', []),
      (drop_action kind, name, if kind = ''table'' then [] else tbl)] @
     (if kind = ''table'' then [(''SQLITE_DELETE'', tbl, [])] else [])"
| "sql_actions (SqlAlter t def) =
     [(''SQLITE_ALTER_TABLE'', ''main'', t), (''SQLITE_UPDATE'', ''sqlite_master'', ''sql'')]"
| "sql_actions (SqlControl a) = [(a, [], [])]"

definition run_sql :: "(action \<Rightarrow> bool) \<Rightarrow> db \<Rightarrow> sql \<Rightarrow> db py" where
  "run_sql allowed d q =
     (if list_all allowed (sql_actions q) then exec_sql d q else Inl (DatabaseErr ''not authorized''))"

text \<open>A callback: the statements it executes in order, then its own result or exception.  The
  exception of a statement ends it.\<close>

type_synonym 'r callback = "sql list \<times> 'r py"

definition run_callback :: "(action \<Rightarrow> bool) \<Rightarrow> db \<Rightarrow> 'r callback \<Rightarrow> (db \<times> 'r) py" where
  "run_callback allowed d c =
     and_then (fold_res (run_sql allowed) d (fst c)) (\<lambda>d'. and_then (snd c) (\<lambda>r. Inr (d', r)))"

section \<open>Errors\<close>

fun is_database_error :: "exn \<Rightarrow> bool" where
  "is_database_error (DatabaseErr _) = True"
| "is_database_error (OperationalErr _) = True"
| "is_database_error (IntegrityErr _) = True"
| "is_database_error _ = False"

fun database_message :: "exn \<Rightarrow> string" where
  "database_message (DatabaseErr m) = m"
| "database_message (OperationalErr m) = m"
| "database_message (IntegrityErr m) = m"
| "database_message _ = []"

text \<open>\<open>sub in text\<close> and \<open>text.lower()\<close>\<close>

fun contains_text :: "string \<Rightarrow> string \<Rightarrow> bool" where
  "contains_text sub [] = (sub = [])"
| "contains_text sub (c # cs) = (starts_with sub (c # cs) \<or> contains_text sub cs)"

definition lower_char :: "char \<Rightarrow> char" where
  "lower_char c = (let n = of_char c :: nat in if 65 \<le> n \<and> n \<le> 90 then char_of (n + 32) else c)"

lemma lower_char_code [code]:
  "lower_char (Char b0 b1 b2 b3 b4 b5 b6 b7) =
     (if \<not> b7 \<and> b6 \<and> \<not> b5 \<and> (b4 \<or> b3 \<or> b2 \<or> b1 \<or> b0) \<and> \<not> (b4 \<and> b3 \<and> (b2 \<or> b1 \<and> b0))
      then Char b0 b1 b2 b3 b4 True b6 b7 else Char b0 b1 b2 b3 b4 b5 b6 b7)"
  by (cases b0; cases b1; cases b2; cases b3; cases b4; cases b5; cases b6; cases b7; simp add: lower_char_def char_of_def bit_0)

definition lower :: "string \<Rightarrow> string" where
  "lower s = map lower_char s"

text \<open>A column read from a row that the schema declares \<open>TEXT NOT NULL\<close>, \<open>TEXT\<close> or \<open>INTEGER\<close>.\<close>

fun as_text :: "json \<Rightarrow> string py" where
  "as_text (JStr s) = Inr s"
| "as_text _ = Inl (TypeErr ''expected text'')"

section \<open>Transactions\<close>

text \<open>\<open>with immediate_transaction(conn)\<close>: a block either commits its database or, when it raises,
  leaves the one before.\<close>

definition immediate_transaction :: "db \<Rightarrow> (db \<Rightarrow> (db \<times> 'r) py) \<Rightarrow> db \<times> 'r py" where
  "immediate_transaction d block =
     (case block d of Inl e \<Rightarrow> (d, Inl e) | Inr (d', r) \<Rightarrow> (d', Inr r))"

section \<open>What statements leave alone\<close>

lemma insert_row_Inr:
  "insert_row d t r = Inr d' \<longleftrightarrow>
     (\<exists>td. table_of d t = Some td \<and> list_all (\<lambda>(k, _). k \<in> fst ` set (td_columns td)) r \<and> row_ok d td r) \<and>
     \<not> has_conflict d t r \<and> d' = d\<lparr>db_rows := (db_rows d)(t := db_rows d t @ [r])\<rparr>"
  by (auto simp: insert_row_def split: option.split)

lemma insert_row_other: "insert_row d t r = Inr d' \<Longrightarrow> u \<noteq> t \<Longrightarrow> db_rows d' u = db_rows d u"
  by (auto simp: insert_row_Inr)

lemma insert_row_schema: "insert_row d t r = Inr d' \<Longrightarrow> db_schema d' = db_schema d"
  by (auto simp: insert_row_Inr)

lemma delete_rows_other: "delete_rows d t cs = Inr d' \<Longrightarrow> u \<noteq> t \<Longrightarrow> db_rows d' u = db_rows d u"
  by (auto simp: delete_rows_def split: if_split_asm option.split_asm)

lemma delete_rows_schema: "delete_rows d t cs = Inr d' \<Longrightarrow> db_schema d' = db_schema d"
  by (auto simp: delete_rows_def split: if_split_asm option.split_asm)

lemma update_rows_other: "update_rows d t cs ch = Inr d' \<Longrightarrow> u \<noteq> t \<Longrightarrow> db_rows d' u = db_rows d u"
  by (auto simp: update_rows_def Let_def split: if_split_asm option.split_asm)

lemma update_rows_schema: "update_rows d t cs ch = Inr d' \<Longrightarrow> db_schema d' = db_schema d"
  by (auto simp: update_rows_def Let_def split: if_split_asm option.split_asm)

lemmas row_frame = insert_row_other delete_rows_other update_rows_other
lemmas schema_frame = insert_row_schema delete_rows_schema update_rows_schema

text \<open>The table a row operation works on, and the statements that are row operations.\<close>

fun target_table :: "sql \<Rightarrow> string option" where
  "target_table (SqlInsert t r) = Some t"
| "target_table (SqlDelete t cs) = Some t"
| "target_table (SqlUpdate t cs ch) = Some t"
| "target_table _ = None"

lemma exec_row_statement:
  assumes "exec_sql d q = Inr d'" and "target_table q = Some t"
  shows "db_schema d' = db_schema d" and "u \<noteq> t \<Longrightarrow> db_rows d' u = db_rows d u"
  using assms by (cases q; auto dest: row_frame schema_frame)+

lemma table_of_frame: "db_schema d' = db_schema d \<Longrightarrow> table_of d' t = table_of d t"
  by (simp add: table_of_def)

lemma unique_keys_frame: "db_schema d' = db_schema d \<Longrightarrow> unique_keys d' t = unique_keys d t"
  by (simp add: unique_keys_def table_of_def)

lemma abort_message_frame: "db_schema d' = db_schema d \<Longrightarrow> abort_message d' t a = abort_message d t a"
  by (simp add: abort_message_def)

lemma select_rows_insert:
  "insert_row d t r = Inr d' \<Longrightarrow>
     select_rows d' t cs = select_rows d t cs @ (if row_matches cs r then [r] else [])"
  by (auto simp: insert_row_Inr select_rows_def)

lemma select_rows_frame: "db_rows d' t = db_rows d t \<Longrightarrow> select_rows d' t cs = select_rows d t cs"
  by (simp add: select_rows_def)

text \<open>An authorizer confines row changes to a set of tables when it allows no write elsewhere.\<close>

definition confines :: "(action \<Rightarrow> bool) \<Rightarrow> string set \<Rightarrow> bool" where
  "confines allowed T \<longleftrightarrow>
     (\<forall>a \<in> {''SQLITE_INSERT'', ''SQLITE_DELETE'', ''SQLITE_UPDATE''}. \<forall>t x. allowed (a, t, x) \<longrightarrow> t \<in> T)"

lemma put_row_Nil [simp]: "put_row [] r = r"
  by (simp add: put_row_def)

lemma update_nothing: "update_rows d t cs [] = Inr d' \<Longrightarrow> db_rows d' u = db_rows d u"
  unfolding update_rows_def put_row_Nil if_cancel list.map_ident
  by (auto simp: Let_def split: if_split_asm option.split_asm)

lemma run_sql_confined:
  assumes "run_sql allowed d q = Inr d'" and "confines allowed T" and "u \<notin> T"
  shows "db_rows d' u = db_rows d u"
proof (cases q)
  case (SqlUpdate t cs changes)
  then show ?thesis
    using assms by (cases changes) (auto simp: run_sql_def confines_def split: if_split_asm
        dest: update_rows_other update_nothing)
qed (use assms in \<open>auto simp: run_sql_def confines_def split: if_split_asm intro: row_frame\<close>)

lemma run_callback_confined:
  assumes "run_callback allowed d c = Inr (d', r)" and "confines allowed T" and "u \<notin> T"
  shows "db_rows d' u = db_rows d u"
proof -
  have "fold_res (run_sql allowed) d (fst c) = Inr d'"
    using assms(1) by (auto simp: run_callback_def and_then_Inr_iff)
  then show ?thesis
    by (rule fold_res_inv [where P = "\<lambda>d'. db_rows d' u = db_rows d u", rotated 2])
       (simp_all add: run_sql_confined [OF _ assms(2,3)])
qed

lemma run_callback_inv:
  assumes "run_callback allowed d c = Inr (d', r)" and "P d"
    and "\<And>d q d'. run_sql allowed d q = Inr d' \<Longrightarrow> P d \<Longrightarrow> P d'"
  shows "P d'"
proof -
  have "fold_res (run_sql allowed) d (fst c) = Inr d'"
    using assms(1) by (auto simp: run_callback_def and_then_Inr_iff)
  then show ?thesis
    by (rule fold_res_inv [where P = P, rotated 2]) (use assms in blast)+
qed

lemma set_alist_update: "p \<in> set (AList.update k v xs) \<Longrightarrow> p = (k, v) \<or> p \<in> set xs"
  by (induction xs) (auto split: if_splits)

lemma exec_sql_schema_ok:
  assumes "exec_sql d q = Inr d'" and ok: "schema_ok d"
  shows "schema_ok d'"
proof (cases "target_table q")
  case (Some t)
  then have "db_schema d' = db_schema d" using exec_row_statement(1) assms(1) by blast
  then show ?thesis using ok by (simp add: schema_ok_def)
next
  case None
  have ok': "\<And>n b def. ((''table'', n, b), def) \<in> set (db_schema d) \<Longrightarrow> n = b"
    using ok by (auto simp: schema_ok_def list_all_iff)
  have "n = b" if "((''table'', n, b), def) \<in> set (db_schema d')" for n b def
    using that None assms(1) by (cases q) (auto split: if_split_asm intro: ok' dest!: set_alist_update)
  then show ?thesis by (auto simp: schema_ok_def list_all_iff)
qed

text \<open>An authorizer that allows no schema operation keeps the schema.\<close>

definition keeps_schema :: "(action \<Rightarrow> bool) \<Rightarrow> bool" where
  "keeps_schema allowed \<longleftrightarrow>
     (\<forall>kind x y. \<not> allowed (create_action kind, x, y) \<and> \<not> allowed (drop_action kind, x, y)) \<and>
     (\<forall>x y. \<not> allowed (''SQLITE_ALTER_TABLE'', x, y))"

lemma run_sql_keeps_schema:
  "run_sql allowed d q = Inr d' \<Longrightarrow> keeps_schema allowed \<Longrightarrow> db_schema d' = db_schema d"
  by (cases q) (auto simp: run_sql_def keeps_schema_def split: if_split_asm dest: schema_frame)

lemma run_callback_keeps_schema:
  assumes "run_callback allowed d c = Inr (d', r)" and "keeps_schema allowed"
  shows "db_schema d' = db_schema d"
proof -
  have "fold_res (run_sql allowed) d (fst c) = Inr d'"
    using assms(1) by (auto simp: run_callback_def and_then_Inr_iff)
  then show ?thesis
    by (rule fold_res_inv [where P = "\<lambda>d'. db_schema d' = db_schema d", rotated 2])
       (simp_all add: run_sql_keeps_schema [OF _ assms(2)])
qed

end
