(* ===== verification/Registry.thy ===== *)
theory Registry
  imports CoreReducer CoreHandlers Database
begin

text \<open>
  The extension registry and the composed state: \<open>ComposedRuntimeState\<close>, \<open>MigrationStep\<close>,
  \<open>ExtensionManifest\<close> and \<open>ExtensionRegistry\<close> of durable_core/contracts.py, and
  \<open>initial_composed_state\<close> and \<open>reduce_composed\<close> of durable_core/reducer.py.

  A manifest is the record of an extension's contributions; its methods are functions over the
  type \<open>'x\<close> of extension states, and \<open>x_to_dict\<close> is the \<open>to_dict\<close> of the state objects themselves.  What the registry's constructor checks with \<open>callable\<close> and
  \<open>isinstance\<close> is typing here; everything it checks of values is a branch of the model.
\<close>

section \<open>Composed state\<close>

record 'x composed_state =
  cs_mission_id :: string
  cs_seq :: int
  cs_core_state :: runtime_state
  cs_extension_states :: "(string \<times> 'x) list"

definition make_ComposedRuntimeState ::
  "string \<Rightarrow> int \<Rightarrow> runtime_state \<Rightarrow> (string \<times> 'x) list \<Rightarrow> 'x composed_state py" where
  "make_ComposedRuntimeState m n core ext =
     and_then (require_id ''mission_id'' m) (\<lambda>_.
     if n < 0 then Inl (ValueErr ''seq must be non-negative'')
     else if rs_mission_id core \<noteq> m \<or> rs_seq core \<noteq> n then
       Inl (ValueErr ''core_state must share the composed mission_id and seq'')
     else Inr \<lparr>cs_mission_id = m, cs_seq = n, cs_core_state = core, cs_extension_states = ext\<rparr>)"

definition not_registered :: "string \<Rightarrow> 'a py" where
  "not_registered i = runtime_error ''EXTENSION_NOT_REGISTERED'' (''Extension not registered: '' @ i)"

definition extension_state :: "'x composed_state \<Rightarrow> string \<Rightarrow> 'x py" where
  "extension_state s i =
     (case map_of (cs_extension_states s) i of None \<Rightarrow> not_registered i | Some x \<Rightarrow> Inr x)"

section \<open>Manifests\<close>

record migration_step =
  mg_version :: int
  mg_checksum :: string
  mg_apply :: "unit callback"

definition is_lower_hex :: "char \<Rightarrow> bool" where
  "is_lower_hex c = (c \<in> set ''0123456789abcdef'')"

definition make_MigrationStep :: "int \<Rightarrow> string \<Rightarrow> unit callback \<Rightarrow> migration_step py" where
  "make_MigrationStep v digest ap =
     (if v < 1 then runtime_error ''EXTENSION_MIGRATION_INVALID'' ''migration version must be a positive integer''
      else if length digest \<noteq> 64 \<or> \<not> list_all is_lower_hex (lower digest) then
        runtime_error ''EXTENSION_MIGRATION_INVALID'' ''migration checksum must be a SHA-256 hex digest''
      else Inr \<lparr>mg_version = v, mg_checksum = digest, mg_apply = ap\<rparr>)"

record 'x manifest =
  x_extension_id :: string
  x_extension_version :: string
  x_command_types :: "string list"
  x_event_types :: "string list"
  x_initial_state :: "string \<Rightarrow> 'x py"
  x_to_dict :: "'x \<Rightarrow> dict py"
  x_encode :: "'x \<Rightarrow> dict py"
  x_decode :: "dict \<Rightarrow> 'x py"
  x_hash :: "'x \<Rightarrow> string py"
  x_handle :: "command_envelope \<Rightarrow> 'x composed_state \<Rightarrow> pending_event list py"
  x_reduce :: "'x \<Rightarrow> event_envelope \<Rightarrow> runtime_state \<Rightarrow> 'x py"
  x_projection_tables :: "string list option"
  x_apply :: "db \<Rightarrow> 'x composed_state \<Rightarrow> unit callback"
  x_read :: "db \<Rightarrow> string \<Rightarrow> 'x callback"
  x_clear :: "db \<Rightarrow> string option \<Rightarrow> unit callback"
  x_verify :: "'x \<Rightarrow> 'x option \<Rightarrow> dict py"
  x_projection_seq :: "(db \<Rightarrow> string \<Rightarrow> int option callback) option"
  x_migration_owner :: "string option"
  x_migrations :: "migration_step list"

text \<open>\<open>ExtensionManifest.__post_init__\<close>: the check of a manifest that its class constructs.\<close>

definition make_ExtensionManifest :: "'x manifest \<Rightarrow> 'x manifest py" where
  "make_ExtensionManifest x =
     (if \<not> nonblank (x_extension_id x) then
        runtime_error ''EXTENSION_MANIFEST_INVALID'' ''extension_id must be a non-empty string''
      else if \<not> nonblank (x_extension_version x) then
        runtime_error ''EXTENSION_MANIFEST_INVALID'' ''extension_version must be a non-empty string''
      else if x_command_types x = [] \<or> x_event_types x = [] then
        runtime_error ''EXTENSION_MANIFEST_INVALID''
          ''extension command_types and event_types must be non-empty''
      else Inr x)"

section \<open>Registry\<close>

record 'x registry =
  r_core_command_types :: "string list"
  r_core_event_types :: "string list"
  r_manifests :: "'x manifest list"
  r_by_id :: "(string \<times> 'x manifest) list"
  r_command_owners :: "(string \<times> 'x manifest) list"
  r_event_owners :: "(string \<times> 'x manifest) list"
  r_table_owners :: "(string \<times> 'x manifest) list"

definition CORE_PROJECTION_TABLES :: "string list" where
  "CORE_PROJECTION_TABLES =
     [''commands'', ''events'', ''schema_migrations'', ''mission_projection'', ''goal_projection'',
      ''session_projection'']"

text \<open>\<open>str.isidentifier\<close> for ASCII text.\<close>

definition ident_start :: "char \<Rightarrow> bool" where
  "ident_start c = (let n = of_char c :: nat in n = 95 \<or> (65 \<le> n \<and> n \<le> 90) \<or> (97 \<le> n \<and> n \<le> 122))"

lemma ident_start_code [code]:
  "ident_start (Char b0 b1 b2 b3 b4 b5 b6 b7) \<longleftrightarrow>
     \<not> b7 \<and> b6 \<and> (b4 \<or> b3 \<or> b2 \<or> b1 \<or> b0) \<and> (if b4 \<and> b3 \<and> (b2 \<or> b1 \<and> b0) then \<not> b5 \<and> b2 \<and> b1 \<and> b0 else True)"
  by (cases b0; cases b1; cases b2; cases b3; cases b4; cases b5; cases b6; cases b7; simp add: ident_start_def)

definition isidentifier :: "string \<Rightarrow> bool" where
  "isidentifier s =
     (case s of [] \<Rightarrow> False | c # cs \<Rightarrow> ident_start c \<and> list_all (\<lambda>c. ident_start c \<or> is_digit c) cs)"

definition projection_tables :: "'x manifest \<Rightarrow> string list py" where
  "projection_tables x =
     (case x_projection_tables x of
        None \<Rightarrow> runtime_error ''EXTENSION_MANIFEST_INVALID'' ''projection contribution must declare projection_tables''
      | Some raw \<Rightarrow>
          let tables = remdups raw in
          if tables = [] \<or> list_ex (\<lambda>t. \<not> nonblank t \<or> \<not> isidentifier t) tables then
            runtime_error ''EXTENSION_MANIFEST_INVALID'' ''projection_tables must contain safe identifier names''
          else Inr tables)"

definition migration_steps :: "'x manifest \<Rightarrow> migration_step list py" where
  "migration_steps x =
     (if x_migration_owner x \<noteq> None \<and> x_migration_owner x \<noteq> Some (x_extension_id x) then
        runtime_error ''EXTENSION_MIGRATION_INVALID'' ''migration contribution extension_id mismatch''
      else if x_migrations x = [] then
        runtime_error ''EXTENSION_MIGRATION_INVALID'' ''extension migrations must be non-empty''
      else if map mg_version (x_migrations x) \<noteq> map int [1..<Suc (length (x_migrations x))] then
        runtime_error ''EXTENSION_MIGRATION_INVALID'' ''migration versions must be continuous from 1''
      else Inr (x_migrations x))"

primrec check_all :: "('a \<Rightarrow> unit py) \<Rightarrow> 'a list \<Rightarrow> unit py" where
  "check_all f [] = Inr ()"
| "check_all f (x # xs) = and_then (f x) (\<lambda>_. check_all f xs)"

lemma check_all_Inr: "check_all f xs = Inr u \<longleftrightarrow> (\<forall>x \<in> set xs. f x = Inr ())"
  by (induction xs) (auto simp: and_then_Inr_iff)

definition check_command_type :: "string \<Rightarrow> unit py" where
  "check_command_type t =
     (if nonblank t then Inr () else runtime_error ''EXTENSION_MANIFEST_INVALID'' ''command type must be non-empty'')"

definition check_event_type :: "string \<Rightarrow> unit py" where
  "check_event_type t =
     (if \<not> nonblank t \<or> CHR ''.'' \<notin> set t then
        runtime_error ''EVENT_NAMESPACE_INVALID'' (''invalid extension event namespace: '' @ t)
      else if starts_with ''mission.'' t \<or> starts_with ''goal.'' t \<or> starts_with ''session.'' t then
        runtime_error ''EVENT_NAMESPACE_INVALID'' (''core event namespace is reserved: '' @ t)
      else Inr ())"

definition validate_manifest :: "'x manifest \<Rightarrow> unit py" where
  "validate_manifest x =
     and_then (projection_tables x) (\<lambda>_.
     and_then (migration_steps x) (\<lambda>_.
     and_then (check_all check_command_type (x_command_types x)) (\<lambda>_.
     check_all check_event_type (x_event_types x))))"

text \<open>One owner table: every type of the manifest must be new.\<close>

definition claim_type ::
  "(string \<Rightarrow> (string \<times> 'x manifest) list \<Rightarrow> unit py) \<Rightarrow> 'x manifest \<Rightarrow>
   (string \<times> 'x manifest) list \<Rightarrow> string \<Rightarrow> (string \<times> 'x manifest) list py" where
  "claim_type refuse x owners t = and_then (refuse t owners) (\<lambda>_. Inr ((t, x) # owners))"

definition refuse_command :: "string list \<Rightarrow> string \<Rightarrow> (string \<times> 'x manifest) list \<Rightarrow> unit py" where
  "refuse_command core t owners =
     (if t \<in> set core \<or> t \<in> fst ` set owners then
        runtime_error ''COMMAND_TYPE_OWNER_CONFLICT'' (''command type already owned: '' @ t)
      else Inr ())"

definition refuse_event :: "string list \<Rightarrow> string \<Rightarrow> (string \<times> 'x manifest) list \<Rightarrow> unit py" where
  "refuse_event core t owners =
     (if t \<in> set core \<or> t \<in> fst ` set owners then
        runtime_error ''EVENT_TYPE_OWNER_CONFLICT'' (''event type already owned: '' @ t)
      else Inr ())"

definition refuse_table :: "string \<Rightarrow> (string \<times> 'x manifest) list \<Rightarrow> unit py" where
  "refuse_table t owners =
     (if t \<in> set CORE_PROJECTION_TABLES then
        runtime_error ''PROJECTION_TABLE_FORBIDDEN'' (''extension may not own core table: '' @ t)
      else if t = ''extension_migrations'' \<or> t \<in> fst ` set owners then
        runtime_error ''PROJECTION_TABLE_OWNER_CONFLICT'' (''projection table already owned: '' @ t)
      else Inr ())"

definition register :: "'x registry \<Rightarrow> 'x manifest \<Rightarrow> 'x registry py" where
  "register r x =
     (if x_extension_id x \<in> fst ` set (r_by_id r) then
        runtime_error ''EXTENSION_ID_CONFLICT'' (''duplicate extension_id: '' @ x_extension_id x)
      else
        and_then (validate_manifest x) (\<lambda>_.
        and_then (fold_res (claim_type (refuse_command (r_core_command_types r)) x)
                    (r_command_owners r) (remdups (x_command_types x))) (\<lambda>commands.
        and_then (fold_res (claim_type (refuse_event (r_core_event_types r)) x)
                    (r_event_owners r) (remdups (x_event_types x))) (\<lambda>events.
        and_then (projection_tables x) (\<lambda>tables.
        and_then (fold_res (claim_type refuse_table x) (r_table_owners r) tables) (\<lambda>owners.
        Inr (r\<lparr>r_by_id := (x_extension_id x, x) # r_by_id r, r_command_owners := commands,
               r_event_owners := events, r_table_owners := owners\<rparr>)))))))"

definition make_ExtensionRegistry ::
  "string list \<Rightarrow> string list \<Rightarrow> 'x manifest list \<Rightarrow> 'x registry py" where
  "make_ExtensionRegistry core_commands core_events xs =
     and_then (fold_res register
        \<lparr>r_core_command_types = core_commands, r_core_event_types = core_events, r_manifests = [],
         r_by_id = [], r_command_owners = [], r_event_owners = [], r_table_owners = []\<rparr> xs) (\<lambda>r.
     Inr (r\<lparr>r_manifests := map snd (sort_key fst (r_by_id r))\<rparr>))"

definition ExtensionRegistry :: "'x manifest list \<Rightarrow> 'x registry py" where
  "ExtensionRegistry xs = make_ExtensionRegistry SUPPORTED_COMMANDS SUPPORTED_EVENTS xs"

definition registry_enabled :: "'x registry \<Rightarrow> bool" where
  "registry_enabled r = (r_manifests r \<noteq> [])"

definition registry_manifest :: "'x registry \<Rightarrow> string \<Rightarrow> 'x manifest py" where
  "registry_manifest r i =
     (case map_of (r_by_id r) i of None \<Rightarrow> not_registered i | Some x \<Rightarrow> Inr x)"

datatype 'x owner = CoreOwner | ExtensionOwner "'x manifest"

definition command_owner :: "'x registry \<Rightarrow> string \<Rightarrow> 'x owner option" where
  "command_owner r t =
     (if t \<in> set (r_core_command_types r) then Some CoreOwner
      else map_option ExtensionOwner (map_of (r_command_owners r) t))"

definition event_owner :: "'x registry \<Rightarrow> string \<Rightarrow> 'x owner option" where
  "event_owner r t =
     (if t \<in> set (r_core_event_types r) then Some CoreOwner
      else map_option ExtensionOwner (map_of (r_event_owners r) t))"

text \<open>\<open>ComposedRuntimeState.to_dict\<close>: each extension's state is encoded by its own \<open>to_dict\<close>.\<close>

definition composed_to_dict :: "'x registry \<Rightarrow> 'x composed_state \<Rightarrow> dict py" where
  "composed_to_dict r s =
     and_then (state_to_dict (cs_core_state s)) (\<lambda>core.
     and_then (map_res (\<lambda>(i, v). and_then (registry_manifest r i) (\<lambda>x.
                  and_then (x_to_dict x v) (\<lambda>d. Inr (i, JObj d))))
                 (sort_key fst (cs_extension_states s))) (\<lambda>ext.
     Inr [(''mission_id'', JStr (cs_mission_id s)), (''seq'', JInt (cs_seq s)),
          (''core_state'', JObj core), (''extension_states'', JObj ext)]))"

section \<open>Composed reducer\<close>

definition initial_composed_state :: "string \<Rightarrow> 'x registry \<Rightarrow> 'x composed_state py" where
  "initial_composed_state m r =
     and_then (initial_state m) (\<lambda>core.
     and_then (map_res (\<lambda>x. and_then (x_initial_state x m) (\<lambda>st. Inr (x_extension_id x, st))) (r_manifests r)) (\<lambda>ext.
     make_ComposedRuntimeState m 0 core ext))"

definition reduce_composed :: "'x composed_state \<Rightarrow> event_envelope \<Rightarrow> 'x registry \<Rightarrow> 'x composed_state py" where
  "reduce_composed s e r =
     (if ev_seq e \<noteq> cs_seq s + 1 then
        runtime_error ''COMPOSED_EVENT_SEQUENCE_VIOLATION'' (seq_message (cs_seq s + 1) (ev_seq e))
      else case event_owner r (ev_event_type e) of
        None \<Rightarrow> runtime_error ''UNSUPPORTED_EVENT_TYPE'' (''unsupported event type: '' @ ev_event_type e)
      | Some CoreOwner \<Rightarrow>
          and_then (reduce (cs_core_state s) e) (\<lambda>core.
          make_ComposedRuntimeState (cs_mission_id s) (ev_seq e) core (cs_extension_states s))
      | Some (ExtensionOwner x) \<Rightarrow>
          and_then (advance_shared_seq (cs_core_state s) e) (\<lambda>core.
          case map_of (cs_extension_states s) (x_extension_id x) of
            None \<Rightarrow> Inl (KeyErr (x_extension_id x))
          | Some current \<Rightarrow>
              and_then (x_reduce x current e core) (\<lambda>changed.
              make_ComposedRuntimeState (cs_mission_id s) (ev_seq e) core
                (AList.update (x_extension_id x) changed (cs_extension_states s)))))"

section \<open>Ownership\<close>

text \<open>An owner table is a function from the types that the registered manifests declare to their
  manifest; no type is declared twice and none is reserved.\<close>

definition owners_ok ::
  "('x manifest \<Rightarrow> string list) \<Rightarrow> string set \<Rightarrow> 'x manifest set \<Rightarrow> (string \<times> 'x manifest) list \<Rightarrow> bool" where
  "owners_ok declared reserved X owners \<longleftrightarrow>
     distinct (map fst owners) \<and> set owners = {(t, x). x \<in> X \<and> t \<in> set (declared x)} \<and>
     fst ` set owners \<inter> reserved = {}"

definition registry_inv :: "'x registry \<Rightarrow> bool" where
  "registry_inv r \<longleftrightarrow>
     distinct (map fst (r_by_id r)) \<and>
     (\<forall>(i, x) \<in> set (r_by_id r). x_extension_id x = i \<and> validate_manifest x = Inr ()) \<and>
     owners_ok x_command_types (set (r_core_command_types r)) (snd ` set (r_by_id r)) (r_command_owners r) \<and>
     owners_ok x_event_types (set (r_core_event_types r)) (snd ` set (r_by_id r)) (r_event_owners r) \<and>
     owners_ok (\<lambda>x. the (x_projection_tables x)) (set CORE_PROJECTION_TABLES \<union> {''extension_migrations''})
       (snd ` set (r_by_id r)) (r_table_owners r)"

lemma claim_types:
  assumes "fold_res (claim_type refuse x) os ts = Inr os'"
    and refuse: "\<And>t os. refuse t os = Inr () \<longleftrightarrow> t \<notin> reserved \<and> t \<notin> fst ` set os"
  shows "os' = rev (map (\<lambda>t. (t, x)) ts) @ os \<and> set ts \<inter> (reserved \<union> fst ` set os) = {} \<and> distinct ts"
  using assms(1)
proof (induction ts arbitrary: os)
  case Nil
  then show ?case by simp
next
  case (Cons t ts)
  then obtain mid where "claim_type refuse x os t = Inr mid" and rest: "fold_res (claim_type refuse x) mid ts = Inr os'"
    by (auto simp: and_then_Inr_iff)
  then have mid: "mid = (t, x) # os" "t \<notin> reserved" "t \<notin> fst ` set os"
    by (auto simp: and_then_Inr_iff claim_type_def refuse)
  show ?case using Cons.IH [OF rest] mid by auto
qed

lemma owners_ok_claim:
  assumes claim: "fold_res (claim_type refuse x) os ts = Inr os'" and ts: "set ts = set (declared x)"
    and refuse: "\<And>t os. refuse t os = Inr () \<longleftrightarrow> t \<notin> reserved \<and> t \<notin> fst ` set os"
    and ok: "owners_ok declared reserved X os"
  shows "owners_ok declared reserved (insert x X) os'"
proof -
  have os': "os' = rev (map (\<lambda>t. (t, x)) ts) @ os" and
    new: "set ts \<inter> reserved = {}" "set ts \<inter> fst ` set os = {}" "distinct ts"
    using claim_types [OF claim refuse] by auto
  have sets: "set os' = (\<lambda>t. (t, x)) ` set ts \<union> set os" by (simp add: os')
  have keys: "map fst os' = rev ts @ map fst os" by (simp add: os' rev_map o_def)
  have dist: "distinct (map fst os')" using new ok by (auto simp: keys owners_ok_def)
  have "fst ` set os' = set ts \<union> fst ` set os" by (metis keys set_append set_map set_rev)
  moreover have "fst ` set os \<inter> reserved = {}" using ok unfolding owners_ok_def by (elim conjE)
  ultimately have "fst ` set os' \<inter> reserved = {}" using new(1) by (simp only: Int_Un_distrib2 Un_empty_left)
  moreover have "set os' = {(t, y). y \<in> insert x X \<and> t \<in> set (declared y)}"
    using ok ts by (auto simp: owners_ok_def sets)
  ultimately show ?thesis using dist by (simp only: owners_ok_def)
qed

lemma projection_tables_Inr:
  "projection_tables x = Inr ts \<Longrightarrow> ts = remdups (the (x_projection_tables x)) \<and> x_projection_tables x \<noteq> None"
  by (auto simp: projection_tables_def Let_def split: option.split_asm if_split_asm)

lemma register_Inr:
  assumes "register r x = Inr r'"
  obtains commands events ts tables where
    "x_extension_id x \<notin> fst ` set (r_by_id r)" and "validate_manifest x = Inr ()"
    and "fold_res (claim_type (refuse_command (r_core_command_types r)) x)
           (r_command_owners r) (remdups (x_command_types x)) = Inr commands"
    and "fold_res (claim_type (refuse_event (r_core_event_types r)) x)
           (r_event_owners r) (remdups (x_event_types x)) = Inr events"
    and "projection_tables x = Inr ts" and "fold_res (claim_type refuse_table x) (r_table_owners r) ts = Inr tables"
    and "r' = r\<lparr>r_by_id := (x_extension_id x, x) # r_by_id r, r_command_owners := commands,
               r_event_owners := events, r_table_owners := tables\<rparr>"
  using assms unfolding register_def by (auto simp: and_then_Inr_iff split: if_split_asm)

lemma register_inv:
  assumes "register r x = Inr r'" and inv: "registry_inv r"
  shows "registry_inv r'"
  using assms(1)
proof (cases rule: register_Inr)
  case (1 commands events ts tables)
  have "owners_ok x_command_types (set (r_core_command_types r)) (insert x (snd ` set (r_by_id r))) commands"
    using inv by (intro owners_ok_claim [OF 1(3)]) (auto simp: refuse_command_def registry_inv_def)
  moreover have "owners_ok x_event_types (set (r_core_event_types r)) (insert x (snd ` set (r_by_id r))) events"
    using inv by (intro owners_ok_claim [OF 1(4)]) (auto simp: refuse_event_def registry_inv_def)
  moreover have "owners_ok (\<lambda>x. the (x_projection_tables x)) (set CORE_PROJECTION_TABLES \<union> {''extension_migrations''})
      (insert x (snd ` set (r_by_id r))) tables"
    using inv projection_tables_Inr [OF 1(5)]
    by (intro owners_ok_claim [OF 1(6)]) (auto simp: refuse_table_def registry_inv_def)
  ultimately show ?thesis using inv 1(1,2) by (simp add: registry_inv_def 1(7))
qed

lemma register_core: "register r x = Inr r' \<Longrightarrow>
    r_core_command_types r' = r_core_command_types r \<and> r_core_event_types r' = r_core_event_types r \<and>
    snd ` set (r_by_id r') = insert x (snd ` set (r_by_id r))"
  by (erule register_Inr) simp

lemma fold_register:
  "fold_res register r xs = Inr r' \<Longrightarrow> registry_inv r \<Longrightarrow> registry_inv r'"
  by (rule fold_res_inv [where P = registry_inv and f = register and xs = xs]) (auto intro: register_inv)

lemma fold_register_core: "fold_res register r xs = Inr r' \<Longrightarrow>
    r_core_command_types r' = r_core_command_types r \<and> r_core_event_types r' = r_core_event_types r \<and>
    snd ` set (r_by_id r') = set xs \<union> snd ` set (r_by_id r)"
proof (induction xs arbitrary: r)
  case Nil
  then show ?case by simp
next
  case (Cons x xs)
  then obtain t where t: "register r x = Inr t" "fold_res register t xs = Inr r'"
    by (auto simp: res_simps)
  with Cons.IH [OF t(2)] register_core [OF t(1)] show ?case by auto
qed

lemma make_registry_inv:
  assumes "make_ExtensionRegistry core_commands core_events xs = Inr r"
  shows "registry_inv r" and "set (r_manifests r) = set xs" and "snd ` set (r_by_id r) = set xs"
    and "r_core_command_types r = core_commands" and "r_core_event_types r = core_events"
    and "distinct (map x_extension_id (r_manifests r))" and "sorted (map x_extension_id (r_manifests r))"
proof -
  let ?r0 = "\<lparr>r_core_command_types = core_commands, r_core_event_types = core_events, r_manifests = [],
         r_by_id = [], r_command_owners = [], r_event_owners = [], r_table_owners = []\<rparr>"
  obtain t where t: "fold_res register ?r0 xs = Inr t"
    and r: "r = t\<lparr>r_manifests := map snd (sort_key fst (r_by_id t))\<rparr>"
    using assms by (auto simp: make_ExtensionRegistry_def res_simps)
  have "registry_inv ?r0" by (simp add: registry_inv_def owners_ok_def)
  with t have inv: "registry_inv t" by (rule fold_register)
  then show "registry_inv r" by (simp add: r registry_inv_def)
  have ids: "map x_extension_id (r_manifests r) = map fst (sort_key fst (r_by_id t))"
    using inv by (auto simp: r registry_inv_def)
  show "sorted (map x_extension_id (r_manifests r))" by (simp add: ids)
  have "distinct (map fst (sort_key fst (r_by_id t)))"
    using inv by (simp add: registry_inv_def distinct_map)
  then show "distinct (map x_extension_id (r_manifests r))" by (simp add: ids)
  show "snd ` set (r_by_id r) = set xs" "set (r_manifests r) = set xs"
    "r_core_command_types r = core_commands" "r_core_event_types r = core_events"
    using fold_register_core [OF t] by (simp_all add: r)
qed

lemma owners_lookup:
  assumes "owners_ok declared reserved X os"
  shows "map_of os t = Some x \<longleftrightarrow> x \<in> X \<and> t \<in> set (declared x)"
  using assms by (auto simp: owners_ok_def map_of_eq_Some_iff)

lemma owners_reserved: "owners_ok declared reserved X os \<Longrightarrow> x \<in> X \<Longrightarrow> t \<in> set (declared x) \<Longrightarrow> t \<notin> reserved"
  by (force simp: owners_ok_def)

lemma owners_unique:
  "owners_ok declared reserved X os \<Longrightarrow> x \<in> X \<Longrightarrow> y \<in> X \<Longrightarrow> t \<in> set (declared x) \<Longrightarrow> t \<in> set (declared y) \<Longrightarrow> x = y"
  by (metis option.inject owners_lookup)

section \<open>Replay of composed events\<close>

text \<open>The invariant of a composed state: one identity and sequence number for all its parts, the
  core invariant, and exactly the registered extensions' states.\<close>

definition composed_inv :: "'x registry \<Rightarrow> 'x composed_state \<Rightarrow> bool" where
  "composed_inv r s \<longleftrightarrow>
     nonblank (cs_mission_id s) \<and> rs_mission_id (cs_core_state s) = cs_mission_id s \<and>
     rs_seq (cs_core_state s) = cs_seq s \<and> core_inv (cs_core_state s) \<and>
     map fst (cs_extension_states s) = map x_extension_id (r_manifests r)"

definition composed_evolves :: "'x composed_state \<Rightarrow> 'x composed_state \<Rightarrow> bool" where
  "composed_evolves s t \<longleftrightarrow>
     cs_mission_id t = cs_mission_id s \<and> core_evolves (cs_core_state s) (cs_core_state t)"

lemma make_composed_Inr:
  "make_ComposedRuntimeState m n core ext = Inr s \<longleftrightarrow>
     nonblank m \<and> 0 \<le> n \<and> rs_mission_id core = m \<and> rs_seq core = n \<and>
     s = \<lparr>cs_mission_id = m, cs_seq = n, cs_core_state = core, cs_extension_states = ext\<rparr>"
  by (auto simp: make_ComposedRuntimeState_def require_id_def)

lemma initial_composed_inv:
  assumes "initial_composed_state m r = Inr s"
  shows "composed_inv r s \<and> cs_seq s = 0 \<and> cs_mission_id s = m \<and> initial_state m = Inr (cs_core_state s)"
proof -
  obtain core ext where core: "initial_state m = Inr core"
    and ext: "map_res (\<lambda>x. and_then (x_initial_state x m) (\<lambda>st. Inr (x_extension_id x, st))) (r_manifests r) = Inr ext"
    and s: "make_ComposedRuntimeState m 0 core ext = Inr s"
    using assms by (auto simp: initial_composed_state_def and_then_Inr_iff)
  have "map fst ext = map x_extension_id xs"
    if "map_res (\<lambda>x. and_then (x_initial_state x m) (\<lambda>st. Inr (x_extension_id x, st))) xs = Inr ext" for xs
    using that by (induction xs arbitrary: ext) (auto simp: and_then_Inr_iff)
  from this [OF ext] show ?thesis using core s core_inv_initial [OF core]
    by (auto simp: make_composed_Inr composed_inv_def)
qed

text \<open>The two kinds of step.\<close>

lemma reduce_composed_cases:
  assumes "reduce_composed s e r = Inr s'"
  obtains (core) core where "event_owner r (ev_event_type e) = Some CoreOwner"
      and "reduce (cs_core_state s) e = Inr core"
      and "make_ComposedRuntimeState (cs_mission_id s) (ev_seq e) core (cs_extension_states s) = Inr s'"
    | (extension) x core current changed where "event_owner r (ev_event_type e) = Some (ExtensionOwner x)"
      and "advance_shared_seq (cs_core_state s) e = Inr core"
      and "map_of (cs_extension_states s) (x_extension_id x) = Some current"
      and "x_reduce x current e core = Inr changed"
      and "make_ComposedRuntimeState (cs_mission_id s) (ev_seq e) core
             (AList.update (x_extension_id x) changed (cs_extension_states s)) = Inr s'"
  using assms unfolding reduce_composed_def
  by (auto simp: and_then_Inr_iff split: if_split_asm option.split_asm owner.split_asm)

lemma update_fst: "map_of xs k \<noteq> None \<Longrightarrow> map fst (AList.update k v xs) = map fst xs"
  by (induction xs) (auto split: if_splits)

lemma reduce_composed_number:
  assumes "reduce_composed s e r = Inr s'"
  shows "ev_seq e = cs_seq s + 1" and "cs_seq s' = ev_seq e"
proof -
  show "ev_seq e = cs_seq s + 1" using assms by (simp add: reduce_composed_def split: if_split_asm)
  show "cs_seq s' = ev_seq e" using assms by (cases rule: reduce_composed_cases) (auto simp: make_composed_Inr)
qed

lemma reduce_composed_core:
  assumes "reduce_composed s e r = Inr s'" and "composed_inv r s"
  shows "composed_inv r s' \<and> composed_evolves s s'"
  using assms(1)
proof (cases rule: reduce_composed_cases)
  case (core c)
  then show ?thesis using assms(2) core_machine.inv_step [OF _ core(2)] core_machine.evolves_step [OF _ core(2)]
    by (auto simp: make_composed_Inr composed_inv_def composed_evolves_def)
next
  case (extension x c current changed)
  then show ?thesis using assms(2) advance_inv [OF extension(2)] advance_evolves [OF extension(2)]
    by (auto simp: make_composed_Inr composed_inv_def composed_evolves_def update_fst)
qed

interpretation composed_machine: monotone_machine
    "\<lambda>s e. reduce_composed s e r" cs_seq ev_seq "composed_inv r" composed_evolves
  for r :: "'x registry"
proof unfold_locales
  fix s e s' assume step: "reduce_composed s e r = Inr s'"
  show "ev_seq e = cs_seq s + 1" "cs_seq s' = ev_seq e"
    by (rule reduce_composed_number [OF step])+
  show "composed_inv r s'" if "composed_inv r s" using reduce_composed_core [OF step that] by simp
  show "composed_evolves s s'" if "composed_inv r s" using reduce_composed_core [OF step that] by simp
next
  fix s t u :: "'x composed_state"
  show "composed_evolves s s" by (simp add: composed_evolves_def core_evolves_refl)
  show "composed_evolves s t \<Longrightarrow> composed_evolves t u \<Longrightarrow> composed_evolves s u"
    by (auto simp: composed_evolves_def intro: core_evolves_trans)
qed

end
