(* ===== verification/Schema.thy ===== *)
theory Schema
  imports Registry
begin

text \<open>
  durable_core/schema.py: the tables of the runtime with their keys, unique index and append-only
  triggers, \<open>initialize\<close>, and the migrations of extensions with the authorizer that confines them
  and the checks after each step.
\<close>

section \<open>Core schema\<close>

definition text_columns :: "string list \<Rightarrow> string list \<Rightarrow> (string \<times> bool) list" where
  "text_columns all nullable = map (\<lambda>c. (c, c \<notin> set nullable)) all"

definition commands_table :: table_def where
  "commands_table =
     \<lparr>td_columns = text_columns
        [''command_id'', ''mission_id'', ''session_id'', ''command_type'', ''expected_seq'', ''actor_type'',
         ''actor_id'', ''idempotency_key'', ''correlation_id'', ''command_fingerprint'', ''payload_json'',
         ''schema_version'', ''status'', ''first_seq'', ''last_seq'', ''result_json'', ''error_code'',
         ''error_message'', ''received_at'']
        [''command_id'', ''session_id'', ''idempotency_key'', ''first_seq'', ''last_seq'', ''error_code'', ''error_message''],
      td_keys = [[''command_id'']], td_refs = [],
      td_checks = [(''status'', [JStr ''APPLIED'', JStr ''REJECTED''])]\<rparr>"

definition events_table :: table_def where
  "events_table =
     \<lparr>td_columns = text_columns
        [''event_id'', ''mission_id'', ''session_id'', ''seq'', ''event_type'', ''entity_type'', ''entity_id'',
         ''command_id'', ''correlation_id'', ''initiator_type'', ''initiator_id'', ''payload_json'',
         ''created_at'', ''schema_version'']
        [''event_id'', ''session_id''],
      td_keys = [[''event_id''], [''mission_id'', ''seq'']],
      td_refs = [(''command_id'', ''commands'', ''command_id'')], td_checks = []\<rparr>"

definition SCHEMA :: "(object_key \<times> object_def) list" where
  "SCHEMA =
     [((''table'', ''schema_migrations'', ''schema_migrations''),
       TableDef \<lparr>td_columns = text_columns [''version''] [], td_keys = [[''version'']], td_refs = [], td_checks = []\<rparr>),
      ((''table'', ''commands'', ''commands''), TableDef commands_table),
      ((''index'', ''commands_applied_idempotency'', ''commands''),
       UniqueIndexDef [''idempotency_key''] [(''status'', JStr ''APPLIED'')]),
      ((''table'', ''events'', ''events''), TableDef events_table),
      ((''trigger'', ''events_no_update'', ''events''), AbortTriggerDef ''UPDATE'' ''EVENTS_APPEND_ONLY''),
      ((''trigger'', ''events_no_delete'', ''events''), AbortTriggerDef ''DELETE'' ''EVENTS_APPEND_ONLY''),
      ((''table'', ''mission_projection'', ''mission_projection''),
       TableDef \<lparr>td_columns = text_columns [''mission_id'', ''seq'', ''state_json'', ''state_hash''] [''mission_id''],
                 td_keys = [[''mission_id'']], td_refs = [], td_checks = []\<rparr>),
      ((''table'', ''goal_projection'', ''goal_projection''),
       TableDef \<lparr>td_columns = text_columns [''mission_id'', ''goal_id'', ''state_json''] [],
                 td_keys = [[''mission_id'', ''goal_id'']], td_refs = [], td_checks = []\<rparr>),
      ((''table'', ''session_projection'', ''session_projection''),
       TableDef \<lparr>td_columns = text_columns [''mission_id'', ''session_id'', ''state_json''] [],
                 td_keys = [[''mission_id'', ''session_id'']], td_refs = [], td_checks = []\<rparr>)]"

text \<open>\<open>initialize\<close>: every statement is \<open>IF NOT EXISTS\<close> or \<open>OR IGNORE\<close>.\<close>

definition initialize :: "db \<Rightarrow> db" where
  "initialize d = insert_or_ignore (foldl create_if_missing d SCHEMA) ''schema_migrations'' [(''version'', JInt 1)]"

section \<open>Authorizers\<close>

definition WRITE_ACTIONS :: "string list" where
  "WRITE_ACTIONS = [''SQLITE_INSERT'', ''SQLITE_UPDATE'', ''SQLITE_DELETE'']"

definition MIGRATION_FORBIDDEN_ACTIONS :: "string list" where
  "MIGRATION_FORBIDDEN_ACTIONS =
     [''SQLITE_ATTACH'', ''SQLITE_DETACH'', ''SQLITE_PRAGMA'', ''SQLITE_TRANSACTION'', ''SQLITE_SAVEPOINT'',
      ''SQLITE_CREATE_TRIGGER'', ''SQLITE_CREATE_VIEW'', ''SQLITE_DROP_TRIGGER'', ''SQLITE_DROP_VIEW'',
      ''SQLITE_CREATE_VTABLE'', ''SQLITE_DROP_VTABLE'']"

definition migration_authorize :: "string list \<Rightarrow> action \<Rightarrow> bool" where
  "migration_authorize tables = (\<lambda>(action, first, second).
     if action \<in> set WRITE_ACTIONS \<and> first \<notin> set tables \<and> first \<noteq> ''sqlite_master'' then False
     else if action \<in> set [''SQLITE_CREATE_TABLE'', ''SQLITE_DROP_TABLE''] \<and> first \<notin> set tables then False
     else if action \<in> set [''SQLITE_CREATE_INDEX'', ''SQLITE_DROP_INDEX''] \<and> second \<notin> set tables then False
     else if action = ''SQLITE_ALTER_TABLE'' \<and> second \<notin> set tables then False
     else action \<notin> set MIGRATION_FORBIDDEN_ACTIONS)"

text \<open>A callback under an authorizer; a denial surfaces as the given error, every other exception
  as it is.\<close>

definition denied :: "exn \<Rightarrow> bool" where
  "denied e = (is_database_error e \<and>
     (contains_text ''authorized'' (lower (database_message e)) \<or> contains_text ''prohibited'' (lower (database_message e))))"

definition guarded_call :: "(action \<Rightarrow> bool) \<Rightarrow> string \<Rightarrow> string \<Rightarrow> db \<Rightarrow> 'r callback \<Rightarrow> (db \<times> 'r) py" where
  "guarded_call authorize code message d c =
     (case run_callback authorize d c of
        Inl e \<Rightarrow> if denied e then runtime_error code message else Inl e
      | Inr x \<Rightarrow> Inr x)"

definition apply_extension_migration ::
  "db \<Rightarrow> 'x manifest \<Rightarrow> migration_step \<Rightarrow> string list \<Rightarrow> db py" where
  "apply_extension_migration d x step tables =
     and_then (guarded_call (migration_authorize tables) ''PROJECTION_TABLE_FORBIDDEN''
        (''Extension '' @ x_extension_id x @ '' migration exceeded its schema boundary'') d (mg_apply step)) (\<lambda>(d', _).
     Inr d')"

section \<open>Extension migrations\<close>

definition extension_migrations_object :: "object_key \<times> object_def" where
  "extension_migrations_object =
     ((''table'', ''extension_migrations'', ''extension_migrations''),
      TableDef \<lparr>td_columns = text_columns [''extension_id'', ''migration_version'', ''migration_checksum'', ''applied_at''] [],
                td_keys = [[''extension_id'', ''migration_version'']], td_refs = [], td_checks = []\<rparr>)"

text \<open>\<open>SELECT type,name,tbl_name,sql FROM sqlite_master WHERE name NOT LIKE 'sqlite_%'\<close>\<close>

definition visible_schema :: "db \<Rightarrow> (object_key \<times> object_def) list" where
  "visible_schema d =
     filter (\<lambda>((kind, name, tbl), def). \<not> (starts_with ''sqlite'' (lower name) \<and> 6 < length name)) (db_schema d)"

definition table_names :: "(object_key \<times> object_def) list \<Rightarrow> string list" where
  "table_names objects = map (\<lambda>((kind, name, tbl), def). name) (filter (\<lambda>((kind, name, tbl), def). kind = ''table'') objects)"

definition text_set :: "string list \<Rightarrow> json" where
  "text_set xs = JList (map JStr (sort (remdups xs)))"

definition object_name :: "object_key \<Rightarrow> string" where
  "object_name k = (case k of (kind, name, tbl) \<Rightarrow> kind @ '':'' @ name)"

definition outside :: "string list \<Rightarrow> object_key \<Rightarrow> bool" where
  "outside tables k = (case k of (kind, name, tbl) \<Rightarrow> name \<notin> set tables \<and> tbl \<notin> set tables)"

definition check_migrated :: "string list \<Rightarrow> (object_key \<times> object_def) list \<Rightarrow> (object_key \<times> object_def) list \<Rightarrow> unit py" where
  "check_migrated tables before after =
     (let unexpected = filter (\<lambda>t. t \<notin> set (table_names before) \<and> t \<notin> set tables) (table_names after)
      in if unexpected \<noteq> [] then
           runtime_error ''PROJECTION_TABLE_FORBIDDEN''
             (''migration created undeclared tables: '' @ py_str (text_set unexpected))
         else
           (let protected = filter (\<lambda>(k, def). outside tables k) before;
                changed = map (\<lambda>(k, def). object_name k)
                  (filter (\<lambda>(k, def). map_of after k \<noteq> Some def) protected);
                created = map (\<lambda>(k, def). object_name k)
                  (filter (\<lambda>(k, def). k \<notin> fst ` set before \<and> outside tables k) after)
            in if changed \<noteq> [] \<or> created \<noteq> [] then
                 runtime_error_with ''PROJECTION_TABLE_FORBIDDEN''
                   ''extension migration changed objects outside its projection schema''
                   [(''changed'', text_set changed), (''created'', text_set created)]
               else Inr ()))"

definition migrate_step :: "'x manifest \<Rightarrow> string list \<Rightarrow> string \<Rightarrow> db \<Rightarrow> migration_step \<Rightarrow> db py" where
  "migrate_step x tables applied_at d step =
     (case select_rows d ''extension_migrations''
             [(''extension_id'', JStr (x_extension_id x)), (''migration_version'', JInt (mg_version step))] of
        row # _ \<Rightarrow>
          if dget row ''migration_checksum'' \<noteq> JStr (mg_checksum step) then
            runtime_error ''EXTENSION_MIGRATION_CHECKSUM_MISMATCH''
              (''migration checksum changed: '' @ x_extension_id x @ '':'' @ show_int (mg_version step))
          else Inr d
      | [] \<Rightarrow>
          and_then (apply_extension_migration d x step tables) (\<lambda>d'.
          and_then (check_migrated tables (visible_schema d) (visible_schema d')) (\<lambda>_.
          insert_row d' ''extension_migrations''
            [(''extension_id'', JStr (x_extension_id x)), (''migration_version'', JInt (mg_version step)),
             (''migration_checksum'', JStr (mg_checksum step)), (''applied_at'', JStr applied_at)])))"

definition migrate_extension :: "string \<Rightarrow> db \<Rightarrow> 'x manifest \<Rightarrow> db py" where
  "migrate_extension applied_at d x =
     and_then (projection_tables x) (\<lambda>tables.
     and_then (migration_steps x) (\<lambda>steps.
     and_then (fold_res (migrate_step x tables applied_at) d steps) (\<lambda>d'.
     let missing = filter (\<lambda>t. t \<notin> set (table_names (db_schema d'))) tables
     in if missing \<noteq> [] then
          runtime_error ''EXTENSION_SCHEMA_MISMATCH''
            (''extension projection tables are missing: '' @ py_str (text_set missing))
        else Inr d')))"

definition initialize_extensions :: "db \<Rightarrow> 'x registry \<Rightarrow> string \<Rightarrow> db \<times> unit py" where
  "initialize_extensions d r applied_at =
     (if \<not> registry_enabled r then (d, Inr ())
      else immediate_transaction d (\<lambda>d.
        and_then (fold_res (migrate_extension applied_at) (create_if_missing d extension_migrations_object)
                    (r_manifests r)) (\<lambda>d'.
        Inr (d', ()))))"

section \<open>Confinement of migrations\<close>

lemma guarded_call_Inr: "guarded_call a code m d c = Inr x \<longleftrightarrow> run_callback a d c = Inr x"
  by (auto simp: guarded_call_def split: sum.split)

lemma migration_confines: "confines (migration_authorize tables) (insert ''sqlite_master'' (set tables))"
  by (auto simp: confines_def migration_authorize_def WRITE_ACTIONS_def)

lemma apply_migration_Inr:
  assumes "apply_extension_migration d x step tables = Inr d'"
  obtains r where "run_callback (migration_authorize tables) d (mg_apply step) = Inr (d', r)"
  using assms by (auto simp: apply_extension_migration_def and_then_Inr_iff guarded_call_Inr)

lemma apply_migration_rows:
  assumes "apply_extension_migration d x step tables = Inr d'" and "u \<notin> set tables" and "u \<noteq> ''sqlite_master''"
  shows "db_rows d' u = db_rows d u"
  using assms(1)
proof (rule apply_migration_Inr)
  fix r assume "run_callback (migration_authorize tables) d (mg_apply step) = Inr (d', r)"
  from run_callback_confined [OF this migration_confines] assms(2,3) show ?thesis by simp
qed

lemma migrate_step_rows:
  assumes "migrate_step x tables at d step = Inr d'" and "u \<notin> set tables"
    and "u \<noteq> ''sqlite_master''" and "u \<noteq> ''extension_migrations''"
  shows "db_rows d' u = db_rows d u"
proof -
  have "\<exists>d1. db_rows d1 u = db_rows d u \<and> (d' = d1 \<or> (\<exists>row. insert_row d1 ''extension_migrations'' row = Inr d'))"
    using assms apply_migration_rows [of d x step tables]
    by (auto simp: migrate_step_def and_then_Inr_iff split: list.split_asm if_split_asm)
  then show ?thesis using insert_row_other [of _ "''extension_migrations''" _ d' u] assms(4) by auto
qed

text \<open>The schema objects that belong to none of an extension's tables.\<close>

lemma check_migrated_Inr:
  assumes "check_migrated tables before after = Inr ()" and "outside tables k"
  shows "map_of after k = map_of before k"
proof (cases "map_of before k")
  case None
  then have "k \<notin> fst ` set before" by (simp add: map_of_eq_None_iff)
  moreover have "\<forall>(j, def) \<in> set after. outside tables j \<longrightarrow> j \<in> fst ` set before"
    using assms(1) by (auto simp: check_migrated_def Let_def filter_empty_conv split: if_split_asm)
  ultimately have "k \<notin> fst ` set after" using assms(2) by auto
  then show ?thesis using None by (metis map_of_eq_None_iff)
next
  case (Some def)
  then have "(k, def) \<in> set before" by (rule map_of_SomeD)
  moreover have "\<forall>(j, def) \<in> set before. outside tables j \<longrightarrow> map_of after j = Some def"
    using assms(1) by (auto simp: check_migrated_def Let_def filter_empty_conv split: if_split_asm)
  ultimately show ?thesis using Some assms(2) by auto
qed

lemma migrate_step_schema:
  assumes "migrate_step x tables at d step = Inr d'" and "outside tables k"
  shows "map_of (visible_schema d') k = map_of (visible_schema d) k"
  using assms(1) check_migrated_Inr [OF _ assms(2)]
  by (auto simp: migrate_step_def and_then_Inr_iff visible_schema_def dest: insert_row_schema
      split: list.split_asm if_split_asm)

lemma migrate_extension_Inr:
  assumes "migrate_extension at d x = Inr d'"
  obtains tables steps where "projection_tables x = Inr tables" and "migration_steps x = Inr steps"
    and "fold_res (migrate_step x tables at) d steps = Inr d'"
    and "set tables \<subseteq> set (table_names (db_schema d'))"
  using assms by (auto simp: migrate_extension_def and_then_Inr_iff Let_def filter_empty_conv split: if_split_asm)

lemma migrate_extension_rows:
  assumes "migrate_extension at d x = Inr d'" and "u \<notin> set (the (x_projection_tables x))"
    and "u \<noteq> ''sqlite_master''" and "u \<noteq> ''extension_migrations''"
  shows "db_rows d' u = db_rows d u"
  using assms(1)
proof (cases rule: migrate_extension_Inr)
  case (1 tables steps)
  have "u \<notin> set tables" using projection_tables_Inr [OF 1(1)] assms(2) by simp
  then show ?thesis
    using fold_res_same [where g = "\<lambda>d. db_rows d u", OF 1(3)] migrate_step_rows assms(3,4) by blast
qed

lemma migrate_extension_schema:
  assumes "migrate_extension at d x = Inr d'" and "outside (the (x_projection_tables x)) k"
  shows "map_of (visible_schema d') k = map_of (visible_schema d) k"
  using assms(1)
proof (cases rule: migrate_extension_Inr)
  case (1 tables steps)
  have "outside tables k" using projection_tables_Inr [OF 1(1)] assms(2) by (simp add: outside_def)
  then show ?thesis
    using fold_res_same [where g = "\<lambda>d. map_of (visible_schema d) k", OF 1(3)] migrate_step_schema by blast
qed

section \<open>Migrations run once\<close>

text \<open>A step is recorded with its checksum, and an extension is settled when all its steps are and
  its tables exist: then migrating it again does nothing.\<close>

definition recorded :: "db \<Rightarrow> string \<Rightarrow> migration_step \<Rightarrow> bool" where
  "recorded d i step \<longleftrightarrow>
     (case select_rows d ''extension_migrations'' [(''extension_id'', JStr i), (''migration_version'', JInt (mg_version step))] of
        [] \<Rightarrow> False | row # _ \<Rightarrow> dget row ''migration_checksum'' = JStr (mg_checksum step))"

definition has_table :: "db \<Rightarrow> string \<Rightarrow> bool" where
  "has_table d t \<longleftrightarrow> (\<exists>def. ((''table'', t, t), def) \<in> set (db_schema d))"

definition settled :: "db \<Rightarrow> 'x manifest \<Rightarrow> bool" where
  "settled d x \<longleftrightarrow>
     (\<exists>tables steps. projection_tables x = Inr tables \<and> migration_steps x = Inr steps \<and>
        (\<forall>step \<in> set steps. recorded d (x_extension_id x) step) \<and> (\<forall>t \<in> set tables. has_table d t))"

lemma fold_res_idle: "(\<And>x. x \<in> set xs \<Longrightarrow> f s x = Inr s) \<Longrightarrow> fold_res f s xs = Inr s"
  by (induction xs) auto

lemma settled_migrate: "settled d x \<Longrightarrow> migrate_extension at d x = Inr d"
proof -
  assume "settled d x"
  then obtain tables steps where t: "projection_tables x = Inr tables" "migration_steps x = Inr steps"
    and rec: "\<And>step. step \<in> set steps \<Longrightarrow> recorded d (x_extension_id x) step"
    and tab: "\<And>t. t \<in> set tables \<Longrightarrow> has_table d t"
    unfolding settled_def by blast
  have "fold_res (migrate_step x tables at) d steps = Inr d"
    by (rule fold_res_idle) (auto simp: migrate_step_def recorded_def dest: rec split: list.splits)
  moreover have "\<forall>t \<in> set tables. t \<in> set (table_names (db_schema d))"
    using tab by (force simp: has_table_def table_names_def)
  ultimately show ?thesis using t by (auto simp: migrate_extension_def Let_def filter_empty_conv)
qed

lemma recorded_append:
  assumes "db_rows d' ''extension_migrations'' = db_rows d ''extension_migrations'' @ rows" and "recorded d i step"
  shows "recorded d' i step"
  using assms by (auto simp: recorded_def select_rows_def split: list.split list.split_asm)

lemma run_sql_has_table:
  assumes "run_sql (migration_authorize tables) d q = Inr d'" and "t \<notin> set tables" and "has_table d t"
  shows "has_table d' t"
proof (cases "target_table q")
  case (Some u)
  then show ?thesis using assms exec_row_statement(1) [of d q d' u]
    by (auto simp: run_sql_def has_table_def split: if_split_asm)
next
  case None
  obtain def where def: "((''table'', t, t), def) \<in> set (db_schema d)"
    using assms(3) by (auto simp: has_table_def)
  show ?thesis
  proof (cases q)
    case (SqlDrop kind name tbl)
    then have "drop_action kind \<in> {''SQLITE_DROP_TABLE'', ''SQLITE_DROP_INDEX''}"
      and tbl: "tbl = t \<Longrightarrow> kind \<noteq> ''table''"
      using assms(1,2)
      by (auto simp: run_sql_def migration_authorize_def drop_action_def MIGRATION_FORBIDDEN_ACTIONS_def
          WRITE_ACTIONS_def split: if_split_asm)
    then show ?thesis using SqlDrop assms(1) def
      by (auto simp: run_sql_def has_table_def drop_action_def split: if_split_asm)
  next
    case (SqlAlter u new)
    then have "u \<noteq> t" using assms(1,2)
      by (auto simp: run_sql_def migration_authorize_def WRITE_ACTIONS_def split: if_split_asm)
    have "map_of (db_schema d) (''table'', t, t) \<noteq> None"
      using def by (metis map_of_eq_None_iff fst_conv image_eqI)
    then obtain y where "map_of (AList.update (''table'', u, u) new (db_schema d)) (''table'', t, t) = Some y"
      using \<open>u \<noteq> t\<close> by (auto simp: update_conv')
    then have "((''table'', t, t), y) \<in> set (AList.update (''table'', u, u) new (db_schema d))"
      by (rule map_of_SomeD)
    then show ?thesis using SqlAlter assms(1)
      by (auto simp: run_sql_def has_table_def split: if_split_asm)
  qed (use None assms(1) def in \<open>auto simp: run_sql_def has_table_def split: if_split_asm\<close>)
qed

lemma apply_migration_schema:
  assumes "apply_extension_migration d x step tables = Inr d'"
  shows "schema_ok d \<Longrightarrow> schema_ok d'" and "t \<notin> set tables \<Longrightarrow> has_table d t \<Longrightarrow> has_table d' t"
proof -
  obtain r where r: "run_callback (migration_authorize tables) d (mg_apply step) = Inr (d', r)"
    using assms by (rule apply_migration_Inr)
  show "schema_ok d'" if "schema_ok d"
    by (rule run_callback_inv [where P = schema_ok, OF r that])
       (auto simp: run_sql_def intro: exec_sql_schema_ok split: if_split_asm)
  show "has_table d' t" if "t \<notin> set tables" "has_table d t"
    using run_callback_inv [where P = "\<lambda>d. has_table d t", OF r that(2)] run_sql_has_table that(1) by blast
qed

lemma migrate_step_effect:
  assumes step: "migrate_step x tables at d step = Inr d'" and own: "''extension_migrations'' \<notin> set tables"
  shows "\<exists>rows. db_rows d' ''extension_migrations'' = db_rows d ''extension_migrations'' @ rows"
    and "recorded d' (x_extension_id x) step" and "schema_ok d \<Longrightarrow> schema_ok d'"
    and "t \<notin> set tables \<Longrightarrow> has_table d t \<Longrightarrow> has_table d' t"
proof -
  let ?sel = "select_rows d ''extension_migrations''
      [(''extension_id'', JStr (x_extension_id x)), (''migration_version'', JInt (mg_version step))]"
  have "(\<exists>rows. db_rows d' ''extension_migrations'' = db_rows d ''extension_migrations'' @ rows) \<and>
    recorded d' (x_extension_id x) step \<and> (schema_ok d \<longrightarrow> schema_ok d') \<and>
    (t \<notin> set tables \<longrightarrow> has_table d t \<longrightarrow> has_table d' t)"
  proof (cases ?sel)
    case (Cons row rest)
    then show ?thesis using step by (auto simp: migrate_step_def recorded_def split: if_split_asm)
  next
    case Nil
    let ?row = "[(''extension_id'', JStr (x_extension_id x)), (''migration_version'', JInt (mg_version step)),
             (''migration_checksum'', JStr (mg_checksum step)), (''applied_at'', JStr at)]"
    obtain d1 where d1: "apply_extension_migration d x step tables = Inr d1"
      and ins: "insert_row d1 ''extension_migrations'' ?row = Inr d'"
      using step Nil by (auto simp: migrate_step_def and_then_Inr_iff)
    have same: "db_rows d1 ''extension_migrations'' = db_rows d ''extension_migrations''"
      using apply_migration_rows [OF d1 own] by simp
    have "recorded d' (x_extension_id x) step"
      using select_rows_insert [OF ins] select_rows_frame [of d1 "''extension_migrations''" d, OF same] Nil
      by (simp add: recorded_def row_matches_def)
    then show ?thesis
      using ins same apply_migration_schema [OF d1] insert_row_schema [OF ins]
      by (auto simp: insert_row_Inr schema_ok_def has_table_def)
  qed
  then show "\<exists>rows. db_rows d' ''extension_migrations'' = db_rows d ''extension_migrations'' @ rows"
    and "recorded d' (x_extension_id x) step" and "schema_ok d \<Longrightarrow> schema_ok d'"
    and "t \<notin> set tables \<Longrightarrow> has_table d t \<Longrightarrow> has_table d' t" by blast+
qed

lemma migrate_steps_effect:
  assumes "fold_res (migrate_step x tables at) d steps = Inr d'" and own: "''extension_migrations'' \<notin> set tables"
  shows "recorded d i s \<Longrightarrow> recorded d' i s" and "\<forall>step \<in> set steps. recorded d' (x_extension_id x) step"
    and "schema_ok d \<Longrightarrow> schema_ok d'" and "t \<notin> set tables \<Longrightarrow> has_table d t \<Longrightarrow> has_table d' t"
proof -
  have "(\<forall>i s. recorded d i s \<longrightarrow> recorded d' i s) \<and> (\<forall>step \<in> set steps. recorded d' (x_extension_id x) step) \<and>
    (schema_ok d \<longrightarrow> schema_ok d') \<and> (\<forall>t. t \<notin> set tables \<longrightarrow> has_table d t \<longrightarrow> has_table d' t)"
    using assms(1)
  proof (induction steps arbitrary: d)
    case Nil
    then show ?case by simp
  next
    case (Cons step steps)
    then obtain m where m: "migrate_step x tables at d step = Inr m"
        "fold_res (migrate_step x tables at) m steps = Inr d'" by (auto simp: and_then_Inr_iff)
    note eff = migrate_step_effect [OF m(1) own]
    show ?case using Cons.IH [OF m(2)] eff recorded_append by (metis set_ConsD)
  qed
  then show "recorded d i s \<Longrightarrow> recorded d' i s" and "\<forall>step \<in> set steps. recorded d' (x_extension_id x) step"
    and "schema_ok d \<Longrightarrow> schema_ok d'" and "t \<notin> set tables \<Longrightarrow> has_table d t \<Longrightarrow> has_table d' t" by blast+
qed

definition tables_apart :: "'x manifest \<Rightarrow> 'x manifest \<Rightarrow> bool" where
  "tables_apart x y \<longleftrightarrow> set (the (x_projection_tables x)) \<inter> set (the (x_projection_tables y)) = {}"

lemma migrate_extension_settled:
  assumes "migrate_extension at d x = Inr d'" and "schema_ok d"
    and own: "''extension_migrations'' \<notin> set (the (x_projection_tables x))"
  shows "settled d' x" and "schema_ok d'"
    and "t \<notin> set (the (x_projection_tables x)) \<Longrightarrow> has_table d t \<Longrightarrow> has_table d' t"
    and "settled d y \<Longrightarrow> tables_apart y x \<Longrightarrow> settled d' y"
proof -
  obtain tables steps where t: "projection_tables x = Inr tables" "migration_steps x = Inr steps"
    and run: "fold_res (migrate_step x tables at) d steps = Inr d'"
    and tab: "set tables \<subseteq> set (table_names (db_schema d'))"
    using assms(1) by (rule migrate_extension_Inr)
  have tables: "set tables = set (the (x_projection_tables x))" using projection_tables_Inr [OF t(1)] by simp
  then have own': "''extension_migrations'' \<notin> set tables" using own by simp
  note eff = migrate_steps_effect [OF run own']
  show ok: "schema_ok d'" using eff(3) assms(2) by blast
  show "has_table d' t" if "t \<notin> set (the (x_projection_tables x))" "has_table d t" for t
    using eff(4) that tables by blast
  have own_tables: "has_table d' t" if "t \<in> set tables" for t
  proof -
    have "t \<in> set (table_names (db_schema d'))" using that tab by blast
    then obtain u def where "((''table'', t, u), def) \<in> set (db_schema d')" by (auto simp: table_names_def)
    with ok show ?thesis by (auto simp: has_table_def schema_ok_def list_all_iff)
  qed
  show "settled d' x" unfolding settled_def
    by (intro exI [of _ tables] exI [of _ steps]) (simp add: t eff(2) own_tables)
  show "settled d' y" if y: "settled d y" and disj: "tables_apart y x" for y
  proof -
    obtain ty sy where *: "projection_tables y = Inr ty" "migration_steps y = Inr sy"
      "\<forall>step \<in> set sy. recorded d (x_extension_id y) step" "\<forall>t \<in> set ty. has_table d t"
      using y unfolding settled_def by blast
    have "set ty \<inter> set tables = {}" using projection_tables_Inr [OF *(1)] disj tables by (simp add: tables_apart_def)
    then have "\<forall>t \<in> set ty. has_table d' t" using *(4) eff(4) by blast
    moreover have "\<forall>step \<in> set sy. recorded d' (x_extension_id y) step" using *(3) eff(1) by blast
    ultimately show ?thesis unfolding settled_def
      by (intro exI [of _ ty] exI [of _ sy]) (simp add: *(1,2))
  qed
qed

lemma migrate_all_settled:
  assumes "fold_res (migrate_extension at) d xs = Inr d'" and "schema_ok d" and "distinct xs"
    and "\<And>x. x \<in> set xs \<Longrightarrow> ''extension_migrations'' \<notin> set (the (x_projection_tables x))"
    and "\<And>x y. x \<in> set xs \<Longrightarrow> y \<in> set xs \<Longrightarrow> x \<noteq> y \<Longrightarrow>
       tables_apart x y"
  shows "(\<forall>x \<in> set xs. settled d' x) \<and> (has_table d ''extension_migrations'' \<longrightarrow> has_table d' ''extension_migrations'') \<and>
    (\<forall>y. settled d y \<longrightarrow> (\<forall>x \<in> set xs. tables_apart y x) \<longrightarrow> settled d' y)"
  using assms
proof (induction xs arbitrary: d)
  case Nil
  then show ?case by simp
next
  case (Cons x xs)
  then obtain m where m: "migrate_extension at d x = Inr m" "fold_res (migrate_extension at) m xs = Inr d'"
    by (auto simp: and_then_Inr_iff)
  note eff = migrate_extension_settled [OF m(1) Cons.prems(2)]
  have own: "''extension_migrations'' \<notin> set (the (x_projection_tables x))" using Cons.prems(4) by simp
  have IH: "(\<forall>x \<in> set xs. settled d' x) \<and> (has_table m ''extension_migrations'' \<longrightarrow> has_table d' ''extension_migrations'') \<and>
    (\<forall>y. settled m y \<longrightarrow> (\<forall>x \<in> set xs. tables_apart y x) \<longrightarrow> settled d' y)"
  proof (rule Cons.IH [OF m(2) eff(2) [OF own]])
    show "distinct xs" using Cons.prems(3) by simp
    show "''extension_migrations'' \<notin> set (the (x_projection_tables y))" if "y \<in> set xs" for y
      using that by (intro Cons.prems(4)) simp
    show "tables_apart y z" if "y \<in> set xs" "z \<in> set xs" "y \<noteq> z" for y z
      using that by (intro Cons.prems(5)) simp_all
  qed
  have "tables_apart x y" if "y \<in> set xs" for y
    using that Cons.prems(3) by (intro Cons.prems(5)) auto
  with IH eff(1) [OF own] have "\<forall>z \<in> set (x # xs). settled d' z" by simp
  moreover have "has_table d ''extension_migrations'' \<longrightarrow> has_table d' ''extension_migrations''"
    using eff(3) [OF own, of "''extension_migrations''"] own IH by blast
  moreover have "settled d y \<longrightarrow> (\<forall>z \<in> set (x # xs). tables_apart y z) \<longrightarrow> settled d' y" for y
    using eff(4) [OF own] IH by simp
  ultimately show ?case by blast
qed

lemma registry_tables:
  assumes "make_ExtensionRegistry cc ce xs = Inr r"
  shows "distinct (r_manifests r)"
    and "x \<in> set (r_manifests r) \<Longrightarrow> t \<in> set (the (x_projection_tables x)) \<Longrightarrow>
       t \<notin> set CORE_PROJECTION_TABLES \<and> t \<noteq> ''extension_migrations''"
    and "x \<in> set (r_manifests r) \<Longrightarrow> y \<in> set (r_manifests r) \<Longrightarrow> x \<noteq> y \<Longrightarrow>
       tables_apart x y"
proof -
  note inv = make_registry_inv [OF assms]
  show "distinct (r_manifests r)" using inv(6) by (auto simp: distinct_map)
  have ok: "owners_ok (\<lambda>x. the (x_projection_tables x)) (set CORE_PROJECTION_TABLES \<union> {''extension_migrations''})
      (set (r_manifests r)) (r_table_owners r)"
    using inv(1-3) by (simp add: registry_inv_def)
  show "t \<notin> set CORE_PROJECTION_TABLES \<and> t \<noteq> ''extension_migrations''"
    if "x \<in> set (r_manifests r)" "t \<in> set (the (x_projection_tables x))" for x t
    using owners_reserved [OF ok that(1)] that(2) by blast
  show "tables_apart x y"
    if "x \<in> set (r_manifests r)" "y \<in> set (r_manifests r)" "x \<noteq> y" for x y
    using owners_unique [OF ok that(1,2)] that(3) unfolding tables_apart_def by blast
qed

lemma initialize_extensions_Inr:
  assumes "initialize_extensions d r at = (d', Inr ())" and "registry_enabled r"
  shows "fold_res (migrate_extension at) (create_if_missing d extension_migrations_object) (r_manifests r) = Inr d'"
  using assms
  by (cases "fold_res (migrate_extension at) (create_if_missing d extension_migrations_object) (r_manifests r)")
     (simp_all add: initialize_extensions_def immediate_transaction_def)

lemma has_extension_migrations:
  "has_table (create_if_missing d extension_migrations_object) ''extension_migrations''"
  "schema_ok d \<Longrightarrow> schema_ok (create_if_missing d extension_migrations_object)"
proof -
  let ?k = "(''table'', ''extension_migrations'', ''extension_migrations'')"
  show "has_table (create_if_missing d extension_migrations_object) ''extension_migrations''"
  proof (cases "map_of (db_schema d) ?k")
    case None
    then show ?thesis by (auto simp: has_table_def create_if_missing_def extension_migrations_object_def)
  next
    case (Some def)
    then have "(?k, def) \<in> set (db_schema d)" by (rule map_of_SomeD)
    then show ?thesis using Some by (auto simp: has_table_def create_if_missing_def extension_migrations_object_def)
  qed
  show "schema_ok (create_if_missing d extension_migrations_object)" if "schema_ok d"
    using that by (simp add: create_if_missing_def extension_migrations_object_def schema_ok_def)
qed

lemma has_table_map_of:
  assumes "has_table d t"
  shows "map_of (db_schema d) (''table'', t, t) \<noteq> None"
proof -
  obtain def where "((''table'', t, t), def) \<in> set (db_schema d)"
    using assms unfolding has_table_def by (elim exE)
  then have "(''table'', t, t) \<in> fst ` set (db_schema d)" by (rule rev_image_eqI) simp
  then show ?thesis by (simp only: map_of_eq_None_iff not_not)
qed

lemma has_table_create:
  assumes "has_table d ''extension_migrations''"
  shows "create_if_missing d extension_migrations_object = d"
proof -
  have "map_of (db_schema d) (''table'', ''extension_migrations'', ''extension_migrations'') \<noteq> None"
    by (rule has_table_map_of [OF assms])
  then show ?thesis by (simp add: create_if_missing_def extension_migrations_object_def)
qed

lemma initialize_extensions_settles:
  assumes "make_ExtensionRegistry cc ce xs = Inr r" and "registry_enabled r" and "schema_ok d"
    and "initialize_extensions d r at = (d', Inr ())"
  shows "initialize_extensions d' r at' = (d', Inr ())"
proof -
  note reg = registry_tables [OF assms(1)]
  note run = initialize_extensions_Inr [OF assms(4,2)]
  have own: "''extension_migrations'' \<notin> set (the (x_projection_tables x))" if "x \<in> set (r_manifests r)" for x
    using reg(2) [OF that, of "''extension_migrations''"] by auto
  have all: "(\<forall>x \<in> set (r_manifests r). settled d' x) \<and>
    (has_table (create_if_missing d extension_migrations_object) ''extension_migrations'' \<longrightarrow>
       has_table d' ''extension_migrations'') \<and>
    (\<forall>y. settled (create_if_missing d extension_migrations_object) y \<longrightarrow>
       (\<forall>x \<in> set (r_manifests r). tables_apart y x) \<longrightarrow> settled d' y)"
    by (rule migrate_all_settled [OF run has_extension_migrations(2) [OF assms(3)] reg(1)])
       (erule own, erule (2) reg(3))
  have "\<forall>x \<in> set (r_manifests r). settled d' x" by (rule conjunct1 [OF all])
  moreover have "has_table d' ''extension_migrations''"
    by (rule mp [OF conjunct1 [OF conjunct2 [OF all]] has_extension_migrations(1)])
  ultimately have "fold_res (migrate_extension at') (create_if_missing d' extension_migrations_object) (r_manifests r) = Inr d'"
    unfolding has_table_create [OF \<open>has_table d' ''extension_migrations''\<close>]
    by (intro fold_res_idle settled_migrate) blast
  then show ?thesis using assms(2) by (simp add: initialize_extensions_def immediate_transaction_def)
qed

end
