(* ===== verification/EventStore.thy ===== *)
theory EventStore
  imports Schema
begin

text \<open>
  durable_core/event_store.py: the append-only log.  The log of a mission is numbered 1, 2, ...
  without gaps; under that invariant reading it back is the list of the inserted events with their
  payloads in canonical order, and the head is its length.
\<close>

section \<open>Operations\<close>

definition row_to_event :: "dict \<Rightarrow> event_envelope py" where
  "row_to_event row =
     and_then (as_text (dget row ''event_id'')) (\<lambda>i.
     and_then (as_text (dget row ''mission_id'')) (\<lambda>m.
     and_then (as_opt_str (dget row ''session_id'')) (\<lambda>s.
     and_then (py_int (dget row ''seq'')) (\<lambda>n.
     and_then (as_text (dget row ''event_type'')) (\<lambda>t.
     and_then (as_text (dget row ''entity_type'')) (\<lambda>et.
     and_then (as_text (dget row ''entity_id'')) (\<lambda>ei.
     and_then (as_text (dget row ''command_id'')) (\<lambda>c.
     and_then (as_text (dget row ''correlation_id'')) (\<lambda>co.
     and_then (as_text (dget row ''initiator_type'')) (\<lambda>it.
     and_then (as_text (dget row ''initiator_id'')) (\<lambda>ii.
     and_then (and_then (and_then (as_text (dget row ''payload_json'')) json_loads) as_dict) (\<lambda>p.
     and_then (as_text (dget row ''created_at'')) (\<lambda>ca.
     and_then (py_int (dget row ''schema_version'')) (\<lambda>v.
     Inr \<lparr>ev_event_id = i, ev_mission_id = m, ev_seq = n, ev_event_type = t, ev_entity_type = et,
          ev_entity_id = ei, ev_command_id = c, ev_correlation_id = co, ev_initiator_type = it,
          ev_initiator_id = ii, ev_payload = p, ev_created_at = ca, ev_session_id = s,
          ev_schema_version = v\<rparr>))))))))))))))"

definition row_seq :: "dict \<Rightarrow> int" where
  "row_seq r = (case dget r ''seq'' of JInt i \<Rightarrow> i | _ \<Rightarrow> 0)"

definition stream :: "db \<Rightarrow> string \<Rightarrow> dict list" where
  "stream d m = select_rows d ''events'' [(''mission_id'', JStr m)]"

definition get_head_seq :: "db \<Rightarrow> string \<Rightarrow> int" where
  "get_head_seq d m = (case map row_seq (stream d m) of [] \<Rightarrow> 0 | n # ns \<Rightarrow> foldl max n ns)"

definition list_events :: "db \<Rightarrow> string \<Rightarrow> int \<Rightarrow> int option \<Rightarrow> event_envelope list py" where
  "list_events d m after_seq through_seq =
     map_res row_to_event
       (sort_key row_seq
          (filter (\<lambda>r. after_seq < row_seq r \<and> (case through_seq of None \<Rightarrow> True | Some n \<Rightarrow> row_seq r \<le> n))
             (stream d m)))"

definition event_row :: "event_envelope \<Rightarrow> dict" where
  "event_row e =
     [(''event_id'', JStr (ev_event_id e)), (''mission_id'', JStr (ev_mission_id e)),
      (''session_id'', jopt (ev_session_id e)), (''seq'', JInt (ev_seq e)),
      (''event_type'', JStr (ev_event_type e)), (''entity_type'', JStr (ev_entity_type e)),
      (''entity_id'', JStr (ev_entity_id e)), (''command_id'', JStr (ev_command_id e)),
      (''correlation_id'', JStr (ev_correlation_id e)), (''initiator_type'', JStr (ev_initiator_type e)),
      (''initiator_id'', JStr (ev_initiator_id e)),
      (''payload_json'', JStr (canonical_json (JObj (ev_payload e)))),
      (''created_at'', JStr (ev_created_at e)), (''schema_version'', JInt (ev_schema_version e))]"

definition insert_event :: "db \<Rightarrow> event_envelope \<Rightarrow> db py" where
  "insert_event d e =
     (let expected = get_head_seq d (ev_mission_id e) + 1
      in if ev_seq e \<noteq> expected then
           runtime_error ''EVENT_SEQUENCE_VIOLATION'' (seq_message expected (ev_seq e))
         else insert_row d ''events'' (event_row e))"

definition insert_events :: "db \<Rightarrow> event_envelope list \<Rightarrow> db py" where
  "insert_events d es = fold_res insert_event d es"

section \<open>The log\<close>

text \<open>Every mission's rows carry the numbers 1, 2, ... in insertion order and hold an event.\<close>

definition log_ok :: "db \<Rightarrow> bool" where
  "log_ok d \<longleftrightarrow>
     (\<forall>m. map row_seq (stream d m) = map int [1..<Suc (length (stream d m))]) \<and>
     (\<forall>r \<in> set (db_rows d ''events''). \<exists>e. row_to_event r = Inr e \<and> event_norm e = e)"

lemma row_to_event_row [simp]: "row_to_event (event_row e) = Inr (event_norm e)"
  by (simp add: row_to_event_def event_row_def json_loads_canonical event_norm_def)

lemma event_norm_idem [simp]: "event_norm (event_norm e) = event_norm e"
  by (simp add: event_norm_def canon_dict_idem)

lemma row_seq_event_row [simp]: "row_seq (event_row e) = ev_seq e"
  by (simp add: row_seq_def event_row_def)

lemma row_to_event_seq: "row_to_event r = Inr e \<Longrightarrow> dget r ''seq'' = JInt n \<Longrightarrow> ev_seq e = n"
  by (auto simp: row_to_event_def and_then_Inr_iff)

lemma stream_insert:
  "insert_row d ''events'' (event_row e) = Inr d' \<Longrightarrow>
     stream d' m = stream d m @ (if ev_mission_id e = m then [event_row e] else [])"
  by (auto simp: stream_def select_rows_insert row_matches_def event_row_def)

lemma foldl_max_le: "foldl max (a::int) xs \<ge> a" "x \<in> set xs \<Longrightarrow> foldl max a xs \<ge> x"
  by (induction xs arbitrary: a) (auto intro: order_trans [OF max.cobounded1] order_trans [OF max.cobounded2])

lemma foldl_max_mono: "a \<le> b \<Longrightarrow> (\<And>x. x \<in> set xs \<Longrightarrow> x \<le> b) \<Longrightarrow> foldl max (a::int) xs \<le> b"
  by (induction xs arbitrary: a) auto

lemma head_of_numbers:
  "map row_seq rows = map int [1..<Suc (length rows)] \<Longrightarrow>
     (case map row_seq rows of [] \<Rightarrow> 0 | n # ns \<Rightarrow> foldl max n ns) = int (length rows)"
proof (cases rows)
  case (Cons r rs)
  assume "map row_seq rows = map int [1..<Suc (length rows)]"
  then have "row_seq r # map row_seq rs = map int [1..<Suc (Suc (length rs))]" using Cons by simp
  moreover have "[1..<Suc (Suc (length rs))] = 1 # [2..<Suc (Suc (length rs))]"
    by (subst upt_conv_Cons) (auto simp: numeral_2_eq_2)
  ultimately have r: "row_seq r = 1" and rs: "map row_seq rs = map int [2..<Suc (Suc (length rs))]"
    by (simp_all del: upt_Suc)
  let ?n = "int (length rows)"
  have "foldl max 1 (map int [2..<Suc (Suc (length rs))]) \<le> ?n"
    by (rule foldl_max_mono) (auto simp: Cons)
  moreover have "foldl max 1 (map int [2..<Suc (Suc (length rs))]) \<ge> ?n"
  proof (cases "length rs = 0")
    case False
    then have "Suc (length rs) \<in> set [2..<Suc (Suc (length rs))]" by (auto simp: Suc_le_eq)
    then have "int (Suc (length rs)) \<in> set (map int [2..<Suc (Suc (length rs))])"
      unfolding set_map by (rule imageI)
    then show ?thesis using Cons foldl_max_le(2) [of "int (Suc (length rs))"] by simp
  qed (simp add: Cons)
  ultimately show ?thesis using Cons r rs by simp
qed simp

lemma log_head: "log_ok d \<Longrightarrow> get_head_seq d m = int (length (stream d m))"
  unfolding get_head_seq_def by (rule head_of_numbers) (simp add: log_ok_def del: upt_Suc)

lemma log_empty: "db_rows d ''events'' = [] \<Longrightarrow> log_ok d"
  by (simp add: log_ok_def stream_def select_rows_def)

lemma log_frame: "db_rows d' ''events'' = db_rows d ''events'' \<Longrightarrow> log_ok d' = log_ok d \<and> stream d' m = stream d m"
  by (simp add: log_ok_def stream_def select_rows_def)

lemma insert_event_ok:
  assumes ins: "insert_event d e = Inr d'" and ok: "log_ok d"
  shows "log_ok d'" and "ev_seq e = int (length (stream d (ev_mission_id e))) + 1"
    and "stream d' m = stream d m @ (if ev_mission_id e = m then [event_row e] else [])"
    and "t \<noteq> ''events'' \<Longrightarrow> db_rows d' t = db_rows d t" and "db_schema d' = db_schema d"
proof -
  have row: "insert_row d ''events'' (event_row e) = Inr d'" and seq: "ev_seq e = get_head_seq d (ev_mission_id e) + 1"
    using ins by (auto simp: insert_event_def Let_def split: if_split_asm)
  show seq': "ev_seq e = int (length (stream d (ev_mission_id e))) + 1" using seq log_head [OF ok] by simp
  show str: "stream d' m = stream d m @ (if ev_mission_id e = m then [event_row e] else [])" for m
    by (rule stream_insert [OF row])
  show "t \<noteq> ''events'' \<Longrightarrow> db_rows d' t = db_rows d t" by (rule insert_row_other [OF row])
  show "db_schema d' = db_schema d" by (rule insert_row_schema [OF row])
  have "db_rows d' ''events'' = db_rows d ''events'' @ [event_row e]" using row by (auto simp: insert_row_Inr)
  then show "log_ok d'" using ok seq' str by (auto simp: log_ok_def)
qed

lemma insert_events_ok:
  assumes "insert_events d es = Inr d'" and "log_ok d" and "\<And>e. e \<in> set es \<Longrightarrow> ev_mission_id e = m"
  shows "log_ok d'" and "stream d' m = stream d m @ map event_row es"
    and "k \<noteq> m \<Longrightarrow> stream d' k = stream d k"
    and "t \<noteq> ''events'' \<Longrightarrow> db_rows d' t = db_rows d t" and "db_schema d' = db_schema d"
proof -
  have "log_ok d' \<and> stream d' m = stream d m @ map event_row es \<and> (\<forall>k. k \<noteq> m \<longrightarrow> stream d' k = stream d k) \<and>
    (\<forall>t. t \<noteq> ''events'' \<longrightarrow> db_rows d' t = db_rows d t) \<and> db_schema d' = db_schema d"
    using assms unfolding insert_events_def
  proof (induction es arbitrary: d)
    case Nil
    then show ?case by simp
  next
    case (Cons e es)
    then obtain d1 where d1: "insert_event d e = Inr d1" "fold_res insert_event d1 es = Inr d'"
      by (auto simp: and_then_Inr_iff)
    note one = insert_event_ok [OF d1(1) Cons.prems(2)]
    have IH: "log_ok d' \<and> stream d' m = stream d1 m @ map event_row es \<and> (\<forall>k. k \<noteq> m \<longrightarrow> stream d' k = stream d1 k) \<and>
        (\<forall>t. t \<noteq> ''events'' \<longrightarrow> db_rows d' t = db_rows d1 t) \<and> db_schema d' = db_schema d1"
      using Cons.prems(3) by (intro Cons.IH d1(2) one(1)) simp
    show ?case using IH one Cons.prems(3) [of e] by simp
  qed
  then show "log_ok d'" and "stream d' m = stream d m @ map event_row es"
    and "k \<noteq> m \<Longrightarrow> stream d' k = stream d k"
    and "t \<noteq> ''events'' \<Longrightarrow> db_rows d' t = db_rows d t" and "db_schema d' = db_schema d" by simp_all
qed

lemma log_seqs_sorted: "log_ok d \<Longrightarrow> sorted (map row_seq (stream d m))"
  by (simp add: log_ok_def sorted_map del: upt_Suc)

lemma filter_sorted_key: "sorted (map f xs) \<Longrightarrow> sort_key f (filter P xs) = filter P xs"
  by (rule sort_key_id_if_sorted) (rule sorted_filter)

text \<open>Reading the log: the whole of it, and a prefix.\<close>

lemma log_row_pos: "log_ok d \<Longrightarrow> r \<in> set (stream d m) \<Longrightarrow> 0 < row_seq r"
proof -
  assume "log_ok d" "r \<in> set (stream d m)"
  then have "row_seq r \<in> set (map int [1..<Suc (length (stream d m))])"
    unfolding log_ok_def by (metis image_eqI list.set_map)
  then show ?thesis by auto
qed

lemma list_events_log: "log_ok d \<Longrightarrow> list_events d m 0 None = map_res row_to_event (stream d m)"
proof -
  assume ok: "log_ok d"
  have "filter (\<lambda>r. 0 < row_seq r) (stream d m) = stream d m"
    by (rule filter_True) (use log_row_pos [OF ok] in blast)
  then show ?thesis using log_seqs_sorted [OF ok, of m] by (simp add: list_events_def sort_key_id_if_sorted)
qed

lemma log_readable: "log_ok d \<Longrightarrow> \<exists>es. map_res row_to_event (stream d m) = Inr es"
proof -
  assume ok: "log_ok d"
  have "\<exists>es. map_res row_to_event rows = Inr es" if "\<And>r. r \<in> set rows \<Longrightarrow> \<exists>e. row_to_event r = Inr e" for rows
    using that by (induction rows) (fastforce simp: and_then_Inr_iff)+
  moreover have "\<exists>e. row_to_event r = Inr e" if "r \<in> set (stream d m)" for r
    using ok that by (auto simp: log_ok_def stream_def select_rows_def)
  ultimately show ?thesis by blast
qed

lemma map_res_append: "map_res f (xs @ ys) = and_then (map_res f xs) (\<lambda>a. and_then (map_res f ys) (\<lambda>b. Inr (a @ b)))"
  by (induction xs) (simp_all add: and_then_assoc)

lemma map_res_event_rows: "map_res row_to_event (map event_row es) = Inr (map event_norm es)"
  by (induction es) simp_all

text \<open>What was inserted is what is listed.\<close>

lemma list_events_insert:
  assumes "insert_events d es = Inr d'" and "log_ok d" and "\<And>e. e \<in> set es \<Longrightarrow> ev_mission_id e = m"
    and "list_events d m 0 None = Inr old"
  shows "list_events d' m 0 None = Inr (old @ map event_norm es)"
  using assms(4) insert_events_ok(1,2) [OF assms(1,2)] assms(2,3)
  by (simp add: list_events_log map_res_append map_res_event_rows)

lemma insert_events_rows:
  "insert_events d es = Inr d' \<Longrightarrow> db_rows d' ''events'' = db_rows d ''events'' @ map event_row es"
  unfolding insert_events_def
  by (induction es arbitrary: d)
     (auto simp: and_then_Inr_iff insert_event_def insert_row_Inr Let_def split: if_split_asm)

text \<open>Reading up to a number and then on from it is reading at once.\<close>

lemma sorted_split: "sorted (map f xs) \<Longrightarrow> xs = filter (\<lambda>x. f x \<le> k) xs @ filter (\<lambda>x. \<not> f x \<le> k) xs" for k :: "'a :: linorder"
proof (induction xs)
  case (Cons x xs)
  show ?case
  proof (cases "f x \<le> k")
    case True
    then show ?thesis using Cons by simp
  next
    case False
    then have "\<not> f y \<le> k" if "y \<in> set (x # xs)" for y using Cons.prems that by auto
    then show ?thesis by simp
  qed
qed simp

lemma list_events_split:
  assumes "0 \<le> k" and "\<And>n. through = Some n \<Longrightarrow> k \<le> n"
  shows "list_events d m 0 through =
    and_then (list_events d m 0 (Some k)) (\<lambda>old. and_then (list_events d m k through) (\<lambda>new. Inr (old @ new)))"
proof -
  let ?rows = "filter (\<lambda>r. 0 < row_seq r \<and> (case through of None \<Rightarrow> True | Some n \<Rightarrow> row_seq r \<le> n)) (stream d m)"
  have "filter (\<lambda>r. row_seq r \<le> k) ?rows = filter (\<lambda>r. 0 < row_seq r \<and> row_seq r \<le> k) (stream d m)"
    unfolding filter_filter by (rule filter_cong [OF refl]) (use assms in \<open>force split: option.split\<close>)
  moreover have "filter (\<lambda>r. \<not> row_seq r \<le> k) ?rows =
      filter (\<lambda>r. k < row_seq r \<and> (case through of None \<Rightarrow> True | Some n \<Rightarrow> row_seq r \<le> n)) (stream d m)"
    unfolding filter_filter by (rule filter_cong [OF refl]) (use assms in \<open>force split: option.split\<close>)
  ultimately show ?thesis
    using sorted_split [of row_seq "sort_key row_seq ?rows" k]
    by (simp add: list_events_def filter_sort map_res_append [symmetric])
qed

text \<open>The events of a window of a well-formed log are the events with the sequence numbers of the window.\<close>

lemma filter_upt: "filter (\<lambda>i. a < i \<and> i \<le> b) [1..<Suc n] = [Suc a..<Suc (min b n)]"
proof (induction n)
  case 0
  then show ?case by simp
next
  case (Suc n)
  have "filter (\<lambda>i. a < i \<and> i \<le> b) [1..<Suc (Suc n)] = [Suc a..<Suc (min b n)] @ (if a < Suc n \<and> Suc n \<le> b then [Suc n] else [])"
    using Suc by simp
  also have "\<dots> = [Suc a..<Suc (min b (Suc n))]"
    by (cases "b \<le> n"; cases "b = Suc n") (auto simp: min_def)
  finally show ?case .
qed

lemma list_events_window:
  assumes ok: "log_ok d" and k: "0 \<le> k"
  shows "\<exists>es. list_events d m k (Some n) = Inr es \<and>
     map ev_seq es = map int [Suc (nat k)..<Suc (min (nat n) (length (stream d m)))]"
proof -
  let ?rows = "filter (\<lambda>r. k < row_seq r \<and> row_seq r \<le> n) (stream d m)"
  have numbers: "map row_seq (stream d m) = map int [1..<Suc (length (stream d m))]" using ok by (simp add: log_ok_def)
  have seqs: "map row_seq ?rows = map int [Suc (nat k)..<Suc (min (nat n) (length (stream d m)))]"
  proof -
    have "map row_seq ?rows = map int (filter (\<lambda>i. k < int i \<and> int i \<le> n) [1..<Suc (length (stream d m))])"
      using arg_cong [OF numbers, of "filter (\<lambda>i. k < i \<and> i \<le> n)"] by (simp add: filter_map o_def del: upt_Suc)
    also have "filter (\<lambda>i. k < int i \<and> int i \<le> n) [1..<Suc (length (stream d m))] =
        filter (\<lambda>i. nat k < i \<and> i \<le> nat n) [1..<Suc (length (stream d m))]"
      by (rule filter_cong) (use k in auto)
    finally show ?thesis by (simp only: filter_upt)
  qed
  then have "sorted (map row_seq ?rows)" by (simp add: sorted_map_mono mono_on_def del: upt_Suc)
  then have rows: "sort_key row_seq ?rows = ?rows" by (rule sort_key_id_if_sorted)
  have event: "\<exists>e. row_to_event r = Inr e \<and> ev_seq e = row_seq r" if "r \<in> set ?rows" for r
  proof -
    have "r \<in> set (db_rows d ''events'')" using that by (simp add: stream_def select_rows_def)
    then obtain e where e: "row_to_event r = Inr e" using ok unfolding log_ok_def by blast
    have "dget r ''seq'' = JInt (row_seq r)" using that k by (cases "dget r ''seq''") (auto simp: row_seq_def)
    then show ?thesis using e row_to_event_seq by blast
  qed
  have "\<exists>es. map_res row_to_event rs = Inr es \<and> map ev_seq es = map row_seq rs"
    if "\<And>r. r \<in> set rs \<Longrightarrow> \<exists>e. row_to_event r = Inr e \<and> ev_seq e = row_seq r" for rs
    using that by (induction rs) (fastforce simp: and_then_Inr_iff)+
  then obtain es where "map_res row_to_event ?rows = Inr es" "map ev_seq es = map row_seq ?rows" using event by blast
  then show ?thesis by (simp only: list_events_def option.case rows seqs) blast
qed

end
