(* ===== verification/CoreProjections.thy ===== *)
theory CoreProjections
  imports EventStore
begin

text \<open>
  durable_core/projections.py: the materialized projections, the authorizer around the callbacks of
  extensions, replay, verification against replay and rebuilding.  \<open>sha\<close> is the hash function
  (\<open>hashlib.sha256(...).hexdigest()\<close>), of which nothing is assumed.
\<close>

section \<open>The authorizer of projection callbacks\<close>

definition SCHEMA_ACTIONS :: "string list" where
  "SCHEMA_ACTIONS =
     [''SQLITE_ALTER_TABLE'', ''SQLITE_CREATE_INDEX'', ''SQLITE_CREATE_TABLE'', ''SQLITE_CREATE_TRIGGER'',
      ''SQLITE_CREATE_VIEW'', ''SQLITE_DROP_INDEX'', ''SQLITE_DROP_TABLE'', ''SQLITE_DROP_TRIGGER'',
      ''SQLITE_DROP_VIEW'']"

definition CONTROL_ACTIONS :: "string list" where
  "CONTROL_ACTIONS =
     [''SQLITE_ATTACH'', ''SQLITE_DETACH'', ''SQLITE_PRAGMA'', ''SQLITE_TRANSACTION'', ''SQLITE_SAVEPOINT'',
      ''SQLITE_CREATE_VTABLE'', ''SQLITE_DROP_VTABLE'']"

definition projection_authorize :: "string list \<Rightarrow> action \<Rightarrow> bool" where
  "projection_authorize allowed_tables = (\<lambda>(action, first, second).
     if action \<in> set WRITE_ACTIONS \<and> first \<notin> set allowed_tables then False
     else if action \<in> set SCHEMA_ACTIONS \<or> action \<in> set CONTROL_ACTIONS then False
     else True)"

definition allowed_tables :: "'x manifest \<Rightarrow> bool \<Rightarrow> string list" where
  "allowed_tables x allow_writes = (if allow_writes then the (x_projection_tables x) else [])"

definition projection_call :: "db \<Rightarrow> 'x manifest \<Rightarrow> bool \<Rightarrow> 'r callback \<Rightarrow> (db \<times> 'r) py" where
  "projection_call d x allow_writes c =
     guarded_call (projection_authorize (allowed_tables x allow_writes)) ''EXTENSION_STATE_WRITE_FORBIDDEN''
       (''Extension '' @ x_extension_id x @ '' attempted a forbidden projection write'') d c"

definition read_extension_projection :: "db \<Rightarrow> 'x manifest \<Rightarrow> string \<Rightarrow> 'x py" where
  "read_extension_projection d x m =
     and_then (projection_call d x False (x_read x d m)) (\<lambda>(_, v). Inr v)"

section \<open>The core projection\<close>

definition delete_core_rows :: "db \<Rightarrow> conds \<Rightarrow> db py" where
  "delete_core_rows d cs =
     and_then (delete_rows d ''goal_projection'' cs) (\<lambda>d1.
     and_then (delete_rows d1 ''session_projection'' cs) (\<lambda>d2.
     delete_rows d2 ''mission_projection'' cs))"

abbreviation insert_rows :: "string \<Rightarrow> db \<Rightarrow> dict list \<Rightarrow> db py" where
  "insert_rows t d rows \<equiv> fold_res (\<lambda>d r. insert_row d t r) d rows"

definition goal_row :: "string \<Rightarrow> goal_state \<Rightarrow> dict py" where
  "goal_row m g =
     and_then (goal_to_dict g) (\<lambda>v.
     Inr [(''mission_id'', JStr m), (''goal_id'', JStr (gs_goal_id g)),
          (''state_json'', JStr (canonical_json (JObj v)))])"

definition session_row :: "string \<Rightarrow> session_state \<Rightarrow> dict py" where
  "session_row m x =
     and_then (session_to_dict x) (\<lambda>v.
     Inr [(''mission_id'', JStr m), (''session_id'', JStr (ss_session_id x)),
          (''state_json'', JStr (canonical_json (JObj v)))])"

definition state_hash :: "(string \<Rightarrow> string) \<Rightarrow> runtime_state \<Rightarrow> string py" where
  "state_hash sha s = and_then (state_to_dict s) (\<lambda>v. Inr (canonical_sha256 sha (JObj v)))"

definition apply_projection :: "(string \<Rightarrow> string) \<Rightarrow> db \<Rightarrow> runtime_state \<Rightarrow> db py" where
  "apply_projection sha d s =
     (case rs_mission s of
        None \<Rightarrow> violation ''cannot project an absent Mission''
      | Some m \<Rightarrow>
          and_then (delete_core_rows d [(''mission_id'', JStr (rs_mission_id s))]) (\<lambda>d1.
          and_then (mission_to_dict m) (\<lambda>v.
          and_then (state_hash sha s) (\<lambda>h.
          and_then (insert_row d1 ''mission_projection''
            [(''mission_id'', JStr (rs_mission_id s)), (''seq'', JInt (rs_seq s)),
             (''state_json'', JStr (canonical_json (JObj v))), (''state_hash'', JStr h)]) (\<lambda>d2.
          and_then (map_res (goal_row (rs_mission_id s)) (rs_goals s)) (\<lambda>goals.
          and_then (insert_rows ''goal_projection'' d2 goals) (\<lambda>d3.
          and_then (map_res (session_row (rs_mission_id s)) (rs_sessions s)) (\<lambda>sessions.
          insert_rows ''session_projection'' d3 sessions))))))))"

text \<open>\<open>{row[key]: json.loads(row["state_json"]) for row in ... ORDER BY key}\<close>\<close>

definition text_of :: "dict \<Rightarrow> string \<Rightarrow> string" where
  "text_of r c = (case dget r c of JStr s \<Rightarrow> s | _ \<Rightarrow> [])"

definition read_json :: "dict \<Rightarrow> json py" where
  "read_json r = and_then (as_text (dget r ''state_json'')) json_loads"

definition projected_values :: "string \<Rightarrow> dict list \<Rightarrow> dict py" where
  "projected_values key rows =
     and_then (map_res (\<lambda>r. and_then (read_json r) (\<lambda>v. Inr (text_of r key, v))) (sort_key (\<lambda>r. text_of r key) rows)) (\<lambda>ps.
     Inr (dict_of_pairs ps))"

definition projection_state :: "db \<Rightarrow> string \<Rightarrow> runtime_state option py" where
  "projection_state d m =
     (case select_rows d ''mission_projection'' [(''mission_id'', JStr m)] of
        [] \<Rightarrow> Inr None
      | row # _ \<Rightarrow>
          and_then (projected_values ''goal_id'' (select_rows d ''goal_projection'' [(''mission_id'', JStr m)])) (\<lambda>goals.
          and_then (projected_values ''session_id'' (select_rows d ''session_projection'' [(''mission_id'', JStr m)])) (\<lambda>sessions.
          and_then (py_int (dget row ''seq'')) (\<lambda>n.
          and_then (read_json row) (\<lambda>mission.
          and_then (state_from_dict
            [(''mission_id'', JStr m), (''seq'', JInt n), (''mission'', mission),
             (''goals'', JObj goals), (''sessions'', JObj sessions)]) (\<lambda>s.
          Inr (Some s)))))))"

definition replay_state :: "db \<Rightarrow> string \<Rightarrow> int option \<Rightarrow> runtime_state py" where
  "replay_state d m through_seq =
     and_then (initial_state m) (\<lambda>s.
     and_then (list_events d m 0 through_seq) (\<lambda>es. fold_res reduce s es))"

definition hash_option :: "('a \<Rightarrow> string py) \<Rightarrow> 'a option \<Rightarrow> string option py" where
  "hash_option h x = (case x of None \<Rightarrow> Inr None | Some a \<Rightarrow> and_then (h a) (\<lambda>v. Inr (Some v)))"

definition verify_projection :: "(string \<Rightarrow> string) \<Rightarrow> db \<Rightarrow> string \<Rightarrow> dict py" where
  "verify_projection sha d m =
     and_then (replay_state d m None) (\<lambda>replayed.
     and_then (projection_state d m) (\<lambda>projected.
     and_then (state_hash sha replayed) (\<lambda>replay_hash.
     and_then (hash_option (state_hash sha) projected) (\<lambda>projection_hash.
     if rs_mission replayed = None \<or> projected = None \<or> Some replay_hash \<noteq> projection_hash then
       runtime_error_with ''PROJECTION_DRIFT''
         (''projection differs from Event replay for Mission '' @ m)
         [(''replay_hash'', JStr replay_hash), (''projection_hash'', jopt projection_hash)]
     else
       Inr [(''ok'', JBool True), (''mission_id'', JStr m), (''replay_hash'', JStr replay_hash),
            (''projection_hash'', jopt projection_hash)]))))"

text \<open>\<open>SELECT DISTINCT mission_id FROM events ORDER BY mission_id\<close>\<close>

definition logged_missions :: "db \<Rightarrow> string list" where
  "logged_missions d = sort (remdups (map (\<lambda>r. text_of r ''mission_id'') (db_rows d ''events'')))"

definition rebuild_one :: "(string \<Rightarrow> string) \<Rightarrow> db \<times> dict \<Rightarrow> string \<Rightarrow> (db \<times> dict) py" where
  "rebuild_one sha = (\<lambda>(d, hashes) m.
     and_then (replay_state d m None) (\<lambda>s.
     if rs_mission s = None then Inr (d, hashes)
     else
       and_then (apply_projection sha d s) (\<lambda>d'.
       and_then (state_hash sha s) (\<lambda>h. Inr (d', hashes @ [(m, JStr h)])))))"

definition rebuild_projections :: "(string \<Rightarrow> string) \<Rightarrow> db \<Rightarrow> string option \<Rightarrow> (db \<times> dict) py" where
  "rebuild_projections sha d mission_id =
     (let missions = (case mission_id of None \<Rightarrow> logged_missions d | Some m \<Rightarrow> [m]);
          cs = (case mission_id of None \<Rightarrow> [] | Some m \<Rightarrow> [(''mission_id'', JStr m)])
      in and_then (delete_core_rows d cs) (\<lambda>d1.
         and_then (fold_res (rebuild_one sha) (d1, []) missions) (\<lambda>(d2, hashes).
         Inr (d2, [(''rebuilt'', JInt (int (length hashes))), (''state_hashes'', JObj hashes)]))))"

section \<open>What a projection stores\<close>

lemma delete_rows_Inr:
  assumes "delete_rows d t cs = Inr d'"
  shows "db_rows d' = (db_rows d)(t := filter (\<lambda>r. \<not> row_matches cs r) (db_rows d t))"
  using assms
  by (auto simp: delete_rows_def select_rows_def filter_empty_conv fun_eq_iff
      intro!: filter_True [symmetric] split: if_split_asm option.split_asm)

lemma insert_rows_Inr:
  "insert_rows t d rows = Inr d' \<Longrightarrow>
     db_rows d' = (db_rows d)(t := db_rows d t @ rows) \<and> db_schema d' = db_schema d"
  by (induction rows arbitrary: d) (auto simp: and_then_Inr_iff insert_row_Inr fun_eq_iff)

definition without_mission :: "string \<Rightarrow> dict list \<Rightarrow> dict list" where
  "without_mission m rows = filter (\<lambda>r. \<not> row_matches [(''mission_id'', JStr m)] r) rows"

lemma delete_core_rows_Inr:
  assumes "delete_core_rows d cs = Inr d'"
  shows "db_schema d' = db_schema d"
    and "db_rows d' t = (if t \<in> set [''goal_projection'', ''session_projection'', ''mission_projection'']
           then filter (\<lambda>r. \<not> row_matches cs r) (db_rows d t) else db_rows d t)"
proof -
  obtain d1 d2 where d: "delete_rows d ''goal_projection'' cs = Inr d1"
      "delete_rows d1 ''session_projection'' cs = Inr d2" "delete_rows d2 ''mission_projection'' cs = Inr d'"
    using assms by (auto simp: delete_core_rows_def and_then_Inr_iff)
  show "db_schema d' = db_schema d" using d [THEN delete_rows_schema] by simp
  show "db_rows d' t = (if t \<in> set [''goal_projection'', ''session_projection'', ''mission_projection'']
           then filter (\<lambda>r. \<not> row_matches cs r) (db_rows d t) else db_rows d t)"
    using d [THEN delete_rows_Inr] by simp
qed

lemma apply_projection_Inr:
  assumes "apply_projection sha d s = Inr d'"
  obtains m v h goals sessions where "rs_mission s = Some m" and "mission_to_dict m = Inr v" and "state_hash sha s = Inr h"
    and "map_res (goal_row (rs_mission_id s)) (rs_goals s) = Inr goals"
    and "map_res (session_row (rs_mission_id s)) (rs_sessions s) = Inr sessions"
    and "db_schema d' = db_schema d"
    and "db_rows d' ''mission_projection'' = without_mission (rs_mission_id s) (db_rows d ''mission_projection'') @
           [[(''mission_id'', JStr (rs_mission_id s)), (''seq'', JInt (rs_seq s)),
             (''state_json'', JStr (canonical_json (JObj v))), (''state_hash'', JStr h)]]"
    and "db_rows d' ''goal_projection'' = without_mission (rs_mission_id s) (db_rows d ''goal_projection'') @ goals"
    and "db_rows d' ''session_projection'' = without_mission (rs_mission_id s) (db_rows d ''session_projection'') @ sessions"
    and "\<And>t. t \<notin> {''mission_projection'', ''goal_projection'', ''session_projection''} \<Longrightarrow> db_rows d' t = db_rows d t"
proof -
  obtain m where m: "rs_mission s = Some m"
    using assms by (cases "rs_mission s") (simp_all add: apply_projection_def)
  with assms obtain d1 v h d2 goals d3 sessions where
    d1: "delete_core_rows d [(''mission_id'', JStr (rs_mission_id s))] = Inr d1"
    and v: "mission_to_dict m = Inr v" and h: "state_hash sha s = Inr h"
    and d2: "insert_row d1 ''mission_projection''
            [(''mission_id'', JStr (rs_mission_id s)), (''seq'', JInt (rs_seq s)),
             (''state_json'', JStr (canonical_json (JObj v))), (''state_hash'', JStr h)] = Inr d2"
    and g: "map_res (goal_row (rs_mission_id s)) (rs_goals s) = Inr goals"
    and d3: "insert_rows ''goal_projection'' d2 goals = Inr d3"
    and x: "map_res (session_row (rs_mission_id s)) (rs_sessions s) = Inr sessions"
    and d4: "insert_rows ''session_projection'' d3 sessions = Inr d'"
    unfolding apply_projection_def m option.case and_then_Inr_iff by blast
  have rows2: "db_rows d2 = (db_rows d1)(''mission_projection'' := db_rows d1 ''mission_projection'' @
      [[(''mission_id'', JStr (rs_mission_id s)), (''seq'', JInt (rs_seq s)),
             (''state_json'', JStr (canonical_json (JObj v))), (''state_hash'', JStr h)]])"
    using d2 by (auto simp: insert_row_Inr)
  note rows1 = delete_core_rows_Inr(2) [OF d1]
  have schema: "db_schema d' = db_schema d"
    using delete_core_rows_Inr(1) [OF d1] insert_row_schema [OF d2] insert_rows_Inr [OF d3] insert_rows_Inr [OF d4]
    by simp
  note rows = insert_rows_Inr [OF d4, THEN conjunct1] insert_rows_Inr [OF d3, THEN conjunct1] rows2
  show ?thesis
    by (rule that [OF m v h g x schema]) (simp_all add: rows rows1 without_mission_def)
qed

lemma select_without:
  "filter (row_matches [(''mission_id'', JStr k)]) (without_mission m rows) =
     (if k = m then [] else filter (row_matches [(''mission_id'', JStr k)]) rows)"
  by (auto simp: without_mission_def filter_empty_conv row_matches_def intro!: filter_cong)

lemma goal_rows_of_mission:
  "map_res (goal_row m) gs = Inr rows \<Longrightarrow> r \<in> set rows \<Longrightarrow> dget r ''mission_id'' = JStr m"
  by (induction gs arbitrary: rows) (fastforce simp: and_then_Inr_iff goal_row_def)+

lemma session_rows_of_mission:
  "map_res (session_row m) xs = Inr rows \<Longrightarrow> r \<in> set rows \<Longrightarrow> dget r ''mission_id'' = JStr m"
  by (induction xs arbitrary: rows) (fastforce simp: and_then_Inr_iff session_row_def)+

lemma select_own:
  "(\<And>r. r \<in> set rows \<Longrightarrow> dget r ''mission_id'' = JStr m) \<Longrightarrow>
     filter (row_matches [(''mission_id'', JStr k)]) rows = (if k = m then rows else [])"
  by (auto simp: filter_empty_conv row_matches_def intro!: filter_True)

section \<open>Reading a projection back\<close>

text \<open>The stored rows of keyed entities read back as the dictionary that \<open>to_dict\<close> writes for
  them, with canonical values.\<close>

lemma projected_rows:
  assumes rows: "map_res (\<lambda>x. and_then (enc x) (\<lambda>v. Inr (row x v))) xs = Inr rows"
    and json: "\<And>x v. dget (row x v) ''state_json'' = JStr (canonical_json (JObj v))"
    and col: "\<And>x v. text_of (row x v) c = key x"
    and dist: "distinct (map key xs)"
    and enc: "sorted_entries enc key xs = Inr ps"
  shows "projected_values c rows = Inr (canon_values ps)" and "canon_dict ps = canon_values ps"
proof -
  have total: "\<exists>v. enc x = Inr v" if "x \<in> set xs" for x
    using rows that by (induction xs arbitrary: rows) (auto simp: and_then_Inr_iff)
  define val where "val x = projr (enc x)" for x
  have val: "enc x = Inr (val x)" if "x \<in> set xs" for x using total [OF that] by (auto simp: val_def)
  have "map_res (\<lambda>x. and_then (enc x) (\<lambda>v. Inr (row x v))) xs = Inr (map (\<lambda>x. row x (val x)) xs)"
    by (rule map_res_total) (simp add: val)
  with rows have rows': "rows = map (\<lambda>x. row x (val x)) xs" by simp
  let ?ys = "sort_key key xs"
  have keys: "(\<lambda>x. text_of (row x (val x)) c) = key" by (simp add: fun_eq_iff col)
  have dist': "distinct (map key ?ys)" using dist by (simp add: distinct_map)
  have "map_res (\<lambda>x. and_then (enc x) (\<lambda>d. Inr (key x, JObj d))) ?ys = Inr (map (\<lambda>x. (key x, JObj (val x))) ?ys)"
    by (rule map_res_total) (simp add: val)
  then have ps: "ps = map (\<lambda>x. (key x, JObj (val x))) ?ys"
    using enc dist' by (simp add: sorted_entries_def dict_of_pairs_distinct o_def)
  have "map_res (\<lambda>r. and_then (read_json r) (\<lambda>v. Inr (text_of r c, v))) (map (\<lambda>x. row x (val x)) ?ys)
      = Inr (map (\<lambda>x. (key x, canon (JObj (val x)))) ?ys)"
    unfolding map_res_map
    by (rule map_res_total) (simp add: read_json_def json col json_loads_canonical)
  then show "projected_values c rows = Inr (canon_values ps)"
    using dist' by (simp add: projected_values_def rows' sort_key_map keys dict_of_pairs_distinct o_def ps canon_values_def)
  show "canon_dict ps = canon_values ps"
    using dist' by (intro canon_dict_sorted_values) (simp_all add: ps o_def)
qed

lemma select_projection:
  assumes "apply_projection sha d s = Inr d'"
  shows "k \<noteq> rs_mission_id s \<Longrightarrow> t \<in> {''mission_projection'', ''goal_projection'', ''session_projection''} \<Longrightarrow>
     select_rows d' t [(''mission_id'', JStr k)] = select_rows d t [(''mission_id'', JStr k)]"
    and "map_res (goal_row (rs_mission_id s)) (rs_goals s) =
      Inr (select_rows d' ''goal_projection'' [(''mission_id'', JStr (rs_mission_id s))])"
    and "map_res (session_row (rs_mission_id s)) (rs_sessions s) =
      Inr (select_rows d' ''session_projection'' [(''mission_id'', JStr (rs_mission_id s))])"
  using assms
proof (atomize (full), cases rule: apply_projection_Inr)
  case (1 m v h goals sessions)
  note own = select_own [OF goal_rows_of_mission [OF 1(4)]] select_own [OF session_rows_of_mission [OF 1(5)]]
  show "(k \<noteq> rs_mission_id s \<longrightarrow> t \<in> {''mission_projection'', ''goal_projection'', ''session_projection''} \<longrightarrow>
     select_rows d' t [(''mission_id'', JStr k)] = select_rows d t [(''mission_id'', JStr k)]) \<and>
    map_res (goal_row (rs_mission_id s)) (rs_goals s) =
      Inr (select_rows d' ''goal_projection'' [(''mission_id'', JStr (rs_mission_id s))]) \<and>
    map_res (session_row (rs_mission_id s)) (rs_sessions s) =
      Inr (select_rows d' ''session_projection'' [(''mission_id'', JStr (rs_mission_id s))])"
    using 1(4,5) by (auto simp: select_rows_def 1(7-9) select_without own row_matches_def)
qed

lemma projection_state_apply:
  assumes app: "apply_projection sha d s = Inr d'" and ids: "state_ids_distinct s"
  shows "projection_state d' (rs_mission_id s) = Inr (Some (norm_state s))"
  using app
proof (cases rule: apply_projection_Inr)
  case (1 m v h goals sessions)
  let ?sel = "\<lambda>t. select_rows d' t [(''mission_id'', JStr (rs_mission_id s))]"
  have dist: "distinct (map gs_goal_id (rs_goals s))" "distinct (map ss_session_id (rs_sessions s))"
    using ids by (simp_all add: state_ids_distinct_def)
  obtain w where w: "state_to_dict s = Inr w" using 1(3) by (auto simp: state_hash_def and_then_Inr_iff)
  then obtain g e where g: "sorted_entries goal_to_dict gs_goal_id (rs_goals s) = Inr g"
    and e: "sorted_entries session_to_dict ss_session_id (rs_sessions s) = Inr e"
    by (auto simp: state_to_dict_def and_then_Inr_iff)
  have goal_row: "goal_row m = (\<lambda>x. and_then (goal_to_dict x) (\<lambda>v. Inr [(''mission_id'', JStr m),
      (''goal_id'', JStr (gs_goal_id x)), (''state_json'', JStr (canonical_json (JObj v)))]))" for m
    by (simp add: goal_row_def fun_eq_iff)
  have session_row: "session_row m = (\<lambda>x. and_then (session_to_dict x) (\<lambda>v. Inr [(''mission_id'', JStr m),
      (''session_id'', JStr (ss_session_id x)), (''state_json'', JStr (canonical_json (JObj v)))]))" for m
    by (simp add: session_row_def fun_eq_iff)
  have pg: "projected_values ''goal_id'' (?sel ''goal_projection'') = Inr (canon_values g)"
      "canon_dict g = canon_values g"
    by (rule projected_rows [where c = "''goal_id''", OF select_projection(2) [OF app, unfolded goal_row] _ _ dist(1) g]; simp add: text_of_def)+
  have pe: "projected_values ''session_id'' (?sel ''session_projection'') = Inr (canon_values e)"
      "canon_dict e = canon_values e"
    by (rule projected_rows [where c = "''session_id''", OF select_projection(3) [OF app, unfolded session_row] _ _ dist(2) e]; simp add: text_of_def)+
  have row: "?sel ''mission_projection'' = [[(''mission_id'', JStr (rs_mission_id s)), (''seq'', JInt (rs_seq s)),
             (''state_json'', JStr (canonical_json (JObj v))), (''state_hash'', JStr h)]]"
    by (simp add: select_rows_def 1(7) select_without row_matches_def)
  have goals: "decode_values goal_from_dict (JObj (canon_values g)) = Inr (map norm_goal (sort_key gs_goal_id (rs_goals s)))"
    using goal_codec.decode_sorted_entries [OF _ dist(1) g] pg(2) by simp
  have sessions: "decode_values session_from_dict (JObj (canon_values e)) = Inr (map norm_session (sort_key ss_session_id (rs_sessions s)))"
    using session_codec.decode_sorted_entries [OF _ dist(2) e] pe(2) by simp
  have mission: "mission_from_dict (canon_dict v) = Inr (norm_mission m)"
    by (rule mission_codec.dec_canon [OF TrueI 1(2)])
  show ?thesis
    by (simp add: projection_state_def row pg(1) pe(1) read_json_def json_loads_canonical state_from_dict_def
        mission goals sessions norm_state_def 1(1))
qed

lemma projection_state_other:
  assumes "apply_projection sha d s = Inr d'" and "k \<noteq> rs_mission_id s"
  shows "projection_state d' k = projection_state d k"
  by (simp add: projection_state_def select_projection(1) [OF assms] cong: list.case_cong)

lemma projection_state_frame:
  assumes "\<And>t. t \<in> {''mission_projection'', ''goal_projection'', ''session_projection''} \<Longrightarrow> db_rows d' t = db_rows d t"
  shows "projection_state d' k = projection_state d k"
  by (simp add: projection_state_def select_rows_def assms cong: list.case_cong)

section \<open>Replay, verification and rebuilding\<close>

lemma fold_reduce_facts:
  assumes "initial_state m = Inr s0" and "fold_res reduce s0 es = Inr s"
  shows "core_inv s" and "rs_mission_id s = m" and "rs_seq s = int (length es)"
proof -
  note inv0 = core_inv_initial [OF assms(1)]
  have s0: "rs_mission_id s0 = m" "rs_seq s0 = 0"
    using assms(1) by (auto simp: initial_state_def split: if_split_asm)
  show "core_inv s" by (rule core_machine.run_inv [OF inv0 assms(2)])
  show "rs_mission_id s = m"
    using core_machine.run_evolves [OF inv0 assms(2)] s0 by (simp add: core_evolves_def)
  show "rs_seq s = int (length es)" using core_machine.run_seq [OF assms(2)] s0 by simp
qed

lemma replay_state_facts:
  assumes "replay_state d m through_seq = Inr s"
  shows "core_inv s" and "rs_mission_id s = m" and "state_ids_distinct s"
proof -
  obtain s0 es where r: "initial_state m = Inr s0" "fold_res reduce s0 es = Inr s"
    using assms by (auto simp: replay_state_def and_then_Inr_iff)
  note facts = fold_reduce_facts [OF r]
  show "core_inv s" "rs_mission_id s = m" by (rule facts(1) facts(2))+
  show "state_ids_distinct s" using facts(1) by (simp add: core_inv_def)
qed

lemma replay_frame:
  "db_rows d' ''events'' = db_rows d ''events'' \<Longrightarrow> replay_state d' m n = replay_state d m n"
  by (simp add: replay_state_def list_events_def stream_def select_rows_def)

text \<open>The projection of a mission shows a state when it reads back as that state in canonical form
  (and as nothing while the mission does not exist).\<close>

definition shows_state :: "db \<Rightarrow> string \<Rightarrow> runtime_state \<Rightarrow> bool" where
  "shows_state d m s \<longleftrightarrow>
     projection_state d m = Inr (if rs_mission s = None then None else Some (norm_state s))"

definition encodable :: "runtime_state \<Rightarrow> bool" where
  "encodable s \<longleftrightarrow> (\<exists>v. state_to_dict s = Inr v)"

lemma norm_state_hash:
  assumes "state_ids_distinct s" and "encodable s"
  obtains h where "state_hash sha s = Inr h" and "state_hash sha (norm_state s) = Inr h"
proof -
  obtain v where v: "state_to_dict s = Inr v" using assms(2) by (auto simp: encodable_def)
  obtain w where w: "state_to_dict (norm_state s) = Inr w"
    using state_codec.enc_norm [OF assms(1) v] by blast
  have "canonical_json (JObj w) = canonical_json (JObj v)"
    by (rule state_codec.norm_same_text [OF assms(1) v w])
  then show ?thesis using that v w by (simp add: state_hash_def canonical_sha256_def)
qed

lemma verify_projection_ok:
  assumes replay: "replay_state d m None = Inr s" and "rs_mission s \<noteq> None"
    and "shows_state d m s" and "encodable s"
  shows "\<exists>h. state_hash sha s = Inr h \<and> verify_projection sha d m =
    Inr [(''ok'', JBool True), (''mission_id'', JStr m), (''replay_hash'', JStr h), (''projection_hash'', JStr h)]"
proof -
  obtain h where "state_hash sha s = Inr h" "state_hash sha (norm_state s) = Inr h"
    using norm_state_hash [OF replay_state_facts(3) [OF replay] assms(4)] by blast
  then show ?thesis using assms by (simp add: verify_projection_def shows_state_def hash_option_def)
qed

lemma apply_projection_encodable: "apply_projection sha d s = Inr d' \<Longrightarrow> encodable s"
  by (erule apply_projection_Inr) (auto simp: state_hash_def and_then_Inr_iff encodable_def)

lemma apply_projection_frame:
  assumes "apply_projection sha d s = Inr d'"
  shows "t \<notin> {''mission_projection'', ''goal_projection'', ''session_projection''} \<Longrightarrow> db_rows d' t = db_rows d t"
    and "db_schema d' = db_schema d"
  using assms by (auto elim: apply_projection_Inr)

lemma apply_projection_events: "apply_projection sha d s = Inr d' \<Longrightarrow> db_rows d' ''events'' = db_rows d ''events''"
  by (rule apply_projection_frame(1)) simp_all

text \<open>Rebuilding one mission after another: what the loop needs of its body.  The core and the
  composed rebuild are the two clients.\<close>

definition rebuilt :: "db \<Rightarrow> db \<Rightarrow> string \<Rightarrow> runtime_state \<Rightarrow> bool" where
  "rebuilt d d' m s \<longleftrightarrow>
     (if rs_mission s = None then projection_state d' m = projection_state d m
      else shows_state d' m s \<and> encodable s)"

lemma rebuilt_simps:
  "rs_mission s = None \<Longrightarrow> rebuilt d d' m s \<longleftrightarrow> projection_state d' m = projection_state d m"
  "rs_mission s \<noteq> None \<Longrightarrow> rebuilt d d' m s \<longleftrightarrow> shows_state d' m s \<and> encodable s"
  by (auto simp: rebuilt_def)

locale rebuilder =
  fixes core_of :: "db \<Rightarrow> string \<Rightarrow> runtime_state py"
    and one :: "db \<times> 'h \<Rightarrow> string \<Rightarrow> (db \<times> 'h) py"
  assumes core_frame: "db_rows d' ''events'' = db_rows d ''events'' \<Longrightarrow> core_of d' m = core_of d m"
    and one_core: "one (d, hs) m = Inr p \<Longrightarrow> \<exists>s. core_of d m = Inr s"
    and one_log: "one (d, hs) m = Inr (d', hs') \<Longrightarrow> db_rows d' ''events'' = db_rows d ''events''"
    and one_shows: "one (d, hs) m = Inr (d', hs') \<Longrightarrow> core_of d m = Inr s \<Longrightarrow> rs_mission s \<noteq> None \<Longrightarrow>
      shows_state d' m s \<and> encodable s"
    and one_absent: "one (d, hs) m = Inr (d', hs') \<Longrightarrow> core_of d m = Inr s \<Longrightarrow> rs_mission s = None \<Longrightarrow> d' = d"
    and one_other: "one (d, hs) m = Inr (d', hs') \<Longrightarrow> k \<noteq> m \<Longrightarrow> projection_state d' k = projection_state d k"
begin

lemma all_missions:
  assumes "fold_res one (d, hs) ms = Inr (d', hs')" and "distinct ms"
  shows "db_rows d' ''events'' = db_rows d ''events'' \<and>
    (\<forall>m s. m \<in> set ms \<longrightarrow> core_of d m = Inr s \<longrightarrow> rebuilt d d' m s) \<and>
    (\<forall>k. k \<notin> set ms \<longrightarrow> projection_state d' k = projection_state d k)"
  using assms
proof (induction ms arbitrary: d hs)
  case Nil
  then show ?case by simp
next
  case (Cons m ms)
  then obtain d1 hs1 where step: "one (d, hs) m = Inr (d1, hs1)" and rest: "fold_res one (d1, hs1) ms = Inr (d', hs')"
    by (auto simp: and_then_Inr_iff)
  obtain s where s: "core_of d m = Inr s" using one_core [OF step] by blast
  have dist: "distinct ms" "m \<notin> set ms" using Cons.prems(2) by simp_all
  note IH = Cons.IH [OF rest dist(1)]
  have same: "projection_state d' m = projection_state d1 m" using IH dist(2) by blast
  have frame: "core_of d1 k = core_of d k" for k by (rule core_frame [OF one_log [OF step]])
  have mine: "rebuilt d d' m s"
    using one_shows [OF step s] one_absent [OF step s] same by (auto simp: rebuilt_def shows_state_def)
  have others: "projection_state d1 k = projection_state d k" if "k \<noteq> m" for k
    by (rule one_other [OF step that])
  have "rebuilt d d' k t" if k: "k \<in> set (m # ms)" "core_of d k = Inr t" for k t
  proof (cases "k = m")
    case True
    then show ?thesis using mine s k(2) by simp
  next
    case False
    then have "k \<in> set ms" using k(1) by simp
    then have "rebuilt d1 d' k t" using IH k(2) frame [of k] by simp
    then show ?thesis using others [OF False] by (simp add: rebuilt_def)
  qed
  moreover have "db_rows d' ''events'' = db_rows d ''events''" using IH one_log [OF step] by simp
  moreover have "projection_state d' k = projection_state d k" if "k \<notin> set (m # ms)" for k
    using IH others [of k] that by simp
  ultimately show ?case by blast
qed

lemma all_defined: "fold_res one (d, hs) ms = Inr p \<Longrightarrow> m \<in> set ms \<Longrightarrow> \<exists>s. core_of d m = Inr s"
proof (induction ms arbitrary: d hs)
  case Nil
  then show ?case by simp
next
  case (Cons k ms)
  then obtain d1 hs1 where step: "one (d, hs) k = Inr (d1, hs1)" and rest: "fold_res one (d1, hs1) ms = Inr p"
    by (auto simp: and_then_Inr_iff)
  show ?case
  proof (cases "m = k")
    case True
    then show ?thesis using one_core [OF step] by simp
  next
    case False
    then have "\<exists>s. core_of d1 m = Inr s" using Cons.IH [OF rest] Cons.prems(2) by simp
    then show ?thesis using core_frame [OF one_log [OF step]] by simp
  qed
qed

end

lemma rebuild_one_cases:
  assumes "rebuild_one sha (d, hs) m = Inr (d', hs')"
  obtains s where "replay_state d m None = Inr s" and "rs_mission s = None" and "d' = d"
    | s where "replay_state d m None = Inr s" and "rs_mission s \<noteq> None" and "apply_projection sha d s = Inr d'"
  using assms by (auto simp: rebuild_one_def and_then_Inr_iff split: if_split_asm)

interpretation core_rebuild: rebuilder "\<lambda>d m. replay_state d m None" "rebuild_one sha"
  for sha :: "string \<Rightarrow> string"
proof unfold_locales
  fix d d' :: db and m assume "db_rows d' ''events'' = db_rows d ''events''"
  then show "replay_state d' m None = replay_state d m None" by (rule replay_frame)
next
  fix d :: db and hs :: dict and m p assume "rebuild_one sha (d, hs) m = Inr p"
  then show "\<exists>s. replay_state d m None = Inr s" by (auto simp: rebuild_one_def and_then_Inr_iff)
next
  fix d d' :: db and hs hs' :: dict and m k s assume step: "rebuild_one sha (d, hs) m = Inr (d', hs')"
  show "db_rows d' ''events'' = db_rows d ''events''"
    using step by (cases rule: rebuild_one_cases) (auto dest: apply_projection_events)
  show "shows_state d' m s \<and> encodable s" if "replay_state d m None = Inr s" "rs_mission s \<noteq> None"
    using step that replay_state_facts [OF that(1)]
    by (cases rule: rebuild_one_cases)
       (auto simp: shows_state_def dest: projection_state_apply apply_projection_encodable)
  show "d' = d" if "replay_state d m None = Inr s" "rs_mission s = None"
    using step that by (cases rule: rebuild_one_cases) auto
  show "projection_state d' k = projection_state d k" if "k \<noteq> m"
    using step
  proof (cases rule: rebuild_one_cases)
    case (2 t)
    show ?thesis by (rule projection_state_other [OF 2(3)]) (use that replay_state_facts(2) [OF 2(1)] in simp)
  qed simp
qed

text \<open>The scope of a rebuild and what emptying the tables leaves.\<close>

definition rebuild_scope :: "db \<Rightarrow> string option \<Rightarrow> string list" where
  "rebuild_scope d scope = (case scope of None \<Rightarrow> logged_missions d | Some m \<Rightarrow> [m])"

definition scope_conds :: "string option \<Rightarrow> conds" where
  "scope_conds scope = (case scope of None \<Rightarrow> [] | Some m \<Rightarrow> [(''mission_id'', JStr m)])"

lemma distinct_scope: "distinct (rebuild_scope d scope)"
  by (simp add: rebuild_scope_def logged_missions_def split: option.split)

lemma delete_core_projection:
  assumes "delete_core_rows d (scope_conds scope) = Inr d'"
  shows "projection_state d' m = (if scope = None \<or> scope = Some m then Inr None else projection_state d m)"
proof (cases "scope = None \<or> scope = Some m")
  case True
  then have "select_rows d' ''mission_projection'' [(''mission_id'', JStr m)] = []"
    by (auto simp: select_rows_def delete_core_rows_Inr(2) [OF assms] filter_empty_conv scope_conds_def row_matches_def)
  then show ?thesis using True by (simp add: projection_state_def)
next
  case False
  then obtain k where k: "scope = Some k" "k \<noteq> m" by auto
  have "select_rows d' t [(''mission_id'', JStr m)] = select_rows d t [(''mission_id'', JStr m)]"
    if "t \<in> {''goal_projection'', ''session_projection'', ''mission_projection''}" for t
    using that select_without [of m k] k(2)
    by (auto simp: select_rows_def delete_core_rows_Inr(2) [OF assms] scope_conds_def k(1) without_mission_def)
  then have "projection_state d' m = projection_state d m"
    by (simp add: projection_state_def cong: list.case_cong)
  then show ?thesis by (simp only: False if_False)
qed

lemma rebuild_projections_shows:
  assumes "rebuild_projections sha d scope = Inr (d', report)"
  shows "db_rows d' ''events'' = db_rows d ''events''"
    and "m \<in> set (rebuild_scope d scope) \<Longrightarrow> replay_state d m None = Inr s \<Longrightarrow> rs_mission s \<noteq> None \<Longrightarrow>
      shows_state d' m s \<and> encodable s"
    and "m \<in> set (rebuild_scope d scope) \<Longrightarrow> replay_state d m None = Inr s \<Longrightarrow> rs_mission s = None \<Longrightarrow>
      projection_state d' m = (if scope = None \<or> scope = Some m then Inr None else projection_state d m)"
    and "m \<notin> set (rebuild_scope d scope) \<Longrightarrow>
      projection_state d' m = (if scope = None \<or> scope = Some m then Inr None else projection_state d m)"
    and "m \<in> set (rebuild_scope d scope) \<Longrightarrow> \<exists>s. replay_state d m None = Inr s"
proof -
  obtain d1 hs where d1: "delete_core_rows d (scope_conds scope) = Inr d1"
    and fold: "fold_res (rebuild_one sha) (d1, []) (rebuild_scope d scope) = Inr (d', hs)"
    using assms
    by (auto simp: rebuild_projections_def rebuild_scope_def scope_conds_def Let_def and_then_Inr_iff split: prod.split_asm)
  have ev: "db_rows d1 ''events'' = db_rows d ''events''" using delete_core_rows_Inr(2) [OF d1] by simp
  have replay1: "replay_state d1 m None = replay_state d m None" by (rule replay_frame [OF ev])
  note all = core_rebuild.all_missions [OF fold distinct_scope]
  show "\<exists>s. replay_state d m None = Inr s" if "m \<in> set (rebuild_scope d scope)"
    using core_rebuild.all_defined [OF fold that] replay1 by simp
  show "db_rows d' ''events'' = db_rows d ''events''" using all ev by simp
  have mine: "rebuilt d1 d' m s" if "m \<in> set (rebuild_scope d scope)" "replay_state d m None = Inr s" for s
    using all that replay1 by simp
  show "shows_state d' m s \<and> encodable s"
    if "m \<in> set (rebuild_scope d scope)" "replay_state d m None = Inr s" "rs_mission s \<noteq> None"
    using mine [OF that(1,2)] unfolding rebuilt_simps(2) [OF that(3)] .
  show "projection_state d' m = (if scope = None \<or> scope = Some m then Inr None else projection_state d m)"
    if "m \<in> set (rebuild_scope d scope)" "replay_state d m None = Inr s" "rs_mission s = None"
    using mine [OF that(1,2)] that(3) delete_core_projection [OF d1] by (simp only: rebuilt_simps)
  show "projection_state d' m = (if scope = None \<or> scope = Some m then Inr None else projection_state d m)"
    if "m \<notin> set (rebuild_scope d scope)"
    using all that delete_core_projection [OF d1] by simp
qed

end
