(* ===== verification/ComposedProjections.thy ===== *)
theory ComposedProjections
  imports CoreProjections
begin

text \<open>
  durable_core/projections.py, the composed part: replay, projection, verification and rebuilding of
  a mission together with the states of the registered extensions, whose callbacks run under the
  authorizer.
\<close>

section \<open>Operations\<close>

definition replay_composed_state :: "db \<Rightarrow> string \<Rightarrow> 'x registry \<Rightarrow> int option \<Rightarrow> 'x composed_state py" where
  "replay_composed_state d m r through_seq =
     and_then (initial_composed_state m r) (\<lambda>s.
     and_then (list_events d m 0 through_seq) (\<lambda>es.
     fold_res (\<lambda>s e. reduce_composed s e r) s es))"

definition apply_extension_projection :: "'x composed_state \<Rightarrow> db \<Rightarrow> 'x manifest \<Rightarrow> db py" where
  "apply_extension_projection s d x = and_then (projection_call d x True (x_apply x d s)) (\<lambda>(d', _). Inr d')"

definition apply_composed_projection ::
  "(string \<Rightarrow> string) \<Rightarrow> db \<Rightarrow> 'x composed_state \<Rightarrow> 'x registry \<Rightarrow> db py" where
  "apply_composed_projection sha d s r =
     and_then (apply_projection sha d (cs_core_state s)) (\<lambda>d1.
     fold_res (apply_extension_projection s) d1 (r_manifests r))"

definition composed_projection_state :: "db \<Rightarrow> string \<Rightarrow> 'x registry \<Rightarrow> 'x composed_state option py" where
  "composed_projection_state d m r =
     and_then (projection_state d m) (\<lambda>p.
     case p of
       None \<Rightarrow> Inr None
     | Some core \<Rightarrow>
         and_then (map_res (\<lambda>x. and_then (read_extension_projection d x m) (\<lambda>v. Inr (x_extension_id x, v)))
                     (r_manifests r)) (\<lambda>ext.
         and_then (make_ComposedRuntimeState m (rs_seq core) core ext) (\<lambda>s. Inr (Some s))))"

definition composed_hash :: "(string \<Rightarrow> string) \<Rightarrow> 'x registry \<Rightarrow> 'x composed_state \<Rightarrow> string py" where
  "composed_hash sha r s = and_then (composed_to_dict r s) (\<lambda>v. Inr (canonical_sha256 sha (JObj v)))"

text \<open>The verification of one extension: its own comparison, then the sequence number its tables
  carry.\<close>

definition projected_seq :: "db \<Rightarrow> 'x manifest \<Rightarrow> string \<Rightarrow> int option py" where
  "projected_seq d x m =
     (case x_projection_seq x of
        None \<Rightarrow> Inr None
      | Some reader \<Rightarrow> and_then (projection_call d x False (reader d m)) (\<lambda>(_, n). Inr n))"

definition extension_index :: "'x composed_state \<Rightarrow> string \<Rightarrow> 'x py" where
  "extension_index s i =
     (case map_of (cs_extension_states s) i of None \<Rightarrow> Inl (KeyErr i) | Some x \<Rightarrow> Inr x)"

definition verify_extension ::
  "db \<Rightarrow> string \<Rightarrow> 'x composed_state \<Rightarrow> 'x composed_state option \<Rightarrow> 'x manifest \<Rightarrow> (string \<times> dict) py" where
  "verify_extension d m replayed projected x =
     and_then (extension_index replayed (x_extension_id x)) (\<lambda>mine.
     and_then (case projected of None \<Rightarrow> Inr None
               | Some p \<Rightarrow> and_then (extension_index p (x_extension_id x)) (\<lambda>v. Inr (Some v))) (\<lambda>theirs.
     and_then (x_verify x mine theirs) (\<lambda>result.
     and_then (projected_seq d x m) (\<lambda>seq.
     Inr (x_extension_id x,
          case seq of
            None \<Rightarrow> result
          | Some n \<Rightarrow>
              if n \<noteq> cs_seq replayed then
                AList.update ''expected_seq'' (JInt (cs_seq replayed))
                  (AList.update ''projection_seq'' (JInt n) (AList.update ''ok'' (JBool False) result))
              else result)))))"

definition verify_composed_projection ::
  "(string \<Rightarrow> string) \<Rightarrow> db \<Rightarrow> string \<Rightarrow> 'x registry \<Rightarrow> dict py" where
  "verify_composed_projection sha d m r =
     and_then (replay_composed_state d m r None) (\<lambda>replayed.
     and_then (composed_projection_state d m r) (\<lambda>projected.
     and_then (state_hash sha (cs_core_state replayed)) (\<lambda>core_replay_hash.
     and_then (hash_option (\<lambda>p. state_hash sha (cs_core_state p)) projected) (\<lambda>core_projection_hash.
     and_then (map_res (verify_extension d m replayed projected) (r_manifests r)) (\<lambda>results.
     and_then (composed_hash sha r replayed) (\<lambda>composed_replay_hash.
     and_then (hash_option (composed_hash sha r) projected) (\<lambda>composed_projection_hash.
     if rs_mission (cs_core_state replayed) = None \<or> projected = None \<or>
        Some core_replay_hash \<noteq> core_projection_hash \<or>
        \<not> list_all (\<lambda>(i, result). truthy (dget result ''ok'')) results \<or>
        Some composed_replay_hash \<noteq> composed_projection_hash then
       runtime_error_with ''COMPOSED_PROJECTION_DRIFT''
         (''composed projection differs from Event replay for Mission '' @ m)
         [(''replay_hash'', JStr core_replay_hash), (''projection_hash'', jopt core_projection_hash),
          (''composed_replay_hash'', JStr composed_replay_hash),
          (''composed_projection_hash'', jopt composed_projection_hash)]
     else
       Inr [(''ok'', JBool True), (''mission_id'', JStr m),
            (''replay_hash'', JStr core_replay_hash), (''projection_hash'', jopt core_projection_hash),
            (''composed_replay_hash'', JStr composed_replay_hash),
            (''composed_projection_hash'', jopt composed_projection_hash),
            (''extensions'', JObj (map (\<lambda>(i, result). (i, JObj result)) results))])))))))"

definition clear_extension :: "string option \<Rightarrow> db \<Rightarrow> 'x manifest \<Rightarrow> db py" where
  "clear_extension mission_id d x =
     and_then (projection_call d x True (x_clear x d mission_id)) (\<lambda>(d', _). Inr d')"

definition rebuild_composed_one ::
  "(string \<Rightarrow> string) \<Rightarrow> 'x registry \<Rightarrow> db \<times> dict \<times> dict \<Rightarrow> string \<Rightarrow> (db \<times> dict \<times> dict) py" where
  "rebuild_composed_one sha r = (\<lambda>(d, hashes, extension_hashes) m.
     and_then (replay_composed_state d m r None) (\<lambda>s.
     if rs_mission (cs_core_state s) = None then Inr (d, hashes, extension_hashes)
     else
       and_then (apply_composed_projection sha d s r) (\<lambda>d'.
       and_then (composed_hash sha r s) (\<lambda>h.
       and_then (map_res (\<lambda>x. and_then (extension_index s (x_extension_id x)) (\<lambda>v.
                    and_then (x_hash x v) (\<lambda>xh. Inr (x_extension_id x, JStr xh)))) (r_manifests r)) (\<lambda>xs.
       Inr (d', hashes @ [(m, JStr h)], extension_hashes @ [(m, JObj xs)]))))))"

definition rebuild_composed_projections ::
  "(string \<Rightarrow> string) \<Rightarrow> db \<Rightarrow> 'x registry \<Rightarrow> string option \<Rightarrow> (db \<times> dict) py" where
  "rebuild_composed_projections sha d r mission_id =
     (let missions = (case mission_id of None \<Rightarrow> logged_missions d | Some m \<Rightarrow> [m]);
          cs = (case mission_id of None \<Rightarrow> [] | Some m \<Rightarrow> [(''mission_id'', JStr m)])
      in and_then (delete_core_rows d cs) (\<lambda>d1.
         and_then (fold_res (clear_extension mission_id) d1 (r_manifests r)) (\<lambda>d2.
         and_then (fold_res (rebuild_composed_one sha r) (d2, [], []) missions) (\<lambda>(d3, hashes, extension_hashes).
         Inr (d3, [(''rebuilt'', JInt (int (length hashes))), (''state_hashes'', JObj hashes),
                   (''extension_state_hashes'', JObj extension_hashes)])))))"

section \<open>Confinement\<close>

lemma projection_confines: "confines (projection_authorize tables) (set tables)"
  by (auto simp: confines_def projection_authorize_def WRITE_ACTIONS_def)

lemma projection_keeps_schema: "keeps_schema (projection_authorize tables)"
  by (simp add: keeps_schema_def projection_authorize_def SCHEMA_ACTIONS_def create_action_def drop_action_def)

lemma projection_call_frame:
  assumes "projection_call d x w c = Inr (d', v)"
  shows "t \<notin> set (allowed_tables x w) \<Longrightarrow> db_rows d' t = db_rows d t" and "db_schema d' = db_schema d"
proof -
  have run: "run_callback (projection_authorize (allowed_tables x w)) d c = Inr (d', v)"
    using assms by (simp add: projection_call_def guarded_call_Inr)
  show "t \<notin> set (allowed_tables x w) \<Longrightarrow> db_rows d' t = db_rows d t"
    by (rule run_callback_confined [OF run projection_confines])
  show "db_schema d' = db_schema d" by (rule run_callback_keeps_schema [OF run projection_keeps_schema])
qed

lemma projection_read_only:
  assumes "projection_call d x False c = Inr (d', v)"
  shows "d' = d"
proof -
  have "db_rows d' = db_rows d"
    using projection_call_frame(1) [OF assms] by (auto simp: allowed_tables_def)
  then show ?thesis using projection_call_frame(2) [OF assms] by simp
qed

lemma apply_extension_frame:
  assumes "apply_extension_projection s d x = Inr d'"
  shows "t \<notin> set (the (x_projection_tables x)) \<Longrightarrow> db_rows d' t = db_rows d t" and "db_schema d' = db_schema d"
  using assms projection_call_frame [of d x True "x_apply x d s" d']
  by (auto simp: apply_extension_projection_def and_then_Inr_iff allowed_tables_def)

lemma apply_extensions_frame:
  assumes "fold_res (apply_extension_projection s) d xs = Inr d'"
    and "\<And>x. x \<in> set xs \<Longrightarrow> t \<notin> set (the (x_projection_tables x))"
  shows "db_rows d' t = db_rows d t"
  by (rule fold_res_same [where g = "\<lambda>d. db_rows d t", OF assms(1)])
     (use apply_extension_frame(1) assms(2) in blast)

lemma apply_extensions_schema:
  "fold_res (apply_extension_projection s) d xs = Inr d' \<Longrightarrow> db_schema d' = db_schema d"
  by (erule fold_res_same [where g = db_schema]) (rule apply_extension_frame(2))

text \<open>Applying a composed projection changes the core projection tables and the extensions' own
  tables, nothing else; the log in particular.\<close>

lemma apply_composed_frame:
  assumes "apply_composed_projection sha d s r = Inr d'"
    and "t \<notin> {''mission_projection'', ''goal_projection'', ''session_projection''}"
    and "\<And>x. x \<in> set (r_manifests r) \<Longrightarrow> t \<notin> set (the (x_projection_tables x))"
  shows "db_rows d' t = db_rows d t"
proof -
  obtain d1 where d1: "apply_projection sha d (cs_core_state s) = Inr d1"
    and d2: "fold_res (apply_extension_projection s) d1 (r_manifests r) = Inr d'"
    using assms(1) by (auto simp: apply_composed_projection_def and_then_Inr_iff)
  show ?thesis using apply_extensions_frame [OF d2 assms(3)] apply_projection_frame(1) [OF d1 assms(2)] by simp
qed

lemma apply_composed_core:
  assumes "apply_composed_projection sha d s r = Inr d'"
    and core: "\<And>x t. x \<in> set (r_manifests r) \<Longrightarrow> t \<in> set (the (x_projection_tables x)) \<Longrightarrow> t \<notin> set CORE_PROJECTION_TABLES"
  obtains d1 where "apply_projection sha d (cs_core_state s) = Inr d1"
    and "\<And>m. projection_state d' m = projection_state d1 m"
    and "db_schema d' = db_schema d"
proof -
  obtain d1 where d1: "apply_projection sha d (cs_core_state s) = Inr d1"
    and d2: "fold_res (apply_extension_projection s) d1 (r_manifests r) = Inr d'"
    using assms(1) by (auto simp: apply_composed_projection_def and_then_Inr_iff)
  have rows: "db_rows d' t = db_rows d1 t" if "t \<in> set CORE_PROJECTION_TABLES" for t
    by (rule apply_extensions_frame [OF d2]) (use core that in blast)
  have "projection_state d' m = projection_state d1 m" for m
    by (rule projection_state_frame) (rule rows, auto simp: CORE_PROJECTION_TABLES_def)
  then show ?thesis using that d1 apply_extensions_schema [OF d2] apply_projection_frame(2) [OF d1] by simp
qed

section \<open>The composed rebuild\<close>

text \<open>The core part of a composed replay.\<close>

definition composed_core :: "'x registry \<Rightarrow> db \<Rightarrow> string \<Rightarrow> runtime_state py" where
  "composed_core r d m = and_then (replay_composed_state d m r None) (\<lambda>s. Inr (cs_core_state s))"

lemma replay_composed_frame:
  "db_rows d' ''events'' = db_rows d ''events'' \<Longrightarrow> replay_composed_state d' m r n = replay_composed_state d m r n"
  by (simp add: replay_composed_state_def list_events_def stream_def select_rows_def)

lemma replay_composed_facts:
  assumes "replay_composed_state d m r n = Inr s"
  shows "composed_inv r s" and "cs_mission_id s = m" and "rs_mission_id (cs_core_state s) = m"
    and "state_ids_distinct (cs_core_state s)"
proof -
  obtain s0 es where s0: "initial_composed_state m r = Inr s0" and run: "fold_res (\<lambda>s e. reduce_composed s e r) s0 es = Inr s"
    using assms by (auto simp: replay_composed_state_def and_then_Inr_iff)
  note init = initial_composed_inv [OF s0]
  show inv: "composed_inv r s" using composed_machine.run_inv [OF _ run] init by blast
  show m: "cs_mission_id s = m"
    using composed_machine.run_evolves [OF _ run] init by (simp add: composed_evolves_def)
  show "rs_mission_id (cs_core_state s) = m" using inv m by (simp add: composed_inv_def)
  show "state_ids_distinct (cs_core_state s)" using inv by (simp add: composed_inv_def core_inv_def)
qed

text \<open>The registered extensions own no core table.\<close>

definition core_tables_safe :: "'x registry \<Rightarrow> bool" where
  "core_tables_safe r \<longleftrightarrow>
     (\<forall>x \<in> set (r_manifests r). \<forall>t \<in> set (the (x_projection_tables x)). t \<notin> set CORE_PROJECTION_TABLES)"

lemma registry_core_tables_safe: "make_ExtensionRegistry cc ce xs = Inr r \<Longrightarrow> core_tables_safe r"
  using registry_tables(2) unfolding core_tables_safe_def by blast

lemma rebuild_composed_one_cases:
  assumes "rebuild_composed_one sha r (d, hs) m = Inr (d', hs')"
  obtains s where "replay_composed_state d m r None = Inr s" and "rs_mission (cs_core_state s) = None" and "d' = d"
    | s where "replay_composed_state d m r None = Inr s" and "rs_mission (cs_core_state s) \<noteq> None"
      and "apply_composed_projection sha d s r = Inr d'"
  using assms by (cases hs) (auto simp: rebuild_composed_one_def and_then_Inr_iff split: if_split_asm)

lemma apply_composed_shows:
  assumes app: "apply_composed_projection sha d s r = Inr d'" and safe: "core_tables_safe r"
    and ids: "state_ids_distinct (cs_core_state s)"
  shows "shows_state d' (rs_mission_id (cs_core_state s)) (cs_core_state s)" and "encodable (cs_core_state s)"
    and "rs_mission (cs_core_state s) \<noteq> None"
    and "k \<noteq> rs_mission_id (cs_core_state s) \<Longrightarrow> projection_state d' k = projection_state d k"
    and "db_schema d' = db_schema d"
    and "t \<in> set [''commands'', ''events'', ''schema_migrations''] \<Longrightarrow> db_rows d' t = db_rows d t"
proof -
  have no_core: "\<And>x t. x \<in> set (r_manifests r) \<Longrightarrow> t \<in> set (the (x_projection_tables x)) \<Longrightarrow> t \<notin> set CORE_PROJECTION_TABLES"
    using safe by (simp add: core_tables_safe_def)
  obtain d1 where d1: "apply_projection sha d (cs_core_state s) = Inr d1"
    and same: "\<And>m. projection_state d' m = projection_state d1 m" and schema: "db_schema d' = db_schema d"
    by (rule apply_composed_core [OF app], erule (1) no_core, rule that)
  show "db_schema d' = db_schema d" by (rule schema)
  show some: "rs_mission (cs_core_state s) \<noteq> None" using d1 by (auto elim: apply_projection_Inr)
  show "encodable (cs_core_state s)" by (rule apply_projection_encodable [OF d1])
  show "shows_state d' (rs_mission_id (cs_core_state s)) (cs_core_state s)"
    using projection_state_apply [OF d1 ids] some by (simp add: shows_state_def same)
  show "k \<noteq> rs_mission_id (cs_core_state s) \<Longrightarrow> projection_state d' k = projection_state d k"
    using projection_state_other [OF d1] by (simp add: same)
  show "db_rows d' t = db_rows d t" if "t \<in> set [''commands'', ''events'', ''schema_migrations'']"
  proof (rule apply_composed_frame [OF app])
    show "t \<notin> {''mission_projection'', ''goal_projection'', ''session_projection''}" using that by auto
    have "t \<in> set CORE_PROJECTION_TABLES" using that by (auto simp: CORE_PROJECTION_TABLES_def)
    then show "t \<notin> set (the (x_projection_tables x))" if "x \<in> set (r_manifests r)" for x
      using no_core [OF that] by blast
  qed
qed

text \<open>One mission of the rebuild; a registry that owns a core table rebuilds nothing.\<close>

definition safe_rebuild_one where
  "safe_rebuild_one sha r p m =
     (if core_tables_safe r then rebuild_composed_one sha r p m else Inl (OtherExn ''unreachable''))"

interpretation composed_rebuild: rebuilder "composed_core r" "safe_rebuild_one sha r"
  for sha :: "string \<Rightarrow> string" and r :: "'x registry"
proof unfold_locales
  fix d d' :: db and m assume "db_rows d' ''events'' = db_rows d ''events''"
  then show "composed_core r d' m = composed_core r d m"
    unfolding composed_core_def by (simp add: replay_composed_frame [of d' d])
next
  fix d :: db and hs :: "dict \<times> dict" and m p assume "safe_rebuild_one sha r (d, hs) m = Inr p"
  then show "\<exists>s. composed_core r d m = Inr s"
    by (cases hs) (auto simp: safe_rebuild_one_def rebuild_composed_one_def composed_core_def and_then_Inr_iff split: if_split_asm)
next
  fix d d' :: db and hs hs' :: "dict \<times> dict" and m k s assume safe_step: "safe_rebuild_one sha r (d, hs) m = Inr (d', hs')"
  then have safe: "core_tables_safe r" and step: "rebuild_composed_one sha r (d, hs) m = Inr (d', hs')"
    by (simp_all add: safe_rebuild_one_def split: if_split_asm)
  show "db_rows d' ''events'' = db_rows d ''events''"
    using step
  proof (cases rule: rebuild_composed_one_cases)
    case (2 t)
    show ?thesis by (rule apply_composed_shows(6) [OF 2(3) safe replay_composed_facts(4) [OF 2(1)]]) simp
  qed simp
  show "shows_state d' m s \<and> encodable s" if "composed_core r d m = Inr s" "rs_mission s \<noteq> None"
    using step
  proof (cases rule: rebuild_composed_one_cases)
    case (1 t)
    then show ?thesis using that by (simp add: composed_core_def)
  next
    case (2 t)
    have "s = cs_core_state t" using that(1) 2(1) by (simp add: composed_core_def)
    then show ?thesis
      using apply_composed_shows(1,2) [OF 2(3) safe replay_composed_facts(4) [OF 2(1)]] replay_composed_facts(3) [OF 2(1)] by simp
  qed
  show "d' = d" if "composed_core r d m = Inr s" "rs_mission s = None"
    using step that by (cases rule: rebuild_composed_one_cases) (auto simp: composed_core_def)
  show "projection_state d' k = projection_state d k" if "k \<noteq> m"
    using step
  proof (cases rule: rebuild_composed_one_cases)
    case (2 t)
    show ?thesis
      by (rule apply_composed_shows(4) [OF 2(3) safe replay_composed_facts(4) [OF 2(1)]])
         (use that replay_composed_facts(3) [OF 2(1)] in simp)
  qed simp
qed

lemma clear_extension_frame:
  assumes "clear_extension scope d x = Inr d'"
  shows "t \<notin> set (the (x_projection_tables x)) \<Longrightarrow> db_rows d' t = db_rows d t"
  using assms projection_call_frame [of d x True "x_clear x d scope" d']
  by (auto simp: clear_extension_def and_then_Inr_iff allowed_tables_def)

lemma clear_extensions_frame:
  assumes "fold_res (clear_extension scope) d (r_manifests r) = Inr d'" and "core_tables_safe r"
    and "t \<in> set CORE_PROJECTION_TABLES"
  shows "db_rows d' t = db_rows d t"
proof (rule fold_res_same [where g = "\<lambda>d. db_rows d t", OF assms(1)])
  fix a x b assume x: "x \<in> set (r_manifests r)" and step: "clear_extension scope a x = Inr b"
  have "t \<notin> set (the (x_projection_tables x))" using assms(2,3) x unfolding core_tables_safe_def by blast
  then show "db_rows b t = db_rows a t" by (rule clear_extension_frame [OF step])
qed

lemma rebuild_composed_shows:
  assumes "rebuild_composed_projections sha d r scope = Inr (d', report)" and safe: "core_tables_safe r"
  shows "db_rows d' ''events'' = db_rows d ''events''"
    and "m \<in> set (rebuild_scope d scope) \<Longrightarrow> composed_core r d m = Inr s \<Longrightarrow> rs_mission s \<noteq> None \<Longrightarrow>
      shows_state d' m s \<and> encodable s"
    and "m \<in> set (rebuild_scope d scope) \<Longrightarrow> composed_core r d m = Inr s \<Longrightarrow> rs_mission s = None \<Longrightarrow>
      projection_state d' m = (if scope = None \<or> scope = Some m then Inr None else projection_state d m)"
    and "m \<notin> set (rebuild_scope d scope) \<Longrightarrow>
      projection_state d' m = (if scope = None \<or> scope = Some m then Inr None else projection_state d m)"
    and "m \<in> set (rebuild_scope d scope) \<Longrightarrow> \<exists>s. composed_core r d m = Inr s"
proof -
  obtain d1 d2 hs where d1: "delete_core_rows d (scope_conds scope) = Inr d1"
    and d2: "fold_res (clear_extension scope) d1 (r_manifests r) = Inr d2"
    and fold: "fold_res (rebuild_composed_one sha r) (d2, [], []) (rebuild_scope d scope) = Inr (d', hs)"
    using assms(1)
    by (auto simp: rebuild_composed_projections_def rebuild_scope_def scope_conds_def Let_def and_then_Inr_iff split: prod.split_asm)
  have safe_fold: "fold_res (safe_rebuild_one sha r) (d2, [], []) (rebuild_scope d scope) = Inr (d', hs)"
    using fold safe by (simp add: safe_rebuild_one_def [abs_def])
  note clear = clear_extensions_frame [OF d2 safe]
  have ev: "db_rows d2 ''events'' = db_rows d ''events''"
    using clear [of "''events''"] delete_core_rows_Inr(2) [OF d1] by (simp add: CORE_PROJECTION_TABLES_def)
  have proj: "projection_state d2 m = (if scope = None \<or> scope = Some m then Inr None else projection_state d m)"
  proof -
    have "projection_state d2 m = projection_state d1 m"
      by (rule projection_state_frame) (rule clear, auto simp: CORE_PROJECTION_TABLES_def)
    then show ?thesis using delete_core_projection [OF d1] by simp
  qed
  have replay1: "composed_core r d2 m = composed_core r d m" by (rule composed_rebuild.core_frame [OF ev])
  note all = composed_rebuild.all_missions [OF safe_fold distinct_scope]
  show "\<exists>s. composed_core r d m = Inr s" if "m \<in> set (rebuild_scope d scope)"
    using composed_rebuild.all_defined [OF safe_fold that] replay1 by simp
  show "db_rows d' ''events'' = db_rows d ''events''" using all ev by simp
  have mine: "rebuilt d2 d' m s" if "m \<in> set (rebuild_scope d scope)" "composed_core r d m = Inr s" for s
    using all that replay1 by simp
  show "shows_state d' m s \<and> encodable s"
    if "m \<in> set (rebuild_scope d scope)" "composed_core r d m = Inr s" "rs_mission s \<noteq> None"
    using mine [OF that(1,2)] unfolding rebuilt_simps(2) [OF that(3)] .
  show "projection_state d' m = (if scope = None \<or> scope = Some m then Inr None else projection_state d m)"
    if "m \<in> set (rebuild_scope d scope)" "composed_core r d m = Inr s" "rs_mission s = None"
    using mine [OF that(1,2)] proj unfolding rebuilt_simps(1) [OF that(3)] by simp
  show "projection_state d' m = (if scope = None \<or> scope = Some m then Inr None else projection_state d m)"
    if "m \<notin> set (rebuild_scope d scope)"
    using all that proj by simp
qed

end
