(* ===== verification/CommandBus.thy ===== *)
theory CommandBus
  imports ComposedProjections
begin

text \<open>
  durable_core/command_bus.py: the normalization of a command, its fingerprint
  (durable_core/canonical.py), and \<open>CommandBus.execute\<close>, one write transaction per command.

  What the bus takes from its surroundings is the record \<open>environment\<close>: the clock's readings, the
  generated event identifiers, the failure injector at its four points, and whether opening the
  transaction or committing it fails.  \<open>execute\<close> returns the database after the call and either the
  \<open>CommandResult\<close> or the exception that escapes.
\<close>

section \<open>Commands\<close>

datatype raw_command = Envelope command_envelope | RawValue json

definition schema_invalid :: "string \<Rightarrow> 'a py" where
  "schema_invalid message = runtime_error ''COMMAND_SCHEMA_INVALID'' message"

definition required_field :: "dict \<Rightarrow> string \<Rightarrow> json py" where
  "required_field d k = (case map_of d k of None \<Rightarrow> schema_invalid (''missing command field: '' @ k) | Some v \<Rightarrow> Inr v)"

definition required_text :: "string \<Rightarrow> json \<Rightarrow> string py" where
  "required_text name v =
     (case v of JStr s \<Rightarrow> if nonblank s then Inr s else schema_invalid (name @ '' must be a non-empty string'')
              | _ \<Rightarrow> schema_invalid (name @ '' must be a non-empty string''))"

definition optional_text_field :: "string \<Rightarrow> json \<Rightarrow> string option py" where
  "optional_text_field name v =
     (case v of JNull \<Rightarrow> Inr None
              | JStr s \<Rightarrow> if nonblank s then Inr (Some s) else schema_invalid (name @ '' must be null or a non-empty string'')
              | _ \<Rightarrow> schema_invalid (name @ '' must be null or a non-empty string''))"

definition sequence_field :: "json \<Rightarrow> int py" where
  "sequence_field v =
     (case v of JInt n \<Rightarrow> if n < 0 then schema_invalid ''expected_seq must be a non-negative integer'' else Inr n
              | _ \<Rightarrow> schema_invalid ''expected_seq must be a non-negative integer'')"

definition actor_field :: "json \<Rightarrow> actor_ref py" where
  "actor_field v =
     (case v of
        JObj a \<Rightarrow>
          (case and_then (dindex a ''type'') (\<lambda>t. and_then (dindex a ''id'') (\<lambda>i.
                  case (t, i) of
                    (JStr t, JStr i) \<Rightarrow> make_ActorRef t i
                  | _ \<Rightarrow> Inl (ValueErr ''actor.type and actor.id must be strings''))) of
             Inl (KeyErr k) \<Rightarrow> schema_invalid (repr_str k)
           | Inl (ValueErr m) \<Rightarrow> schema_invalid m
           | other \<Rightarrow> other)
      | _ \<Rightarrow> schema_invalid ''actor must be an object'')"

definition raw_dict :: "raw_command \<Rightarrow> dict py" where
  "raw_dict value =
     (case value of Envelope c \<Rightarrow> Inr (command_to_dict c)
                  | RawValue (JObj d) \<Rightarrow> Inr d
                  | RawValue _ \<Rightarrow> schema_invalid ''command must be an object'')"

definition normalize_command :: "raw_command \<Rightarrow> command_envelope py" where
  "normalize_command value =
     and_then (raw_dict value) (\<lambda>raw.
     and_then (required_field raw ''command_id'') (\<lambda>command_id.
     and_then (required_field raw ''type'') (\<lambda>command_type.
     and_then (required_field raw ''mission_id'') (\<lambda>mission_id.
     and_then (required_field raw ''expected_seq'') (\<lambda>expected_seq.
     and_then (required_field raw ''actor'') (\<lambda>actor_raw.
     and_then (required_text ''command_id'' command_id) (\<lambda>cid.
     and_then (required_text ''type'' command_type) (\<lambda>ctype.
     and_then (required_text ''mission_id'' mission_id) (\<lambda>mid.
     and_then (sequence_field expected_seq) (\<lambda>seq.
     and_then (actor_field actor_raw) (\<lambda>actor.
     and_then (case dget_default raw ''payload'' (JObj []) of
                 JObj p \<Rightarrow> Inr p | _ \<Rightarrow> schema_invalid ''payload must be an object'') (\<lambda>payload.
     let schema_version = dget_default raw ''schema_version'' (JInt 1) in
     if \<not> py_eq schema_version (JInt 1) then
       schema_invalid (''unsupported command schema: '' @ py_str schema_version)
     else
     and_then (optional_text_field ''session_id'' (dget raw ''session_id'')) (\<lambda>session_id.
     and_then (optional_text_field ''idempotency_key'' (dget raw ''idempotency_key'')) (\<lambda>idempotency_key.
     and_then (required_text ''correlation_id'' (py_or (dget raw ''correlation_id'') (JStr cid))) (\<lambda>correlation_id.
     Inr \<lparr>c_command_id = cid, c_type = ctype, c_mission_id = mid, c_expected_seq = seq, c_actor = actor,
          c_payload = payload, c_session_id = session_id, c_idempotency_key = idempotency_key,
          c_correlation_id = Some correlation_id, c_schema_version = 1\<rparr>)))))))))))))))"

definition command_intent :: "command_envelope \<Rightarrow> dict" where
  "command_intent c =
     [(''type'', JStr (c_type c)), (''mission_id'', JStr (c_mission_id c)), (''session_id'', jopt (c_session_id c)),
      (''expected_seq'', JInt (c_expected_seq c)), (''actor'', JObj (actor_to_dict (c_actor c))),
      (''payload'', JObj (c_payload c)), (''schema_version'', JInt (c_schema_version c))]"

definition command_fingerprint :: "(string \<Rightarrow> string) \<Rightarrow> command_envelope \<Rightarrow> string" where
  "command_fingerprint sha c = canonical_sha256 sha (JObj (command_intent c))"

section \<open>Surroundings and state\<close>

record environment =
  env_received_at :: string
  env_event_id :: "nat \<Rightarrow> string"
  env_created_at :: "nat \<Rightarrow> string"
  env_inject :: "string \<Rightarrow> unit py"
  env_begin :: "unit py"
  env_commit :: "unit py"

datatype 'x bus_state = CoreOnly runtime_state | Composed "'x composed_state"

definition load_state :: "db \<Rightarrow> string \<Rightarrow> 'x registry \<Rightarrow> 'x bus_state py" where
  "load_state d m r =
     (if registry_enabled r then and_then (replay_composed_state d m r None) (\<lambda>s. Inr (Composed s))
      else and_then (replay_state d m None) (\<lambda>s. Inr (CoreOnly s)))"

fun core_part :: "'x bus_state \<Rightarrow> runtime_state" where
  "core_part (CoreOnly s) = s"
| "core_part (Composed s) = cs_core_state s"

fun reduce_state :: "'x registry \<Rightarrow> 'x bus_state \<Rightarrow> event_envelope \<Rightarrow> 'x bus_state py" where
  "reduce_state r (CoreOnly s) e = and_then (reduce s e) (\<lambda>t. Inr (CoreOnly t))"
| "reduce_state r (Composed s) e = and_then (reduce_composed s e r) (\<lambda>t. Inr (Composed t))"

fun bus_state_hash :: "(string \<Rightarrow> string) \<Rightarrow> 'x registry \<Rightarrow> 'x bus_state \<Rightarrow> string py" where
  "bus_state_hash sha r (CoreOnly s) = state_hash sha s"
| "bus_state_hash sha r (Composed s) = composed_hash sha r s"

fun apply_state_projection :: "(string \<Rightarrow> string) \<Rightarrow> 'x registry \<Rightarrow> db \<Rightarrow> 'x bus_state \<Rightarrow> db py" where
  "apply_state_projection sha r d (CoreOnly s) = apply_projection sha d s"
| "apply_state_projection sha r d (Composed s) = apply_composed_projection sha d s r"

section \<open>Execution\<close>

definition rejected_result :: "command_envelope \<Rightarrow> rt_error \<Rightarrow> command_result" where
  "rejected_result c e =
     \<lparr>cr_outcome = ''REJECTED'', cr_command_id = c_command_id c, cr_mission_id = c_mission_id c,
      cr_first_seq = None, cr_last_seq = None, cr_duplicate_of = None, cr_error = Some e, cr_state_hash = None\<rparr>"

definition conflict_result :: "command_envelope \<Rightarrow> string \<Rightarrow> string \<Rightarrow> command_result" where
  "conflict_result c code message =
     rejected_result c \<lparr>err_code = code, err_message = message, err_details = []\<rparr>"

definition command_row :: "command_envelope \<Rightarrow> string \<Rightarrow> command_result \<Rightarrow> string \<Rightarrow> dict" where
  "command_row c fingerprint result received_at =
     [(''command_id'', JStr (c_command_id c)), (''mission_id'', JStr (c_mission_id c)),
      (''session_id'', jopt (c_session_id c)), (''command_type'', JStr (c_type c)),
      (''expected_seq'', JInt (c_expected_seq c)), (''actor_type'', JStr (actor_type (c_actor c))),
      (''actor_id'', JStr (actor_id (c_actor c))), (''idempotency_key'', jopt (c_idempotency_key c)),
      (''correlation_id'', jopt (c_correlation_id c)), (''command_fingerprint'', JStr fingerprint),
      (''payload_json'', JStr (canonical_json (JObj (c_payload c)))),
      (''schema_version'', JInt (c_schema_version c)),
      (''status'', JStr (if cr_outcome result = ''APPLIED'' then ''APPLIED'' else ''REJECTED'')),
      (''first_seq'', jopt_int (cr_first_seq result)), (''last_seq'', jopt_int (cr_last_seq result)),
      (''result_json'', JStr (canonical_json (JObj (result_to_dict result)))),
      (''error_code'', jopt (error_code result)),
      (''error_message'', jopt (map_option err_message (cr_error result))),
      (''received_at'', JStr received_at)]"

definition insert_command ::
  "db \<Rightarrow> command_envelope \<Rightarrow> string \<Rightarrow> command_result \<Rightarrow> string \<Rightarrow> db py" where
  "insert_command d c fingerprint result received_at =
     insert_row d ''commands'' (command_row c fingerprint result received_at)"

definition stored_result :: "dict \<Rightarrow> command_result py" where
  "stored_result row =
     and_then (and_then (as_text (dget row ''result_json'')) json_loads) (\<lambda>v. and_then (as_dict v) result_from_dict)"

definition check_expected_seq :: "command_envelope \<Rightarrow> runtime_state \<Rightarrow> int \<Rightarrow> unit py" where
  "check_expected_seq c core head =
     (if c_type c = ''CREATE_MISSION'' then
        if c_expected_seq c \<noteq> 0 then runtime_error ''EXPECTED_SEQ_MISMATCH'' ''CREATE_MISSION expected_seq must be 0''
        else Inr ()
      else if rs_mission core = None then
        runtime_error ''MISSION_NOT_FOUND'' (''Mission not found: '' @ c_mission_id c)
      else if c_expected_seq c \<noteq> head then
        runtime_error ''EXPECTED_SEQ_MISMATCH''
          (''expected_seq '' @ show_int (c_expected_seq c) @ '' does not match stream head '' @ show_int head)
      else Inr ())"

definition extension_pending :: "'x manifest \<Rightarrow> command_envelope \<Rightarrow> 'x bus_state \<Rightarrow> pending_event list py" where
  "extension_pending x c state =
     (case state of
        CoreOnly _ \<Rightarrow> not_registered (x_extension_id x)
      | Composed s \<Rightarrow>
          and_then (x_handle x c s) (\<lambda>pending.
          and_then (check_all (\<lambda>p.
             if pe_event_type p \<in> set (x_event_types x) then Inr ()
             else runtime_error ''EXTENSION_EVENT_NOT_OWNED''
               (''Extension '' @ x_extension_id x @ '' does not own event: '' @ pe_event_type p)) pending) (\<lambda>_.
          Inr pending)))"

definition propose :: "'x registry \<Rightarrow> command_envelope \<Rightarrow> 'x bus_state \<Rightarrow> int \<Rightarrow> pending_event list py" where
  "propose r c state head =
     (case command_owner r (c_type c) of
        None \<Rightarrow> runtime_error ''UNSUPPORTED_COMMAND_TYPE'' (''unsupported command: '' @ c_type c)
      | Some owner \<Rightarrow>
          and_then (check_expected_seq c (core_part state) head) (\<lambda>_.
          and_then (case owner of CoreOwner \<Rightarrow> handle c (core_part state)
                    | ExtensionOwner x \<Rightarrow> extension_pending x c state) (\<lambda>pending.
          if pending = [] then runtime_error ''RUNTIME_INVARIANT_VIOLATION'' ''command handler produced no events''
          else Inr pending)))"

text \<open>The payload is kept with its keys in canonical order: \<open>dict(item.payload)\<close> up to key order.\<close>

definition make_event :: "environment \<Rightarrow> command_envelope \<Rightarrow> int \<Rightarrow> nat \<Rightarrow> pending_event \<Rightarrow> event_envelope" where
  "make_event env c head offset p =
     \<lparr>ev_event_id = env_event_id env offset, ev_mission_id = c_mission_id c, ev_seq = head + int offset,
      ev_event_type = pe_event_type p, ev_entity_type = pe_entity_type p, ev_entity_id = pe_entity_id p,
      ev_command_id = c_command_id c,
      ev_correlation_id = (case c_correlation_id c of
         Some k \<Rightarrow> if k = [] then c_command_id c else k | None \<Rightarrow> c_command_id c),
      ev_initiator_type = actor_type (c_actor c), ev_initiator_id = actor_id (c_actor c),
      ev_payload = canon_dict (pe_payload p), ev_created_at = env_created_at env offset,
      ev_session_id = pe_session_id p, ev_schema_version = 1\<rparr>"

definition make_events :: "environment \<Rightarrow> command_envelope \<Rightarrow> int \<Rightarrow> pending_event list \<Rightarrow> event_envelope list" where
  "make_events env c head pending =
     map (\<lambda>(i, p). make_event env c head i p) (zip [1..<Suc (length pending)] pending)"

definition applied_result :: "command_envelope \<Rightarrow> event_envelope list \<Rightarrow> string \<Rightarrow> command_result" where
  "applied_result c events h =
     \<lparr>cr_outcome = ''APPLIED'', cr_command_id = c_command_id c, cr_mission_id = c_mission_id c,
      cr_first_seq = Some (ev_seq (hd events)), cr_last_seq = Some (ev_seq (last events)),
      cr_duplicate_of = None, cr_error = None, cr_state_hash = Some h\<rparr>"

definition append_events ::
  "(string \<Rightarrow> string) \<Rightarrow> 'x registry \<Rightarrow> environment \<Rightarrow> command_envelope \<Rightarrow> db \<Rightarrow> 'x bus_state \<Rightarrow> int \<Rightarrow>
   pending_event list \<Rightarrow> (db \<times> command_result) py" where
  "append_events sha r env c d state head pending =
     (let events = make_events env c head pending
      in and_then (fold_res (reduce_state r) state events) (\<lambda>new_state.
         and_then (bus_state_hash sha r new_state) (\<lambda>h.
         let applied = applied_result c events h in
         and_then (insert_command d c (command_fingerprint sha c) applied (env_received_at env)) (\<lambda>d1.
         and_then (env_inject env ''after_command_insert'') (\<lambda>_.
         and_then (insert_events d1 events) (\<lambda>d2.
         and_then (env_inject env ''after_event_insert'') (\<lambda>_.
         and_then (apply_state_projection sha r d2 new_state) (\<lambda>d3.
         and_then (env_inject env ''after_projection_apply'') (\<lambda>_.
         and_then (env_inject env ''before_commit'') (\<lambda>_.
         Inr (d3, applied)))))))))))"

text \<open>The command is new: decide on it.\<close>

definition decide ::
  "(string \<Rightarrow> string) \<Rightarrow> 'x registry \<Rightarrow> environment \<Rightarrow> command_envelope \<Rightarrow> db \<Rightarrow> (db \<times> command_result) py" where
  "decide sha r env c d =
     and_then (load_state d (c_mission_id c) r) (\<lambda>state.
     let head = get_head_seq d (c_mission_id c) in
     case propose r c state head of
       Inl (RuntimeErr e) \<Rightarrow>
         and_then (insert_command d c (command_fingerprint sha c) (rejected_result c e) (env_received_at env)) (\<lambda>d1.
         Inr (d1, rejected_result c e))
     | Inl other \<Rightarrow> Inl other
     | Inr pending \<Rightarrow> append_events sha r env c d state head pending)"

definition duplicate_result :: "command_envelope \<Rightarrow> dict \<Rightarrow> command_result py" where
  "duplicate_result c owner =
     and_then (stored_result owner) (\<lambda>original.
     and_then (as_text (dget owner ''command_id'')) (\<lambda>i.
     Inr \<lparr>cr_outcome = ''DUPLICATE'', cr_command_id = c_command_id c, cr_mission_id = c_mission_id c,
          cr_first_seq = cr_first_seq original, cr_last_seq = cr_last_seq original, cr_duplicate_of = Some i,
          cr_error = None, cr_state_hash = cr_state_hash original\<rparr>))"

definition run_command ::
  "(string \<Rightarrow> string) \<Rightarrow> 'x registry \<Rightarrow> environment \<Rightarrow> command_envelope \<Rightarrow> db \<Rightarrow> (db \<times> command_result) py" where
  "run_command sha r env c d =
     (case select_rows d ''commands'' [(''command_id'', JStr (c_command_id c))] of
        existing # _ \<Rightarrow>
          if dget existing ''command_fingerprint'' = JStr (command_fingerprint sha c) then
            and_then (stored_result existing) (\<lambda>result. Inr (d, result))
          else
            Inr (d, conflict_result c ''COMMAND_ID_CONFLICT''
                      (''command_id already used with different intent: '' @ c_command_id c))
      | [] \<Rightarrow>
          (case c_idempotency_key c of
             None \<Rightarrow> decide sha r env c d
           | Some k \<Rightarrow>
               (case select_rows d ''commands'' [(''idempotency_key'', JStr k), (''status'', JStr ''APPLIED'')] of
                  [] \<Rightarrow> decide sha r env c d
                | owner # _ \<Rightarrow>
                    if dget owner ''command_fingerprint'' = JStr (command_fingerprint sha c) then
                      and_then (duplicate_result c owner) (\<lambda>result. Inr (d, result))
                    else
                      Inr (d, conflict_result c ''IDEMPOTENCY_CONFLICT''
                                (''idempotency_key already owns different intent: '' @ k)))))"

definition storage_code :: "exn \<Rightarrow> string" where
  "storage_code e =
     (case e of
        OperationalErr m \<Rightarrow>
          if contains_text ''locked'' (lower m) \<or> contains_text ''busy'' (lower m) then ''STORAGE_BUSY''
          else ''STORAGE_FAILURE''
      | _ \<Rightarrow> ''STORAGE_FAILURE'')"

definition execute ::
  "(string \<Rightarrow> string) \<Rightarrow> 'x registry \<Rightarrow> environment \<Rightarrow> db \<Rightarrow> raw_command \<Rightarrow> db \<times> command_result py" where
  "execute sha r env d raw_command =
     (case normalize_command raw_command of
        Inl (RuntimeErr e) \<Rightarrow>
          (let raw = (case raw_command of RawValue (JObj v) \<Rightarrow> v | _ \<Rightarrow> []) in
           (d, Inr \<lparr>cr_outcome = ''REJECTED'',
                    cr_command_id = py_str (py_or (dget raw ''command_id'') (JStr [])),
                    cr_mission_id = py_str (py_or (dget raw ''mission_id'') (JStr [])),
                    cr_first_seq = None, cr_last_seq = None, cr_duplicate_of = None,
                    cr_error = Some e, cr_state_hash = None\<rparr>))
      | Inl other \<Rightarrow> (d, Inl other)
      | Inr c \<Rightarrow>
          (case immediate_transaction d (\<lambda>d.
              and_then (env_begin env) (\<lambda>_.
              and_then (run_command sha r env c d) (\<lambda>(d', result).
              and_then (env_commit env) (\<lambda>_. Inr (d', result))))) of
             (d', Inr result) \<Rightarrow> (d', Inr result)
           | (d', Inl e) \<Rightarrow>
               if is_database_error e then (d', Inr (conflict_result c (storage_code e) (database_message e)))
               else (d', Inl e)))"


section \<open>Normal form\<close>

lemma required_text_Inr: "required_text n v = Inr s \<longleftrightarrow> v = JStr s \<and> nonblank s"
  by (auto simp: required_text_def schema_invalid_def split: json.split if_split_asm)

lemma optional_text_Inr: "optional_text_field n v = Inr x \<longleftrightarrow> v = jopt x \<and> (\<forall>s. x = Some s \<longrightarrow> nonblank s)"
  by (cases x) (auto simp: optional_text_field_def schema_invalid_def split: json.split if_split_asm)

lemma make_ActorRef_Inr: "make_ActorRef t i = Inr a \<Longrightarrow> nonblank (actor_type a) \<and> nonblank (actor_id a)"
  by (auto simp: make_ActorRef_def require_id_def and_then_Inr_iff split: if_split_asm)

lemma actor_pair_Inr:
  "(case (t, i) of (JStr t, JStr i) \<Rightarrow> make_ActorRef t i | _ \<Rightarrow> Inl e) = Inr a \<Longrightarrow>
     nonblank (actor_type a) \<and> nonblank (actor_id a)"
  by (cases t; cases i) (simp_all add: make_ActorRef_Inr)

lemma actor_field_Inr:
  assumes "actor_field v = Inr a"
  shows "nonblank (actor_type a) \<and> nonblank (actor_id a)"
proof (cases v)
  case (JObj d)
  let ?pair = "and_then (dindex d ''type'') (\<lambda>t. and_then (dindex d ''id'') (\<lambda>i.
      case (t, i) of (JStr t, JStr i) \<Rightarrow> make_ActorRef t i
                   | _ \<Rightarrow> Inl (ValueErr ''actor.type and actor.id must be strings'')))"
  have "?pair = Inr a"
    using assms JObj by (cases ?pair) (auto simp: actor_field_def schema_invalid_def split: exn.split_asm)
  then show ?thesis unfolding and_then_Inr_iff by (elim exE conjE) (rule actor_pair_Inr)
qed (use assms in \<open>simp_all add: actor_field_def schema_invalid_def\<close>)

lemma actor_field_again:
  "nonblank (actor_type a) \<Longrightarrow> nonblank (actor_id a) \<Longrightarrow> actor_field (JObj (actor_to_dict a)) = Inr a"
  by (simp add: actor_field_def actor_to_dict_def make_ActorRef_def require_id_def)

lemma normalize_facts:
  assumes "normalize_command raw = Inr c"
  shows "nonblank (c_command_id c) \<and> nonblank (c_type c) \<and> nonblank (c_mission_id c) \<and> 0 \<le> c_expected_seq c \<and>
    nonblank (actor_type (c_actor c)) \<and> nonblank (actor_id (c_actor c)) \<and> c_schema_version c = 1 \<and>
    (\<exists>k. c_correlation_id c = Some k \<and> nonblank k) \<and>
    (\<forall>k. c_session_id c = Some k \<longrightarrow> nonblank k) \<and> (\<forall>k. c_idempotency_key c = Some k \<longrightarrow> nonblank k)"
  using assms
  by (auto simp: normalize_command_def and_then_Inr_iff Let_def required_text_Inr optional_text_Inr sequence_field_def
      schema_invalid_def dest!: actor_field_Inr split: if_split_asm json.split_asm)

lemma py_or_nonblank [simp]: "nonblank s \<Longrightarrow> py_or (JStr s) v = JStr s"
  by (cases s) (auto simp: py_or_def nonblank_def)

lemma normalize_again:
  assumes "normalize_command raw = Inr c"
  shows "normalize_command (Envelope c) = Inr c"
proof -
  note facts = normalize_facts [OF assms]
  obtain k where k: "c_correlation_id c = Some k" "nonblank k" using facts by blast
  have "required_text n (JStr s) = Inr s" if "nonblank s" for n s using that by (simp add: required_text_Inr)
  moreover have "optional_text_field n (jopt x) = Inr x" if "\<forall>s. x = Some s \<longrightarrow> nonblank s" for n x
    using that by (simp add: optional_text_Inr)
  ultimately show ?thesis
    using facts k actor_field_again [of "c_actor c"]
    by (cases c) (simp add: normalize_command_def raw_dict_def command_to_dict_def required_field_def sequence_field_def)
qed

lemma intent_eq_iff:
  "canon_dict (command_intent c) = canon_dict (command_intent c') \<longleftrightarrow>
     c_type c = c_type c' \<and> c_mission_id c = c_mission_id c' \<and> c_session_id c = c_session_id c' \<and>
     c_expected_seq c = c_expected_seq c' \<and> c_actor c = c_actor c' \<and> c_schema_version c = c_schema_version c' \<and>
     canon_dict (c_payload c) = canon_dict (c_payload c')"
  (is "?l \<longleftrightarrow> ?r")
proof
  assume ?l
  then have eq: "canon (dget (command_intent c) k) = canon (dget (command_intent c') k)" for k
    by (metis dget_canon_dict)
  have actor: "canon_dict (actor_to_dict (c_actor c)) = canon_dict (actor_to_dict (c_actor c'))"
    using eq [of "''actor''"] by (simp add: command_intent_def canon_JObj)
  then have "canon (dget (actor_to_dict (c_actor c)) k) = canon (dget (actor_to_dict (c_actor c')) k)" for k
    by (metis dget_canon_dict)
  from this [of "''type''"] this [of "''id''"] have "c_actor c = c_actor c'"
    by (simp add: actor_to_dict_def)
  moreover have "jopt (c_session_id c) = jopt (c_session_id c')"
    using eq [of "''session_id''"] by (cases "c_session_id c"; cases "c_session_id c'") (simp_all add: command_intent_def)
  then have "c_session_id c = c_session_id c'" by (metis as_opt_str_jopt sum.inject(2))
  ultimately show ?r
    using eq [of "''type''"] eq [of "''mission_id''"] eq [of "''expected_seq''"] eq [of "''schema_version''"] eq [of "''payload''"]
    by (simp add: command_intent_def canon_JObj)
next
  assume ?r
  then have "canon_values (command_intent c) = canon_values (command_intent c')"
    by (simp add: command_intent_def canon_JObj)
  then show ?l by (rule canon_dict_cong)
qed

end
