(* ===== verification/BusCorrectness.thy ===== *)
theory BusCorrectness
  imports CommandBus
begin

text \<open>
  What \<open>CommandBus.execute\<close> guarantees: the log is append-only and gap-free, every mission's log
  replays to the state its projection shows, a command is applied at most once, a rejection appends
  nothing, and an exception leaves the database as it was.
\<close>

section \<open>The state of a mission\<close>

definition initial_bus_state :: "string \<Rightarrow> 'x registry \<Rightarrow> 'x bus_state py" where
  "initial_bus_state m r =
     (if registry_enabled r then and_then (initial_composed_state m r) (\<lambda>s. Inr (Composed s))
      else and_then (initial_state m) (\<lambda>s. Inr (CoreOnly s)))"

fun bus_seq :: "'x bus_state \<Rightarrow> int" where
  "bus_seq (CoreOnly s) = rs_seq s"
| "bus_seq (Composed s) = cs_seq s"

fun bus_state_inv :: "'x registry \<Rightarrow> 'x bus_state \<Rightarrow> bool" where
  "bus_state_inv r (CoreOnly s) = core_inv s"
| "bus_state_inv r (Composed s) = composed_inv r s"

lemma fold_core_only:
  "fold_res (reduce_state r) (CoreOnly s) = (\<lambda>es. and_then (fold_res reduce s es) (\<lambda>t. Inr (CoreOnly t)))"
proof
  show "fold_res (reduce_state r) (CoreOnly s) es = and_then (fold_res reduce s es) (\<lambda>t. Inr (CoreOnly t))" for es
    by (induction es arbitrary: s) (simp_all add: and_then_assoc)
qed

lemma fold_composed:
  "fold_res (reduce_state r) (Composed s) =
     (\<lambda>es. and_then (fold_res (\<lambda>s e. reduce_composed s e r) s es) (\<lambda>t. Inr (Composed t)))"
proof
  show "fold_res (reduce_state r) (Composed s) es =
     and_then (fold_res (\<lambda>s e. reduce_composed s e r) s es) (\<lambda>t. Inr (Composed t))" for es
    by (induction es arbitrary: s) (simp_all add: and_then_assoc)
qed

lemma load_state_fold:
  "load_state d m r =
     and_then (initial_bus_state m r) (\<lambda>s. and_then (list_events d m 0 None) (\<lambda>es. fold_res (reduce_state r) s es))"
  by (simp add: load_state_def initial_bus_state_def replay_state_def replay_composed_state_def
      and_then_assoc fold_core_only fold_composed)

lemma bus_inv_core: "bus_state_inv r s \<Longrightarrow> core_inv (core_part s)"
  by (cases s) (auto simp: composed_inv_def)

lemma initial_state_facts:
  "initial_state m = Inr s \<Longrightarrow> rs_mission_id s = m \<and> rs_seq s = 0 \<and> rs_mission s = None"
  by (auto simp: initial_state_def split: if_split_asm)

lemma initial_bus_inv:
  assumes "initial_bus_state m r = Inr s"
  shows "bus_state_inv r s \<and> bus_seq s = 0 \<and> rs_mission_id (core_part s) = m \<and> rs_mission (core_part s) = None"
proof (cases "registry_enabled r")
  case True
  then obtain c where c: "initial_composed_state m r = Inr c" "s = Composed c"
    using assms by (auto simp: initial_bus_state_def and_then_Inr_iff)
  show "bus_state_inv r s \<and> bus_seq s = 0 \<and> rs_mission_id (core_part s) = m \<and> rs_mission (core_part s) = None"
    using initial_composed_inv [OF c(1)] initial_state_facts [of m "cs_core_state c"] c(2) by simp
next
  case False
  then obtain c where c: "initial_state m = Inr c" "s = CoreOnly c"
    using assms by (auto simp: initial_bus_state_def and_then_Inr_iff)
  show "bus_state_inv r s \<and> bus_seq s = 0 \<and> rs_mission_id (core_part s) = m \<and> rs_mission (core_part s) = None"
    using core_inv_initial [OF c(1)] initial_state_facts [OF c(1)] c(2) by simp
qed

definition bus_evolves :: "'x bus_state \<Rightarrow> 'x bus_state \<Rightarrow> bool" where
  "bus_evolves s t \<longleftrightarrow> core_evolves (core_part s) (core_part t)"

interpretation bus_machine: monotone_machine "reduce_state r" bus_seq ev_seq "bus_state_inv r" bus_evolves
  for r :: "'x registry"
proof unfold_locales
  fix s e t assume step: "reduce_state r s e = Inr t"
  have "ev_seq e = bus_seq s + 1 \<and> bus_seq t = ev_seq e \<and> (bus_state_inv r s \<longrightarrow> bus_state_inv r t \<and> bus_evolves s t)"
  proof (cases s)
    case (CoreOnly c)
    then obtain c' where c': "reduce c e = Inr c'" "t = CoreOnly c'" using step by (auto simp: and_then_Inr_iff)
    show ?thesis using CoreOnly c' core_machine.step_number [OF c'(1)] core_machine.step_seq [OF c'(1)]
        core_machine.inv_step [OF _ c'(1)] core_machine.evolves_step [OF _ c'(1)]
      by (simp add: bus_evolves_def)
  next
    case (Composed c)
    then obtain c' where c': "reduce_composed c e r = Inr c'" "t = Composed c'" using step by (auto simp: and_then_Inr_iff)
    show ?thesis using Composed c' composed_machine.step_number [OF c'(1)] composed_machine.step_seq [OF c'(1)]
        reduce_composed_core [OF c'(1)]
      by (auto simp: bus_evolves_def composed_evolves_def)
  qed
  then show "ev_seq e = bus_seq s + 1" and "bus_seq t = ev_seq e"
    and "bus_state_inv r s \<Longrightarrow> bus_state_inv r t" and "bus_state_inv r s \<Longrightarrow> bus_evolves s t" by simp_all
next
  fix s t u :: "'x bus_state"
  show "bus_evolves s s" by (simp add: bus_evolves_def core_evolves_refl)
  show "bus_evolves s t \<Longrightarrow> bus_evolves t u \<Longrightarrow> bus_evolves s u"
    unfolding bus_evolves_def by (rule core_evolves_trans)
qed

lemma bus_seq_core: "bus_state_inv r s \<Longrightarrow> rs_seq (core_part s) = bus_seq s"
  by (cases s) (auto simp: composed_inv_def)

lemma load_state_facts:
  assumes "load_state d m r = Inr s"
  shows "bus_state_inv r s" and "rs_mission_id (core_part s) = m" and "core_inv (core_part s)"
    and "\<And>es. list_events d m 0 None = Inr es \<Longrightarrow> bus_seq s = int (length es)"
proof -
  obtain s0 es where s0: "initial_bus_state m r = Inr s0" and es: "list_events d m 0 None = Inr es"
    and fold: "fold_res (reduce_state r) s0 es = Inr s"
    using assms by (auto simp: load_state_fold and_then_Inr_iff)
  have init: "bus_state_inv r s0" "bus_seq s0 = 0" "rs_mission_id (core_part s0) = m"
    using initial_bus_inv [OF s0] by simp_all
  note run = bus_machine.run_inv [OF init(1) fold] bus_machine.run_seq [OF fold] bus_machine.run_evolves [OF init(1) fold]
  show "bus_state_inv r s" by (rule run(1))
  then show "core_inv (core_part s)" by (rule bus_inv_core)
  show "rs_mission_id (core_part s) = m" using run(3) init(3) by (simp add: bus_evolves_def core_evolves_def)
  show "bus_seq s = int (length fs)" if "list_events d m 0 None = Inr fs" for fs
    using that es run(2) init(2) by simp
qed

text \<open>Appending events to the log continues the replay.\<close>

lemma load_state_append:
  assumes "load_state d m r = Inr s" and "list_events d m 0 None = Inr old"
    and "list_events d' m 0 None = Inr (old @ es)" and "fold_res (reduce_state r) s es = Inr t"
  shows "load_state d' m r = Inr t"
  using assms by (auto simp: load_state_fold and_then_Inr_iff fold_res_append)

lemma load_state_frame:
  "stream d' m = stream d m \<Longrightarrow> load_state d' m r = load_state d m r"
  by (simp add: load_state_fold list_events_def)

section \<open>Projections of the bus's state\<close>

lemma apply_state_projection_shows:
  assumes "apply_state_projection sha r d s = Inr d'" and safe: "core_tables_safe r" and ids: "state_ids_distinct (core_part s)"
  shows "shows_state d' (rs_mission_id (core_part s)) (core_part s)" and "encodable (core_part s)"
    and "rs_mission (core_part s) \<noteq> None"
    and "k \<noteq> rs_mission_id (core_part s) \<Longrightarrow> projection_state d' k = projection_state d k"
    and "db_schema d' = db_schema d"
proof -
  have "shows_state d' (rs_mission_id (core_part s)) (core_part s) \<and> encodable (core_part s) \<and>
    rs_mission (core_part s) \<noteq> None \<and> db_schema d' = db_schema d \<and>
    (k \<noteq> rs_mission_id (core_part s) \<longrightarrow> projection_state d' k = projection_state d k)"
  proof (cases s)
    case (CoreOnly c)
    then have c: "apply_projection sha d c = Inr d'" "state_ids_distinct c" using assms(1,3) by simp_all
    have "rs_mission c \<noteq> None" using c(1) by (auto elim: apply_projection_Inr)
    then show ?thesis using CoreOnly projection_state_apply [OF c] projection_state_other [OF c(1)]
        apply_projection_encodable [OF c(1)] apply_projection_frame(2) [OF c(1)]
      by (simp add: shows_state_def)
  next
    case (Composed c)
    then have c: "apply_composed_projection sha d c r = Inr d'" "state_ids_distinct (cs_core_state c)" using assms(1,3) by simp_all
    note view = apply_composed_shows [OF c(1) safe c(2)]
    show ?thesis unfolding Composed core_part.simps by (intro conjI impI view)
  qed
  then show "shows_state d' (rs_mission_id (core_part s)) (core_part s)" and "encodable (core_part s)"
    and "rs_mission (core_part s) \<noteq> None"
    and "k \<noteq> rs_mission_id (core_part s) \<Longrightarrow> projection_state d' k = projection_state d k"
    and "db_schema d' = db_schema d" by blast+
qed

lemma apply_state_projection_frame:
  assumes "apply_state_projection sha r d s = Inr d'" and "core_tables_safe r"
    and "t \<in> set [''commands'', ''events'', ''schema_migrations'']"
  shows "db_rows d' t = db_rows d t"
proof (cases s)
  case (CoreOnly c)
  then show ?thesis using assms(1,3) by (intro apply_projection_frame(1)) auto
next
  case (Composed c)
  have "t \<in> set CORE_PROJECTION_TABLES" using assms(3) by (auto simp: CORE_PROJECTION_TABLES_def)
  then show ?thesis using Composed assms
    by (intro apply_composed_frame [of sha d c r]) (auto simp: core_tables_safe_def)
qed

section \<open>The invariant of the database\<close>

definition mission_consistent :: "'x registry \<Rightarrow> db \<Rightarrow> string \<Rightarrow> bool" where
  "mission_consistent r d m \<longleftrightarrow>
     (if stream d m = [] then projection_state d m = Inr None
      else \<exists>s. load_state d m r = Inr s \<and> rs_mission (core_part s) \<noteq> None \<and>
                shows_state d m (core_part s) \<and> encodable (core_part s))"

definition bus_inv :: "'x registry \<Rightarrow> db \<Rightarrow> bool" where
  "bus_inv r d \<longleftrightarrow> log_ok d \<and> (\<forall>m. mission_consistent r d m)"

lemma mission_consistentE:
  assumes "mission_consistent r d m" and "stream d m \<noteq> []"
  obtains s where "load_state d m r = Inr s" and "rs_mission (core_part s) \<noteq> None"
    and "shows_state d m (core_part s)" and "encodable (core_part s)"
  using assms unfolding mission_consistent_def by (simp only: if_False) blast

lemma mission_consistentI:
  "stream d m \<noteq> [] \<Longrightarrow> load_state d m r = Inr s \<Longrightarrow> rs_mission (core_part s) \<noteq> None \<Longrightarrow>
     shows_state d m (core_part s) \<Longrightarrow> encodable (core_part s) \<Longrightarrow> mission_consistent r d m"
  unfolding mission_consistent_def by (simp only: if_False) blast

lemma mission_consistent_frame:
  assumes "stream d' m = stream d m" and "projection_state d' m = projection_state d m"
  shows "mission_consistent r d' m = mission_consistent r d m"
  unfolding mission_consistent_def shows_state_def assms load_state_frame [OF assms(1)] by (rule refl)

lemma bus_inv_empty:
  assumes "\<And>t. t \<in> {''events'', ''mission_projection''} \<Longrightarrow> db_rows d t = []"
  shows "bus_inv r d"
  using assms log_empty [of d]
  by (simp add: bus_inv_def mission_consistent_def stream_def select_rows_def projection_state_def)

lemma bus_inv_frame:
  assumes "bus_inv r d"
    and "\<And>t. t \<in> {''events'', ''mission_projection'', ''goal_projection'', ''session_projection''} \<Longrightarrow> db_rows d' t = db_rows d t"
  shows "bus_inv r d'"
proof -
  have ev: "db_rows d' ''events'' = db_rows d ''events''" using assms(2) by simp
  have proj: "projection_state d' m = projection_state d m" for m
    by (rule projection_state_frame) (rule assms(2), auto)
  have str: "stream d' m = stream d m" for m using log_frame [OF ev] by simp
  have "mission_consistent r d' m = mission_consistent r d m" for m
    by (rule mission_consistent_frame [OF str proj])
  then show ?thesis using assms(1) log_frame [OF ev] by (simp add: bus_inv_def)
qed

section \<open>One applied command\<close>

lemma make_events_facts:
  shows "e \<in> set (make_events env c head ps) \<Longrightarrow>
      ev_mission_id e = c_mission_id c \<and> event_norm e = e \<and> ev_command_id e = c_command_id c \<and> ev_schema_version e = 1"
    and "map ev_event_type (make_events env c head ps) = map pe_event_type ps"
    and "map ev_seq (make_events env c head ps) = map (\<lambda>i. head + int i) [1..<Suc (length ps)]"
    and "length (make_events env c head ps) = length ps"
proof -
  show "e \<in> set (make_events env c head ps) \<Longrightarrow>
      ev_mission_id e = c_mission_id c \<and> event_norm e = e \<and> ev_command_id e = c_command_id c \<and> ev_schema_version e = 1"
    by (auto simp: make_events_def make_event_def event_norm_def canon_dict_idem)
  have "map ev_event_type (make_events env c head ps) = map (pe_event_type \<circ> snd) (zip [1..<Suc (length ps)] ps)"
    by (simp add: make_events_def make_event_def case_prod_beta o_def del: upt_Suc)
  then show "map ev_event_type (make_events env c head ps) = map pe_event_type ps"
    by (simp add: map_map [symmetric] del: upt_Suc map_map)
  have "map ev_seq (make_events env c head ps) = map ((\<lambda>i. head + int i) \<circ> fst) (zip [1..<Suc (length ps)] ps)"
    by (simp add: make_events_def make_event_def case_prod_beta o_def del: upt_Suc)
  then show "map ev_seq (make_events env c head ps) = map (\<lambda>i. head + int i) [1..<Suc (length ps)]"
    by (simp add: map_map [symmetric] del: upt_Suc map_map)
  show "length (make_events env c head ps) = length ps" by (simp add: make_events_def del: upt_Suc)
qed

lemma append_events_Inr:
  assumes "append_events sha r env c d state head pending = Inr (d', res)"
  obtains new_state h d1 d2 where
    "fold_res (reduce_state r) state (make_events env c head pending) = Inr new_state"
    and "bus_state_hash sha r new_state = Inr h"
    and "res = applied_result c (make_events env c head pending) h"
    and "insert_command d c (command_fingerprint sha c) res (env_received_at env) = Inr d1"
    and "insert_events d1 (make_events env c head pending) = Inr d2"
    and "apply_state_projection sha r d2 new_state = Inr d'"
  using assms unfolding append_events_def Let_def and_then_Inr_iff by blast

lemma insert_command_frame:
  assumes "insert_command d c fp res at = Inr d'"
  shows "t \<noteq> ''commands'' \<Longrightarrow> db_rows d' t = db_rows d t" and "db_schema d' = db_schema d"
    and "db_rows d' ''commands'' = db_rows d ''commands'' @ [command_row c fp res at]"
  using assms by (auto simp: insert_command_def insert_row_Inr)

lemma append_events_effect:
  assumes app: "append_events sha r env c d state head pending = Inr (d', res)" and ok: "log_ok d"
    and state: "load_state d (c_mission_id c) r = Inr state" and safe: "core_tables_safe r"
  defines "events \<equiv> make_events env c head pending"
  obtains new_state h where
    "fold_res (reduce_state r) state events = Inr new_state"
    and "bus_state_hash sha r new_state = Inr h" and "res = applied_result c events h"
    and "log_ok d'" and "stream d' (c_mission_id c) = stream d (c_mission_id c) @ map event_row events"
    and "\<And>k. k \<noteq> c_mission_id c \<Longrightarrow> stream d' k = stream d k \<and> projection_state d' k = projection_state d k"
    and "load_state d' (c_mission_id c) r = Inr new_state"
    and "rs_mission (core_part new_state) \<noteq> None" and "shows_state d' (c_mission_id c) (core_part new_state)"
    and "encodable (core_part new_state)"
    and "db_rows d' ''commands'' = db_rows d ''commands'' @ [command_row c (command_fingerprint sha c) res (env_received_at env)]"
    and "db_schema d' = db_schema d"
proof -
  let ?m = "c_mission_id c"
  obtain new_state h d1 d2 where n: "fold_res (reduce_state r) state events = Inr new_state"
    and h: "bus_state_hash sha r new_state = Inr h" and res: "res = applied_result c events h"
    and d1: "insert_command d c (command_fingerprint sha c) res (env_received_at env) = Inr d1"
    and d2: "insert_events d1 events = Inr d2"
    and d3: "apply_state_projection sha r d2 new_state = Inr d'"
    using app unfolding events_def by (rule append_events_Inr)
  note cmd = insert_command_frame [OF d1]
  have ev1: "db_rows d1 ''events'' = db_rows d ''events''" by (rule cmd(1)) simp
  have ok1: "log_ok d1" and str1: "stream d1 k = stream d k" for k using log_frame [OF ev1] ok by simp_all
  have mine: "\<And>e. e \<in> set events \<Longrightarrow> ev_mission_id e = ?m"
    using make_events_facts(1) unfolding events_def by blast
  have normal: "map event_norm events = events"
    using make_events_facts(1) unfolding events_def by (simp add: map_idI)
  note ins = insert_events_ok [OF d2 ok1 mine]
  have ev3: "db_rows d' ''events'' = db_rows d2 ''events''"
    by (rule apply_state_projection_frame [OF d3 safe]) simp
  have ok3: "log_ok d'" and str3: "stream d' k = stream d2 k" for k using log_frame [OF ev3] ins(1) by simp_all
  obtain old where old: "list_events d ?m 0 None = Inr old"
    using state by (auto simp: load_state_fold and_then_Inr_iff)
  have "list_events d2 ?m 0 None = Inr (old @ map event_norm events)"
    by (rule list_events_insert [OF d2 ok1 mine]) (use old str1 in \<open>simp_all add: list_events_def\<close>)
  then have list3: "list_events d' ?m 0 None = Inr (old @ events)"
    using str3 normal by (simp add: list_events_def)
  have load: "load_state d' ?m r = Inr new_state"
    by (rule load_state_append [OF state old list3 n])
  note facts = load_state_facts [OF load]
  have ids: "state_ids_distinct (core_part new_state)" using facts(3) by (simp add: core_inv_def)
  note view = apply_state_projection_shows [OF d3 safe ids, unfolded facts(2)]
  have proj2: "projection_state d2 k = projection_state d k" for k
    by (rule projection_state_frame) (use ins(4) cmd(1) in auto)
  have commands: "db_rows d' ''commands'' = db_rows d1 ''commands''"
    using apply_state_projection_frame [OF d3 safe, of "''commands''"] ins(4) [of "''commands''"] by simp
  show ?thesis
  proof (rule that [OF n h res ok3 _ _ load view(3) view(1) view(2)])
    show "stream d' ?m = stream d ?m @ map event_row events" using str3 ins(2) str1 by simp
    show "stream d' k = stream d k \<and> projection_state d' k = projection_state d k" if "k \<noteq> ?m" for k
      using that str3 ins(3) str1 view(4) proj2 by simp
    show "db_rows d' ''commands'' = db_rows d ''commands'' @ [command_row c (command_fingerprint sha c) res (env_received_at env)]"
      using commands cmd(3) by simp
    show "db_schema d' = db_schema d" using view(5) ins(5) cmd(2) by simp
  qed
qed

section \<open>One command\<close>

lemma propose_Inr:
  "propose r c state head = Inr pending \<Longrightarrow>
     pending \<noteq> [] \<and> check_expected_seq c (core_part state) head = Inr () \<and> command_owner r (c_type c) \<noteq> None"
  by (auto simp: propose_def and_then_Inr_iff split: option.split_asm if_split_asm)

text \<open>A call of the bus that returns: nothing is written, a rejection is recorded, or the events
  are appended.\<close>

lemma decide_cases:
  assumes "decide sha r env c d = Inr (d', res)"
  obtains (rejected) state e where "load_state d (c_mission_id c) r = Inr state"
      and "propose r c state (get_head_seq d (c_mission_id c)) = Inl (RuntimeErr e)"
      and "res = rejected_result c e"
      and "insert_command d c (command_fingerprint sha c) res (env_received_at env) = Inr d'"
    | (applied) state pending where "load_state d (c_mission_id c) r = Inr state"
      and "propose r c state (get_head_seq d (c_mission_id c)) = Inr pending"
      and "append_events sha r env c d state (get_head_seq d (c_mission_id c)) pending = Inr (d', res)"
proof -
  obtain state where state: "load_state d (c_mission_id c) r = Inr state"
    using assms by (auto simp: decide_def and_then_Inr_iff)
  show ?thesis
  proof (cases "propose r c state (get_head_seq d (c_mission_id c))")
    case (Inr pending)
    then show ?thesis using assms state by (intro applied) (simp_all add: decide_def)
  next
    case (Inl x)
    then obtain e where "x = RuntimeErr e" using assms state by (auto simp: decide_def split: exn.split_asm)
    then show ?thesis using assms state Inl by (intro rejected) (auto simp: decide_def and_then_Inr_iff)
  qed
qed

lemma run_command_cases:
  assumes "run_command sha r env c d = Inr (d', res)"
  obtains (known) existing rest where "d' = d"
      and "select_rows d ''commands'' [(''command_id'', JStr (c_command_id c))] = existing # rest"
    | (duplicate) k owner rest where "d' = d" and "c_idempotency_key c = Some k"
      and "select_rows d ''commands'' [(''command_id'', JStr (c_command_id c))] = []"
      and "select_rows d ''commands'' [(''idempotency_key'', JStr k), (''status'', JStr ''APPLIED'')] = owner # rest"
    | (fresh) "decide sha r env c d = Inr (d', res)"
      and "select_rows d ''commands'' [(''command_id'', JStr (c_command_id c))] = []"
      and "\<forall>k. c_idempotency_key c = Some k \<longrightarrow>
        select_rows d ''commands'' [(''idempotency_key'', JStr k), (''status'', JStr ''APPLIED'')] = []"
proof (cases "select_rows d ''commands'' [(''command_id'', JStr (c_command_id c))]")
  case (Cons existing rest)
  then show ?thesis using assms by (intro known) (auto simp: run_command_def and_then_Inr_iff split: if_split_asm)
next
  case Nil
  show ?thesis
  proof (cases "c_idempotency_key c")
    case None
    then show ?thesis using assms Nil by (intro fresh) (simp_all add: run_command_def)
  next
    case (Some k)
    show ?thesis
    proof (cases "select_rows d ''commands'' [(''idempotency_key'', JStr k), (''status'', JStr ''APPLIED'')]")
      case (Cons owner rest)
      then show ?thesis using assms Nil Some
        by (intro duplicate) (auto simp: run_command_def and_then_Inr_iff split: if_split_asm)
    next
      case no_owner: Nil
      then show ?thesis using assms Nil Some by (intro fresh) (simp_all add: run_command_def)
    qed
  qed
qed

lemma decide_inv:
  assumes dec: "decide sha r env c d = Inr (d', res)" and inv: "bus_inv r d" and safe: "core_tables_safe r"
  shows "bus_inv r d'"
  using dec
proof (cases rule: decide_cases)
  case (rejected state e)
  show ?thesis by (rule bus_inv_frame [OF inv]) (rule insert_command_frame(1) [OF rejected(4)], auto)
next
  case (applied state pending)
  have ok: "log_ok d" using inv by (simp add: bus_inv_def)
  have "pending \<noteq> []" using propose_Inr [OF applied(2)] by simp
  then have some: "make_events env c (get_head_seq d (c_mission_id c)) pending \<noteq> []"
    by (metis length_0_conv make_events_facts(4))
  from append_events_effect [OF applied(3) ok applied(1) safe] show ?thesis
  proof cases
    case (1 new_state h)
    have "mission_consistent r d' k" for k
    proof (cases "k = c_mission_id c")
      case True
      have "stream d' k \<noteq> []" using 1(5) some True by simp
      moreover have "load_state d' k r = Inr new_state \<and> rs_mission (core_part new_state) \<noteq> None \<and>
          shows_state d' k (core_part new_state) \<and> encodable (core_part new_state)"
        using 1(7-10) True by blast
      ultimately show ?thesis unfolding mission_consistent_def by (simp only: if_False) blast
    next
      case False
      have "mission_consistent r d k" using inv by (simp add: bus_inv_def)
      moreover have str: "stream d' k = stream d k" and "projection_state d' k = projection_state d k"
        using 1(6) [OF False] by simp_all
      ultimately show ?thesis by (simp add: mission_consistent_frame [OF str])
    qed
    then show ?thesis using 1(4) by (simp add: bus_inv_def)
  qed
qed

lemma run_command_inv:
  assumes "run_command sha r env c d = Inr (d', res)" and "bus_inv r d" and "core_tables_safe r"
  shows "bus_inv r d'"
  using assms(1)
proof (cases rule: run_command_cases)
  case fresh
  show ?thesis by (rule decide_inv [OF fresh(1) assms(2,3)])
qed (simp_all add: assms(2))

text \<open>\<open>execute\<close> is \<open>run_command\<close> in a transaction.\<close>

lemma execute_cases:
  assumes "execute sha r env d raw = (d', out)"
  obtains (unchanged) "d' = d"
    | (ran) c res where "normalize_command raw = Inr c" and "run_command sha r env c d = Inr (d', res)" and "out = Inr res"
proof (cases "normalize_command raw")
  case (Inl e)
  then show ?thesis using assms by (intro unchanged) (cases e; auto simp: execute_def Let_def)
next
  case (Inr c)
  let ?block = "\<lambda>d. and_then (env_begin env) (\<lambda>_. and_then (run_command sha r env c d) (\<lambda>(d', result).
              and_then (env_commit env) (\<lambda>_. Inr (d', result))))"
  show ?thesis
  proof (cases "?block d")
    case Inl': (Inl e)
    then show ?thesis using assms Inr
      by (intro unchanged) (auto simp: execute_def immediate_transaction_def split: if_split_asm)
  next
    case Inr': (Inr p)
    obtain d1 res where p: "p = (d1, res)" by (cases p)
    have "run_command sha r env c d = Inr (d1, res)"
      using Inr' by (auto simp: and_then_Inr_iff p split: prod.split_asm)
    moreover have "d' = d1 \<and> out = Inr res"
      using assms Inr Inr' by (simp add: execute_def immediate_transaction_def p)
    ultimately show ?thesis using Inr by (intro ran) simp_all
  qed
qed

lemma execute_inv:
  assumes "execute sha r env d raw = (d', out)" and "bus_inv r d" and "core_tables_safe r"
  shows "bus_inv r d'"
  using assms(1)
proof (cases rule: execute_cases)
  case (ran c res)
  show ?thesis by (rule run_command_inv [OF ran(2) assms(2,3)])
qed (simp add: assms(2))

section \<open>What a call adds\<close>

text \<open>The commands table and the log only grow; a call that appends nothing to the log leaves the
  projections alone.\<close>

definition grows :: "db \<Rightarrow> db \<Rightarrow> string \<Rightarrow> bool" where
  "grows d d' t \<longleftrightarrow> (\<exists>rows. db_rows d' t = db_rows d t @ rows)"

lemma grows_refl [simp]: "grows d d t"
  by (simp add: grows_def)

lemma grows_trans: "grows d d' t \<Longrightarrow> grows d' d'' t \<Longrightarrow> grows d d'' t"
  by (auto simp: grows_def)

lemma append_events_rows:
  assumes app: "append_events sha r env c d state head pending = Inr (d', res)" and safe: "core_tables_safe r"
  shows "db_rows d' ''events'' = db_rows d ''events'' @ map event_row (make_events env c head pending)"
    and "db_rows d' ''commands'' = db_rows d ''commands'' @ [command_row c (command_fingerprint sha c) res (env_received_at env)]"
  using app
proof (atomize (full), cases rule: append_events_Inr)
  case (1 new_state h d1 d2)
  have "db_rows d' t = db_rows d2 t" if "t \<in> set [''commands'', ''events'', ''schema_migrations'']" for t
    by (rule apply_state_projection_frame [OF 1(6) safe that])
  moreover have "db_rows d2 ''commands'' = db_rows d1 ''commands''"
    by (rule fold_res_same [where g = "\<lambda>d. db_rows d ''commands''", OF 1(5) [unfolded insert_events_def]])
       (auto simp: insert_event_def Let_def intro!: insert_row_other split: if_split_asm)
  ultimately show "db_rows d' ''events'' = db_rows d ''events'' @ map event_row (make_events env c head pending) \<and>
    db_rows d' ''commands'' = db_rows d ''commands'' @ [command_row c (command_fingerprint sha c) res (env_received_at env)]"
    using insert_events_rows [OF 1(5)] insert_command_frame(1) [OF 1(4), of "''events''"] insert_command_frame(3) [OF 1(4)]
    by simp
qed

lemma decide_rows:
  assumes "decide sha r env c d = Inr (d', res)" and safe: "core_tables_safe r"
  shows "grows d d' ''events''"
    and "db_rows d' ''commands'' = db_rows d ''commands'' @ [command_row c (command_fingerprint sha c) res (env_received_at env)]"
    and "cr_outcome res \<noteq> ''APPLIED'' \<Longrightarrow> t \<noteq> ''commands'' \<Longrightarrow> db_rows d' t = db_rows d t"
  using assms(1)
proof (atomize (full), cases rule: decide_cases)
  case (rejected state e)
  note cmd = insert_command_frame [OF rejected(4)]
  show "grows d d' ''events'' \<and>
    db_rows d' ''commands'' = db_rows d ''commands'' @ [command_row c (command_fingerprint sha c) res (env_received_at env)] \<and>
    (cr_outcome res \<noteq> ''APPLIED'' \<longrightarrow> t \<noteq> ''commands'' \<longrightarrow> db_rows d' t = db_rows d t)"
    using cmd(1) [of "''events''"] cmd(1) [of t] cmd(3) by (simp add: grows_def)
next
  case (applied state pending)
  have "cr_outcome res = ''APPLIED''"
    using applied(3) by (elim append_events_Inr) (simp add: applied_result_def)
  then show "grows d d' ''events'' \<and>
    db_rows d' ''commands'' = db_rows d ''commands'' @ [command_row c (command_fingerprint sha c) res (env_received_at env)] \<and>
    (cr_outcome res \<noteq> ''APPLIED'' \<longrightarrow> t \<noteq> ''commands'' \<longrightarrow> db_rows d' t = db_rows d t)"
    using append_events_rows [OF applied(3) safe] by (auto simp: grows_def)
qed

lemma execute_grows:
  assumes "execute sha r env d raw = (d', out)" and safe: "core_tables_safe r"
  shows "grows d d' ''events''" and "grows d d' ''commands''"
  using assms(1)
proof (atomize (full), cases rule: execute_cases)
  case unchanged
  then show "grows d d' ''events'' \<and> grows d d' ''commands''" by simp
next
  case (ran c res)
  from ran(2) show "grows d d' ''events'' \<and> grows d d' ''commands''"
  proof (cases rule: run_command_cases)
    case fresh
    show ?thesis using decide_rows(1,2) [OF fresh(1) safe] by (simp add: grows_def)
  qed simp_all
qed

lemma execute_not_applied:
  assumes "execute sha r env d raw = (d', Inr res)" and "cr_outcome res \<noteq> ''APPLIED''" and safe: "core_tables_safe r"
    and "t \<noteq> ''commands''"
  shows "db_rows d' t = db_rows d t"
  using assms(1)
proof (cases rule: execute_cases)
  case (ran c res')
  then have "run_command sha r env c d = Inr (d', res)" by simp
  then show ?thesis
  proof (cases rule: run_command_cases)
    case fresh
    show ?thesis by (rule decide_rows(3) [OF fresh(1) safe assms(2,4)])
  qed simp_all
qed simp

lemma execute_raised: "execute sha r env d raw = (d', Inl e) \<Longrightarrow> d' = d"
  by (erule execute_cases) simp_all

text \<open>A failure at any of the injector's four points: nothing but a rejection can be recorded.\<close>

lemma append_events_injected:
  assumes "append_events sha r env c d state head pending = Inr x"
    and "point \<in> {''after_command_insert'', ''after_event_insert'', ''after_projection_apply'', ''before_commit''}"
  shows "env_inject env point = Inr ()"
  using assms by (auto simp: append_events_def and_then_Inr_iff Let_def)

lemma execute_injected:
  assumes "execute sha r env d raw = (d', out)"
    and "point \<in> {''after_command_insert'', ''after_event_insert'', ''after_projection_apply'', ''before_commit''}"
    and "env_inject env point \<noteq> Inr ()"
  shows "d' = d \<or> (\<exists>res row. out = Inr res \<and> cr_outcome res = ''REJECTED'' \<and> dget row ''status'' = JStr ''REJECTED'' \<and>
    db_rows d' = (db_rows d)(''commands'' := db_rows d ''commands'' @ [row]))"
  using assms(1)
proof (cases rule: execute_cases)
  case (ran c res)
  from ran(2) show ?thesis
  proof (cases rule: run_command_cases)
    case fresh
    from fresh(1) show ?thesis
    proof (cases rule: decide_cases)
      case (rejected state e)
      note frame = insert_command_frame [OF rejected(4)]
      have "db_rows d' = (db_rows d)(''commands'' := db_rows d ''commands'' @ [command_row c (command_fingerprint sha c) res (env_received_at env)])"
        using frame(1,3) by (auto simp: fun_eq_iff)
      moreover have "cr_outcome res = ''REJECTED''" by (simp add: rejected(3) rejected_result_def)
      moreover have "dget (command_row c (command_fingerprint sha c) res (env_received_at env)) ''status'' = JStr ''REJECTED''"
        using calculation(2) by (simp add: command_row_def)
      ultimately show ?thesis using ran(3) by blast
    next
      case (applied state pending)
      then show ?thesis using append_events_injected [OF applied(3) assms(2)] assms(3) by simp
    qed
  qed simp_all
qed simp

lemma execute_aborted:
  assumes "execute sha r env d raw = (d', out)" and "env_begin env \<noteq> Inr () \<or> env_commit env \<noteq> Inr ()"
  shows "d' = d"
proof (cases "normalize_command raw")
  case (Inl e)
  then show ?thesis using assms(1) by (auto simp: execute_def Let_def split: exn.split_asm)
next
  case (Inr c)
  have "isl (and_then (env_begin env) (\<lambda>_. and_then (run_command sha r env c d) (\<lambda>(d', result).
              and_then (env_commit env) (\<lambda>_. Inr (d', result)))))"
    using assms(2) by (auto simp: isl_def and_then_def split: sum.split)
  then obtain e where "and_then (env_begin env) (\<lambda>_. and_then (run_command sha r env c d) (\<lambda>(d', result).
              and_then (env_commit env) (\<lambda>_. Inr (d', result)))) = Inl e"
    by (auto simp: isl_def)
  then show ?thesis using assms(1) Inr by (auto simp: execute_def immediate_transaction_def split: if_split_asm)
qed

section \<open>Histories\<close>

text \<open>A history is a list of calls, each with its surroundings.\<close>

definition run_history ::
  "(string \<Rightarrow> string) \<Rightarrow> 'x registry \<Rightarrow> (environment \<times> raw_command) list \<Rightarrow> db \<Rightarrow> db" where
  "run_history sha r calls d = foldl (\<lambda>d (env, raw). fst (execute sha r env d raw)) d calls"

lemma run_history_simps [simp]:
  "run_history sha r [] d = d"
  "run_history sha r ((env, raw) # calls) d = run_history sha r calls (fst (execute sha r env d raw))"
  by (simp_all add: run_history_def)

lemma history_inv:
  assumes "bus_inv r d" and "core_tables_safe r"
  shows "bus_inv r (run_history sha r calls d)"
  using assms(1)
proof (induction calls arbitrary: d)
  case (Cons call calls)
  obtain env raw where call: "call = (env, raw)" by (cases call)
  have "bus_inv r (fst (execute sha r env d raw))"
    by (rule execute_inv [OF _ Cons.prems assms(2)]) (rule prod.collapse [symmetric])
  then show ?case by (simp add: call Cons.IH)
qed simp

lemma history_grows:
  assumes "core_tables_safe r" and "t \<in> {''events'', ''commands''}"
  shows "grows d (run_history sha r calls d) t"
proof (induction calls arbitrary: d)
  case (Cons call calls)
  obtain env raw where call: "call = (env, raw)" by (cases call)
  have "execute sha r env d raw = (fst (execute sha r env d raw), snd (execute sha r env d raw))" by simp
  from execute_grows [OF this assms(1)] have "grows d (fst (execute sha r env d raw)) t"
    using assms(2) by auto
  then show ?case using Cons.IH by (auto simp: call intro: grows_trans)
qed simp

section \<open>At most once\<close>

lemma select_first:
  assumes "grows d d' t" and "select_rows d t cs = r # rest"
  shows "\<exists>more. select_rows d' t cs = r # more"
  using assms by (auto simp: grows_def select_rows_def)

lemma norm_result_no_error: "cr_error res = None \<Longrightarrow> norm_result res = res"
  by (simp add: norm_result_def)

lemma stored_result_row:
  "result_wf res \<Longrightarrow> stored_result (command_row c fp res at) = Inr (norm_result res)"
  using result_codec.read_stored [of res "result_to_dict res"]
  by (simp add: stored_result_def command_row_def)

lemma command_row_id:
  "row_matches [(''command_id'', JStr i)] (command_row c fp res at) \<longleftrightarrow> c_command_id c = i"
  by (auto simp: row_matches_def command_row_def)

lemma applied_first_row:
  assumes "run_command sha r env c d = Inr (d', res)" and "cr_outcome res = ''APPLIED''" and safe: "core_tables_safe r"
    and grown: "grows d' d2 ''commands''"
  shows "run_command sha r env' c d2 = Inr (d2, res)"
  using assms(1)
proof (cases rule: run_command_cases)
  case (known existing rest)
  obtain more where more: "select_rows d2 ''commands'' [(''command_id'', JStr (c_command_id c))] = existing # more"
    using select_first [OF grown, unfolded known(1), OF known(2)] by blast
  have "dget existing ''command_fingerprint'' = JStr (command_fingerprint sha c) \<and> stored_result existing = Inr res"
    using assms(1,2) known by (auto simp: run_command_def and_then_Inr_iff conflict_result_def rejected_result_def split: if_split_asm)
  then show ?thesis by (simp add: run_command_def more)
next
  case (duplicate k owner rest)
  then have False using assms(1,2)
    by (auto simp: run_command_def and_then_Inr_iff duplicate_result_def conflict_result_def rejected_result_def split: if_split_asm)
  then show ?thesis ..
next
  case fresh
  let ?row = "command_row c (command_fingerprint sha c) res (env_received_at env)"
  have none: "cr_error res = None"
    using fresh(1) assms(2)
    by (cases rule: decide_cases) (auto simp: rejected_result_def applied_result_def elim: append_events_Inr)
  have "select_rows d' ''commands'' [(''command_id'', JStr (c_command_id c))] = [?row]"
    using fresh(2) decide_rows(2) [OF fresh(1) safe] by (simp add: select_rows_def command_row_id)
  then obtain more where more: "select_rows d2 ''commands'' [(''command_id'', JStr (c_command_id c))] = ?row # more"
    using select_first [OF grown] by blast
  have "dget ?row ''command_fingerprint'' = JStr (command_fingerprint sha c)" by (simp add: command_row_def)
  moreover have "stored_result ?row = Inr res"
    using stored_result_row [of res] none by (simp add: result_wf_def norm_result_no_error)
  ultimately show ?thesis by (simp add: run_command_def more)
qed

lemma execute_run:
  "normalize_command raw = Inr c \<Longrightarrow> env_begin env = Inr () \<Longrightarrow> env_commit env = Inr () \<Longrightarrow>
     run_command sha r env c d = Inr (d', res) \<Longrightarrow> execute sha r env d raw = (d', Inr res)"
  by (simp add: execute_def immediate_transaction_def)

lemma execute_again:
  assumes first: "execute sha r env d raw = (d1, Inr res)" and "cr_outcome res = ''APPLIED''"
    and safe: "core_tables_safe r" and grown: "grows d1 d2 ''commands''"
    and "env_begin env' = Inr ()" and "env_commit env' = Inr ()"
  shows "execute sha r env' d2 raw = (d2, Inr res)"
proof -
  obtain c where c: "normalize_command raw = Inr c" and run: "run_command sha r env c d = Inr (d1, res)"
  proof (cases "normalize_command raw")
    case (Inl e)
    then show ?thesis using first assms(2) by (cases e) (auto simp: execute_def Let_def)
  next
    case (Inr c)
    from first show ?thesis
    proof (cases rule: execute_cases)
      case (ran c' res')
      then show ?thesis using that by simp
    next
      case unchanged
      have "run_command sha r env c d = Inr (d1, res)"
        using first assms(2) Inr unchanged
        by (auto simp: execute_def immediate_transaction_def conflict_result_def rejected_result_def and_then_def
            split: sum.split_asm prod.split_asm if_split_asm)
      then show ?thesis using that Inr by simp
    qed
  qed
  show ?thesis
    by (rule execute_run [OF c assms(5,6) applied_first_row [OF run assms(2) safe grown]])
qed

section \<open>What an applied command did\<close>

text \<open>The summary of a call that ran the command for the first time and applied it.\<close>

definition newly_applied ::
  "(string \<Rightarrow> string) \<Rightarrow> 'x registry \<Rightarrow> db \<Rightarrow> db \<Rightarrow> command_envelope \<Rightarrow> command_result \<Rightarrow> bool" where
  "newly_applied sha r d d' c res \<longleftrightarrow>
     (\<exists>old events state state' h.
        list_events d (c_mission_id c) 0 None = Inr old \<and>
        list_events d' (c_mission_id c) 0 None = Inr (old @ events) \<and> events \<noteq> [] \<and>
        map ev_seq events = map (\<lambda>i. int (length old) + int i) [1..<Suc (length events)] \<and>
        (\<forall>e \<in> set events. ev_command_id e = c_command_id c) \<and>
        load_state d (c_mission_id c) r = Inr state \<and> load_state d' (c_mission_id c) r = Inr state' \<and>
        check_expected_seq c (core_part state) (int (length old)) = Inr () \<and>
        bus_state_hash sha r state' = Inr h \<and> res = applied_result c events h)"

lemma decide_applied:
  assumes "decide sha r env c d = Inr (d', res)" and "cr_outcome res = ''APPLIED''" and inv: "bus_inv r d"
    and safe: "core_tables_safe r"
  shows "newly_applied sha r d d' c res"
  using assms(1)
proof (cases rule: decide_cases)
  case (rejected state e)
  then show ?thesis using assms(2) by (simp add: rejected_result_def)
next
  case (applied state pending)
  let ?m = "c_mission_id c" and ?head = "get_head_seq d (c_mission_id c)"
  let ?events = "make_events env c ?head pending"
  have ok: "log_ok d" using inv by (simp add: bus_inv_def)
  obtain old where old: "list_events d ?m 0 None = Inr old"
    using applied(1) by (auto simp: load_state_fold and_then_Inr_iff)
  have "length old = length (stream d ?m)"
    using old by (auto simp: list_events_log [OF ok] map_res_Inr_iff dest: list_all2_lengthD)
  then have head: "?head = int (length old)" using log_head [OF ok] by simp
  note accepted = propose_Inr [OF applied(2)]
  have len: "length ?events = length pending" by (rule make_events_facts(4))
  from append_events_effect [OF applied(3) ok applied(1) safe] show ?thesis
  proof cases
    case (1 new_state h)
    have normal: "map event_norm ?events = ?events"
      using make_events_facts(1) by (simp add: map_idI)
    have "list_events d' ?m 0 None = Inr (old @ ?events)"
      using old 1(5) by (simp add: list_events_log [OF ok] list_events_log [OF 1(4)] map_res_append map_res_event_rows normal)
    moreover have "?events \<noteq> []" using accepted len by auto
    moreover have "map ev_seq ?events = map (\<lambda>i. int (length old) + int i) [1..<Suc (length ?events)]"
      unfolding len using make_events_facts(3) [of env c ?head pending] head by simp
    moreover have "\<forall>e \<in> set ?events. ev_command_id e = c_command_id c"
      using make_events_facts(1) by blast
    moreover have "check_expected_seq c (core_part state) (int (length old)) = Inr ()" using accepted head by simp
    ultimately show ?thesis unfolding newly_applied_def
      using old applied(1) 1(2,3,7) by (intro exI [of _ old] exI [of _ ?events] exI [of _ state] exI [of _ new_state] exI [of _ h]) simp
  qed
qed

text \<open>An applied result is the one of this call, or the stored one of an earlier call.\<close>

lemma execute_applied:
  assumes "execute sha r env d raw = (d', Inr res)" and "cr_outcome res = ''APPLIED''" and "bus_inv r d"
    and "core_tables_safe r" and "normalize_command raw = Inr c"
  shows "d' = d \<or> newly_applied sha r d d' c res"
  using assms(1)
proof (cases rule: execute_cases)
  case (ran c' res')
  then have "run_command sha r env c d = Inr (d', res)" using assms(5) by simp
  then show ?thesis
  proof (cases rule: run_command_cases)
    case fresh
    show ?thesis using decide_applied [OF fresh(1) assms(2-4)] by simp
  qed simp_all
qed simp

text \<open>A command whose record is in the commands table with the same intent is answered from it.\<close>

definition recorded_answer :: "(string \<Rightarrow> string) \<Rightarrow> db \<Rightarrow> command_envelope \<Rightarrow> command_result \<Rightarrow> bool" where
  "recorded_answer sha d c res \<longleftrightarrow>
     (\<exists>row \<in> set (select_rows d ''commands'' [(''command_id'', JStr (c_command_id c))]).
        dget row ''command_fingerprint'' = JStr (command_fingerprint sha c) \<and> stored_result row = Inr res)"

lemma run_command_answered:
  assumes "run_command sha r env c d = Inr (d', res)" and "cr_outcome res = ''APPLIED''"
  shows "decide sha r env c d = Inr (d', res) \<or> d' = d \<and> recorded_answer sha d c res"
proof (cases "select_rows d ''commands'' [(''command_id'', JStr (c_command_id c))]")
  case (Cons existing rest)
  then show ?thesis using assms
    by (auto simp: run_command_def recorded_answer_def conflict_result_def rejected_result_def and_then_Inr_iff split: if_split_asm)
next
  case Nil
  then show ?thesis using assms
    by (auto simp: run_command_def duplicate_result_def conflict_result_def rejected_result_def and_then_Inr_iff split: option.split_asm list.split_asm if_split_asm)
qed

lemma decide_proposed:
  assumes "decide sha r env c d = Inr (d', res)" and "cr_outcome res = ''APPLIED''"
  shows "\<exists>state pending. load_state d (c_mission_id c) r = Inr state \<and>
    propose r c state (get_head_seq d (c_mission_id c)) = Inr pending"
  using assms(1)
proof (cases rule: decide_cases)
  case (rejected state e)
  then show ?thesis using assms(2) by (simp add: rejected_result_def)
qed blast

lemma execute_applied_ran:
  assumes "execute sha r env d raw = (d', Inr res)" and "cr_outcome res = ''APPLIED''" and "normalize_command raw = Inr c"
  shows "run_command sha r env c d = Inr (d', res)"
proof -
  let ?block = "\<lambda>d. and_then (env_begin env) (\<lambda>_. and_then (run_command sha r env c d) (\<lambda>(d', result).
              and_then (env_commit env) (\<lambda>_. Inr (d', result))))"
  show ?thesis
  proof (cases "?block d")
    case (Inl e)
    then show ?thesis using assms
      by (auto simp: execute_def immediate_transaction_def conflict_result_def rejected_result_def split: if_split_asm)
  next
    case (Inr p)
    then show ?thesis using assms by (cases p) (auto simp: execute_def immediate_transaction_def and_then_Inr_iff)
  qed
qed

lemma execute_answered:
  assumes "execute sha r env d raw = (d', Inr res)" and "cr_outcome res = ''APPLIED''" and "bus_inv r d"
    and "core_tables_safe r" and "normalize_command raw = Inr c"
  shows "newly_applied sha r d d' c res \<and>
      (\<exists>state pending. load_state d (c_mission_id c) r = Inr state \<and> propose r c state (get_head_seq d (c_mission_id c)) = Inr pending) \<or>
    d' = d \<and> recorded_answer sha d c res"
  using run_command_answered [OF execute_applied_ran [OF assms(1,2,5)] assms(2)]
    decide_applied [OF _ assms(2-4)] decide_proposed [OF _ assms(2)] by blast

section \<open>Missions across calls\<close>

text \<open>The state of every mission only evolves.\<close>

lemma decide_evolves:
  assumes "decide sha r env c d = Inr (d', res)" and "bus_inv r d" and safe: "core_tables_safe r"
    and state: "load_state d m r = Inr s"
  shows "\<exists>t. load_state d' m r = Inr t \<and> bus_evolves s t"
  using assms(1)
proof (cases rule: decide_cases)
  case (rejected state e)
  have "stream d' m = stream d m"
    using log_frame [OF insert_command_frame(1) [OF rejected(4), of "''events''"]] by simp
  from load_state_frame [OF this, of r] show ?thesis using state by (simp add: bus_evolves_def core_evolves_refl)
next
  case (applied state pending)
  have ok: "log_ok d" using assms(2) by (simp add: bus_inv_def)
  from append_events_effect [OF applied(3) ok applied(1) safe] show ?thesis
  proof cases
    case (1 new_state h)
    show ?thesis
    proof (cases "m = c_mission_id c")
      case True
      then have "s = state" using state applied(1) by simp
      then have "bus_evolves s new_state"
        using bus_machine.run_evolves [OF load_state_facts(1) [OF applied(1)] 1(1)] by simp
      then show ?thesis using 1(7) True by simp
    next
      case False
      then have "stream d' m = stream d m" using 1(6) by simp
      from load_state_frame [OF this, of r] show ?thesis using state by (simp add: bus_evolves_def core_evolves_refl)
    qed
  qed
qed

lemma execute_evolves:
  assumes "execute sha r env d raw = (d', out)" and inv: "bus_inv r d" and safe: "core_tables_safe r"
    and state: "load_state d m r = Inr s"
  shows "\<exists>t. load_state d' m r = Inr t \<and> bus_evolves s t"
  using assms(1)
proof (cases rule: execute_cases)
  case (ran c res)
  from ran(2) show ?thesis
  proof (cases rule: run_command_cases)
    case fresh
    show ?thesis by (rule decide_evolves [OF fresh(1) inv safe state])
  qed (use state in \<open>simp_all add: bus_evolves_def core_evolves_refl\<close>)
qed (use state in \<open>simp add: bus_evolves_def core_evolves_refl\<close>)

lemma history_evolves:
  assumes "bus_inv r d" and safe: "core_tables_safe r" and "load_state d m r = Inr s"
  shows "\<exists>t. load_state (run_history sha r calls d) m r = Inr t \<and> bus_evolves s t"
  using assms(1,3)
proof (induction calls arbitrary: d s)
  case Nil
  then show ?case by (simp add: bus_evolves_def core_evolves_refl)
next
  case (Cons call calls)
  obtain env raw where call: "call = (env, raw)" by (cases call)
  let ?d = "fst (execute sha r env d raw)"
  have ex: "execute sha r env d raw = (?d, snd (execute sha r env d raw))" by simp
  obtain u where u: "load_state ?d m r = Inr u" "bus_evolves s u"
    using execute_evolves [OF ex Cons.prems(1) safe Cons.prems(2)] by blast
  obtain t where "load_state (run_history sha r calls ?d) m r = Inr t" "bus_evolves u t"
    using Cons.IH [OF execute_inv [OF ex Cons.prems(1) safe] u(1)] by blast
  then show ?case using u(2) bus_machine.evolves_trans by (auto simp: call)
qed

section \<open>The head a command names\<close>

lemma grows_stream: "grows d d' ''events'' \<Longrightarrow> length (stream d m) \<le> length (stream d' m)"
  by (auto simp: grows_def stream_def select_rows_def)

lemma list_events_length: "log_ok d \<Longrightarrow> list_events d m 0 None = Inr es \<Longrightarrow> length es = length (stream d m)"
  by (auto simp: list_events_log map_res_Inr_iff dest: list_all2_lengthD)

lemma newly_applied_head:
  assumes "newly_applied sha r d d' c res" and "bus_inv r d" and "c_type c \<noteq> ''CREATE_MISSION''"
  shows "c_expected_seq c = int (length (stream d (c_mission_id c)))"
  using assms list_events_length [of d "c_mission_id c"]
  by (auto simp: newly_applied_def check_expected_seq_def bus_inv_def split: if_split_asm)

lemma newly_applied_longer:
  assumes "newly_applied sha r d d' c res" and "bus_inv r d" and "log_ok d'"
  shows "length (stream d (c_mission_id c)) < length (stream d' (c_mission_id c))"
proof -
  obtain old events where "list_events d (c_mission_id c) 0 None = Inr old"
      "list_events d' (c_mission_id c) 0 None = Inr (old @ events)" "events \<noteq> []"
    using assms(1) by (auto simp: newly_applied_def)
  moreover have "log_ok d" using assms(2) by (simp add: bus_inv_def)
  ultimately have "length old = length (stream d (c_mission_id c))" "0 < length events"
      "length (old @ events) = length (stream d' (c_mission_id c))"
    using assms(3) list_events_length by blast+
  then show ?thesis unfolding length_append by linarith
qed

end
