(* ===== verification/RuntimeService.thy ===== *)
theory RuntimeService
  imports BusCorrectness
begin

text \<open>
  durable_core/service.py: the facade that opens the database, registers and migrates the
  extensions, and offers the bus, replay, queries of the log, verification and rebuilding.
\<close>

section \<open>Operations\<close>

definition open_service ::
  "string \<Rightarrow> 'x manifest list \<Rightarrow> string \<Rightarrow> db \<Rightarrow> db \<times> 'x registry py" where
  "open_service db_path extensions now d =
     (if \<not> nonblank db_path then (d, Inl (ValueErr ''db_path is required''))
      else case ExtensionRegistry extensions of
        Inl e \<Rightarrow> (d, Inl e)
      | Inr r \<Rightarrow>
          (let d1 = initialize d in
           if registry_enabled r then
             (case initialize_extensions d1 r now of
                (d2, Inl e) \<Rightarrow> (d2, Inl e) | (d2, Inr _) \<Rightarrow> (d2, Inr r))
           else (d1, Inr r)))"

definition service_replay :: "'x registry \<Rightarrow> db \<Rightarrow> string \<Rightarrow> int option \<Rightarrow> runtime_state py" where
  "service_replay r d m through_seq =
     (if registry_enabled r then
        and_then (replay_composed_state d m r through_seq) (\<lambda>s. Inr (cs_core_state s))
      else replay_state d m through_seq)"

definition service_replay_composed :: "'x registry \<Rightarrow> db \<Rightarrow> string \<Rightarrow> int option \<Rightarrow> 'x composed_state py" where
  "service_replay_composed r d m through_seq = replay_composed_state d m r through_seq"

definition mission_not_found :: "string \<Rightarrow> 'a py" where
  "mission_not_found m = runtime_error ''MISSION_NOT_FOUND'' (''Mission not found: '' @ m)"

definition get_composed_state :: "'x registry \<Rightarrow> db \<Rightarrow> string \<Rightarrow> 'x composed_state py" where
  "get_composed_state r d m =
     and_then (service_replay_composed r d m None) (\<lambda>s.
     if rs_mission (cs_core_state s) = None then mission_not_found m else Inr s)"

definition get_extension_projection :: "'x registry \<Rightarrow> db \<Rightarrow> string \<Rightarrow> string \<Rightarrow> 'x py" where
  "get_extension_projection r d i m =
     and_then (registry_manifest r i) (\<lambda>x. read_extension_projection d x m)"

definition get_state :: "'x registry \<Rightarrow> db \<Rightarrow> string \<Rightarrow> runtime_state py" where
  "get_state r d m =
     and_then (service_replay r d m None) (\<lambda>s.
     if rs_mission s = None then mission_not_found m else Inr s)"

definition service_verify :: "(string \<Rightarrow> string) \<Rightarrow> 'x registry \<Rightarrow> db \<Rightarrow> string \<Rightarrow> dict py" where
  "service_verify sha r d m =
     (if registry_enabled r then verify_composed_projection sha d m r else verify_projection sha d m)"

definition service_rebuild ::
  "(string \<Rightarrow> string) \<Rightarrow> 'x registry \<Rightarrow> db \<Rightarrow> string option \<Rightarrow> db \<times> dict py" where
  "service_rebuild sha r d mission_id =
     immediate_transaction d (\<lambda>d.
       if registry_enabled r then rebuild_composed_projections sha d r mission_id
       else rebuild_projections sha d mission_id)"

section \<open>The service over the bus\<close>

lemma service_replay_load:
  "service_replay r d m None = and_then (load_state d m r) (\<lambda>s. Inr (core_part s))"
  by (simp add: service_replay_def load_state_def and_then_assoc)

lemma open_service_Inr:
  assumes "open_service p xs now d = (d', Inr r)"
  shows "ExtensionRegistry xs = Inr r" and "nonblank p"
    and "if registry_enabled r then initialize_extensions (initialize d) r now = (d', Inr ()) else d' = initialize d"
  using assms
  by (auto simp: open_service_def Let_def split: if_split_asm sum.split_asm prod.split_asm)

lemma open_service_safe: "open_service p xs now d = (d', Inr r) \<Longrightarrow> core_tables_safe r"
  by (drule open_service_Inr(1)) (auto simp: ExtensionRegistry_def intro: registry_core_tables_safe)

lemma foldl_create_rows: "db_rows (foldl create_if_missing d ps) = db_rows d"
  by (induction ps arbitrary: d) (simp_all add: create_if_missing_def)

lemma initialize_rows: "t \<noteq> ''schema_migrations'' \<Longrightarrow> db_rows (initialize d) t = db_rows d t"
  by (auto simp: initialize_def insert_or_ignore_def foldl_create_rows dest: insert_row_other split: sum.split)

text \<open>Opening a service keeps the log and the projections: migrations cannot reach them.\<close>

lemma open_service_rows:
  assumes "open_service p xs now d = (d', Inr r)" and "t \<in> set CORE_PROJECTION_TABLES" and "t \<noteq> ''schema_migrations''"
  shows "db_rows d' t = db_rows d t"
proof (cases "registry_enabled r")
  case False
  then show ?thesis using open_service_Inr(3) [OF assms(1)] initialize_rows [OF assms(3)] by simp
next
  case True
  have reg: "make_ExtensionRegistry SUPPORTED_COMMANDS SUPPORTED_EVENTS xs = Inr r"
    using open_service_Inr(1) [OF assms(1)] by (simp add: ExtensionRegistry_def)
  have run: "fold_res (migrate_extension now) (create_if_missing (initialize d) extension_migrations_object) (r_manifests r) = Inr d'"
    by (rule initialize_extensions_Inr) (use open_service_Inr(3) [OF assms(1)] True in simp_all)
  have t: "t \<noteq> ''sqlite_master'' \<and> t \<noteq> ''extension_migrations''"
    using assms(2) by (auto simp: CORE_PROJECTION_TABLES_def)
  have "db_rows d' t = db_rows (create_if_missing (initialize d) extension_migrations_object) t"
  proof (rule fold_res_same [where g = "\<lambda>d. db_rows d t", OF run])
    fix a x b assume x: "x \<in> set (r_manifests r)" and step: "migrate_extension now a x = Inr b"
    have "t \<notin> set (the (x_projection_tables x))" using registry_tables(2) [OF reg x] assms(2) by blast
    then show "db_rows b t = db_rows a t" using migrate_extension_rows [OF step] t by blast
  qed
  then show ?thesis using initialize_rows [OF assms(3)] by (simp add: create_if_missing_def)
qed

lemma open_service_inv:
  assumes "open_service p xs now d = (d', Inr r)" and "\<And>t. t \<in> set CORE_PROJECTION_TABLES \<Longrightarrow> db_rows d t = []"
  shows "bus_inv r d'"
proof (rule bus_inv_empty)
  fix t assume "t \<in> {''events'', ''mission_projection''}"
  then have "t \<in> set CORE_PROJECTION_TABLES" "t \<noteq> ''schema_migrations''" by (auto simp: CORE_PROJECTION_TABLES_def)
  then show "db_rows d' t = []" using open_service_rows [OF assms(1)] assms(2) by simp
qed

text \<open>Verification succeeds for every mission of a core-only service in every reachable database.\<close>

lemma consistent_verify:
  assumes "bus_inv r d" and "\<not> registry_enabled r" and "stream d m \<noteq> []"
  shows "\<exists>h. verify_projection sha d m =
    Inr [(''ok'', JBool True), (''mission_id'', JStr m), (''replay_hash'', JStr h), (''projection_hash'', JStr h)]"
proof -
  have "mission_consistent r d m" using assms(1) by (simp add: bus_inv_def)
  then obtain s where s: "load_state d m r = Inr s" "rs_mission (core_part s) \<noteq> None"
      "shows_state d m (core_part s)" "encodable (core_part s)"
    using assms(3) by (auto simp: mission_consistent_def)
  have "replay_state d m None = Inr (core_part s)"
    using s(1) assms(2) by (auto simp: load_state_def and_then_Inr_iff)
  from verify_projection_ok [OF this s(2-4)] show ?thesis by blast
qed

section \<open>Rebuilding through the service\<close>

lemma service_rebuild_shows:
  assumes run: "service_rebuild sha r d scope = (d', Inr report)" and safe: "core_tables_safe r"
  shows "db_rows d' ''events'' = db_rows d ''events''"
    and "m \<in> set (rebuild_scope d scope) \<Longrightarrow> service_replay r d m None = Inr s \<Longrightarrow> rs_mission s \<noteq> None \<Longrightarrow>
      shows_state d' m s \<and> encodable s"
    and "m \<in> set (rebuild_scope d scope) \<Longrightarrow> service_replay r d m None = Inr s \<Longrightarrow> rs_mission s = None \<Longrightarrow>
      projection_state d' m = (if scope = None \<or> scope = Some m then Inr None else projection_state d m)"
    and "m \<notin> set (rebuild_scope d scope) \<Longrightarrow>
      projection_state d' m = (if scope = None \<or> scope = Some m then Inr None else projection_state d m)"
    and "m \<in> set (rebuild_scope d scope) \<Longrightarrow> \<exists>s. service_replay r d m None = Inr s"
proof -
  let ?stays = "projection_state d' m = (if scope = None \<or> scope = Some m then Inr None else projection_state d m)"
  have all: "db_rows d' ''events'' = db_rows d ''events'' \<and>
    (m \<in> set (rebuild_scope d scope) \<longrightarrow> service_replay r d m None = Inr s \<longrightarrow> rs_mission s \<noteq> None \<longrightarrow>
       shows_state d' m s \<and> encodable s) \<and>
    (m \<in> set (rebuild_scope d scope) \<longrightarrow> service_replay r d m None = Inr s \<longrightarrow> rs_mission s = None \<longrightarrow> ?stays) \<and>
    (m \<notin> set (rebuild_scope d scope) \<longrightarrow> ?stays) \<and>
    (m \<in> set (rebuild_scope d scope) \<longrightarrow> (\<exists>s. service_replay r d m None = Inr s))" for s
  proof (cases "registry_enabled r")
    case True
    then have "rebuild_composed_projections sha d r scope = Inr (d', report)"
      using run by (auto simp: service_rebuild_def immediate_transaction_def split: sum.split_asm prod.split_asm)
    note view = rebuild_composed_shows [OF this safe]
    have core: "service_replay r d m None = composed_core r d m"
      using True by (simp add: service_replay_def composed_core_def)
    show ?thesis unfolding core by (intro conjI impI view) assumption+
  next
    case False
    then have "rebuild_projections sha d scope = Inr (d', report)"
      using run by (auto simp: service_rebuild_def immediate_transaction_def split: sum.split_asm prod.split_asm)
    note view = rebuild_projections_shows [OF this]
    have core: "service_replay r d m None = replay_state d m None"
      using False by (simp add: service_replay_def)
    show ?thesis unfolding core by (intro conjI impI view) assumption+
  qed
  show "db_rows d' ''events'' = db_rows d ''events''" using all by blast
  show "shows_state d' m s \<and> encodable s"
    if "m \<in> set (rebuild_scope d scope)" "service_replay r d m None = Inr s" "rs_mission s \<noteq> None"
    using all [of s] that by blast
  show ?stays if "m \<in> set (rebuild_scope d scope)" "service_replay r d m None = Inr s" "rs_mission s = None"
    using all [of s] that by blast
  show ?stays if "m \<notin> set (rebuild_scope d scope)" using all that by blast
  show "\<exists>s. service_replay r d m None = Inr s" if "m \<in> set (rebuild_scope d scope)" using all that by blast
qed

lemma logged_stream:
  assumes "log_ok d"
  shows "m \<in> set (logged_missions d) \<longleftrightarrow> stream d m \<noteq> []"
proof
  assume "m \<in> set (logged_missions d)"
  then obtain r where r: "r \<in> set (db_rows d ''events'')" "m = text_of r ''mission_id''"
    by (auto simp: logged_missions_def)
  then obtain e where "row_to_event r = Inr e" using assms by (auto simp: log_ok_def)
  then have "dget r ''mission_id'' = JStr m"
    using r(2) by (cases "dget r ''mission_id''") (auto simp: row_to_event_def and_then_Inr_iff text_of_def)
  then show "stream d m \<noteq> []" using r(1) by (auto simp: stream_def select_rows_def filter_empty_conv row_matches_def)
next
  assume "stream d m \<noteq> []"
  then obtain r where "r \<in> set (db_rows d ''events'')" "dget r ''mission_id'' = JStr m"
    by (auto simp: stream_def select_rows_def filter_empty_conv row_matches_def)
  then show "m \<in> set (logged_missions d)"
    by (force simp: logged_missions_def text_of_def)
qed

lemma empty_stream_replay:
  assumes "stream d m = []" and "service_replay r d m None = Inr s"
  shows "rs_mission s = None"
proof -
  obtain b where b: "load_state d m r = Inr b" "core_part b = s"
    using assms(2) by (auto simp: service_replay_load and_then_Inr_iff)
  have "list_events d m 0 None = Inr []" using assms(1) by (simp add: list_events_def)
  then have "initial_bus_state m r = Inr b" using b(1) by (simp add: load_state_fold)
  from initial_bus_inv [OF this] show ?thesis using b(2) by simp
qed

lemma service_rebuild_inv:
  assumes run: "service_rebuild sha r d scope = (d', out)" and inv: "bus_inv r d" and safe: "core_tables_safe r"
  shows "bus_inv r d'"
proof (cases out)
  case (Inl e)
  then have "d' = d" using run by (auto simp: service_rebuild_def immediate_transaction_def split: sum.split_asm prod.split_asm)
  then show ?thesis using inv by simp
next
  case (Inr report)
  note view = service_rebuild_shows [OF run [unfolded Inr] safe]
  have ok: "log_ok d" using inv by (simp add: bus_inv_def)
  have log: "log_ok d'" "stream d' m = stream d m" for m using log_frame [OF view(1)] ok by simp_all
  have "mission_consistent r d' m" for m
  proof (cases "stream d m = []")
    case True
    have old: "projection_state d m = Inr None"
      using inv True by (simp add: bus_inv_def mission_consistent_def)
    have "projection_state d' m = Inr None"
    proof (cases "m \<in> set (rebuild_scope d scope)")
      case in_scope: True
      then obtain s where s: "service_replay r d m None = Inr s" using view(5) by blast
      show ?thesis using view(3) [OF in_scope s empty_stream_replay [OF True s]] old by simp
    next
      case False
      then show ?thesis using view(4) old by simp
    qed
    then show ?thesis using True log(2) by (simp add: mission_consistent_def)
  next
    case False
    have "mission_consistent r d m" using inv by (simp add: bus_inv_def)
    then obtain b where b: "load_state d m r = Inr b" "rs_mission (core_part b) \<noteq> None"
        "shows_state d m (core_part b)" "encodable (core_part b)"
      using False by (rule mission_consistentE)
    have s: "service_replay r d m None = Inr (core_part b)" using b(1) by (simp add: service_replay_load)
    have "shows_state d' m (core_part b)"
    proof (cases "m \<in> set (rebuild_scope d scope)")
      case True
      then show ?thesis using view(2) [OF True s b(2)] by simp
    next
      case out: False
      then have "scope \<noteq> None \<and> scope \<noteq> Some m"
        using False logged_stream [OF ok] by (auto simp: rebuild_scope_def split: option.split_asm)
      then show ?thesis using view(4) [OF out] b(3) by (simp add: shows_state_def)
    qed
    moreover have "load_state d' m r = Inr b" using b(1) load_state_frame [OF log(2), of m r] by simp
    moreover have "stream d' m \<noteq> []" using False log(2) by simp
    ultimately show ?thesis using b(2,4) by (intro mission_consistentI)
  qed
  then show ?thesis using log(1) by (simp add: bus_inv_def)
qed

section \<open>Reachable databases\<close>

text \<open>The life of a database under one registry: created empty and opened, called, rebuilt, and
  opened again by a service with the same extensions.\<close>

inductive service_reachable :: "(string \<Rightarrow> string) \<Rightarrow> 'x registry \<Rightarrow> db \<Rightarrow> bool"
  for sha :: "string \<Rightarrow> string" and r :: "'x registry" where
  created: "open_service p xs now empty_db = (d, Inr r) \<Longrightarrow> service_reachable sha r d"
| called: "service_reachable sha r d \<Longrightarrow> execute sha r env d raw = (d', out) \<Longrightarrow> service_reachable sha r d'"
| rebuilt: "service_reachable sha r d \<Longrightarrow> service_rebuild sha r d scope = (d', out) \<Longrightarrow> service_reachable sha r d'"
| reopened: "service_reachable sha r d \<Longrightarrow> open_service p xs now d = (d', Inr r) \<Longrightarrow> service_reachable sha r d'"

lemma reachable_inv: "service_reachable sha r d \<Longrightarrow> core_tables_safe r \<and> bus_inv r d"
proof (induction rule: service_reachable.induct)
  case (created p xs now d)
  then show ?case using open_service_safe open_service_inv [OF created] by (auto simp: empty_db_def)
next
  case (called d env raw d' out)
  then show ?case using execute_inv by blast
next
  case (rebuilt d scope d' out)
  then show ?case using service_rebuild_inv by blast
next
  case (reopened d p xs now d')
  have rows: "db_rows d' t = db_rows d t"
    if "t \<in> {''events'', ''mission_projection'', ''goal_projection'', ''session_projection''}" for t
    by (rule open_service_rows [OF reopened.hyps(2)]) (use that in \<open>auto simp: CORE_PROJECTION_TABLES_def\<close>)
  have "bus_inv r d'" by (rule bus_inv_frame [OF conjunct2 [OF reopened.IH] rows])
  then show ?case using reopened.IH by simp
qed

lemma reachable_history:
  "service_reachable sha r d \<Longrightarrow> service_reachable sha r (run_history sha r calls d)"
proof (induction calls arbitrary: d)
  case (Cons call calls)
  obtain env raw where call: "call = (env, raw)" by (cases call)
  have "service_reachable sha r (fst (execute sha r env d raw))"
    by (rule service_reachable.called [OF Cons.prems]) (rule prod.collapse [symmetric])
  then show ?case by (simp add: call Cons.IH)
qed simp

lemma reachable_mission:
  assumes "service_reachable sha r d" and "stream d m \<noteq> []"
  obtains s where "load_state d m r = Inr s" and "service_replay r d m None = Inr (core_part s)"
    and "shows_state d m (core_part s)" and "encodable (core_part s)" and "rs_mission (core_part s) \<noteq> None"
    and "core_inv (core_part s)" and "rs_seq (core_part s) = int (length (stream d m))"
proof -
  have inv: "bus_inv r d" using reachable_inv [OF assms(1)] by blast
  then have ok: "log_ok d" and "mission_consistent r d m" by (simp_all add: bus_inv_def)
  then obtain s where s: "load_state d m r = Inr s" "rs_mission (core_part s) \<noteq> None"
      "shows_state d m (core_part s)" "encodable (core_part s)"
    using assms(2) by (elim mission_consistentE)
  note facts = load_state_facts [OF s(1)]
  obtain es where es: "map_res row_to_event (stream d m) = Inr es" using log_readable [OF ok] by blast
  then have "length es = length (stream d m)" by (auto simp: map_res_Inr_iff dest: list_all2_lengthD)
  then have "rs_seq (core_part s) = int (length (stream d m))"
    using facts(4) [of es] bus_seq_core [OF facts(1)] list_events_log [OF ok] es by simp
  moreover have "service_replay r d m None = Inr (core_part s)" using s(1) by (simp add: service_replay_load)
  ultimately show ?thesis using that s facts(3) by blast
qed

lemma reachable_log: "service_reachable sha r d \<Longrightarrow> log_ok d"
  using reachable_inv [of sha r d] by (simp add: bus_inv_def)

section \<open>The head a command names\<close>

lemma reachable_registry: "service_reachable sha r d \<Longrightarrow> \<exists>xs. ExtensionRegistry xs = Inr r"
  by (induction rule: service_reachable.induct) (auto dest: open_service_Inr(1))

lemma core_command_owner:
  "ExtensionRegistry xs = Inr r \<Longrightarrow> t \<in> set SUPPORTED_COMMANDS \<Longrightarrow> command_owner r t = Some CoreOwner"
  using make_registry_inv(4) by (fastforce simp: ExtensionRegistry_def command_owner_def)

text \<open>A mission is created on an empty stream only.\<close>

lemma created_on_empty:
  assumes "service_reachable sha r d" and "load_state d (c_mission_id c) r = Inr state"
    and "propose r c state head = Inr pending" and "c_type c = ''CREATE_MISSION''"
  shows "stream d (c_mission_id c) = []" and "c_expected_seq c = 0"
proof -
  have "command_owner r (c_type c) = Some CoreOwner"
    using reachable_registry [OF assms(1)] core_command_owner assms(4) by (fastforce simp: SUPPORTED_COMMANDS_def)
  then have "check_expected_seq c (core_part state) head = Inr ()" "handle c (core_part state) = Inr pending"
    using assms(3) by (auto simp: propose_def and_then_Inr_iff split: if_split_asm)
  then have none: "rs_mission (core_part state) = None" and "c_expected_seq c = 0"
    using assms(4) by (auto simp: handle_def check_expected_seq_def SUPPORTED_COMMANDS_def split: if_split_asm)
  then show "c_expected_seq c = 0" by simp
  show "stream d (c_mission_id c) = []"
  proof (rule ccontr)
    assume "stream d (c_mission_id c) \<noteq> []"
    moreover have "mission_consistent r d (c_mission_id c)" using reachable_inv [OF assms(1)] by (simp add: bus_inv_def)
    ultimately show False using assms(2) none by (auto elim: mission_consistentE)
  qed
qed

text \<open>A newly applied command of any type names the head of its stream.\<close>

lemma applied_names_head:
  assumes "service_reachable sha r d" and "newly_applied sha r d d' c res"
    and "load_state d (c_mission_id c) r = Inr state" and "propose r c state head = Inr pending"
  shows "c_expected_seq c = int (length (stream d (c_mission_id c)))"
proof (cases "c_type c = ''CREATE_MISSION''")
  case True
  then show ?thesis using created_on_empty [OF assms(1,3,4)] by simp
next
  case False
  then show ?thesis using newly_applied_head assms(2) reachable_inv [OF assms(1)] by blast
qed

end
