(* ===== verification/Samples.thy ===== *)
theory Samples
  imports RuntimeService
begin

text \<open>
  Concrete inputs on which the properties are applied: a service without extensions on an empty
  database, and a short run of commands on one mission.
\<close>

section \<open>A service on an empty database\<close>

definition sample_registry :: "unit registry" where
  "sample_registry = projr (ExtensionRegistry [])"

definition sample_env :: "string \<Rightarrow> environment" where
  "sample_env p =
     \<lparr>env_received_at = ''2024-01-01T00:00:00Z'', env_event_id = (\<lambda>i. p @ show_nat i),
      env_created_at = (\<lambda>_. ''2024-01-01T00:00:01Z''), env_inject = (\<lambda>_. Inr ()),
      env_begin = Inr (), env_commit = Inr ()\<rparr>"

definition failing_env :: "string \<Rightarrow> environment" where
  "failing_env p = (sample_env p)\<lparr>env_inject := (\<lambda>point.
     if point = ''after_event_insert'' then Inl (ValueErr ''injected'') else Inr ())\<rparr>"

definition sample_command :: "string \<Rightarrow> string \<Rightarrow> int \<Rightarrow> dict \<Rightarrow> raw_command" where
  "sample_command i t n p = RawValue (JObj
     [(''command_id'', JStr i), (''type'', JStr t), (''mission_id'', JStr ''m''), (''expected_seq'', JInt n),
      (''actor'', JObj [(''type'', JStr ''user''), (''id'', JStr ''u'')]), (''payload'', JObj p)])"

definition create_command :: raw_command where
  "create_command = sample_command ''c1'' ''CREATE_MISSION'' 0 []"

definition goal_create_command :: raw_command where
  "goal_create_command = sample_command ''c2'' ''CREATE_GOAL'' 1
     [(''goal_id'', JStr ''g''), (''definition'', JObj [(''text'', JStr ''run''), (''b'', JInt 1)])]"

definition cancel_command :: raw_command where
  "cancel_command = sample_command ''c3'' ''CANCEL_MISSION'' 2 []"

text \<open>Issued against an old head of the stream.\<close>

definition stale_command :: raw_command where
  "stale_command = sample_command ''c9'' ''CREATE_GOAL'' 1
     [(''goal_id'', JStr ''h''), (''definition'', JObj [])]"

definition sample_envelope :: "raw_command \<Rightarrow> command_envelope" where
  "sample_envelope raw = projr (normalize_command raw)"

definition opened_db :: db where
  "opened_db = initialize empty_db"

definition created_db :: db where
  "created_db = fst (execute id sample_registry (sample_env ''a'') opened_db create_command)"

definition created_result :: command_result where
  "created_result = projr (snd (execute id sample_registry (sample_env ''a'') opened_db create_command))"

definition goal_db :: db where
  "goal_db = fst (execute id sample_registry (sample_env ''b'') created_db goal_create_command)"

definition goal_result :: command_result where
  "goal_result = projr (snd (execute id sample_registry (sample_env ''b'') created_db goal_create_command))"

definition stale_db :: db where
  "stale_db = fst (execute id sample_registry (sample_env ''d'') goal_db stale_command)"

definition stale_result :: command_result where
  "stale_result = projr (snd (execute id sample_registry (sample_env ''d'') goal_db stale_command))"

section \<open>What the run does\<close>

lemma sample_registered: "ExtensionRegistry ([] :: unit manifest list) = Inr sample_registry"
  by (simp add: sample_registry_def ExtensionRegistry_def make_ExtensionRegistry_def)

lemma sample_disabled: "\<not> registry_enabled sample_registry"
  by (simp add: sample_registry_def ExtensionRegistry_def make_ExtensionRegistry_def registry_enabled_def)

lemma sample_opened: "open_service ''db'' ([] :: unit manifest list) ''now'' empty_db = (opened_db, Inr sample_registry)"
  using sample_disabled by (simp add: open_service_def sample_registered opened_db_def nonblank_def is_space_def)

text \<open>One evaluation of the run, from which the facts about its steps are read off.\<close>

lemma sample_run:
  "(case execute id sample_registry (sample_env ''a'') opened_db create_command of (d1, o1) \<Rightarrow>
    case execute id sample_registry (sample_env ''b'') d1 goal_create_command of (d2, o2) \<Rightarrow>
    case execute id sample_registry (sample_env ''d'') d2 stale_command of (d3, o3) \<Rightarrow>
      (map isl [o1, o2, o3], map (\<lambda>o'. cr_outcome (projr o')) [o1, o2, o3],
       map (\<lambda>d. length (stream d ''m'')) [d1, d2, d3])) =
    ([False, False, False], [''APPLIED'', ''APPLIED'', ''REJECTED''], [1, 2, 2])"
  by code_simp

lemmas sample_outcomes = sample_run [unfolded case_prod_beta, folded created_db_def, folded goal_db_def, folded stale_db_def,
  folded created_result_def goal_result_def stale_result_def, unfolded list.map]

lemma sample_create:
  "execute id sample_registry (sample_env ''a'') opened_db create_command = (created_db, Inr created_result)"
  using sample_outcomes by (simp add: prod_eq_iff created_db_def created_result_def)

lemma sample_goal:
  "execute id sample_registry (sample_env ''b'') created_db goal_create_command = (goal_db, Inr goal_result)"
  using sample_outcomes by (simp add: prod_eq_iff goal_db_def goal_result_def)

lemma sample_stale:
  "execute id sample_registry (sample_env ''d'') goal_db stale_command = (stale_db, Inr stale_result)"
  using sample_outcomes by (simp add: prod_eq_iff stale_db_def stale_result_def)

lemma sample_create_applied: "cr_outcome created_result = ''APPLIED''"
  and sample_goal_applied: "cr_outcome goal_result = ''APPLIED''"
  and sample_stale_rejected: "cr_outcome stale_result = ''REJECTED''"
  using sample_outcomes by (simp_all add: sample_create sample_goal sample_stale)

lemma sample_lengths:
  "length (stream created_db ''m'') = 1" "length (stream goal_db ''m'') = 2" "length (stream stale_db ''m'') = 2"
  using sample_outcomes by simp_all

lemma sample_changed: "created_db \<noteq> opened_db" "goal_db \<noteq> created_db"
proof -
  have "stream opened_db ''m'' = []" by (simp add: opened_db_def stream_def select_rows_def initialize_rows empty_db_def)
  then show "created_db \<noteq> opened_db" using sample_lengths by auto
  show "goal_db \<noteq> created_db" using sample_lengths by auto
qed

lemma sample_valid:
  "map (\<lambda>raw. isl (normalize_command raw)) [create_command, goal_create_command, stale_command] = [False, False, False]"
  by code_simp

lemma sample_envelopes:
  "normalize_command create_command = Inr (sample_envelope create_command)"
  "normalize_command goal_create_command = Inr (sample_envelope goal_create_command)"
  "normalize_command stale_command = Inr (sample_envelope stale_command)"
  using sample_valid by (simp_all add: sample_envelope_def)

lemma sample_fields:
  "c_mission_id (sample_envelope goal_create_command) = ''m''"
  "c_command_id (sample_envelope goal_create_command) = ''c2''"
  "c_type (sample_envelope goal_create_command) = ''CREATE_GOAL''"
  "c_expected_seq (sample_envelope goal_create_command) = 1"
  "c_mission_id (sample_envelope stale_command) = ''m''"
  "c_type (sample_envelope stale_command) = ''CREATE_GOAL''"
  "c_expected_seq (sample_envelope stale_command) = 1"
  by code_simp+

lemma sample_opened_reachable: "service_reachable id sample_registry opened_db"
  by (rule service_reachable.created [OF sample_opened])

lemma sample_created_reachable: "service_reachable id sample_registry created_db"
  by (rule service_reachable.called [OF sample_opened_reachable sample_create])

lemma sample_goal_reachable: "service_reachable id sample_registry goal_db"
  by (rule service_reachable.called [OF sample_created_reachable sample_goal])

section \<open>An extension\<close>

text \<open>A counter with one command, one event and one table.\<close>

definition notes_table :: table_def where
  "notes_table = \<lparr>td_columns = [(''mission_id'', True), (''count'', True)], td_keys = [[''mission_id'']],
     td_refs = [], td_checks = []\<rparr>"

definition notes_step :: migration_step where
  "notes_step = \<lparr>mg_version = 1, mg_checksum = replicate 64 (CHR ''a''),
     mg_apply = ([SqlCreate ''table'' ''notes'' ''notes'' (TableDef notes_table)], Inr ())\<rparr>"

definition notes_extension :: "int manifest" where
  "notes_extension =
     \<lparr>x_extension_id = ''notes'', x_extension_version = ''1'', x_command_types = [''ADD_NOTE''],
      x_event_types = [''note.added''], x_initial_state = (\<lambda>_. Inr 0),
      x_to_dict = (\<lambda>n. Inr [(''count'', JInt n)]), x_encode = (\<lambda>n. Inr [(''count'', JInt n)]),
      x_decode = (\<lambda>d. py_int (dget d ''count'')), x_hash = (\<lambda>n. Inr (show_int n)),
      x_handle = (\<lambda>c s. Inr [\<lparr>pe_event_type = ''note.added'', pe_entity_type = ''NOTE'',
                    pe_entity_id = c_mission_id c, pe_payload = [], pe_session_id = None\<rparr>]),
      x_reduce = (\<lambda>n e core. Inr (n + 1)), x_projection_tables = Some [''notes''],
      x_apply = (\<lambda>d s. ([SqlDelete ''notes'' [(''mission_id'', JStr (cs_mission_id s))],
                    SqlInsert ''notes'' [(''mission_id'', JStr (cs_mission_id s)), (''count'', JInt (cs_seq s))]], Inr ())),
      x_read = (\<lambda>d m. ([], Inr 0)),
      x_clear = (\<lambda>d m. ([SqlDelete ''notes'' []], Inr ())), x_verify = (\<lambda>n p. Inr []),
      x_projection_seq = None, x_migration_owner = Some ''notes'', x_migrations = [notes_step]\<rparr>"

definition notes_registry :: "int registry" where
  "notes_registry = projr (ExtensionRegistry [notes_extension])"

definition notes_db :: db where
  "notes_db = fst (open_service ''db'' [notes_extension] ''now'' empty_db)"

lemma notes_evaluation:
  "(isl (ExtensionRegistry [notes_extension]), isl (snd (open_service ''db'' [notes_extension] ''now'' empty_db)),
    registry_enabled notes_registry, schema_ok (initialize empty_db)) = (False, False, True, True)"
  by code_simp

lemma notes_registered: "ExtensionRegistry [notes_extension] = Inr notes_registry"
  using notes_evaluation by (simp add: notes_registry_def)

lemma notes_opened: "open_service ''db'' [notes_extension] ''now'' empty_db = (notes_db, Inr notes_registry)"
proof -
  obtain d o' where o': "open_service ''db'' [notes_extension] ''now'' empty_db = (d, o')" by (rule prod.exhaust)
  then obtain r where "o' = Inr r" using notes_evaluation by (cases o') simp_all
  then show ?thesis using o' open_service_Inr(1) [of "''db''" "[notes_extension]" "''now''" empty_db d r] notes_registered
    by (simp add: notes_db_def)
qed

lemma notes_reachable: "service_reachable id notes_registry notes_db"
  by (rule service_reachable.created [OF notes_opened])

end
