(* ===== verification/WgContracts.thy ===== *)
theory WgContracts
  imports CoreContracts "HOL-Library.Product_Lexorder"
begin

text \<open>
  work_graph/contracts.py: plans, plan revisions, tasks, dependencies and snapshots of a mission, the
  work graph that holds them, with \<open>to_dict\<close> and \<open>from_dict\<close>, task availability and the part of
  the graph that belongs to one plan.  Plan lifecycle states are linearly ordered and task lifecycle
  states partially ordered in the order in which they may follow each other.
\<close>

section \<open>Lifecycles\<close>

definition EXTENSION_ID :: string where "EXTENSION_ID = ''r1_2_work_graph''"
definition WORK_GRAPH_SCHEMA_VERSION :: int where "WORK_GRAPH_SCHEMA_VERSION = 1"
definition PROJECTION_VERSION :: int where "PROJECTION_VERSION = 1"
definition CANONICALIZATION_VERSION :: int where "CANONICALIZATION_VERSION = 1"

datatype plan_lifecycle = Plan_OPEN | Plan_CLOSED | Plan_ARCHIVED

fun plan_lifecycle_value :: "plan_lifecycle \<Rightarrow> string" where
  "plan_lifecycle_value Plan_OPEN = ''OPEN''"
| "plan_lifecycle_value Plan_CLOSED = ''CLOSED''"
| "plan_lifecycle_value Plan_ARCHIVED = ''ARCHIVED''"

definition PlanLifecycleState :: "string \<Rightarrow> plan_lifecycle py" where
  "PlanLifecycleState = enum_of plan_lifecycle_value [Plan_OPEN, Plan_CLOSED, Plan_ARCHIVED]"

datatype task_lifecycle = Task_PENDING | Task_ACTIVE | Task_SUCCEEDED | Task_FAILED | Task_CANCELLED

fun task_lifecycle_value :: "task_lifecycle \<Rightarrow> string" where
  "task_lifecycle_value Task_PENDING = ''PENDING''"
| "task_lifecycle_value Task_ACTIVE = ''ACTIVE''"
| "task_lifecycle_value Task_SUCCEEDED = ''SUCCEEDED''"
| "task_lifecycle_value Task_FAILED = ''FAILED''"
| "task_lifecycle_value Task_CANCELLED = ''CANCELLED''"

definition TaskLifecycleState :: "string \<Rightarrow> task_lifecycle py" where
  "TaskLifecycleState = enum_of task_lifecycle_value
     [Task_PENDING, Task_ACTIVE, Task_SUCCEEDED, Task_FAILED, Task_CANCELLED]"

datatype task_availability = READY | BLOCKED | NOT_ELIGIBLE

fun task_availability_value :: "task_availability \<Rightarrow> string" where
  "task_availability_value READY = ''READY''"
| "task_availability_value BLOCKED = ''BLOCKED''"
| "task_availability_value NOT_ELIGIBLE = ''NOT_ELIGIBLE''"

definition TaskAvailability :: "string \<Rightarrow> task_availability py" where
  "TaskAvailability = enum_of task_availability_value [READY, BLOCKED, NOT_ELIGIBLE]"

definition TASK_TERMINAL :: "task_lifecycle list" where
  "TASK_TERMINAL = [Task_SUCCEEDED, Task_FAILED, Task_CANCELLED]"

lemma PlanLifecycleState_value [simp]: "PlanLifecycleState (plan_lifecycle_value p) = Inr p"
  unfolding PlanLifecycleState_def by (rule enum_of_value) (simp, cases p, simp_all)

lemma TaskLifecycleState_value [simp]: "TaskLifecycleState (task_lifecycle_value t) = Inr t"
  unfolding TaskLifecycleState_def by (rule enum_of_value) (simp, cases t, simp_all)

instantiation plan_lifecycle :: linorder
begin

fun plan_rank :: "plan_lifecycle \<Rightarrow> nat" where
  "plan_rank Plan_OPEN = 0"
| "plan_rank Plan_CLOSED = 1"
| "plan_rank Plan_ARCHIVED = 2"

definition less_eq_plan_lifecycle :: "plan_lifecycle \<Rightarrow> plan_lifecycle \<Rightarrow> bool" where
  "p \<le> q \<longleftrightarrow> plan_rank p \<le> plan_rank q"

definition less_plan_lifecycle :: "plan_lifecycle \<Rightarrow> plan_lifecycle \<Rightarrow> bool" where
  "p < q \<longleftrightarrow> plan_rank p < plan_rank q"

instance
proof
  fix p q :: plan_lifecycle
  assume "p \<le> q" "q \<le> p"
  then show "p = q" by (cases p; cases q) (simp_all add: less_eq_plan_lifecycle_def)
qed (auto simp: less_eq_plan_lifecycle_def less_plan_lifecycle_def)

end

instantiation task_lifecycle :: order
begin

definition less_eq_task_lifecycle :: "task_lifecycle \<Rightarrow> task_lifecycle \<Rightarrow> bool" where
  "t \<le> u \<longleftrightarrow> t = u \<or> t = Task_PENDING \<or> (t = Task_ACTIVE \<and> u \<noteq> Task_PENDING)"

definition less_task_lifecycle :: "task_lifecycle \<Rightarrow> task_lifecycle \<Rightarrow> bool" where
  "(t :: task_lifecycle) < u \<longleftrightarrow> t \<le> u \<and> t \<noteq> u"

instance
  by intro_classes (auto simp: less_eq_task_lifecycle_def less_task_lifecycle_def)

end

lemma terminal_maximal: "t \<in> set TASK_TERMINAL \<Longrightarrow> t \<le> u \<Longrightarrow> u = t"
  by (auto simp: TASK_TERMINAL_def less_eq_task_lifecycle_def)

section \<open>Entities\<close>

definition require_text :: "json \<Rightarrow> string \<Rightarrow> string py" where
  "require_text v name =
     (case v of
        JStr s \<Rightarrow> if nonblank s then Inr s
                  else runtime_error ''COMMAND_SCHEMA_INVALID'' (name @ '' must be a non-empty string'')
      | _ \<Rightarrow> runtime_error ''COMMAND_SCHEMA_INVALID'' (name @ '' must be a non-empty string''))"

text \<open>\<open>tuple(dict(item) for item in value or ())\<close> and \<open>[dict(item) for item in items]\<close>\<close>

definition dicts_of :: "json \<Rightarrow> dict list py" where
  "dicts_of v = and_then (elements (py_or v (JList []))) (map_res dict_of)"

definition dict_list :: "dict list \<Rightarrow> json" where
  "dict_list ds = JList (map JObj ds)"

record plan_state =
  pl_plan_id :: string
  pl_lifecycle_state :: plan_lifecycle
  pl_current_revision_id :: "string option"
  pl_created_at :: string
  pl_created_by :: dict

definition plan_to_dict :: "plan_state \<Rightarrow> dict" where
  "plan_to_dict p =
     [(''plan_id'', JStr (pl_plan_id p)),
      (''lifecycle_state'', JStr (plan_lifecycle_value (pl_lifecycle_state p))),
      (''current_revision_id'', jopt (pl_current_revision_id p)),
      (''created_at'', JStr (pl_created_at p)),
      (''created_by'', JObj (pl_created_by p))]"

definition plan_from_dict :: "dict \<Rightarrow> plan_state py" where
  "plan_from_dict d =
     and_then (dindex d ''plan_id'') (\<lambda>i.
     and_then (and_then (dindex d ''lifecycle_state'') (\<lambda>v. PlanLifecycleState (py_str v))) (\<lambda>l.
     and_then (as_opt_str (dget d ''current_revision_id'')) (\<lambda>r.
     and_then (dindex d ''created_at'') (\<lambda>c.
     and_then (dict_of (py_or (dget d ''created_by'') (JObj []))) (\<lambda>b.
     Inr \<lparr>pl_plan_id = py_str i, pl_lifecycle_state = l, pl_current_revision_id = r,
          pl_created_at = py_str c, pl_created_by = b\<rparr>)))))"

record revision_state =
  rv_revision_id :: string
  rv_plan_id :: string
  rv_parent_revision_id :: "string option"
  rv_content_schema_version :: int
  rv_content_hash :: string
  rv_objective :: string
  rv_constraints :: "dict list"
  rv_task_definitions :: "dict list"
  rv_dependencies :: "dict list"
  rv_declared_at :: string
  rv_declared_by :: dict

definition revision_to_dict :: "revision_state \<Rightarrow> dict" where
  "revision_to_dict r =
     [(''revision_id'', JStr (rv_revision_id r)),
      (''plan_id'', JStr (rv_plan_id r)),
      (''parent_revision_id'', jopt (rv_parent_revision_id r)),
      (''content_schema_version'', JInt (rv_content_schema_version r)),
      (''content_hash'', JStr (rv_content_hash r)),
      (''objective'', JStr (rv_objective r)),
      (''constraints'', dict_list (rv_constraints r)),
      (''task_definitions'', dict_list (rv_task_definitions r)),
      (''dependencies'', dict_list (rv_dependencies r)),
      (''declared_at'', JStr (rv_declared_at r)),
      (''declared_by'', JObj (rv_declared_by r))]"

definition revision_from_dict :: "dict \<Rightarrow> revision_state py" where
  "revision_from_dict d =
     and_then (dindex d ''revision_id'') (\<lambda>i.
     and_then (dindex d ''plan_id'') (\<lambda>p.
     and_then (as_opt_str (dget d ''parent_revision_id'')) (\<lambda>q.
     and_then (and_then (dindex d ''content_schema_version'') py_int) (\<lambda>v.
     and_then (dindex d ''content_hash'') (\<lambda>h.
     and_then (dindex d ''objective'') (\<lambda>ob.
     and_then (dicts_of (dget d ''constraints'')) (\<lambda>cs.
     and_then (dicts_of (dget d ''task_definitions'')) (\<lambda>ts.
     and_then (dicts_of (dget d ''dependencies'')) (\<lambda>ds.
     and_then (dindex d ''declared_at'') (\<lambda>da.
     and_then (dict_of (py_or (dget d ''declared_by'') (JObj []))) (\<lambda>db.
     Inr \<lparr>rv_revision_id = py_str i, rv_plan_id = py_str p, rv_parent_revision_id = q,
          rv_content_schema_version = v, rv_content_hash = py_str h, rv_objective = py_str ob,
          rv_constraints = cs, rv_task_definitions = ts, rv_dependencies = ds,
          rv_declared_at = py_str da, rv_declared_by = db\<rparr>)))))))))))"

record task_state =
  tk_task_id :: string
  tk_task_key :: string
  tk_plan_id :: string
  tk_plan_revision_id :: string
  tk_intent :: string
  tk_acceptance_criteria :: "dict list"
  tk_lifecycle_state :: task_lifecycle
  tk_outcome :: "dict option"
  tk_created_seq :: int
  tk_updated_seq :: int

definition task_to_dict :: "task_state \<Rightarrow> dict" where
  "task_to_dict t =
     [(''task_id'', JStr (tk_task_id t)),
      (''task_key'', JStr (tk_task_key t)),
      (''plan_id'', JStr (tk_plan_id t)),
      (''plan_revision_id'', JStr (tk_plan_revision_id t)),
      (''intent'', JStr (tk_intent t)),
      (''acceptance_criteria'', dict_list (tk_acceptance_criteria t)),
      (''lifecycle_state'', JStr (task_lifecycle_value (tk_lifecycle_state t))),
      (''outcome'', case tk_outcome t of None \<Rightarrow> JNull | Some d \<Rightarrow> JObj d),
      (''created_seq'', JInt (tk_created_seq t)),
      (''updated_seq'', JInt (tk_updated_seq t))]"

definition task_from_dict :: "dict \<Rightarrow> task_state py" where
  "task_from_dict d =
     and_then (dindex d ''task_id'') (\<lambda>i.
     and_then (dindex d ''task_key'') (\<lambda>k.
     and_then (dindex d ''plan_id'') (\<lambda>p.
     and_then (dindex d ''plan_revision_id'') (\<lambda>r.
     and_then (dindex d ''intent'') (\<lambda>n.
     and_then (dicts_of (dget d ''acceptance_criteria'')) (\<lambda>cs.
     and_then (and_then (dindex d ''lifecycle_state'') (\<lambda>v. TaskLifecycleState (py_str v))) (\<lambda>l.
     and_then (and_then (dindex d ''created_seq'') py_int) (\<lambda>c.
     and_then (and_then (dindex d ''updated_seq'') py_int) (\<lambda>u.
     Inr \<lparr>tk_task_id = py_str i, tk_task_key = py_str k, tk_plan_id = py_str p,
          tk_plan_revision_id = py_str r, tk_intent = py_str n, tk_acceptance_criteria = cs,
          tk_lifecycle_state = l,
          tk_outcome = (case dget d ''outcome'' of JObj x \<Rightarrow> Some x | _ \<Rightarrow> None),
          tk_created_seq = c, tk_updated_seq = u\<rparr>)))))))))"

record task_dependency =
  dep_revision_id :: string
  dep_predecessor_task_id :: string
  dep_successor_task_id :: string
  dep_dependency_kind :: string

definition dependency_to_dict :: "task_dependency \<Rightarrow> dict" where
  "dependency_to_dict d =
     [(''revision_id'', JStr (dep_revision_id d)),
      (''predecessor_task_id'', JStr (dep_predecessor_task_id d)),
      (''successor_task_id'', JStr (dep_successor_task_id d)),
      (''dependency_kind'', JStr (dep_dependency_kind d))]"

definition dependency_from_dict :: "dict \<Rightarrow> task_dependency py" where
  "dependency_from_dict d =
     and_then (dindex d ''revision_id'') (\<lambda>r.
     and_then (dindex d ''predecessor_task_id'') (\<lambda>p.
     and_then (dindex d ''successor_task_id'') (\<lambda>s.
     and_then (dindex d ''dependency_kind'') (\<lambda>k.
     Inr \<lparr>dep_revision_id = py_str r, dep_predecessor_task_id = py_str p,
          dep_successor_task_id = py_str s, dep_dependency_kind = py_str k\<rparr>))))"

record snapshot_index =
  sn_snapshot_id :: string
  sn_scope :: string
  sn_plan_id :: "string option"
  sn_as_of_seq :: int
  sn_work_graph_schema_version :: int
  sn_projection_version :: int
  sn_canonicalization_version :: int
  sn_payload_hash :: string
  sn_state_payload :: dict
  sn_recorded_seq :: int

definition snapshot_to_dict :: "snapshot_index \<Rightarrow> dict" where
  "snapshot_to_dict s =
     [(''snapshot_id'', JStr (sn_snapshot_id s)),
      (''scope'', JStr (sn_scope s)),
      (''plan_id'', jopt (sn_plan_id s)),
      (''as_of_seq'', JInt (sn_as_of_seq s)),
      (''work_graph_schema_version'', JInt (sn_work_graph_schema_version s)),
      (''projection_version'', JInt (sn_projection_version s)),
      (''canonicalization_version'', JInt (sn_canonicalization_version s)),
      (''payload_hash'', JStr (sn_payload_hash s)),
      (''state_payload'', JObj (sn_state_payload s)),
      (''recorded_seq'', JInt (sn_recorded_seq s))]"

definition snapshot_from_dict :: "dict \<Rightarrow> snapshot_index py" where
  "snapshot_from_dict d =
     and_then (dindex d ''snapshot_id'') (\<lambda>i.
     and_then (dindex d ''scope'') (\<lambda>sc.
     and_then (as_opt_str (dget d ''plan_id'')) (\<lambda>p.
     and_then (and_then (dindex d ''as_of_seq'') py_int) (\<lambda>a.
     and_then (and_then (dindex d ''work_graph_schema_version'') py_int) (\<lambda>w.
     and_then (and_then (dindex d ''projection_version'') py_int) (\<lambda>pv.
     and_then (py_int (dget_default d ''canonicalization_version'' (JInt 1))) (\<lambda>cv.
     and_then (dindex d ''payload_hash'') (\<lambda>h.
     and_then (dict_of (py_or (dget d ''state_payload'') (JObj []))) (\<lambda>sp.
     and_then (and_then (dindex d ''recorded_seq'') py_int) (\<lambda>r.
     Inr \<lparr>sn_snapshot_id = py_str i, sn_scope = py_str sc, sn_plan_id = p, sn_as_of_seq = a,
          sn_work_graph_schema_version = w, sn_projection_version = pv,
          sn_canonicalization_version = cv, sn_payload_hash = py_str h, sn_state_payload = sp,
          sn_recorded_seq = r\<rparr>))))))))))"

section \<open>The work graph\<close>

record work_graph =
  wg_mission_id :: string
  wg_plans :: "plan_state list"
  wg_revisions :: "revision_state list"
  wg_tasks :: "task_state list"
  wg_dependencies :: "task_dependency list"
  wg_snapshots :: "snapshot_index list"

definition empty_work_graph :: "string \<Rightarrow> work_graph" where
  "empty_work_graph m =
     \<lparr>wg_mission_id = m, wg_plans = [], wg_revisions = [], wg_tasks = [], wg_dependencies = [],
      wg_snapshots = []\<rparr>"

definition plan_of :: "work_graph \<Rightarrow> string \<Rightarrow> plan_state option" where
  "plan_of s i = find_by pl_plan_id i (wg_plans s)"

definition revision_of :: "work_graph \<Rightarrow> string \<Rightarrow> revision_state option" where
  "revision_of s i = find_by rv_revision_id i (wg_revisions s)"

definition task_of :: "work_graph \<Rightarrow> string \<Rightarrow> task_state option" where
  "task_of s i = find_by tk_task_id i (wg_tasks s)"

definition snapshot_of :: "work_graph \<Rightarrow> string \<Rightarrow> snapshot_index option" where
  "snapshot_of s i = find_by sn_snapshot_id i (wg_snapshots s)"

definition revision_dependencies :: "work_graph \<Rightarrow> string \<Rightarrow> task_dependency list" where
  "revision_dependencies s r = filter (\<lambda>d. dep_revision_id d = r) (wg_dependencies s)"

definition task_availability :: "work_graph \<Rightarrow> string \<Rightarrow> task_availability py" where
  "task_availability s i =
     (case task_of s i of
        None \<Rightarrow> runtime_error ''TASK_NOT_FOUND'' (''Task not found: '' @ i)
      | Some t \<Rightarrow>
          if tk_lifecycle_state t \<noteq> Task_PENDING then Inr NOT_ELIGIBLE
          else if (case plan_of s (tk_plan_id t) of
                     None \<Rightarrow> True
                   | Some p \<Rightarrow> pl_lifecycle_state p \<noteq> Plan_OPEN \<or>
                               pl_current_revision_id p \<noteq> Some (tk_plan_revision_id t)) then Inr BLOCKED
          else
            (let predecessors = map dep_predecessor_task_id
                   (filter (\<lambda>d. dep_revision_id d = tk_plan_revision_id t \<and> dep_successor_task_id d = tk_task_id t)
                      (wg_dependencies s))
             in if list_ex (\<lambda>p. case task_of s p of None \<Rightarrow> True | Some u \<Rightarrow> tk_lifecycle_state u \<noteq> Task_SUCCEEDED)
                     predecessors
                then Inr BLOCKED else Inr READY))"

text \<open>\<open>{x.key: x.to_dict() for x in sorted(items, key=...)}\<close>\<close>

definition keyed_dicts :: "('a \<Rightarrow> dict) \<Rightarrow> ('a \<Rightarrow> string) \<Rightarrow> 'a list \<Rightarrow> json" where
  "keyed_dicts enc key xs = JObj (dict_of_pairs (map (\<lambda>x. (key x, JObj (enc x))) (sort_key key xs)))"

definition dependency_key :: "task_dependency \<Rightarrow> string \<times> string \<times> string" where
  "dependency_key d = (dep_revision_id d, dep_predecessor_task_id d, dep_successor_task_id d)"

definition wg_to_dict :: "work_graph \<Rightarrow> dict" where
  "wg_to_dict s =
     [(''mission_id'', JStr (wg_mission_id s)),
      (''plans'', keyed_dicts plan_to_dict pl_plan_id (wg_plans s)),
      (''revisions'', keyed_dicts revision_to_dict rv_revision_id (wg_revisions s)),
      (''tasks'', keyed_dicts task_to_dict tk_task_id (wg_tasks s)),
      (''dependencies'', dict_list (map dependency_to_dict (sort_key dependency_key (wg_dependencies s)))),
      (''snapshots'', keyed_dicts snapshot_to_dict sn_snapshot_id (wg_snapshots s))]"

definition wg_from_dict :: "dict \<Rightarrow> work_graph py" where
  "wg_from_dict d =
     and_then (dindex d ''mission_id'') (\<lambda>m.
     and_then (decode_values plan_from_dict (dget d ''plans'')) (\<lambda>ps.
     and_then (decode_values revision_from_dict (dget d ''revisions'')) (\<lambda>rs.
     and_then (decode_values task_from_dict (dget d ''tasks'')) (\<lambda>ts.
     and_then (and_then (elements (py_or (dget d ''dependencies'') (JList [])))
                 (map_res (\<lambda>v. and_then (as_dict v) dependency_from_dict))) (\<lambda>ds.
     and_then (decode_values snapshot_from_dict (dget d ''snapshots'')) (\<lambda>ss.
     Inr \<lparr>wg_mission_id = py_str m, wg_plans = ps, wg_revisions = rs, wg_tasks = ts,
          wg_dependencies = ds, wg_snapshots = ss\<rparr>))))))"

definition plan_scope :: "work_graph \<Rightarrow> string \<Rightarrow> work_graph py" where
  "plan_scope s p =
     (if plan_of s p = None then runtime_error ''PLAN_NOT_FOUND'' (''Plan not found: '' @ p)
      else
        (let revision_ids = map rv_revision_id (filter (\<lambda>r. rv_plan_id r = p) (wg_revisions s));
             task_ids = map tk_task_id (filter (\<lambda>t. tk_plan_id t = p) (wg_tasks s))
         in Inr \<lparr>wg_mission_id = wg_mission_id s,
                 wg_plans = filter (\<lambda>x. pl_plan_id x = p) (wg_plans s),
                 wg_revisions = filter (\<lambda>r. rv_plan_id r = p) (wg_revisions s),
                 wg_tasks = filter (\<lambda>t. tk_plan_id t = p) (wg_tasks s),
                 wg_dependencies = filter (\<lambda>d. dep_revision_id d \<in> set revision_ids \<and>
                    dep_predecessor_task_id d \<in> set task_ids \<and> dep_successor_task_id d \<in> set task_ids)
                    (wg_dependencies s),
                 wg_snapshots = filter (\<lambda>x. sn_plan_id x = Some p) (wg_snapshots s)\<rparr>))"

section \<open>Writing and reading\<close>

lemma dict_list_canon [simp]: "canon (dict_list ds) = dict_list (map canon_dict ds)"
  by (simp add: dict_list_def o_def)

lemma dicts_of_dict_list [simp]: "dicts_of (dict_list ds) = Inr ds"
proof -
  have "map_res dict_of (map JObj ds) = Inr ds" for ds by (induction ds) simp_all
  then show ?thesis by (cases ds) (simp_all add: dicts_of_def dict_list_def py_or_def)
qed

lemma dict_list_eq_iff [simp]: "dict_list ds = dict_list es \<longleftrightarrow> ds = es"
  by (auto simp: dict_list_def inj_map_eq_map inj_def)

definition norm_plan :: "plan_state \<Rightarrow> plan_state" where
  "norm_plan p = p\<lparr>pl_created_by := canon_dict (pl_created_by p)\<rparr>"

definition norm_revision :: "revision_state \<Rightarrow> revision_state" where
  "norm_revision r = r\<lparr>rv_constraints := map canon_dict (rv_constraints r),
     rv_task_definitions := map canon_dict (rv_task_definitions r),
     rv_dependencies := map canon_dict (rv_dependencies r), rv_declared_by := canon_dict (rv_declared_by r)\<rparr>"

definition norm_task :: "task_state \<Rightarrow> task_state" where
  "norm_task t = t\<lparr>tk_acceptance_criteria := map canon_dict (tk_acceptance_criteria t),
     tk_outcome := map_option canon_dict (tk_outcome t)\<rparr>"

definition norm_snapshot :: "snapshot_index \<Rightarrow> snapshot_index" where
  "norm_snapshot s = s\<lparr>sn_state_payload := canon_dict (sn_state_payload s)\<rparr>"

lemma norm_graph_keys [simp]:
  "pl_plan_id (norm_plan p) = pl_plan_id p" "rv_revision_id (norm_revision r) = rv_revision_id r"
  "tk_task_id (norm_task t) = tk_task_id t" "sn_snapshot_id (norm_snapshot s) = sn_snapshot_id s"
  by (simp_all add: norm_plan_def norm_revision_def norm_task_def norm_snapshot_def)

text \<open>Entities whose \<open>to_dict\<close> is total, stored in a dictionary by their identifier.\<close>

locale keyed_codec = dict_codec "\<lambda>x. Inr (enc x)" dec "\<lambda>_. True" norm
  for enc :: "'a \<Rightarrow> dict" and dec :: "dict \<Rightarrow> 'a py" and norm :: "'a \<Rightarrow> 'a" +
  fixes key :: "'a \<Rightarrow> string"
  assumes key_norm: "key (norm x) = key x"
begin

lemma keyed_entries:
  "sorted_entries (\<lambda>x. Inr (enc x)) key xs = Inr (dict_of_pairs (map (\<lambda>x. (key x, JObj (enc x))) (sort_key key xs)))"
  by (simp add: sorted_entries_def map_res_total [where g = "\<lambda>x. (key x, JObj (enc x))"])

lemma decode_keyed:
  "distinct (map key xs) \<Longrightarrow> decode_values dec (canon (keyed_dicts enc key xs)) = Inr (map norm (sort_key key xs))"
  unfolding keyed_dicts_def by (rule decode_sorted_entries [OF TrueI _ keyed_entries])

lemma norm_keyed:
  assumes "distinct (map key xs)"
  shows "canon (keyed_dicts enc key (map norm (sort_key key xs))) = canon (keyed_dicts enc key xs)"
proof -
  obtain ps where ps: "sorted_entries (\<lambda>x. Inr (enc x)) key (map norm (sort_key key xs)) = Inr ps"
      "canon_dict ps = canon_dict (dict_of_pairs (map (\<lambda>x. (key x, JObj (enc x))) (sort_key key xs)))"
    using norm_sorted_entries [OF TrueI assms key_norm keyed_entries] by blast
  from ps(1) have "ps = dict_of_pairs (map (\<lambda>x. (key x, JObj (enc x))) (sort_key key (map norm (sort_key key xs))))"
    unfolding keyed_entries by (rule sum.inject(2) [THEN iffD1, THEN sym])
  then show ?thesis using ps(2) by (simp only: keyed_dicts_def canon_obj)
qed

end

interpretation plan_codec: keyed_codec plan_to_dict plan_from_dict norm_plan pl_plan_id
proof unfold_locales
  fix x d assume enc: "(Inr (plan_to_dict x) :: dict py) = Inr d"
  show "plan_from_dict (canon_dict d) = Inr (norm_plan x)"
    using enc by (clarsimp simp: plan_to_dict_def plan_from_dict_def norm_plan_def dget_canon_dict)
  show "\<exists>d'. (Inr (plan_to_dict (norm_plan x)) :: dict py) = Inr d' \<and> canon_values d' = canon_values d"
    using enc by (clarsimp simp: plan_to_dict_def norm_plan_def)
next
  show "pl_plan_id (norm_plan x) = pl_plan_id x" for x by simp
qed

interpretation revision_codec: keyed_codec revision_to_dict revision_from_dict norm_revision rv_revision_id
proof unfold_locales
  fix x d assume enc: "(Inr (revision_to_dict x) :: dict py) = Inr d"
  show "revision_from_dict (canon_dict d) = Inr (norm_revision x)"
    using enc by (clarsimp simp: revision_to_dict_def revision_from_dict_def norm_revision_def dget_canon_dict)
  show "\<exists>d'. (Inr (revision_to_dict (norm_revision x)) :: dict py) = Inr d' \<and> canon_values d' = canon_values d"
    using enc by (clarsimp simp: revision_to_dict_def norm_revision_def o_def)
next
  show "rv_revision_id (norm_revision x) = rv_revision_id x" for x by simp
qed

interpretation task_codec: keyed_codec task_to_dict task_from_dict norm_task tk_task_id
proof unfold_locales
  fix x d assume enc: "(Inr (task_to_dict x) :: dict py) = Inr d"
  show "task_from_dict (canon_dict d) = Inr (norm_task x)"
    using enc by (cases "tk_outcome x") (clarsimp simp: task_to_dict_def task_from_dict_def norm_task_def dget_canon_dict)+
  show "\<exists>d'. (Inr (task_to_dict (norm_task x)) :: dict py) = Inr d' \<and> canon_values d' = canon_values d"
    using enc by (cases "tk_outcome x") (clarsimp simp: task_to_dict_def norm_task_def o_def)+
next
  show "tk_task_id (norm_task x) = tk_task_id x" for x by simp
qed

interpretation dependency_codec: dict_codec "\<lambda>d. Inr (dependency_to_dict d)" dependency_from_dict "\<lambda>_. True" "\<lambda>d. d"
  by unfold_locales (clarsimp simp: dependency_to_dict_def dependency_from_dict_def dget_canon_dict)+

interpretation snapshot_codec: keyed_codec snapshot_to_dict snapshot_from_dict norm_snapshot sn_snapshot_id
proof unfold_locales
  fix x d assume enc: "(Inr (snapshot_to_dict x) :: dict py) = Inr d"
  show "snapshot_from_dict (canon_dict d) = Inr (norm_snapshot x)"
    using enc by (clarsimp simp: snapshot_to_dict_def snapshot_from_dict_def norm_snapshot_def dget_canon_dict dget_default_canon)
  show "\<exists>d'. (Inr (snapshot_to_dict (norm_snapshot x)) :: dict py) = Inr d' \<and> canon_values d' = canon_values d"
    using enc by (clarsimp simp: snapshot_to_dict_def norm_snapshot_def)
next
  show "sn_snapshot_id (norm_snapshot x) = sn_snapshot_id x" for x by simp
qed

subsection \<open>The whole graph\<close>

definition graph_ids_distinct :: "work_graph \<Rightarrow> bool" where
  "graph_ids_distinct s \<longleftrightarrow>
     distinct (map pl_plan_id (wg_plans s)) \<and> distinct (map rv_revision_id (wg_revisions s)) \<and>
     distinct (map tk_task_id (wg_tasks s)) \<and> distinct (map sn_snapshot_id (wg_snapshots s))"

definition norm_graph :: "work_graph \<Rightarrow> work_graph" where
  "norm_graph s = s\<lparr>wg_plans := map norm_plan (sort_key pl_plan_id (wg_plans s)),
     wg_revisions := map norm_revision (sort_key rv_revision_id (wg_revisions s)),
     wg_tasks := map norm_task (sort_key tk_task_id (wg_tasks s)),
     wg_dependencies := sort_key dependency_key (wg_dependencies s),
     wg_snapshots := map norm_snapshot (sort_key sn_snapshot_id (wg_snapshots s))\<rparr>"

lemma decode_dependencies:
  "map_res (\<lambda>v. and_then (as_dict v) dependency_from_dict) (map (\<lambda>d. JObj (canon_dict (dependency_to_dict d))) ds) = Inr ds"
  by (induction ds) (simp_all add: dependency_codec.dec_canon)

lemma elements_dict_list: "and_then (elements (py_or (dict_list ds) (JList []))) f = f (map JObj ds)"
  by (cases ds) (simp_all add: dict_list_def py_or_def)

interpretation graph_codec: dict_codec "\<lambda>s. Inr (wg_to_dict s)" wg_from_dict graph_ids_distinct norm_graph
proof unfold_locales
  fix s d assume wf: "graph_ids_distinct s" and "(Inr (wg_to_dict s) :: dict py) = Inr d"
  then have d: "d = wg_to_dict s"
    and dist: "distinct (map pl_plan_id (wg_plans s))" "distinct (map rv_revision_id (wg_revisions s))"
      "distinct (map tk_task_id (wg_tasks s))" "distinct (map sn_snapshot_id (wg_snapshots s))"
    by (simp_all add: graph_ids_distinct_def)
  note decode = plan_codec.decode_keyed [OF dist(1)] revision_codec.decode_keyed [OF dist(2)]
    task_codec.decode_keyed [OF dist(3)] snapshot_codec.decode_keyed [OF dist(4)]
  show "wg_from_dict (canon_dict d) = Inr (norm_graph s)"
    by (simp add: d wg_from_dict_def wg_to_dict_def dget_canon_dict decode)
       (simp add: elements_dict_list norm_graph_def o_def decode_dependencies)
  note same = plan_codec.norm_keyed [OF dist(1)] revision_codec.norm_keyed [OF dist(2)]
    task_codec.norm_keyed [OF dist(3)] snapshot_codec.norm_keyed [OF dist(4)]
  have "canon_values (wg_to_dict (norm_graph s)) = canon_values (wg_to_dict s)"
    by (simp add: wg_to_dict_def norm_graph_def same sort_key_id_if_sorted)
  then show "\<exists>d'. (Inr (wg_to_dict (norm_graph s)) :: dict py) = Inr d' \<and> canon_values d' = canon_values d"
    unfolding d by blast
qed

lemma norm_graph_text:
  assumes "graph_ids_distinct s"
  shows "canonical_json (JObj (wg_to_dict (norm_graph s))) = canonical_json (JObj (wg_to_dict s))"
  by (rule graph_codec.norm_same_text [OF assms]) simp_all

section \<open>Lookups\<close>

lemma plan_ofD: "plan_of s i = Some p \<Longrightarrow> p \<in> set (wg_plans s) \<and> pl_plan_id p = i"
  unfolding plan_of_def by (rule find_by_SomeD)

lemma revision_ofD: "revision_of s i = Some r \<Longrightarrow> r \<in> set (wg_revisions s) \<and> rv_revision_id r = i"
  unfolding revision_of_def by (rule find_by_SomeD)

lemma task_ofD: "task_of s i = Some t \<Longrightarrow> t \<in> set (wg_tasks s) \<and> tk_task_id t = i"
  unfolding task_of_def by (rule find_by_SomeD)

lemma snapshot_ofD: "snapshot_of s i = Some x \<Longrightarrow> x \<in> set (wg_snapshots s) \<and> sn_snapshot_id x = i"
  unfolding snapshot_of_def by (rule find_by_SomeD)

text \<open>A task is READY exactly when it is pending in the current revision of an open plan and all its
  predecessors have succeeded.\<close>

lemma ready_iff:
  "task_availability s i = Inr READY \<longleftrightarrow>
     (\<exists>t p. task_of s i = Some t \<and> tk_lifecycle_state t = Task_PENDING \<and>
        plan_of s (tk_plan_id t) = Some p \<and> pl_lifecycle_state p = Plan_OPEN \<and>
        pl_current_revision_id p = Some (tk_plan_revision_id t) \<and>
        (\<forall>d \<in> set (wg_dependencies s). dep_revision_id d = tk_plan_revision_id t \<and> dep_successor_task_id d = i \<longrightarrow>
           (\<exists>u. task_of s (dep_predecessor_task_id d) = Some u \<and> tk_lifecycle_state u = Task_SUCCEEDED)))"
proof (cases "task_of s i")
  case None
  then show ?thesis by (simp add: task_availability_def)
next
  case (Some t)
  have i: "tk_task_id t = i" using task_ofD [OF Some] by simp
  show ?thesis
  proof (cases "plan_of s (tk_plan_id t)")
    case None
    then show ?thesis by (simp add: task_availability_def Some)
  next
    case plan: (Some p)
    have "(\<forall>d. d \<in> set (wg_dependencies s) \<longrightarrow> dep_revision_id d = tk_plan_revision_id t \<and> dep_successor_task_id d = i \<longrightarrow>
          \<not> (case task_of s (dep_predecessor_task_id d) of None \<Rightarrow> True | Some u \<Rightarrow> tk_lifecycle_state u \<noteq> Task_SUCCEEDED)) \<longleftrightarrow>
        (\<forall>d \<in> set (wg_dependencies s). dep_revision_id d = tk_plan_revision_id t \<and> dep_successor_task_id d = i \<longrightarrow>
          (\<exists>u. task_of s (dep_predecessor_task_id d) = Some u \<and> tk_lifecycle_state u = Task_SUCCEEDED))"
      by (auto split: option.split_asm option.split)
    then show ?thesis by (simp add: task_availability_def Some plan i Let_def list_ex_iff) blast
  qed
qed

end
