(* ===== verification/WgGraph.thy ===== *)
theory WgGraph
  imports Prelude
begin

text \<open>
  The depth-first search for a cycle that work_graph/handlers.py (\<open>_has_cycle\<close>) and
  work_graph/reducer.py (\<open>_reduce_revision\<close>) share, with its termination and its correctness: it
  answers true exactly when the dependencies have a cycle.

  \<open>visit\<close> is the nested function: \<open>visiting\<close> is the current path, \<open>visited\<close> the finished nodes;
  \<open>None\<close> stands for the answer true, on which the search ends, \<open>Some\<close> for false with the nodes finished by
  then.  The nodes are searched in the order of a list, where the code iterates over a set.
\<close>

type_synonym edges = "(string \<times> string) list"

definition successors :: "edges \<Rightarrow> string \<Rightarrow> string list" where
  "successors es t = map snd (filter (\<lambda>e. fst e = t) es)"

function (sequential)
  visit :: "edges \<Rightarrow> string list \<Rightarrow> string list \<Rightarrow> string \<Rightarrow> string list option" and
  visit_all :: "edges \<Rightarrow> string list \<Rightarrow> string list \<Rightarrow> string list \<Rightarrow> string list option" where
  "visit es visiting visited t =
     (if t \<in> set visiting then None
      else if t \<in> set visited then Some visited
      else case visit_all es (t # visiting) visited (successors es t) of
             None \<Rightarrow> None
           | Some finished \<Rightarrow> Some (t # finished))"
| "visit_all es visiting visited [] = Some visited"
| "visit_all es visiting visited (t # ts) =
     (case visit es visiting visited t of
        None \<Rightarrow> None
      | Some finished \<Rightarrow> visit_all es visiting finished ts)"
  by pat_completeness auto

lemma successors_mem: "u \<in> set (successors es t) \<longleftrightarrow> (t, u) \<in> set es"
  by (force simp: successors_def)

lemma unvisited_less:
  assumes "t \<notin> set visiting"
  shows "card (fst ` set es - set (t # visiting)) < card (fst ` set es - set visiting) \<or> successors es t = []"
proof (cases "successors es t")
  case (Cons u us)
  then have "(t, u) \<in> set es" using successors_mem [of u es t] by simp
  then have "t \<in> fst ` set es - set visiting" using assms by force
  moreover have "fst ` set es - set (t # visiting) = (fst ` set es - set visiting) - {t}" by auto
  ultimately show ?thesis using card_Diff1_less [of "fst ` set es - set visiting" t] by simp
qed simp

termination visit
proof (relation "measures
    [case_sum (\<lambda>(es, visiting, _, _). card (fst ` set es - set visiting)) (\<lambda>(es, visiting, _, _). card (fst ` set es - set visiting)),
     case_sum (\<lambda>_. 1) (\<lambda>(_, _, _, ts). 2 * length ts)]")
  fix es :: edges and visiting visited :: "string list" and t
  assume "t \<notin> set visiting"
  note unvisited_less [OF this, of es]
  moreover have "card (fst ` set es - set (t # visiting)) \<le> card (fst ` set es - set visiting)"
    by (rule card_mono) auto
  ultimately show "(Inr (es, t # visiting, visited, successors es t), Inl (es, visiting, visited, t)) \<in> measures
    [case_sum (\<lambda>(es, visiting, _, _). card (fst ` set es - set visiting)) (\<lambda>(es, visiting, _, _). card (fst ` set es - set visiting)),
     case_sum (\<lambda>_. 1) (\<lambda>(_, _, _, ts). 2 * length ts)]"
    by auto
qed auto

definition has_cycle :: "string list \<Rightarrow> edges \<Rightarrow> bool" where
  "has_cycle ids es \<longleftrightarrow> visit_all es [] [] ids = None"

section \<open>Correctness\<close>

text \<open>A search that answers true has walked along a cycle.\<close>

lemma visit_None_cycle:
  "visit es visiting visited t = None \<Longrightarrow> (\<And>v. v \<in> set visiting \<Longrightarrow> (v, t) \<in> (set es)\<^sup>+) \<Longrightarrow> \<exists>x. (x, x) \<in> (set es)\<^sup>+"
  "visit_all es visiting visited ts = None \<Longrightarrow>
     (\<And>v u. v \<in> set visiting \<Longrightarrow> u \<in> set ts \<Longrightarrow> (v, u) \<in> (set es)\<^sup>+) \<Longrightarrow> \<exists>x. (x, x) \<in> (set es)\<^sup>+"
proof (induction es visiting visited t and es visiting visited ts rule: visit_visit_all.induct)
  case (1 es visiting visited t)
  show ?case
  proof (cases "t \<in> set visiting")
    case True
    then show ?thesis using "1.prems"(2) by blast
  next
    case False
    then have unseen: "t \<notin> set visited" and none: "visit_all es (t # visiting) visited (successors es t) = None"
      using "1.prems"(1) by (auto split: if_split_asm option.split_asm)
    have "(v, u) \<in> (set es)\<^sup>+" if "v \<in> set (t # visiting)" "u \<in> set (successors es t)" for v u
    proof -
      have "(t, u) \<in> set es" using that(2) by (simp add: successors_mem)
      then show ?thesis using that(1) "1.prems"(2) by (auto intro: trancl.intros)
    qed
    then show ?thesis using "1.IH" [OF False unseen none] by blast
  qed
next
  case (3 es visiting visited t ts)
  show ?case
  proof (cases "visit es visiting visited t")
    case None
    then show ?thesis using "3.IH"(1) "3.prems"(2) by simp
  next
    case (Some finished)
    then show ?thesis using "3.IH"(2) [OF Some] "3.prems" by simp
  qed
qed simp

text \<open>A search that answers false has finished a set of nodes that is closed under successors and on
  which no cycle lies.\<close>

definition finished_ok :: "edges \<Rightarrow> string list \<Rightarrow> string list \<Rightarrow> bool" where
  "finished_ok es visiting visited \<longleftrightarrow>
     set visited \<inter> set visiting = {} \<and>
     (\<forall>x \<in> set visited. (x, x) \<notin> (set es)\<^sup>+ \<and> (\<forall>y. (x, y) \<in> set es \<longrightarrow> y \<in> set visited))"

lemma closed_reach:
  assumes "(x, y) \<in> (set es)\<^sup>+" and "x \<in> A" and "\<And>x y. x \<in> A \<Longrightarrow> (x, y) \<in> set es \<Longrightarrow> y \<in> A"
  shows "y \<in> A"
  using assms by (induction rule: trancl_induct) auto

lemma visit_Some_finished:
  "visit es visiting visited t = Some visited' \<Longrightarrow> finished_ok es visiting visited \<Longrightarrow>
     finished_ok es visiting visited' \<and> insert t (set visited) \<subseteq> set visited'"
  "visit_all es visiting visited ts = Some visited' \<Longrightarrow> finished_ok es visiting visited \<Longrightarrow>
     finished_ok es visiting visited' \<and> set ts \<union> set visited \<subseteq> set visited'"
proof (induction es visiting visited t and es visiting visited ts arbitrary: visited' and visited' rule: visit_visit_all.induct)
  case (1 es visiting visited t)
  have fresh: "t \<notin> set visiting" using "1.prems"(1) by (auto split: if_split_asm)
  show ?case
  proof (cases "t \<in> set visited")
    case True
    then show ?thesis using "1.prems" fresh by (simp add: insert_absorb)
  next
    case False
    then obtain finished where all: "visit_all es (t # visiting) visited (successors es t) = Some finished"
      and visited': "visited' = t # finished"
      using "1.prems"(1) fresh by (auto split: option.split_asm)
    have "finished_ok es (t # visiting) visited" using "1.prems"(2) False by (simp add: finished_ok_def)
    then have fin: "finished_ok es (t # visiting) finished" "set (successors es t) \<union> set visited \<subseteq> set finished"
      using "1.IH" [OF fresh False all] by blast+
    have closed: "y \<in> set finished" if "x \<in> set finished" "(x, y) \<in> set es" for x y
      using fin(1) that by (auto simp: finished_ok_def)
    have next_in: "y \<in> set finished" if "(t, y) \<in> set es" for y
      using that fin(2) by (auto simp: successors_mem)
    have "(t, t) \<notin> (set es)\<^sup>+"
    proof
      assume "(t, t) \<in> (set es)\<^sup>+"
      then obtain y where y: "(t, y) \<in> set es" "(y, t) \<in> (set es)\<^sup>*" by (meson tranclD)
      have "t \<in> set finished"
        using y(2) next_in [OF y(1)] closed by (induction rule: rtrancl_induct) blast+
      then show False using fin(1) by (simp add: finished_ok_def)
    qed
    then show ?thesis using fin fresh visited' next_in by (auto simp: finished_ok_def)
  qed
next
  case (3 es visiting visited t ts)
  show ?case
  proof (cases "visit es visiting visited t")
    case None
    then show ?thesis using "3.prems"(1) by simp
  next
    case (Some finished)
    then have rest: "visit_all es visiting finished ts = Some visited'" using "3.prems"(1) by simp
    show ?thesis using "3.IH"(1) [OF Some "3.prems"(2)] "3.IH"(2) [OF Some rest] by auto
  qed
qed simp

text \<open>The search decides acyclicity.\<close>

lemma has_cycle_iff:
  assumes "\<And>p q. (p, q) \<in> set es \<Longrightarrow> p \<in> set ids"
  shows "has_cycle ids es \<longleftrightarrow> (\<exists>x. (x, x) \<in> (set es)\<^sup>+)"
proof (cases "visit_all es [] [] ids")
  case None
  then show ?thesis using visit_None_cycle(2) [OF None] by (simp add: has_cycle_def)
next
  case (Some finished)
  have "finished_ok es [] finished" and all: "set ids \<subseteq> set finished"
    using visit_Some_finished(2) [OF Some] by (simp_all add: finished_ok_def)
  then have "(x, x) \<notin> (set es)\<^sup>+" if "x \<in> set ids" for x using that by (auto simp: finished_ok_def)
  moreover have "x \<in> set ids" if "(x, x) \<in> (set es)\<^sup>+" for x
    using tranclD [OF that] assms by blast
  ultimately have "\<nexists>x. (x, x) \<in> (set es)\<^sup>+" by blast
  then show ?thesis using Some by (simp add: has_cycle_def)
qed

end
