(* ===== verification/WgReducer.thy ===== *)
theory WgReducer
  imports WgContracts WgGraph CoreReducer
begin

text \<open>
  work_graph/reducer.py: the reducer of the work graph's seven event types.  \<open>sha\<close> stands for
  \<open>hashlib.sha256(...).hexdigest()\<close>.  The graph's state machine is the relation \<open>graph_step\<close>: plans are
  opened, closed and archived, revisions and their tasks are only added, tasks move forward, snapshots
  record the prior state.
\<close>

section \<open>Reading payloads\<close>

definition WG_EVENT_TYPES :: "string list" where
  "WG_EVENT_TYPES =
     [''plan.created.v1'', ''plan.lifecycle_changed.v1'', ''plan.revision_recorded.v1'',
      ''plan.revision_activated.v1'', ''task.lifecycle_changed.v1'', ''task.outcome_recorded.v1'',
      ''snapshot.recorded.v1'']"

text \<open>\<open>str(payload.get(key) or "")\<close>\<close>

definition text_field :: "dict \<Rightarrow> string \<Rightarrow> string" where
  "text_field d k = py_str (py_or (dget d k) (JStr []))"

definition replace_plan :: "work_graph \<Rightarrow> plan_state \<Rightarrow> plan_state list" where
  "replace_plan s p = replace_by pl_plan_id p (wg_plans s)"

definition replace_task :: "work_graph \<Rightarrow> task_state \<Rightarrow> task_state list" where
  "replace_task s t = replace_by tk_task_id t (wg_tasks s)"

definition require_plan :: "work_graph \<Rightarrow> string \<Rightarrow> plan_state py" where
  "require_plan s i =
     (case plan_of s i of
        None \<Rightarrow> violation (''Work Graph event references missing Plan: '' @ i)
      | Some p \<Rightarrow> Inr p)"

definition event_actor :: "event_envelope \<Rightarrow> dict" where
  "event_actor e = [(''type'', JStr (ev_initiator_type e)), (''id'', JStr (ev_initiator_id e))]"

definition revision_content :: "dict \<Rightarrow> dict" where
  "revision_content p =
     [(''plan_id'', dget p ''plan_id''), (''revision_id'', dget p ''revision_id''),
      (''parent_revision_id'', dget p ''parent_revision_id''),
      (''content_schema_version'', dget p ''content_schema_version''),
      (''objective'', dget p ''objective''), (''constraints'', dget p ''constraints''),
      (''task_definitions'', dget p ''task_definitions''), (''dependencies'', dget p ''dependencies'')]"

section \<open>Revisions\<close>

text \<open>One turn of the loop over \<open>raw_tasks\<close>; \<open>task_ids\<close> and \<open>task_keys\<close> of the code are the identifiers and
  keys of the tasks collected so far.\<close>

definition add_task :: "work_graph \<Rightarrow> event_envelope \<Rightarrow> string \<Rightarrow> string \<Rightarrow> task_state list \<Rightarrow> json \<Rightarrow> task_state list py" where
  "add_task s e plan_id revision_id tasks raw =
     (case raw of
        JObj d \<Rightarrow>
          (let task_id = text_field d ''task_id''; task_key = text_field d ''task_key'';
               intent = text_field d ''intent''; criteria = dget d ''acceptance_criteria''
           in if task_id = [] \<or> task_key = [] \<or> intent = [] \<or> \<not> is_list criteria \<or>
                 task_id \<in> set (map tk_task_id tasks) \<or> task_key \<in> set (map tk_task_key tasks) \<or>
                 task_of s task_id \<noteq> None
              then violation ''Task definition invariant violated''
              else
                and_then (and_then (elements criteria) (map_res dict_of)) (\<lambda>cs.
                Inr (tasks @ [\<lparr>tk_task_id = task_id, tk_task_key = task_key, tk_plan_id = plan_id,
                               tk_plan_revision_id = revision_id, tk_intent = intent,
                               tk_acceptance_criteria = cs, tk_lifecycle_state = Task_PENDING,
                               tk_outcome = None, tk_created_seq = ev_seq e, tk_updated_seq = ev_seq e\<rparr>])))
      | _ \<Rightarrow> violation ''Task definition must be an object'')"

definition dependency_edge :: "task_dependency \<Rightarrow> string \<times> string" where
  "dependency_edge d = (dep_predecessor_task_id d, dep_successor_task_id d)"

text \<open>One turn of the loop over \<open>raw_dependencies\<close>; \<open>edges\<close> of the code are the edges collected so far.\<close>

definition add_dependency :: "string \<Rightarrow> string list \<Rightarrow> task_dependency list \<Rightarrow> json \<Rightarrow> task_dependency list py" where
  "add_dependency revision_id task_ids deps raw =
     (case raw of
        JObj d \<Rightarrow>
          (let predecessor = text_field d ''predecessor_task_id'';
               successor = text_field d ''successor_task_id'';
               kind = text_field d ''dependency_kind''
           in if predecessor \<notin> set task_ids \<or> successor \<notin> set task_ids \<or> predecessor = successor \<or>
                 kind \<noteq> ''FINISH_TO_START'' \<or> (predecessor, successor) \<in> set (map dependency_edge deps)
              then violation ''Task dependency invariant violated''
              else Inr (deps @ [\<lparr>dep_revision_id = revision_id, dep_predecessor_task_id = predecessor,
                                 dep_successor_task_id = successor, dep_dependency_kind = kind\<rparr>]))
      | _ \<Rightarrow> violation ''Task dependency must be an object'')"

definition reduce_revision :: "(string \<Rightarrow> string) \<Rightarrow> work_graph \<Rightarrow> event_envelope \<Rightarrow> dict \<Rightarrow> work_graph py" where
  "reduce_revision sha s e p =
     (let plan_id = text_field p ''plan_id''; revision_id = text_field p ''revision_id''
      in and_then (require_plan s plan_id) (\<lambda>plan.
         if pl_lifecycle_state plan \<noteq> Plan_OPEN then violation ''Revision fact requires OPEN Plan''
         else if revision_id = [] \<or> revision_id \<noteq> ev_entity_id e \<or> revision_of s revision_id \<noteq> None then
           violation ''Revision identity is invalid or already used''
         else if \<not> py_eq (dget p ''content_schema_version'') (JInt WORK_GRAPH_SCHEMA_VERSION) then
           violation ''unsupported Work Graph content schema''
         else if \<not> py_eq (dget p ''content_hash'') (JStr (canonical_sha256 sha (JObj (revision_content p)))) then
           violation ''Revision content hash mismatch''
         else
           (let parent = dget p ''parent_revision_id'' in
            if parent \<noteq> JNull \<and> (case revision_of s (py_str parent) of
                 None \<Rightarrow> True | Some r \<Rightarrow> rv_plan_id r \<noteq> plan_id) then violation ''Revision parent is invalid''
            else
           (let raw_tasks = dget p ''task_definitions''; raw_dependencies = dget p ''dependencies'';
                raw_constraints = dget p ''constraints'' in
            if \<not> is_list raw_tasks \<or> \<not> is_list raw_dependencies \<or> \<not> is_list raw_constraints then
              violation ''Revision collections must be arrays''
            else
              and_then (and_then (elements raw_tasks) (fold_res (add_task s e plan_id revision_id) [])) (\<lambda>tasks.
              and_then (and_then (elements raw_dependencies)
                          (fold_res (add_dependency revision_id (map tk_task_id tasks)) [])) (\<lambda>deps.
              if has_cycle (map tk_task_id tasks) (map dependency_edge deps) then
                violation ''Task dependencies contain a cycle''
              else
                and_then (dindex p ''content_hash'') (\<lambda>content_hash.
                and_then (and_then (elements raw_constraints) (map_res dict_of)) (\<lambda>constraints.
                and_then (and_then (elements raw_tasks) (map_res dict_of)) (\<lambda>task_definitions.
                and_then (and_then (elements raw_dependencies) (map_res dict_of)) (\<lambda>dependencies.
                Inr (s\<lparr>wg_revisions := wg_revisions s @
                         [\<lparr>rv_revision_id = revision_id, rv_plan_id = plan_id,
                           rv_parent_revision_id = (if parent = JNull then None else Some (py_str parent)),
                           rv_content_schema_version = WORK_GRAPH_SCHEMA_VERSION,
                           rv_content_hash = py_str content_hash, rv_objective = text_field p ''objective'',
                           rv_constraints = constraints, rv_task_definitions = task_definitions,
                           rv_dependencies = dependencies, rv_declared_at = ev_created_at e,
                           rv_declared_by = event_actor e\<rparr>],
                        wg_tasks := wg_tasks s @ tasks,
                        wg_dependencies := wg_dependencies s @ deps\<rparr>)))))))))))"

section \<open>Plans and tasks\<close>

definition reduce_plan_created :: "work_graph \<Rightarrow> event_envelope \<Rightarrow> dict \<Rightarrow> work_graph py" where
  "reduce_plan_created s e p =
     (let plan_id = text_field p ''plan_id'' in
      if plan_id = [] \<or> plan_id \<noteq> ev_entity_id e \<or> plan_of s plan_id \<noteq> None then
        violation ''Plan creation fact is invalid''
      else Inr (s\<lparr>wg_plans := wg_plans s @
             [\<lparr>pl_plan_id = plan_id, pl_lifecycle_state = Plan_OPEN, pl_current_revision_id = None,
               pl_created_at = ev_created_at e, pl_created_by = event_actor e\<rparr>]\<rparr>))"

definition reduce_revision_activated :: "work_graph \<Rightarrow> dict \<Rightarrow> work_graph py" where
  "reduce_revision_activated s p =
     (let plan_id = text_field p ''plan_id''; revision_id = text_field p ''revision_id'' in
      and_then (require_plan s plan_id) (\<lambda>plan.
      if pl_lifecycle_state plan \<noteq> Plan_OPEN \<or>
         (case revision_of s revision_id of None \<Rightarrow> True | Some r \<Rightarrow> rv_plan_id r \<noteq> plan_id) \<or>
         pl_current_revision_id plan = Some revision_id \<or>
         \<not> py_eq (dget p ''previous_revision_id'') (jopt (pl_current_revision_id plan))
      then violation ''Revision activation fact is invalid''
      else Inr (s\<lparr>wg_plans := replace_plan s (plan\<lparr>pl_current_revision_id := Some revision_id\<rparr>)\<rparr>)))"

definition plan_edges :: "(plan_lifecycle \<times> plan_lifecycle) list" where
  "plan_edges = [(Plan_OPEN, Plan_CLOSED), (Plan_CLOSED, Plan_ARCHIVED)]"

definition has_open_task :: "work_graph \<Rightarrow> string \<Rightarrow> bool" where
  "has_open_task s plan_id =
     list_ex (\<lambda>t. tk_plan_id t = plan_id \<and> tk_lifecycle_state t \<notin> set TASK_TERMINAL) (wg_tasks s)"

definition reduce_plan_lifecycle :: "work_graph \<Rightarrow> dict \<Rightarrow> work_graph py" where
  "reduce_plan_lifecycle s p =
     (let plan_id = text_field p ''plan_id'' in
      and_then (require_plan s plan_id) (\<lambda>plan.
      case (PlanLifecycleState (py_str (dget p ''from_state'')), PlanLifecycleState (py_str (dget p ''to_state''))) of
        (Inr source, Inr target) \<Rightarrow>
          if source \<noteq> pl_lifecycle_state plan \<or> (source, target) \<notin> set plan_edges then
            violation ''Plan lifecycle fact violates transition rules''
          else if target = Plan_CLOSED \<and> has_open_task s plan_id then
            violation ''Plan closed with non-terminal Tasks''
          else Inr (s\<lparr>wg_plans := replace_plan s (plan\<lparr>pl_lifecycle_state := target\<rparr>)\<rparr>)
      | _ \<Rightarrow> violation ''invalid Plan lifecycle fact''))"

text \<open>The outcome of a task event, or the refusal of its transition.\<close>

definition task_outcome ::
  "work_graph \<Rightarrow> event_envelope \<Rightarrow> task_state \<Rightarrow> task_lifecycle \<Rightarrow> task_lifecycle \<Rightarrow> json \<Rightarrow> dict option py" where
  "task_outcome s e task source target outcome =
     (if ev_event_type e = ''task.lifecycle_changed.v1'' then
        and_then (require_plan s (tk_plan_id task)) (\<lambda>plan.
        if source \<noteq> Task_PENDING \<or> target \<noteq> Task_ACTIVE \<or> outcome \<noteq> JNull \<or>
           pl_lifecycle_state plan \<noteq> Plan_OPEN \<or>
           pl_current_revision_id plan \<noteq> Some (tk_plan_revision_id task)
        then violation ''Task activation fact is invalid'' else Inr None)
      else if target \<notin> set TASK_TERMINAL \<or> \<not> is_mapping outcome then violation ''Task outcome fact is invalid''
      else if target \<in> set [Task_SUCCEEDED, Task_FAILED] \<and> source \<noteq> Task_ACTIVE then
        violation ''Task outcome transition is invalid''
      else if target = Task_CANCELLED \<and> source \<notin> set [Task_PENDING, Task_ACTIVE] then
        violation ''Task cancellation fact is invalid''
      else and_then (dict_of outcome) (\<lambda>d. Inr (Some d)))"

definition reduce_task :: "work_graph \<Rightarrow> event_envelope \<Rightarrow> dict \<Rightarrow> work_graph py" where
  "reduce_task s e p =
     (let task_id = text_field p ''task_id'' in
      case task_of s task_id of
        None \<Rightarrow> violation ''Task event references missing Task''
      | Some task \<Rightarrow>
          if task_id \<noteq> ev_entity_id e then violation ''Task event references missing Task''
          else if \<not> py_eq (dget p ''plan_id'') (JStr (tk_plan_id task)) \<or>
                  \<not> py_eq (dget p ''plan_revision_id'') (JStr (tk_plan_revision_id task)) then
            violation ''Task event identity mismatch''
          else (case (TaskLifecycleState (py_str (dget p ''from_state'')), TaskLifecycleState (py_str (dget p ''to_state''))) of
              (Inr source, Inr target) \<Rightarrow>
                if source \<noteq> tk_lifecycle_state task then violation ''Task event source state mismatch''
                else
                  and_then (task_outcome s e task source target (dget p ''outcome'')) (\<lambda>outcome.
                  Inr (s\<lparr>wg_tasks := replace_task s (task\<lparr>tk_lifecycle_state := target, tk_outcome := outcome,
                                                          tk_updated_seq := ev_seq e\<rparr>)\<rparr>))
            | _ \<Rightarrow> violation ''invalid Task lifecycle fact''))"

section \<open>Snapshots\<close>

text \<open>The state a snapshot records: the core state and the graph, or the part of one plan.\<close>

definition snapshot_payload :: "string \<Rightarrow> int \<Rightarrow> json \<Rightarrow> json \<Rightarrow> runtime_state \<Rightarrow> work_graph \<Rightarrow> dict py" where
  "snapshot_payload m n scope plan_id core graph =
     and_then (if scope = JStr ''MISSION'' then Inr graph else plan_scope graph (py_str plan_id)) (\<lambda>scoped.
     and_then (state_to_dict core) (\<lambda>core_dict.
     Inr [(''mission_id'', JStr m), (''as_of_seq'', JInt n), (''scope'', scope), (''plan_id'', plan_id),
          (''core_state'', JObj core_dict), (''work_graph_state'', JObj (wg_to_dict scoped))]))"

definition check_snapshot_scope :: "work_graph \<Rightarrow> dict \<Rightarrow> unit py" where
  "check_snapshot_scope s p =
     (if dget p ''scope'' = JStr ''PLAN'' then
        and_then (require_plan s (text_field p ''plan_id'')) (\<lambda>_. Inr ())
      else if dget p ''scope'' \<noteq> JStr ''MISSION'' \<or> dget p ''plan_id'' \<noteq> JNull then
        violation ''Snapshot scope fact is invalid''
      else Inr ())"

definition reduce_snapshot ::
  "(string \<Rightarrow> string) \<Rightarrow> work_graph \<Rightarrow> event_envelope \<Rightarrow> runtime_state \<Rightarrow> dict \<Rightarrow> work_graph py" where
  "reduce_snapshot sha s e core p =
     (let snapshot_id = text_field p ''snapshot_id''; as_of = dget p ''as_of_seq'';
          scope = dget p ''scope''; plan_id = dget p ''plan_id'' in
      if snapshot_id = [] \<or> snapshot_id \<noteq> ev_entity_id e \<or> snapshot_of s snapshot_id \<noteq> None then
        violation ''Snapshot identity is invalid''
      else case dget p ''state_payload'' of
        JObj payload \<Rightarrow>
          if \<not> py_eq (dget p ''payload_hash'') (JStr (canonical_sha256 sha (JObj payload))) then
            runtime_error ''SNAPSHOT_CHECKSUM_MISMATCH'' ''Snapshot payload hash mismatch''
          else if \<not> py_eq (dget p ''work_graph_schema_version'') (JInt WORK_GRAPH_SCHEMA_VERSION) then
            runtime_error ''SNAPSHOT_SCHEMA_UNSUPPORTED'' ''unsupported Snapshot schema''
          else if \<not> is_int as_of \<or> \<not> py_eq as_of (JInt (ev_seq e - 1)) then
            violation ''Snapshot does not anchor the prior shared seq''
          else
            and_then (check_snapshot_scope s p) (\<lambda>_.
            if \<not> py_eq (dget payload ''mission_id'') (JStr (wg_mission_id s)) \<or>
               \<not> py_eq (dget payload ''as_of_seq'') as_of \<or> \<not> py_eq (dget payload ''scope'') scope \<or>
               \<not> py_eq (dget payload ''plan_id'') plan_id then
              violation ''Snapshot payload anchor mismatch''
            else
              and_then (snapshot_payload (wg_mission_id s) (ev_seq e - 1) scope plan_id
                          (core\<lparr>rs_seq := ev_seq e - 1\<rparr>) s) (\<lambda>expected.
              if \<not> py_eq (JObj payload) (JObj expected) then
                violation ''Snapshot payload is not the exact prior state''
              else
                and_then (py_int (dget p ''projection_version'')) (\<lambda>pv.
                and_then (py_int (dget p ''canonicalization_version'')) (\<lambda>cv.
                and_then (dindex p ''payload_hash'') (\<lambda>h.
                Inr (s\<lparr>wg_snapshots := wg_snapshots s @
                       [\<lparr>sn_snapshot_id = snapshot_id, sn_scope = py_str scope,
                         sn_plan_id = (if plan_id = JNull then None else Some (py_str plan_id)),
                         sn_as_of_seq = ev_seq e - 1,
                         sn_work_graph_schema_version = WORK_GRAPH_SCHEMA_VERSION,
                         sn_projection_version = pv, sn_canonicalization_version = cv,
                         sn_payload_hash = py_str h, sn_state_payload = payload,
                         sn_recorded_seq = ev_seq e\<rparr>]\<rparr>))))))
      | _ \<Rightarrow> runtime_error ''SNAPSHOT_CHECKSUM_MISMATCH'' ''Snapshot payload hash mismatch'')"

section \<open>The reducer\<close>

definition mission_open :: "runtime_state \<Rightarrow> bool" where
  "mission_open core =
     (case rs_mission core of
        None \<Rightarrow> False
      | Some m \<Rightarrow> ms_status m \<notin> set [Mission_COMPLETED, Mission_FAILED, Mission_CANCELLED])"

definition wg_reduce :: "(string \<Rightarrow> string) \<Rightarrow> work_graph \<Rightarrow> event_envelope \<Rightarrow> runtime_state \<Rightarrow> work_graph py" where
  "wg_reduce sha s e core =
     (let t = ev_event_type e; p = ev_payload e in
      if t \<notin> set WG_EVENT_TYPES then
        runtime_error ''EXTENSION_EVENT_NOT_OWNED'' (''unsupported Work Graph event: '' @ t)
      else if ev_mission_id e \<noteq> wg_mission_id s \<or> rs_mission_id core \<noteq> wg_mission_id s then
        violation ''Work Graph Mission identity mismatch''
      else if rs_seq core \<noteq> ev_seq e then violation ''Work Graph event does not share Core seq''
      else if \<not> mission_open core then
        violation ''terminal or missing Mission cannot accept Work Graph facts''
      else if t = ''plan.created.v1'' then reduce_plan_created s e p
      else if t = ''plan.revision_recorded.v1'' then reduce_revision sha s e p
      else if t = ''plan.revision_activated.v1'' then reduce_revision_activated s p
      else if t = ''plan.lifecycle_changed.v1'' then reduce_plan_lifecycle s p
      else if t \<in> set [''task.lifecycle_changed.v1'', ''task.outcome_recorded.v1''] then reduce_task s e p
      else reduce_snapshot sha s e core p)"

section \<open>The graph's state machine\<close>

text \<open>What an accepted event may do to the graph, free of payloads and errors.\<close>

definition fresh_tasks :: "work_graph \<Rightarrow> string \<Rightarrow> string \<Rightarrow> int \<Rightarrow> task_state list \<Rightarrow> bool" where
  "fresh_tasks s plan_id revision_id n ts \<longleftrightarrow>
     distinct (map tk_task_id ts) \<and> distinct (map tk_task_key ts) \<and>
     (\<forall>t \<in> set ts. task_of s (tk_task_id t) = None \<and> tk_plan_id t = plan_id \<and>
        tk_plan_revision_id t = revision_id \<and> tk_lifecycle_state t = Task_PENDING \<and> tk_outcome t = None \<and>
        tk_created_seq t = n \<and> tk_updated_seq t = n)"

definition fresh_dependencies :: "string \<Rightarrow> task_state list \<Rightarrow> task_dependency list \<Rightarrow> bool" where
  "fresh_dependencies revision_id ts ds \<longleftrightarrow>
     distinct (map dependency_edge ds) \<and>
     (\<forall>d \<in> set ds. dep_revision_id d = revision_id \<and> dep_predecessor_task_id d \<in> tk_task_id ` set ts \<and>
        dep_successor_task_id d \<in> tk_task_id ` set ts \<and> dep_predecessor_task_id d \<noteq> dep_successor_task_id d) \<and>
     acyclic (dependency_edge ` set ds)"

inductive graph_step :: "int \<Rightarrow> work_graph \<Rightarrow> work_graph \<Rightarrow> bool" for n :: int where
  plan_created:
    "plan_of s (pl_plan_id p) = None \<Longrightarrow> pl_lifecycle_state p = Plan_OPEN \<Longrightarrow> pl_current_revision_id p = None \<Longrightarrow>
     graph_step n s (s\<lparr>wg_plans := wg_plans s @ [p]\<rparr>)"
| revision_recorded:
    "plan_of s (rv_plan_id r) = Some p \<Longrightarrow> pl_lifecycle_state p = Plan_OPEN \<Longrightarrow>
     revision_of s (rv_revision_id r) = None \<Longrightarrow>
     (\<And>q. rv_parent_revision_id r = Some q \<Longrightarrow> \<exists>r'. revision_of s q = Some r' \<and> rv_plan_id r' = rv_plan_id r) \<Longrightarrow>
     fresh_tasks s (rv_plan_id r) (rv_revision_id r) n ts \<Longrightarrow> fresh_dependencies (rv_revision_id r) ts ds \<Longrightarrow>
     graph_step n s (s\<lparr>wg_revisions := wg_revisions s @ [r], wg_tasks := wg_tasks s @ ts,
                      wg_dependencies := wg_dependencies s @ ds\<rparr>)"
| revision_activated:
    "plan_of s i = Some p \<Longrightarrow> pl_lifecycle_state p = Plan_OPEN \<Longrightarrow>
     revision_of s k = Some r \<Longrightarrow> rv_plan_id r = i \<Longrightarrow> pl_current_revision_id p \<noteq> Some k \<Longrightarrow>
     graph_step n s (s\<lparr>wg_plans := replace_plan s (p\<lparr>pl_current_revision_id := Some k\<rparr>)\<rparr>)"
| plan_moved:
    "plan_of s i = Some p \<Longrightarrow> (pl_lifecycle_state p, l) \<in> set plan_edges \<Longrightarrow>
     (l = Plan_CLOSED \<Longrightarrow> \<not> has_open_task s i) \<Longrightarrow>
     graph_step n s (s\<lparr>wg_plans := replace_plan s (p\<lparr>pl_lifecycle_state := l\<rparr>)\<rparr>)"
| task_activated:
    "task_of s i = Some t \<Longrightarrow> tk_lifecycle_state t = Task_PENDING \<Longrightarrow> plan_of s (tk_plan_id t) = Some p \<Longrightarrow>
     pl_lifecycle_state p = Plan_OPEN \<Longrightarrow> pl_current_revision_id p = Some (tk_plan_revision_id t) \<Longrightarrow>
     graph_step n s (s\<lparr>wg_tasks := replace_task s
        (t\<lparr>tk_lifecycle_state := Task_ACTIVE, tk_outcome := None, tk_updated_seq := n\<rparr>)\<rparr>)"
| task_ended:
    "task_of s i = Some t \<Longrightarrow> tk_lifecycle_state t \<notin> set TASK_TERMINAL \<Longrightarrow> l \<in> set TASK_TERMINAL \<Longrightarrow>
     (l \<noteq> Task_CANCELLED \<Longrightarrow> tk_lifecycle_state t = Task_ACTIVE) \<Longrightarrow>
     graph_step n s (s\<lparr>wg_tasks := replace_task s
        (t\<lparr>tk_lifecycle_state := l, tk_outcome := Some d, tk_updated_seq := n\<rparr>)\<rparr>)"
| snapshot_recorded:
    "snapshot_of s (sn_snapshot_id x) = None \<Longrightarrow> sn_as_of_seq x = n - 1 \<Longrightarrow> sn_recorded_seq x = n \<Longrightarrow>
     graph_step n s (s\<lparr>wg_snapshots := wg_snapshots s @ [x]\<rparr>)"

inductive_cases graph_stepE: "graph_step n s s'"


section \<open>The reducer implements the state machine\<close>

lemma require_plan_Inr: "require_plan s i = Inr p \<longleftrightarrow> plan_of s i = Some p"
  by (auto simp: require_plan_def split: option.split)

lemma add_task_fresh:
  assumes "add_task s e plan_id revision_id ts raw = Inr ts'" and "fresh_tasks s plan_id revision_id (ev_seq e) ts"
  shows "fresh_tasks s plan_id revision_id (ev_seq e) ts'"
proof (cases raw)
  case (JObj d)
  then show ?thesis
    using assms by (auto simp: add_task_def Let_def and_then_Inr_iff fresh_tasks_def split: if_split_asm)
qed (use assms(1) in \<open>simp_all add: add_task_def\<close>)

lemma fold_add_task:
  "fold_res (add_task s e plan_id revision_id) [] raws = Inr ts \<Longrightarrow> fresh_tasks s plan_id revision_id (ev_seq e) ts"
  by (rule fold_res_inv [where P = "fresh_tasks s plan_id revision_id (ev_seq e)"]) (auto intro: add_task_fresh simp: fresh_tasks_def [where ts = "[]"])

definition dependencies_ok :: "string \<Rightarrow> string list \<Rightarrow> task_dependency list \<Rightarrow> bool" where
  "dependencies_ok revision_id ids ds \<longleftrightarrow>
     distinct (map dependency_edge ds) \<and>
     (\<forall>d \<in> set ds. dep_revision_id d = revision_id \<and> dep_predecessor_task_id d \<in> set ids \<and>
        dep_successor_task_id d \<in> set ids \<and> dep_predecessor_task_id d \<noteq> dep_successor_task_id d)"

lemma add_dependency_ok:
  assumes "add_dependency revision_id ids ds raw = Inr ds'" and "dependencies_ok revision_id ids ds"
  shows "dependencies_ok revision_id ids ds'"
proof (cases raw)
  case (JObj d)
  then show ?thesis
    using assms by (auto simp: add_dependency_def Let_def dependencies_ok_def dependency_edge_def split: if_split_asm)
qed (use assms(1) in \<open>simp_all add: add_dependency_def\<close>)

lemma fold_add_dependency:
  "fold_res (add_dependency revision_id ids) [] raws = Inr ds \<Longrightarrow> dependencies_ok revision_id ids ds"
  by (rule fold_res_inv [where P = "dependencies_ok revision_id ids"]) (auto intro: add_dependency_ok simp: dependencies_ok_def [where ds = "[]"])

lemma no_cycle_acyclic:
  assumes "dependencies_ok revision_id ids ds"
  shows "has_cycle ids (map dependency_edge ds) \<longleftrightarrow> \<not> acyclic (dependency_edge ` set ds)"
proof -
  have "p \<in> set ids" if "(p, q) \<in> set (map dependency_edge ds)" for p q
    using assms that by (auto simp: dependencies_ok_def dependency_edge_def)
  from has_cycle_iff [where es = "map dependency_edge ds" and ids = ids, OF this] show ?thesis by (simp add: acyclic_def)
qed

lemma reduce_revision_Inr:
  assumes "reduce_revision sha s e p = Inr s'"
  obtains plan r raws ts deps ds where "plan_of s (rv_plan_id r) = Some plan" and "pl_lifecycle_state plan = Plan_OPEN"
    and "rv_revision_id r = ev_entity_id e" and "revision_of s (rv_revision_id r) = None"
    and "\<And>q. rv_parent_revision_id r = Some q \<Longrightarrow> \<exists>r'. revision_of s q = Some r' \<and> rv_plan_id r' = rv_plan_id r"
    and "fold_res (add_task s e (rv_plan_id r) (rv_revision_id r)) [] raws = Inr ts"
    and "fold_res (add_dependency (rv_revision_id r) (map tk_task_id ts)) [] deps = Inr ds"
    and "\<not> has_cycle (map tk_task_id ts) (map dependency_edge ds)"
    and "s' = s\<lparr>wg_revisions := wg_revisions s @ [r], wg_tasks := wg_tasks s @ ts, wg_dependencies := wg_dependencies s @ ds\<rparr>"
proof -
  let ?plan_id = "text_field p ''plan_id''" and ?id = "text_field p ''revision_id''" and ?parent = "dget p ''parent_revision_id''"
  obtain plan where plan: "plan_of s ?plan_id = Some plan" "pl_lifecycle_state plan = Plan_OPEN"
    using assms by (auto simp: reduce_revision_def Let_def and_then_Inr_iff require_plan_Inr split: if_split_asm)
  note body = assms [unfolded reduce_revision_def Let_def, simplified require_plan_def plan option.case and_then_simps if_False simp_thms]
  have id: "?id = ev_entity_id e" "revision_of s ?id = None" using body by (auto split: if_split_asm)
  have parent: "?parent = JNull \<or> (\<exists>r'. revision_of s (py_str ?parent) = Some r' \<and> rv_plan_id r' = ?plan_id)"
    using body by (auto split: if_split_asm option.split_asm)
  let ?revision = "\<lambda>h cs tds dds. \<lparr>rv_revision_id = ?id, rv_plan_id = ?plan_id,
      rv_parent_revision_id = (if ?parent = JNull then None else Some (py_str ?parent)),
      rv_content_schema_version = WORK_GRAPH_SCHEMA_VERSION, rv_content_hash = py_str h,
      rv_objective = text_field p ''objective'', rv_constraints = cs, rv_task_definitions = tds,
      rv_dependencies = dds, rv_declared_at = ev_created_at e, rv_declared_by = event_actor e\<rparr>"
  obtain raws ts deps ds h cs tds dds where
    ts: "fold_res (add_task s e ?plan_id ?id) [] raws = Inr ts"
    and ds: "fold_res (add_dependency ?id (map tk_task_id ts)) [] deps = Inr ds"
    and acyc: "\<not> has_cycle (map tk_task_id ts) (map dependency_edge ds)"
    and s': "s' = s\<lparr>wg_revisions := wg_revisions s @ [?revision h cs tds dds], wg_tasks := wg_tasks s @ ts,
        wg_dependencies := wg_dependencies s @ ds\<rparr>"
    using body by (auto simp: and_then_Inr_iff split: if_split_asm)
  show ?thesis
    by (rule that [of "?revision h cs tds dds" plan raws ts deps ds])
       (use plan id parent ts ds acyc s' in \<open>auto split: if_split_asm\<close>)
qed

lemma revision_step:
  assumes "reduce_revision sha s e p = Inr s'"
  shows "graph_step (ev_seq e) s s'"
proof (rule reduce_revision_Inr [OF assms])
  fix plan r raws ts deps ds
  assume plan: "plan_of s (rv_plan_id r) = Some plan" "pl_lifecycle_state plan = Plan_OPEN"
    and fresh: "revision_of s (rv_revision_id r) = None"
    and parent: "\<And>q. rv_parent_revision_id r = Some q \<Longrightarrow> \<exists>r'. revision_of s q = Some r' \<and> rv_plan_id r' = rv_plan_id r"
    and ts: "fold_res (add_task s e (rv_plan_id r) (rv_revision_id r)) [] raws = Inr ts"
    and ds: "fold_res (add_dependency (rv_revision_id r) (map tk_task_id ts)) [] deps = Inr ds"
    and acyc: "\<not> has_cycle (map tk_task_id ts) (map dependency_edge ds)"
    and s': "s' = s\<lparr>wg_revisions := wg_revisions s @ [r], wg_tasks := wg_tasks s @ ts, wg_dependencies := wg_dependencies s @ ds\<rparr>"
  note ok = fold_add_dependency [OF ds]
  have "fresh_dependencies (rv_revision_id r) ts ds"
    using ok acyc no_cycle_acyclic [OF ok] by (auto simp: fresh_dependencies_def dependencies_ok_def)
  from graph_step.revision_recorded [OF plan fresh parent fold_add_task [OF ts] this]
  show "graph_step (ev_seq e) s s'" by (simp add: s')
qed

lemma plan_created_step: "reduce_plan_created s e p = Inr s' \<Longrightarrow> graph_step n s s'"
  by (auto simp: reduce_plan_created_def Let_def intro!: graph_step.plan_created split: if_split_asm)

lemma revision_activated_step: "reduce_revision_activated s p = Inr s' \<Longrightarrow> graph_step n s s'"
  by (auto simp: reduce_revision_activated_def Let_def and_then_Inr_iff require_plan_Inr
      intro!: graph_step.revision_activated split: if_split_asm option.split_asm)

lemma plan_lifecycle_step:
  assumes "reduce_plan_lifecycle s p = Inr s'"
  shows "graph_step n s s'"
proof -
  obtain plan where plan: "plan_of s (text_field p ''plan_id'') = Some plan"
    using assms by (auto simp: reduce_plan_lifecycle_def Let_def and_then_Inr_iff require_plan_Inr)
  show ?thesis
  proof (cases "PlanLifecycleState (py_str (dget p ''from_state''))"; cases "PlanLifecycleState (py_str (dget p ''to_state''))")
    fix source target
    assume "PlanLifecycleState (py_str (dget p ''from_state'')) = Inr source"
      "PlanLifecycleState (py_str (dget p ''to_state'')) = Inr target"
    then have "(pl_lifecycle_state plan, target) \<in> set plan_edges"
        "target = Plan_CLOSED \<Longrightarrow> \<not> has_open_task s (text_field p ''plan_id'')"
        "s' = s\<lparr>wg_plans := replace_plan s (plan\<lparr>pl_lifecycle_state := target\<rparr>)\<rparr>"
      using assms plan by (auto simp: reduce_plan_lifecycle_def Let_def require_plan_def split: if_split_asm)
    then show ?thesis using graph_step.plan_moved [OF plan] by simp
  qed (use assms plan in \<open>simp_all add: reduce_plan_lifecycle_def Let_def require_plan_def\<close>)
qed

lemma reduce_task_Inr:
  assumes "reduce_task s e p = Inr s'"
  obtains t l outcome where "task_of s (ev_entity_id e) = Some t"
    and "task_outcome s e t (tk_lifecycle_state t) l (dget p ''outcome'') = Inr outcome"
    and "s' = s\<lparr>wg_tasks := replace_task s (t\<lparr>tk_lifecycle_state := l, tk_outcome := outcome, tk_updated_seq := ev_seq e\<rparr>)\<rparr>"
  using assms
  by (auto simp: reduce_task_def Let_def and_then_Inr_iff split: option.split_asm if_split_asm sum.split_asm)

lemma task_step:
  assumes "reduce_task s e p = Inr s'"
  shows "graph_step (ev_seq e) s s'"
proof (rule reduce_task_Inr [OF assms])
  fix t l outcome
  assume t: "task_of s (ev_entity_id e) = Some t"
    and out: "task_outcome s e t (tk_lifecycle_state t) l (dget p ''outcome'') = Inr outcome"
    and s': "s' = s\<lparr>wg_tasks := replace_task s (t\<lparr>tk_lifecycle_state := l, tk_outcome := outcome, tk_updated_seq := ev_seq e\<rparr>)\<rparr>"
  show "graph_step (ev_seq e) s s'"
  proof (cases "ev_event_type e = ''task.lifecycle_changed.v1''")
    case True
    then obtain plan where "plan_of s (tk_plan_id t) = Some plan" "pl_lifecycle_state plan = Plan_OPEN"
        "pl_current_revision_id plan = Some (tk_plan_revision_id t)" "tk_lifecycle_state t = Task_PENDING"
        "l = Task_ACTIVE" "outcome = None"
      using out by (auto simp: task_outcome_def and_then_Inr_iff require_plan_Inr split: if_split_asm)
    then show ?thesis unfolding s' using t by (auto intro: graph_step.task_activated)
  next
    case False
    then have "l \<in> set TASK_TERMINAL" "l \<noteq> Task_CANCELLED \<Longrightarrow> tk_lifecycle_state t = Task_ACTIVE"
        "tk_lifecycle_state t \<notin> set TASK_TERMINAL" "\<exists>d. outcome = Some d"
      using out by (auto simp: task_outcome_def and_then_Inr_iff TASK_TERMINAL_def split: if_split_asm)
    then show ?thesis unfolding s' using t by (auto intro: graph_step.task_ended)
  qed
qed

lemma snapshot_step: "reduce_snapshot sha s e core p = Inr s' \<Longrightarrow> graph_step (ev_seq e) s s'"
  by (auto simp: reduce_snapshot_def Let_def and_then_Inr_iff intro!: graph_step.snapshot_recorded
      split: if_split_asm json.split_asm)

lemma wg_reduce_Inr:
  assumes "wg_reduce sha s e core = Inr s'"
  shows "graph_step (ev_seq e) s s'" and "ev_event_type e \<in> set WG_EVENT_TYPES"
    and "ev_mission_id e = wg_mission_id s" and "mission_open core" and "rs_seq core = ev_seq e"
  using assms
  by (auto simp: wg_reduce_def Let_def intro: plan_created_step revision_step revision_activated_step
      plan_lifecycle_step task_step snapshot_step split: if_split_asm)

end
