(* ===== verification/WgInvariant.thy ===== *)
theory WgInvariant
  imports WgReducer
begin

text \<open>
  The invariant of the work graph's records, kept by every step of \<open>graph_step\<close> and so by every event the
  reducer of work_graph/reducer.py accepts, and the monotone evolution of the graph: lifecycles only move
  forward, tasks that have ended stay as they are, the collections only grow.
\<close>

section \<open>The invariant of the graph\<close>

definition plans_ok :: "plan_state list \<Rightarrow> revision_state list \<Rightarrow> bool" where
  "plans_ok ps rs \<longleftrightarrow> distinct (map pl_plan_id ps) \<and>
     (\<forall>p \<in> set ps. \<forall>k. pl_current_revision_id p = Some k \<longrightarrow>
        (\<exists>r \<in> set rs. rv_revision_id r = k \<and> rv_plan_id r = pl_plan_id p))"

definition revisions_ok :: "plan_state list \<Rightarrow> revision_state list \<Rightarrow> bool" where
  "revisions_ok ps rs \<longleftrightarrow> distinct (map rv_revision_id rs) \<and> (\<forall>r \<in> set rs. rv_plan_id r \<in> pl_plan_id ` set ps)"

text \<open>Every task belongs to a recorded revision of its plan and has an outcome exactly when it has ended;
  its sequence numbers are not ahead of the log.\<close>

definition task_ok :: "int \<Rightarrow> revision_state list \<Rightarrow> task_state \<Rightarrow> bool" where
  "task_ok n rs t \<longleftrightarrow>
     (\<exists>r \<in> set rs. rv_revision_id r = tk_plan_revision_id t \<and> rv_plan_id r = tk_plan_id t) \<and>
     (tk_outcome t \<noteq> None \<longleftrightarrow> tk_lifecycle_state t \<in> set TASK_TERMINAL) \<and>
     tk_created_seq t \<le> tk_updated_seq t \<and> tk_updated_seq t \<le> n"

definition tasks_ok :: "int \<Rightarrow> revision_state list \<Rightarrow> task_state list \<Rightarrow> bool" where
  "tasks_ok n rs ts \<longleftrightarrow> distinct (map tk_task_id ts) \<and> (\<forall>t \<in> set ts. task_ok n rs t)"

text \<open>A plan that is not open has no task left to do.\<close>

definition closed_ok :: "plan_state list \<Rightarrow> task_state list \<Rightarrow> bool" where
  "closed_ok ps ts \<longleftrightarrow>
     (\<forall>p \<in> set ps. pl_lifecycle_state p \<noteq> Plan_OPEN \<longrightarrow>
        (\<forall>t \<in> set ts. tk_plan_id t = pl_plan_id p \<longrightarrow> tk_lifecycle_state t \<in> set TASK_TERMINAL))"

text \<open>Dependencies connect two tasks of their own revision and have no cycle.\<close>

definition graph_dependencies_ok :: "task_state list \<Rightarrow> task_dependency list \<Rightarrow> bool" where
  "graph_dependencies_ok ts ds \<longleftrightarrow>
     distinct (map dependency_key ds) \<and>
     (\<forall>d \<in> set ds. (dep_predecessor_task_id d, dep_revision_id d) \<in> (\<lambda>t. (tk_task_id t, tk_plan_revision_id t)) ` set ts \<and>
        (dep_successor_task_id d, dep_revision_id d) \<in> (\<lambda>t. (tk_task_id t, tk_plan_revision_id t)) ` set ts) \<and>
     acyclic (dependency_edge ` set ds)"

definition snapshots_ok :: "int \<Rightarrow> snapshot_index list \<Rightarrow> bool" where
  "snapshots_ok n xs \<longleftrightarrow> distinct (map sn_snapshot_id xs) \<and>
     (\<forall>x \<in> set xs. sn_recorded_seq x = sn_as_of_seq x + 1 \<and> sn_recorded_seq x \<le> n)"

definition graph_inv :: "int \<Rightarrow> work_graph \<Rightarrow> bool" where
  "graph_inv n s \<longleftrightarrow>
     plans_ok (wg_plans s) (wg_revisions s) \<and> revisions_ok (wg_plans s) (wg_revisions s) \<and>
     tasks_ok n (wg_revisions s) (wg_tasks s) \<and> closed_ok (wg_plans s) (wg_tasks s) \<and>
     graph_dependencies_ok (wg_tasks s) (wg_dependencies s) \<and> snapshots_ok n (wg_snapshots s)"

lemmas graph_parts = plans_ok_def revisions_ok_def tasks_ok_def closed_ok_def graph_dependencies_ok_def snapshots_ok_def

lemma graph_inv_distinct: "graph_inv n s \<Longrightarrow> graph_ids_distinct s"
  by (simp add: graph_inv_def graph_parts graph_ids_distinct_def)

lemma graph_inv_empty: "graph_inv n (empty_work_graph m)"
  by (simp add: graph_inv_def graph_parts empty_work_graph_def acyclic_def)

lemma graph_inv_mono: "graph_inv n s \<Longrightarrow> n \<le> n' \<Longrightarrow> graph_inv n' s"
  by (force simp: graph_inv_def tasks_ok_def task_ok_def snapshots_ok_def)

lemma plan_of_None: "plan_of s i = None \<longleftrightarrow> i \<notin> pl_plan_id ` set (wg_plans s)"
  and revision_of_None: "revision_of s i = None \<longleftrightarrow> i \<notin> rv_revision_id ` set (wg_revisions s)"
  and task_of_None: "task_of s i = None \<longleftrightarrow> i \<notin> tk_task_id ` set (wg_tasks s)"
  and snapshot_of_None: "snapshot_of s i = None \<longleftrightarrow> i \<notin> sn_snapshot_id ` set (wg_snapshots s)"
  by (simp_all add: plan_of_def revision_of_def task_of_def snapshot_of_def find_by_None_iff)

lemma open_task_ok: "\<not> has_open_task s i \<longleftrightarrow> (\<forall>t \<in> set (wg_tasks s). tk_plan_id t = i \<longrightarrow> tk_lifecycle_state t \<in> set TASK_TERMINAL)"
  by (auto simp: has_open_task_def list_ex_iff)

lemma task_ok_mono: "task_ok n rs t \<Longrightarrow> n \<le> n' \<Longrightarrow> set rs \<subseteq> set rs' \<Longrightarrow> task_ok n' rs' t"
  by (fastforce simp: task_ok_def)

text \<open>A plan that is replaced by one with the same identifier.\<close>

lemma replaced_plan_parts:
  assumes "plans_ok ps rs" and "revisions_ok ps rs" and "p \<in> set ps" and "pl_plan_id p' = pl_plan_id p"
    and "\<And>k. pl_current_revision_id p' = Some k \<Longrightarrow> \<exists>r \<in> set rs. rv_revision_id r = k \<and> rv_plan_id r = pl_plan_id p"
  shows "plans_ok (replace_by pl_plan_id p' ps) rs" and "revisions_ok (replace_by pl_plan_id p' ps) rs"
proof -
  have ids: "pl_plan_id ` set (replace_by pl_plan_id p' ps) = pl_plan_id ` set ps"
    using assms by (intro replace_by_image [of _ _ p]) (simp_all add: plans_ok_def)
  show "plans_ok (replace_by pl_plan_id p' ps) rs"
    using assms by (auto simp: plans_ok_def dest!: set_replace_by)
  show "revisions_ok (replace_by pl_plan_id p' ps) rs" using assms(2) by (simp add: revisions_ok_def ids)
qed

lemma replaced_plan_closed:
  assumes "closed_ok ps ts" and "pl_lifecycle_state p' \<noteq> Plan_OPEN \<Longrightarrow>
     \<forall>t \<in> set ts. tk_plan_id t = pl_plan_id p' \<longrightarrow> tk_lifecycle_state t \<in> set TASK_TERMINAL"
  shows "closed_ok (replace_by pl_plan_id p' ps) ts"
  using assms by (auto simp: closed_ok_def dest!: set_replace_by)

text \<open>A task that is replaced by one with the same identity and a consistent outcome.\<close>

lemma replaced_task_parts:
  assumes inv: "tasks_ok n rs ts" "closed_ok ps ts" "graph_dependencies_ok ts ds" and t: "t \<in> set ts" and n: "n \<le> n'"
    and same: "tk_task_id t' = tk_task_id t" "tk_plan_id t' = tk_plan_id t" "tk_plan_revision_id t' = tk_plan_revision_id t"
    and ok: "task_ok n' rs t'"
    and "\<And>p. p \<in> set ps \<Longrightarrow> pl_plan_id p = tk_plan_id t \<Longrightarrow> pl_lifecycle_state p \<noteq> Plan_OPEN \<Longrightarrow>
           tk_lifecycle_state t' \<in> set TASK_TERMINAL"
  shows "tasks_ok n' rs (replace_by tk_task_id t' ts)" and "closed_ok ps (replace_by tk_task_id t' ts)"
    and "graph_dependencies_ok (replace_by tk_task_id t' ts) ds"
proof -
  have image: "(\<lambda>t. (tk_task_id t, tk_plan_revision_id t)) ` set (replace_by tk_task_id t' ts) =
      (\<lambda>t. (tk_task_id t, tk_plan_revision_id t)) ` set ts"
    using inv(1) t same by (intro replace_by_image [of _ _ t]) (simp_all add: tasks_ok_def)
  show "tasks_ok n' rs (replace_by tk_task_id t' ts)"
    using inv(1) ok n by (auto simp: tasks_ok_def dest!: set_replace_by intro: task_ok_mono)
  show "closed_ok ps (replace_by tk_task_id t' ts)"
    using inv(2) same assms(10) by (fastforce simp: closed_ok_def dest!: set_replace_by)
  show "graph_dependencies_ok (replace_by tk_task_id t' ts) ds"
    using inv(3) by (simp add: graph_dependencies_ok_def image)
qed

text \<open>A recorded revision brings its own tasks and dependencies.\<close>

lemma added_dependencies:
  assumes inv: "graph_dependencies_ok ts ds" and new: "fresh_dependencies k ts' ds'"
    and k: "k \<notin> (\<lambda>d. dep_revision_id d) ` set ds" and rev: "\<And>t. t \<in> set ts' \<Longrightarrow> tk_plan_revision_id t = k"
    and fresh: "tk_task_id ` set ts \<inter> tk_task_id ` set ts' = {}"
  shows "graph_dependencies_ok (ts @ ts') (ds @ ds')"
proof -
  let ?at = "\<lambda>t. (tk_task_id t, tk_plan_revision_id t)"
  have ends: "(dep_predecessor_task_id d, dep_revision_id d) \<in> ?at ` set ts' \<and> (dep_successor_task_id d, dep_revision_id d) \<in> ?at ` set ts'"
    if "d \<in> set ds'" for d
    using new that rev by (auto simp: fresh_dependencies_def image_iff)
  have old: "Field (dependency_edge ` set ds) \<subseteq> tk_task_id ` set ts"
    using inv by (force simp: graph_dependencies_ok_def Field_def dependency_edge_def)
  have "Field (dependency_edge ` set ds') \<subseteq> tk_task_id ` set ts'"
    using new by (force simp: fresh_dependencies_def Field_def dependency_edge_def)
  then have "Field (dependency_edge ` set ds) \<inter> Field (dependency_edge ` set ds') = {}" using old fresh by blast
  then have acyc: "acyclic (dependency_edge ` set (ds @ ds'))"
    using inv new by (simp add: image_Un acyclic_disjoint_Un graph_dependencies_ok_def fresh_dependencies_def)
  have "distinct (map dependency_key ds')"
    using new by (auto simp: fresh_dependencies_def distinct_map inj_on_def dependency_key_def dependency_edge_def)
  moreover have "dependency_key ` set ds \<inter> dependency_key ` set ds' = {}"
    using k new by (auto simp: fresh_dependencies_def dependency_key_def)
  ultimately have "distinct (map dependency_key (ds @ ds'))"
    using inv by (simp add: graph_dependencies_ok_def)
  moreover have "(dep_predecessor_task_id d, dep_revision_id d) \<in> ?at ` set (ts @ ts') \<and>
      (dep_successor_task_id d, dep_revision_id d) \<in> ?at ` set (ts @ ts')" if "d \<in> set (ds @ ds')" for d
    unfolding set_append image_Un using that ends inv by (auto simp: graph_dependencies_ok_def)
  ultimately show ?thesis using acyc by (simp only: graph_dependencies_ok_def) blast
qed

lemma dependency_recorded:
  assumes "graph_inv n s" and "d \<in> set (wg_dependencies s)"
  shows "\<exists>r \<in> set (wg_revisions s). rv_revision_id r = dep_revision_id d"
proof -
  obtain t where t: "t \<in> set (wg_tasks s)" "tk_plan_revision_id t = dep_revision_id d"
    using assms by (auto simp: graph_inv_def graph_dependencies_ok_def)
  then have "task_ok n (wg_revisions s) t" using assms(1) by (simp add: graph_inv_def tasks_ok_def)
  then show ?thesis using t(2) by (auto simp: task_ok_def)
qed

lemma recorded_revision_inv:
  assumes inv: "graph_inv n s" and plan: "plan_of s (rv_plan_id r) = Some p" "pl_lifecycle_state p = Plan_OPEN"
    and new: "revision_of s (rv_revision_id r) = None"
    and ts: "fresh_tasks s (rv_plan_id r) (rv_revision_id r) n ts" and ds: "fresh_dependencies (rv_revision_id r) ts ds"
  shows "graph_inv n (s\<lparr>wg_revisions := wg_revisions s @ [r], wg_tasks := wg_tasks s @ ts, wg_dependencies := wg_dependencies s @ ds\<rparr>)"
proof -
  note parts = inv [unfolded graph_inv_def]
  have fresh: "tk_task_id ` set (wg_tasks s) \<inter> tk_task_id ` set ts = {}"
  proof -
    have "\<forall>t \<in> set ts. tk_task_id t \<notin> tk_task_id ` set (wg_tasks s)" using ts by (simp add: fresh_tasks_def task_of_None)
    then show ?thesis unfolding disjoint_iff by (metis imageE imageI)
  qed
  have "dep_revision_id d \<noteq> rv_revision_id r" if "d \<in> set (wg_dependencies s)" for d
    using dependency_recorded [OF inv that] new [unfolded revision_of_None] by (metis imageI)
  then have old: "rv_revision_id r \<notin> dep_revision_id ` set (wg_dependencies s)" by (metis imageE)
  have "tk_plan_revision_id t = rv_revision_id r" if "t \<in> set ts" for t using ts that by (simp add: fresh_tasks_def)
  from added_dependencies [OF _ ds old this fresh]
  have deps: "graph_dependencies_ok (wg_tasks s @ ts) (wg_dependencies s @ ds)" using parts by blast
  have "task_ok n (wg_revisions s @ [r]) t" if "t \<in> set ts" for t
    using ts that by (simp add: fresh_tasks_def task_ok_def TASK_TERMINAL_def)
  moreover have "task_ok n (wg_revisions s @ [r]) t" if "t \<in> set (wg_tasks s)" for t
    using parts that by (auto simp: tasks_ok_def intro: task_ok_mono)
  ultimately have tasks: "tasks_ok n (wg_revisions s @ [r]) (wg_tasks s @ ts)"
    using parts fresh ts by (auto simp: tasks_ok_def fresh_tasks_def)
  have plan_unique: "p' = p" if "p' \<in> set (wg_plans s)" "pl_plan_id p' = rv_plan_id r" for p'
    using plan(1) that parts by (auto simp: plans_ok_def plan_of_def find_by_Some_iff distinct_map inj_on_def)
  have closed: "closed_ok (wg_plans s) (wg_tasks s @ ts)"
    using parts plan_unique plan(2) ts by (auto simp: closed_ok_def fresh_tasks_def)
  have "plans_ok (wg_plans s) (wg_revisions s @ [r])" using parts by (fastforce simp: plans_ok_def)
  moreover have "rv_plan_id r \<in> pl_plan_id ` set (wg_plans s)" using plan_ofD [OF plan(1)] by force
  then have "revisions_ok (wg_plans s) (wg_revisions s @ [r])"
    using parts new by (auto simp: revisions_ok_def revision_of_None)
  ultimately show ?thesis using parts tasks closed deps by (simp add: graph_inv_def)
qed

lemma task_plan_known:
  assumes "graph_inv n s" and "t \<in> set (wg_tasks s)"
  shows "tk_plan_id t \<in> pl_plan_id ` set (wg_plans s)"
proof -
  have "task_ok n (wg_revisions s) t" using assms by (simp add: graph_inv_def tasks_ok_def)
  then obtain r where "r \<in> set (wg_revisions s)" "rv_plan_id r = tk_plan_id t" by (auto simp: task_ok_def)
  then show ?thesis using assms(1) unfolding graph_inv_def revisions_ok_def by metis
qed

lemma graph_step_inv: "graph_step n s s' \<Longrightarrow> graph_inv m s \<Longrightarrow> m \<le> n \<Longrightarrow> graph_inv n s'"
proof (induction rule: graph_step.induct)
  case (plan_created s p)
  have "pl_plan_id p \<notin> pl_plan_id ` set (wg_plans s)" using plan_created.hyps(1) by (simp add: plan_of_None)
  moreover have "tk_plan_id t \<noteq> pl_plan_id p" if "t \<in> set (wg_tasks s)" for t
    using task_plan_known [OF plan_created.prems(1) that] calculation by metis
  moreover note graph_inv_mono [OF plan_created.prems]
  ultimately show ?case using plan_created.hyps(2,3)
    by (auto simp: graph_inv_def plans_ok_def revisions_ok_def closed_ok_def)
next
  case (revision_recorded s r p ts ds)
  show ?case
    by (rule recorded_revision_inv [OF graph_inv_mono [OF revision_recorded.prems] revision_recorded.hyps(1-3,5,6)])
next
  case (revision_activated s i p k r)
  note parts = graph_inv_mono [OF revision_activated.prems, unfolded graph_inv_def]
  note p = plan_ofD [OF revision_activated.hyps(1)] and r = revision_ofD [OF revision_activated.hyps(3)]
  have "plans_ok (replace_plan s (p\<lparr>pl_current_revision_id := Some k\<rparr>)) (wg_revisions s)"
      "revisions_ok (replace_plan s (p\<lparr>pl_current_revision_id := Some k\<rparr>)) (wg_revisions s)"
    unfolding replace_plan_def using parts p r revision_activated.hyps(4)
    by (intro replaced_plan_parts [of _ _ p]; auto)+
  moreover have "closed_ok (replace_plan s (p\<lparr>pl_current_revision_id := Some k\<rparr>)) (wg_tasks s)"
    unfolding replace_plan_def using parts revision_activated.hyps(2) by (intro replaced_plan_closed) simp_all
  ultimately show ?case using parts by (simp add: graph_inv_def)
next
  case (plan_moved s i p l)
  note parts = graph_inv_mono [OF plan_moved.prems, unfolded graph_inv_def]
  note p = plan_ofD [OF plan_moved.hyps(1)]
  have "plans_ok (replace_plan s (p\<lparr>pl_lifecycle_state := l\<rparr>)) (wg_revisions s)"
      "revisions_ok (replace_plan s (p\<lparr>pl_lifecycle_state := l\<rparr>)) (wg_revisions s)"
    unfolding replace_plan_def using parts p
    by (intro replaced_plan_parts [of _ _ p]; auto simp: plans_ok_def)+
  moreover have "closed_ok (replace_plan s (p\<lparr>pl_lifecycle_state := l\<rparr>)) (wg_tasks s)"
  proof -
    have "\<forall>t \<in> set (wg_tasks s). tk_plan_id t = i \<longrightarrow> tk_lifecycle_state t \<in> set TASK_TERMINAL"
      if "l \<noteq> Plan_OPEN"
    proof (cases "l = Plan_CLOSED")
      case True
      then show ?thesis using plan_moved.hyps(3) by (simp add: open_task_ok)
    next
      case False
      then have "pl_lifecycle_state p \<noteq> Plan_OPEN" using plan_moved.hyps(2) that by (auto simp: plan_edges_def)
      then show ?thesis using parts p by (auto simp: closed_ok_def)
    qed
    then show ?thesis unfolding replace_plan_def using parts p by (intro replaced_plan_closed) simp_all
  qed
  ultimately show ?case using parts by (simp add: graph_inv_def)
next
  case (task_activated s i t p)
  let ?t = "t\<lparr>tk_lifecycle_state := Task_ACTIVE, tk_outcome := None, tk_updated_seq := n\<rparr>"
  note parts = graph_inv_mono [OF task_activated.prems, unfolded graph_inv_def]
  note t = task_ofD [OF task_activated.hyps(1)] and p = plan_ofD [OF task_activated.hyps(3)]
  have "task_ok n (wg_revisions s) t" using parts t by (simp add: tasks_ok_def)
  then have ok: "task_ok n (wg_revisions s) ?t" by (auto simp: task_ok_def TASK_TERMINAL_def)
  have "tk_lifecycle_state ?t \<in> set TASK_TERMINAL"
    if "q \<in> set (wg_plans s)" "pl_plan_id q = tk_plan_id t" "pl_lifecycle_state q \<noteq> Plan_OPEN" for q
  proof -
    have "q = p" using that p parts by (auto simp: plans_ok_def distinct_map inj_on_def)
    then show ?thesis using that task_activated.hyps(4) by simp
  qed
  from replaced_task_parts [OF _ _ _ conjunct1 [OF t] order_refl _ _ _ ok this] show ?case
    using parts by (auto simp: graph_inv_def replace_task_def)
next
  case (task_ended s i t l d)
  let ?t = "t\<lparr>tk_lifecycle_state := l, tk_outcome := Some d, tk_updated_seq := n\<rparr>"
  note parts = graph_inv_mono [OF task_ended.prems, unfolded graph_inv_def]
  note t = task_ofD [OF task_ended.hyps(1)]
  have "task_ok n (wg_revisions s) t" using parts t by (simp add: tasks_ok_def)
  then have ok: "task_ok n (wg_revisions s) ?t" using task_ended.hyps(3) by (auto simp: task_ok_def)
  have "tk_lifecycle_state ?t \<in> set TASK_TERMINAL" using task_ended.hyps(3) by simp
  from replaced_task_parts [OF _ _ _ conjunct1 [OF t] order_refl _ _ _ ok this] show ?case
    using parts by (auto simp: graph_inv_def replace_task_def)
next
  case (snapshot_recorded s x)
  then show ?case using graph_inv_mono [OF snapshot_recorded.prems]
    by (auto simp: graph_inv_def snapshots_ok_def snapshot_of_None)
qed

section \<open>Evolution of the graph\<close>

definition plan_evolves :: "plan_state \<Rightarrow> plan_state \<Rightarrow> bool" where
  "plan_evolves p q \<longleftrightarrow> pl_plan_id q = pl_plan_id p \<and> pl_created_at q = pl_created_at p \<and> pl_created_by q = pl_created_by p \<and>
     pl_lifecycle_state p \<le> pl_lifecycle_state q \<and>
     (pl_lifecycle_state p \<noteq> Plan_OPEN \<longrightarrow> pl_current_revision_id q = pl_current_revision_id p)"

definition task_evolves :: "task_state \<Rightarrow> task_state \<Rightarrow> bool" where
  "task_evolves t u \<longleftrightarrow> tk_task_id u = tk_task_id t \<and> tk_task_key u = tk_task_key t \<and> tk_plan_id u = tk_plan_id t \<and>
     tk_plan_revision_id u = tk_plan_revision_id t \<and> tk_intent u = tk_intent t \<and>
     tk_acceptance_criteria u = tk_acceptance_criteria t \<and> tk_created_seq u = tk_created_seq t \<and>
     tk_lifecycle_state t \<le> tk_lifecycle_state u \<and> (tk_lifecycle_state t \<in> set TASK_TERMINAL \<longrightarrow> u = t)"

definition graph_evolves :: "work_graph \<Rightarrow> work_graph \<Rightarrow> bool" where
  "graph_evolves s s' \<longleftrightarrow> wg_mission_id s' = wg_mission_id s \<and>
     (\<forall>i p. plan_of s i = Some p \<longrightarrow> (\<exists>q. plan_of s' i = Some q \<and> plan_evolves p q)) \<and>
     (\<forall>i t. task_of s i = Some t \<longrightarrow> (\<exists>u. task_of s' i = Some u \<and> task_evolves t u)) \<and>
     (\<exists>rs. wg_revisions s' = wg_revisions s @ rs) \<and> (\<exists>ds. wg_dependencies s' = wg_dependencies s @ ds) \<and>
     (\<exists>xs. wg_snapshots s' = wg_snapshots s @ xs)"

lemma plan_evolves_refl [simp]: "plan_evolves p p"
  by (simp add: plan_evolves_def)

lemma task_evolves_refl [simp]: "task_evolves t t"
  by (simp add: task_evolves_def)

lemma plan_evolves_trans:
  assumes "plan_evolves p q" and "plan_evolves q r"
  shows "plan_evolves p r"
proof -
  have "pl_lifecycle_state q \<noteq> Plan_OPEN" if "pl_lifecycle_state p \<noteq> Plan_OPEN"
    using assms(1) that
    by (cases "pl_lifecycle_state p"; cases "pl_lifecycle_state q") (auto simp: plan_evolves_def less_eq_plan_lifecycle_def)
  then show ?thesis using assms unfolding plan_evolves_def by (metis order_trans)
qed

lemma task_evolves_trans:
  assumes "task_evolves t u" and "task_evolves u v"
  shows "task_evolves t v"
proof -
  have "tk_lifecycle_state t \<le> tk_lifecycle_state v"
    using assms unfolding task_evolves_def by (meson order_trans)
  moreover have "v = t" if "tk_lifecycle_state t \<in> set TASK_TERMINAL"
    using assms that unfolding task_evolves_def by metis
  ultimately show ?thesis using assms unfolding task_evolves_def by metis
qed

lemma graph_evolves_refl: "graph_evolves s s"
  by (simp add: graph_evolves_def)

lemma graph_evolves_trans:
  assumes st: "graph_evolves s t" and tu: "graph_evolves t u"
  shows "graph_evolves s u"
proof -
  have "\<exists>q. plan_of u i = Some q \<and> plan_evolves p q" if "plan_of s i = Some p" for i p
    using st tu that unfolding graph_evolves_def by (meson plan_evolves_trans)
  moreover have "\<exists>q. task_of u i = Some q \<and> task_evolves p q" if "task_of s i = Some p" for i p
    using st tu that unfolding graph_evolves_def by (meson task_evolves_trans)
  moreover have "wg_mission_id u = wg_mission_id s" "\<exists>rs. wg_revisions u = wg_revisions s @ rs"
      "\<exists>ds. wg_dependencies u = wg_dependencies s @ ds" "\<exists>xs. wg_snapshots u = wg_snapshots s @ xs"
    using st tu by (auto simp: graph_evolves_def)
  ultimately show ?thesis unfolding graph_evolves_def by blast
qed

text \<open>The lookups after each kind of update.\<close>

lemma lookups_frame [simp]:
  "plan_of (s\<lparr>wg_revisions := rs\<rparr>) = plan_of s" "plan_of (s\<lparr>wg_tasks := ts\<rparr>) = plan_of s"
  "plan_of (s\<lparr>wg_dependencies := ds\<rparr>) = plan_of s" "plan_of (s\<lparr>wg_snapshots := xs\<rparr>) = plan_of s"
  "task_of (s\<lparr>wg_plans := ps\<rparr>) = task_of s" "task_of (s\<lparr>wg_revisions := rs\<rparr>) = task_of s"
  "task_of (s\<lparr>wg_dependencies := ds\<rparr>) = task_of s" "task_of (s\<lparr>wg_snapshots := xs\<rparr>) = task_of s"
  by (simp_all add: plan_of_def task_of_def fun_eq_iff)

lemma plan_of_replaced:
  "plan_of (s\<lparr>wg_plans := replace_plan s p\<rparr>) k =
     (if k = pl_plan_id p then map_option (\<lambda>_. p) (plan_of s k) else plan_of s k)"
  by (simp add: plan_of_def replace_plan_def keyed_simps)

lemma task_of_replaced:
  "task_of (s\<lparr>wg_tasks := replace_task s t\<rparr>) k =
     (if k = tk_task_id t then map_option (\<lambda>_. t) (task_of s k) else task_of s k)"
  by (simp add: task_of_def replace_task_def keyed_simps)

lemma replaced_plan_evolves:
  assumes "plan_of s i = Some p" and "plan_evolves p q"
  shows "graph_evolves s (s\<lparr>wg_plans := replace_plan s q\<rparr>)"
  using assms plan_ofD [OF assms(1)] by (auto simp: graph_evolves_def plan_of_replaced plan_evolves_def)

lemma replaced_task_evolves:
  assumes "task_of s i = Some t" and "task_evolves t u"
  shows "graph_evolves s (s\<lparr>wg_tasks := replace_task s u\<rparr>)"
  using assms task_ofD [OF assms(1)] by (auto simp: graph_evolves_def task_of_replaced task_evolves_def)

lemma graph_step_evolves: "graph_step n s s' \<Longrightarrow> graph_evolves s s'"
proof (induction rule: graph_step.induct)
  case (plan_created s p)
  then show ?case by (auto simp: graph_evolves_def plan_of_def keyed_simps)
next
  case (revision_recorded s r p ts ds)
  show ?case by (auto simp: graph_evolves_def task_of_def keyed_simps)
next
  case (revision_activated s i p k r)
  show ?case
    by (rule replaced_plan_evolves [OF revision_activated.hyps(1)]) (simp add: plan_evolves_def revision_activated.hyps(2))
next
  case (plan_moved s i p l)
  show ?case
    by (rule replaced_plan_evolves [OF plan_moved.hyps(1)])
       (use plan_moved.hyps(2) in \<open>auto simp: plan_evolves_def plan_edges_def less_eq_plan_lifecycle_def\<close>)
next
  case (task_activated s i t p)
  show ?case
    by (rule replaced_task_evolves [OF task_activated.hyps(1)])
       (use task_activated.hyps(2) in \<open>simp add: task_evolves_def less_eq_task_lifecycle_def TASK_TERMINAL_def\<close>)
next
  case (task_ended s i t l d)
  show ?case
    by (rule replaced_task_evolves [OF task_ended.hyps(1)])
       (use task_ended.hyps(2,3) in \<open>cases "tk_lifecycle_state t"; auto simp: task_evolves_def less_eq_task_lifecycle_def TASK_TERMINAL_def\<close>)
next
  case (snapshot_recorded s x)
  show ?case by (simp add: graph_evolves_def)
qed

end
