(* ===== verification/WgHandlers.thy ===== *)
theory WgHandlers
  imports WgInvariant Registry
begin

text \<open>
  work_graph/handlers.py: the command handlers of the work graph.  A command is checked against the
  composed state and answered with one event, or refused with an error code.

  The extension state of the composed state has the type \<open>work_graph\<close> here, so the \<open>isinstance\<close> check of
  \<open>_state\<close> is typing.  \<open>enumerate\<close> is kept, because the index is part of the messages.

  Main result: the handlers are sound for the reducer (\<open>wg_handle_sound\<close>): the event of an accepted
  command, in the form in which the bus stores it, is accepted by \<open>wg_reduce\<close>.
\<close>

section \<open>Reading a command\<close>

definition WG_COMMAND_TYPES :: "string list" where
  "WG_COMMAND_TYPES =
     [''CREATE_PLAN'', ''RECORD_PLAN_REVISION'', ''ACTIVATE_PLAN_REVISION'', ''CLOSE_PLAN'', ''ARCHIVE_PLAN'',
      ''TRANSITION_TASK'', ''RECORD_WORK_SNAPSHOT'']"

definition wg_state :: "work_graph composed_state \<Rightarrow> work_graph py" where
  "wg_state composed = extension_state composed EXTENSION_ID"

definition require_mutable_mission :: "'x composed_state \<Rightarrow> unit py" where
  "require_mutable_mission composed =
     (case rs_mission (cs_core_state composed) of
        None \<Rightarrow> runtime_error ''MISSION_NOT_FOUND'' (''Mission not found: '' @ cs_mission_id composed)
      | Some m \<Rightarrow>
          if ms_status m \<in> set [Mission_COMPLETED, Mission_FAILED, Mission_CANCELLED] then
            runtime_error ''INVALID_STATE_TRANSITION'' ''terminal Mission cannot mutate Work Graph''
          else Inr ())"

definition require_list :: "dict \<Rightarrow> string \<Rightarrow> json list py" where
  "require_list payload key =
     (case dget payload key of
        JList xs \<Rightarrow> Inr xs
      | _ \<Rightarrow> runtime_error ''COMMAND_SCHEMA_INVALID'' (''payload.'' @ key @ '' must be an array''))"

definition optional_text :: "dict \<Rightarrow> string \<Rightarrow> string option py" where
  "optional_text payload key =
     (if dget payload key = JNull then Inr None
      else and_then (require_text (dget payload key) (''payload.'' @ key)) (\<lambda>s. Inr (Some s)))"

definition plan_named :: "work_graph \<Rightarrow> string \<Rightarrow> plan_state py" where
  "plan_named s i =
     (case plan_of s i of
        None \<Rightarrow> runtime_error ''PLAN_NOT_FOUND'' (''Plan not found: '' @ i)
      | Some p \<Rightarrow> Inr p)"

definition require_open_plan :: "work_graph \<Rightarrow> string \<Rightarrow> plan_state py" where
  "require_open_plan s i =
     and_then (plan_named s i) (\<lambda>p.
     if pl_lifecycle_state p = Plan_ARCHIVED then runtime_error ''PLAN_ARCHIVED'' (''Plan is archived: '' @ i)
     else if pl_lifecycle_state p \<noteq> Plan_OPEN then runtime_error ''PLAN_NOT_OPEN'' (''Plan is not OPEN: '' @ i)
     else Inr p)"

text \<open>\<open>f"{name}[{index}]"\<close>\<close>

definition item_name :: "string \<Rightarrow> nat \<Rightarrow> string" where
  "item_name name i = name @ ''['' @ show_nat i @ '']''"

section \<open>Recording a revision\<close>

definition normalized_constraint :: "nat \<times> json \<Rightarrow> dict py" where
  "normalized_constraint = (\<lambda>(i, raw).
     let name = item_name ''payload.constraints'' i in
     case raw of
       JObj d \<Rightarrow>
         and_then (require_text (dget d ''kind'') (name @ ''.kind'')) (\<lambda>kind.
         if \<not> dhas d ''value'' then runtime_error ''COMMAND_SCHEMA_INVALID'' (name @ ''.value is required'')
         else Inr [(''kind'', JStr kind), (''value'', dget d ''value'')])
     | _ \<Rightarrow> runtime_error ''COMMAND_SCHEMA_INVALID'' (name @ '' must be an object''))"

definition normalized_constraints :: "dict \<Rightarrow> dict list py" where
  "normalized_constraints payload =
     and_then (require_list payload ''constraints'') (\<lambda>raws. map_res normalized_constraint (enumerate 0 raws))"

text \<open>One criterion of a task; the accumulator holds \<open>criteria\<close> and \<open>criterion_ids\<close>.\<close>

definition normalized_criterion ::
  "string \<Rightarrow> dict list \<times> string list \<Rightarrow> nat \<times> json \<Rightarrow> (dict list \<times> string list) py" where
  "normalized_criterion task_name = (\<lambda>(criteria, criterion_ids) (i, raw).
     let name = item_name (task_name @ ''.acceptance_criteria'') i in
     case raw of
       JObj d \<Rightarrow>
         and_then (require_text (dget d ''criterion_id'') (name @ ''.criterion_id'')) (\<lambda>criterion_id.
         and_then (require_text (dget d ''description'') (name @ ''.description'')) (\<lambda>description.
         if criterion_id \<in> set criterion_ids then
           runtime_error ''COMMAND_SCHEMA_INVALID'' (''duplicate criterion_id: '' @ criterion_id)
         else Inr (criteria @ [[(''criterion_id'', JStr criterion_id), (''description'', JStr description)]],
                   criterion_ids @ [criterion_id])))
     | _ \<Rightarrow> runtime_error ''COMMAND_SCHEMA_INVALID'' ''acceptance criterion must be an object'')"

text \<open>One task definition; the accumulator holds \<open>result\<close>, \<open>task_ids\<close> and \<open>task_keys\<close>.\<close>

type_synonym task_acc = "dict list \<times> string list \<times> string list"

definition normalized_task :: "work_graph \<Rightarrow> task_acc \<Rightarrow> nat \<times> json \<Rightarrow> task_acc py" where
  "normalized_task s = (\<lambda>(result, task_ids, task_keys) (i, raw).
     let name = item_name ''payload.task_definitions'' i in
     case raw of
       JObj d \<Rightarrow>
         and_then (require_text (dget d ''task_id'') (name @ ''.task_id'')) (\<lambda>task_id.
         and_then (require_text (dget d ''task_key'') (name @ ''.task_key'')) (\<lambda>task_key.
         and_then (require_text (dget d ''intent'') (name @ ''.intent'')) (\<lambda>intent.
         if task_id \<in> set task_ids \<or> task_of s task_id \<noteq> None then
           runtime_error ''TASK_ID_CONFLICT'' (''Task id already used: '' @ task_id)
         else if task_key \<in> set task_keys then
           runtime_error ''TASK_KEY_CONFLICT'' (''Task key repeated in Revision: '' @ task_key)
         else case dget d ''acceptance_criteria'' of
           JList raw_criteria \<Rightarrow>
             and_then (fold_res (normalized_criterion name) ([], []) (enumerate 0 raw_criteria)) (\<lambda>(criteria, _).
             Inr (result @ [[(''task_id'', JStr task_id), (''task_key'', JStr task_key), (''intent'', JStr intent),
                             (''acceptance_criteria'', dict_list criteria)]],
                  task_ids @ [task_id], task_keys @ [task_key]))
         | _ \<Rightarrow> runtime_error ''COMMAND_SCHEMA_INVALID'' (name @ ''.acceptance_criteria must be an array''))))
     | _ \<Rightarrow> runtime_error ''COMMAND_SCHEMA_INVALID'' (name @ '' must be an object''))"

definition normalized_tasks :: "dict \<Rightarrow> work_graph \<Rightarrow> (dict list \<times> string list) py" where
  "normalized_tasks payload s =
     and_then (require_list payload ''task_definitions'') (\<lambda>raws.
     and_then (fold_res (normalized_task s) ([], [], []) (enumerate 0 raws)) (\<lambda>(result, task_ids, _).
     Inr (result, task_ids)))"

text \<open>One dependency; the accumulator holds \<open>result\<close> and \<open>edges\<close>, the pairs of \<open>result\<close> in order.\<close>

definition normalized_dependency ::
  "work_graph \<Rightarrow> string list \<Rightarrow> dict list \<times> edges \<Rightarrow> nat \<times> json \<Rightarrow> (dict list \<times> edges) py" where
  "normalized_dependency s task_ids = (\<lambda>(result, edges) (i, raw).
     let name = item_name ''payload.dependencies'' i in
     case raw of
       JObj d \<Rightarrow>
         and_then (require_text (dget d ''predecessor_task_id'') (name @ ''.predecessor_task_id'')) (\<lambda>predecessor.
         and_then (require_text (dget d ''successor_task_id'') (name @ ''.successor_task_id'')) (\<lambda>successor.
         and_then (require_text (dget d ''dependency_kind'') (name @ ''.dependency_kind'')) (\<lambda>kind.
         if kind \<noteq> ''FINISH_TO_START'' then
           runtime_error ''UNSUPPORTED_DEPENDENCY_KIND'' (''unsupported dependency kind: '' @ kind)
         else if predecessor = successor then
           runtime_error ''DEPENDENCY_SELF_REFERENCE'' (''Task cannot depend on itself: '' @ predecessor)
         else (case filter (\<lambda>t. t \<notin> set task_ids) [predecessor, successor] of
             t # missing \<Rightarrow>
               if list_ex (\<lambda>t. task_of s t \<noteq> None) (t # missing) then
                 runtime_error ''CROSS_REVISION_DEPENDENCY_UNSUPPORTED'' ''dependency crosses Revision boundary''
               else runtime_error ''DEPENDENCY_TARGET_NOT_FOUND'' (''dependency Task not found: '' @ t)
           | [] \<Rightarrow>
               if (predecessor, successor) \<in> set edges then
                 runtime_error ''COMMAND_SCHEMA_INVALID'' ''duplicate Task dependency''
               else Inr (result @ [[(''predecessor_task_id'', JStr predecessor), (''successor_task_id'', JStr successor),
                                    (''dependency_kind'', JStr kind)]],
                         edges @ [(predecessor, successor)])))))
     | _ \<Rightarrow> runtime_error ''COMMAND_SCHEMA_INVALID'' (name @ '' must be an object''))"

definition normalized_dependencies :: "dict \<Rightarrow> work_graph \<Rightarrow> string list \<Rightarrow> dict list py" where
  "normalized_dependencies payload s task_ids =
     and_then (require_list payload ''dependencies'') (\<lambda>raws.
     and_then (fold_res (normalized_dependency s task_ids) ([], []) (enumerate 0 raws)) (\<lambda>(result, edges).
     if has_cycle task_ids edges then runtime_error ''DEPENDENCY_CYCLE'' ''Task dependencies must be acyclic''
     else Inr result))"

text \<open>The parent revision that the payload names, if any.\<close>

definition parent_revision :: "dict \<Rightarrow> work_graph \<Rightarrow> string \<Rightarrow> string option py" where
  "parent_revision payload s plan_id =
     (if dget payload ''parent_revision_id'' = JNull then Inr None
      else
        and_then (require_text (dget payload ''parent_revision_id'') ''payload.parent_revision_id'') (\<lambda>parent_id.
        case revision_of s parent_id of
          None \<Rightarrow> runtime_error ''REVISION_NOT_FOUND'' (''Revision not found: '' @ parent_id)
        | Some parent \<Rightarrow>
            if rv_plan_id parent \<noteq> plan_id then
              runtime_error ''REVISION_PLAN_MISMATCH'' ''parent Revision belongs to another Plan''
            else Inr (Some parent_id)))"

definition revision_event :: "(string \<Rightarrow> string) \<Rightarrow> command_envelope \<Rightarrow> work_graph \<Rightarrow> pending_event py" where
  "revision_event sha c s =
     and_then (require_text (dget (c_payload c) ''plan_id'') ''payload.plan_id'') (\<lambda>plan_id.
     and_then (require_open_plan s plan_id) (\<lambda>_.
     and_then (require_text (dget (c_payload c) ''revision_id'') ''payload.revision_id'') (\<lambda>revision_id.
     if revision_of s revision_id \<noteq> None then
       runtime_error ''REVISION_ID_CONFLICT'' (''Revision id already used: '' @ revision_id)
     else
       and_then (parent_revision (c_payload c) s plan_id) (\<lambda>parent.
       and_then (require_text (dget (c_payload c) ''objective'') ''payload.objective'') (\<lambda>objective.
       and_then (normalized_constraints (c_payload c)) (\<lambda>constraints.
       and_then (normalized_tasks (c_payload c) s) (\<lambda>(tasks, task_ids).
       and_then (normalized_dependencies (c_payload c) s task_ids) (\<lambda>dependencies.
       let content = [(''plan_id'', JStr plan_id), (''revision_id'', JStr revision_id),
                      (''parent_revision_id'', jopt parent),
                      (''content_schema_version'', JInt WORK_GRAPH_SCHEMA_VERSION),
                      (''objective'', JStr objective), (''constraints'', dict_list constraints),
                      (''task_definitions'', dict_list tasks), (''dependencies'', dict_list dependencies)]
       in Inr \<lparr>pe_event_type = ''plan.revision_recorded.v1'', pe_entity_type = ''PLAN_REVISION'',
               pe_entity_id = revision_id,
               pe_payload = content @ [(''content_hash'', JStr (canonical_sha256 sha (JObj content)))],
               pe_session_id = None\<rparr>))))))))"

section \<open>Task transitions\<close>

definition normalize_reference :: "nat \<times> json \<Rightarrow> dict py" where
  "normalize_reference = (\<lambda>(i, raw).
     let name = item_name ''external_references'' i in
     case raw of
       JObj d \<Rightarrow>
         and_then (require_text (dget d ''namespace'') (name @ ''.namespace'')) (\<lambda>namespace.
         and_then (require_text (dget d ''id'') (name @ ''.id'')) (\<lambda>i.
         let reference = [(''namespace'', JStr namespace), (''id'', JStr i)] in
         if dget d ''version'' = JNull then Inr reference
         else
           and_then (require_text (dget d ''version'') (name @ ''.version'')) (\<lambda>version.
           Inr (reference @ [(''version'', JStr version)]))))
     | _ \<Rightarrow> runtime_error ''COMMAND_SCHEMA_INVALID'' ''external reference must be an object'')"

definition normalize_outcome :: "json \<Rightarrow> dict py" where
  "normalize_outcome v =
     (case v of
        JObj d \<Rightarrow>
          and_then (require_text (dget d ''summary'') ''payload.outcome.summary'') (\<lambda>summary.
          case dget_default d ''external_references'' (JList []) of
            JList raws \<Rightarrow>
              and_then (map_res normalize_reference (enumerate 0 raws)) (\<lambda>references.
              Inr [(''summary'', JStr summary), (''external_references'', dict_list references)])
          | _ \<Rightarrow> runtime_error ''COMMAND_SCHEMA_INVALID'' ''payload.outcome.external_references must be an array'')
      | _ \<Rightarrow> runtime_error ''TASK_OUTCOME_REQUIRED'' ''terminal Task transition requires payload.outcome'')"

text \<open>The event type and the outcome of an allowed transition.\<close>

definition task_transition ::
  "command_envelope \<Rightarrow> plan_state \<Rightarrow> task_state \<Rightarrow> task_lifecycle \<Rightarrow> (string \<times> dict option) py" where
  "task_transition c plan task target =
     (if target = Task_ACTIVE then
        if dget (c_payload c) ''outcome'' \<noteq> JNull then
          runtime_error ''TASK_OUTCOME_NOT_ALLOWED'' ''ACTIVE transition cannot record outcome''
        else if tk_lifecycle_state task \<noteq> Task_PENDING then
          if tk_lifecycle_state task \<in> set TASK_TERMINAL then
            runtime_error ''TASK_TERMINAL'' (''Task is terminal: '' @ tk_task_id task)
          else runtime_error ''INVALID_TASK_TRANSITION'' ''Task can enter ACTIVE only from PENDING''
        else if pl_lifecycle_state plan \<noteq> Plan_OPEN then
          runtime_error ''PLAN_NOT_OPEN'' (''Plan is not OPEN: '' @ pl_plan_id plan)
        else if pl_current_revision_id plan \<noteq> Some (tk_plan_revision_id task) then
          runtime_error ''TASK_REVISION_NOT_CURRENT'' ''only current Revision Tasks may enter ACTIVE''
        else Inr (''task.lifecycle_changed.v1'', None)
      else if target \<in> set TASK_TERMINAL then
        if tk_lifecycle_state task \<in> set TASK_TERMINAL then
          runtime_error ''TASK_TERMINAL'' (''Task is terminal: '' @ tk_task_id task)
        else if target \<in> set [Task_SUCCEEDED, Task_FAILED] \<and> tk_lifecycle_state task \<noteq> Task_ACTIVE then
          runtime_error ''INVALID_TASK_TRANSITION'' (task_lifecycle_value target @ '' requires ACTIVE Task'')
        else if target = Task_CANCELLED \<and> tk_lifecycle_state task \<notin> set [Task_PENDING, Task_ACTIVE] then
          runtime_error ''INVALID_TASK_TRANSITION'' ''Task cannot be CANCELLED from current state''
        else
          and_then (normalize_outcome (dget (c_payload c) ''outcome'')) (\<lambda>outcome.
          Inr (''task.outcome_recorded.v1'', Some outcome))
      else runtime_error ''INVALID_TASK_TRANSITION'' (''unsupported Task transition: '' @ task_lifecycle_value target))"

definition transition_event :: "command_envelope \<Rightarrow> work_graph \<Rightarrow> pending_event py" where
  "transition_event c s =
     (let payload = c_payload c in
      and_then (require_text (dget payload ''plan_id'') ''payload.plan_id'') (\<lambda>plan_id.
      and_then (require_text (dget payload ''plan_revision_id'') ''payload.plan_revision_id'') (\<lambda>revision_id.
      and_then (require_text (dget payload ''task_id'') ''payload.task_id'') (\<lambda>task_id.
      and_then (plan_named s plan_id) (\<lambda>plan.
      case task_of s task_id of
        None \<Rightarrow> runtime_error ''TASK_NOT_FOUND'' (''Task not found: '' @ task_id)
      | Some task \<Rightarrow>
          if tk_plan_id task \<noteq> plan_id \<or> tk_plan_revision_id task \<noteq> revision_id then
            runtime_error ''REVISION_PLAN_MISMATCH'' ''Task identity does not match Plan Revision''
          else
            and_then (require_text (dget payload ''target_state'') ''payload.target_state'') (\<lambda>raw.
            case TaskLifecycleState raw of
              Inl _ \<Rightarrow> runtime_error ''COMMAND_SCHEMA_INVALID'' ''unsupported Task target_state''
            | Inr target \<Rightarrow>
                and_then (task_transition c plan task target) (\<lambda>(event_type, outcome).
                and_then (optional_text payload ''reason_code'') (\<lambda>reason_code.
                and_then (optional_text payload ''reason_summary'') (\<lambda>reason_summary.
                Inr \<lparr>pe_event_type = event_type, pe_entity_type = ''TASK'', pe_entity_id = task_id,
                     pe_payload =
                       [(''plan_id'', JStr plan_id), (''plan_revision_id'', JStr revision_id),
                        (''task_id'', JStr task_id),
                        (''from_state'', JStr (task_lifecycle_value (tk_lifecycle_state task))),
                        (''to_state'', JStr (task_lifecycle_value target)),
                        (''reason_code'', jopt reason_code), (''reason_summary'', jopt reason_summary)] @
                       (case outcome of None \<Rightarrow> [] | Some d \<Rightarrow> [(''outcome'', JObj d)]),
                     pe_session_id = None\<rparr>)))))))))"

section \<open>Plans\<close>

definition create_plan_event :: "command_envelope \<Rightarrow> work_graph \<Rightarrow> pending_event py" where
  "create_plan_event c s =
     and_then (require_text (dget (c_payload c) ''plan_id'') ''payload.plan_id'') (\<lambda>plan_id.
     if plan_of s plan_id \<noteq> None then violation (''Plan already exists: '' @ plan_id)
     else Inr \<lparr>pe_event_type = ''plan.created.v1'', pe_entity_type = ''PLAN'', pe_entity_id = plan_id,
               pe_payload = [(''plan_id'', JStr plan_id)], pe_session_id = None\<rparr>)"

definition activate_revision_event :: "command_envelope \<Rightarrow> work_graph \<Rightarrow> pending_event py" where
  "activate_revision_event c s =
     and_then (require_text (dget (c_payload c) ''plan_id'') ''payload.plan_id'') (\<lambda>plan_id.
     and_then (require_text (dget (c_payload c) ''revision_id'') ''payload.revision_id'') (\<lambda>revision_id.
     and_then (require_open_plan s plan_id) (\<lambda>plan.
     case revision_of s revision_id of
       None \<Rightarrow> runtime_error ''REVISION_NOT_FOUND'' (''Revision not found: '' @ revision_id)
     | Some r \<Rightarrow>
         if rv_plan_id r \<noteq> plan_id then
           runtime_error ''REVISION_PLAN_MISMATCH'' ''Revision belongs to another Plan''
         else if pl_current_revision_id plan = Some revision_id then
           runtime_error ''REVISION_ALREADY_CURRENT'' (''Revision already current: '' @ revision_id)
         else Inr \<lparr>pe_event_type = ''plan.revision_activated.v1'', pe_entity_type = ''PLAN_REVISION'',
                   pe_entity_id = revision_id,
                   pe_payload = [(''plan_id'', JStr plan_id), (''revision_id'', JStr revision_id),
                                 (''previous_revision_id'', jopt (pl_current_revision_id plan))],
                   pe_session_id = None\<rparr>)))"

definition plan_target :: "string \<Rightarrow> work_graph \<Rightarrow> plan_state \<Rightarrow> plan_lifecycle py" where
  "plan_target t s plan =
     (let i = pl_plan_id plan in
      if pl_lifecycle_state plan = Plan_ARCHIVED then runtime_error ''PLAN_ARCHIVED'' (''Plan is archived: '' @ i)
      else if t = ''CLOSE_PLAN'' then
        if pl_lifecycle_state plan \<noteq> Plan_OPEN then runtime_error ''PLAN_NOT_OPEN'' (''Plan is not OPEN: '' @ i)
        else if has_open_task s i then runtime_error ''PLAN_HAS_NONTERMINAL_TASKS'' ''Plan has non-terminal Tasks''
        else Inr Plan_CLOSED
      else if pl_lifecycle_state plan \<noteq> Plan_CLOSED then
        runtime_error ''PLAN_NOT_OPEN'' ''only CLOSED Plan can be archived''
      else Inr Plan_ARCHIVED)"

definition plan_lifecycle_event :: "command_envelope \<Rightarrow> work_graph \<Rightarrow> pending_event py" where
  "plan_lifecycle_event c s =
     and_then (require_text (dget (c_payload c) ''plan_id'') ''payload.plan_id'') (\<lambda>plan_id.
     and_then (require_text (dget (c_payload c) ''reason_code'') ''payload.reason_code'') (\<lambda>reason_code.
     and_then (plan_named s plan_id) (\<lambda>plan.
     and_then (plan_target (c_type c) s plan) (\<lambda>target.
     and_then (optional_text (c_payload c) ''reason_summary'') (\<lambda>reason_summary.
     Inr \<lparr>pe_event_type = ''plan.lifecycle_changed.v1'', pe_entity_type = ''PLAN'', pe_entity_id = plan_id,
          pe_payload = [(''plan_id'', JStr plan_id),
                        (''from_state'', JStr (plan_lifecycle_value (pl_lifecycle_state plan))),
                        (''to_state'', JStr (plan_lifecycle_value target)),
                        (''reason_code'', JStr reason_code), (''reason_summary'', jopt reason_summary)],
          pe_session_id = None\<rparr>)))))"

section \<open>Snapshots\<close>

definition snapshot_state_payload :: "work_graph composed_state \<Rightarrow> string \<Rightarrow> json \<Rightarrow> dict py" where
  "snapshot_state_payload composed scope plan_id =
     and_then (wg_state composed) (\<lambda>graph.
     snapshot_payload (cs_mission_id composed) (cs_seq composed) (JStr scope) plan_id (cs_core_state composed) graph)"

text \<open>The \<open>plan_id\<close> of the snapshot, by its scope.\<close>

definition snapshot_plan :: "dict \<Rightarrow> work_graph \<Rightarrow> string \<Rightarrow> json py" where
  "snapshot_plan payload s scope =
     (if scope = ''MISSION'' then
        if dget payload ''plan_id'' \<noteq> JNull then
          runtime_error ''SNAPSHOT_SCOPE_INVALID'' ''MISSION Snapshot cannot specify plan_id''
        else Inr JNull
      else if scope = ''PLAN'' then
        and_then (require_text (dget payload ''plan_id'') ''payload.plan_id'') (\<lambda>plan_id.
        and_then (plan_named s plan_id) (\<lambda>_. Inr (JStr plan_id)))
      else runtime_error ''SNAPSHOT_SCOPE_INVALID'' (''unsupported Snapshot scope: '' @ scope))"

definition snapshot_event :: "(string \<Rightarrow> string) \<Rightarrow> command_envelope \<Rightarrow> work_graph composed_state \<Rightarrow> work_graph \<Rightarrow> pending_event py" where
  "snapshot_event sha c composed s =
     (let payload = c_payload c in
      and_then (require_text (dget payload ''snapshot_id'') ''payload.snapshot_id'') (\<lambda>snapshot_id.
      if dhas payload ''state_payload'' \<or> dhas payload ''payload_hash'' then
        runtime_error ''COMMAND_SCHEMA_INVALID'' ''Snapshot state_payload and payload_hash are generated by the Runtime''
      else if snapshot_of s snapshot_id \<noteq> None then
        runtime_error ''SNAPSHOT_ID_CONFLICT'' (''Snapshot id already used: '' @ snapshot_id)
      else
        and_then (require_text (dget payload ''scope'') ''payload.scope'') (\<lambda>scope.
        and_then (snapshot_plan payload s scope) (\<lambda>plan_id.
        let as_of_seq = dget payload ''as_of_seq'' in
        if \<not> is_int as_of_seq \<or> is_bool as_of_seq \<or> \<not> py_eq as_of_seq (JInt (c_expected_seq c)) then
          runtime_error ''SNAPSHOT_AS_OF_SEQ_MISMATCH'' ''Snapshot as_of_seq must equal command.expected_seq''
        else
          and_then (snapshot_state_payload composed scope plan_id) (\<lambda>state_payload.
          Inr \<lparr>pe_event_type = ''snapshot.recorded.v1'', pe_entity_type = ''SNAPSHOT'', pe_entity_id = snapshot_id,
               pe_payload =
                 [(''snapshot_id'', JStr snapshot_id), (''scope'', JStr scope), (''plan_id'', plan_id),
                  (''as_of_seq'', as_of_seq), (''work_graph_schema_version'', JInt WORK_GRAPH_SCHEMA_VERSION),
                  (''projection_version'', JInt PROJECTION_VERSION),
                  (''canonicalization_version'', JInt CANONICALIZATION_VERSION),
                  (''payload_hash'', JStr (canonical_sha256 sha (JObj state_payload))),
                  (''state_payload'', JObj state_payload)],
               pe_session_id = None\<rparr>)))))"

section \<open>The handler\<close>

definition wg_handle :: "(string \<Rightarrow> string) \<Rightarrow> command_envelope \<Rightarrow> work_graph composed_state \<Rightarrow> pending_event list py" where
  "wg_handle sha c composed =
     (if c_type c \<notin> set WG_COMMAND_TYPES then
        runtime_error ''EXTENSION_COMMAND_NOT_OWNED'' (''unsupported Work Graph command: '' @ c_type c)
      else
        and_then (require_mutable_mission composed) (\<lambda>_.
        and_then (wg_state composed) (\<lambda>s.
        and_then (if c_type c = ''CREATE_PLAN'' then create_plan_event c s
                  else if c_type c = ''RECORD_PLAN_REVISION'' then revision_event sha c s
                  else if c_type c = ''ACTIVATE_PLAN_REVISION'' then activate_revision_event c s
                  else if c_type c \<in> set [''CLOSE_PLAN'', ''ARCHIVE_PLAN''] then plan_lifecycle_event c s
                  else if c_type c = ''TRANSITION_TASK'' then transition_event c s
                  else snapshot_event sha c composed s) (\<lambda>p. Inr [p]))))"

section \<open>Normal forms\<close>

lemma require_text_Inr [res_simps]: "require_text v name = Inr s \<longleftrightarrow> v = JStr s \<and> nonblank s"
  by (auto simp: require_text_def split: json.splits)

lemma require_list_Inr [res_simps]: "require_list d key = Inr xs \<longleftrightarrow> dget d key = JList xs"
  by (auto simp: require_list_def split: json.splits)

lemma plan_named_Inr [res_simps]: "plan_named s i = Inr p \<longleftrightarrow> plan_of s i = Some p"
  by (auto simp: plan_named_def split: option.split)

lemma require_open_plan_Inr [res_simps]:
  "require_open_plan s i = Inr p \<longleftrightarrow> plan_of s i = Some p \<and> pl_lifecycle_state p = Plan_OPEN"
  by (auto simp: require_open_plan_def res_simps)

lemma text_field_canon: "dget d k = JStr v \<Longrightarrow> text_field (canon_dict d) k = v"
  by (cases v) (simp_all add: text_field_def py_or_def dget_canon_dict)

text \<open>A normalized task definition and what the reducer makes of it.\<close>

type_synonym task_entry = "string \<times> string \<times> string \<times> dict list"

definition task_entry_dict :: "task_entry \<Rightarrow> dict" where
  "task_entry_dict = (\<lambda>(i, k, intent, cs).
     [(''task_id'', JStr i), (''task_key'', JStr k), (''intent'', JStr intent), (''acceptance_criteria'', dict_list cs)])"

definition entries_ok :: "work_graph \<Rightarrow> task_entry list \<Rightarrow> bool" where
  "entries_ok s xs \<longleftrightarrow> distinct (map fst xs) \<and> distinct (map (\<lambda>x. fst (snd x)) xs) \<and>
     (\<forall>(i, k, intent, cs) \<in> set xs. i \<noteq> [] \<and> k \<noteq> [] \<and> intent \<noteq> [] \<and> task_of s i = None)"

definition task_acc_ok :: "work_graph \<Rightarrow> task_acc \<Rightarrow> bool" where
  "task_acc_ok s acc \<longleftrightarrow> (\<exists>xs. acc = (map task_entry_dict xs, map fst xs, map (\<lambda>x. fst (snd x)) xs) \<and> entries_ok s xs)"

lemma normalized_task_ok:
  assumes "normalized_task s acc x = Inr acc'" and "task_acc_ok s acc"
  shows "task_acc_ok s acc'"
proof -
  obtain xs where xs: "acc = (map task_entry_dict xs, map fst xs, map (\<lambda>x. fst (snd x)) xs)" "entries_ok s xs"
    using assms(2) by (auto simp: task_acc_ok_def)
  obtain i raw where x: "x = (i, raw)" by (cases x)
  obtain d where raw: "raw = JObj d"
    using assms(1) by (cases raw) (simp_all add: normalized_task_def xs(1) x Let_def)
  obtain task_id key intent where parts: "nonblank task_id" "nonblank key" "nonblank intent"
      "task_id \<notin> fst ` set xs" "task_of s task_id = None" "key \<notin> (\<lambda>x. fst (snd x)) ` set xs"
    and rest: "(case dget d ''acceptance_criteria'' of
           JList raw_criteria \<Rightarrow>
             and_then (fold_res (normalized_criterion (item_name ''payload.task_definitions'' i)) ([], []) (enumerate 0 raw_criteria)) (\<lambda>(criteria, _).
             Inr (map task_entry_dict xs @ [[(''task_id'', JStr task_id), (''task_key'', JStr key), (''intent'', JStr intent),
                             (''acceptance_criteria'', dict_list criteria)]],
                  map fst xs @ [task_id], map (\<lambda>x. fst (snd x)) xs @ [key]))
         | _ \<Rightarrow> runtime_error ''COMMAND_SCHEMA_INVALID'' (item_name ''payload.task_definitions'' i @ ''.acceptance_criteria must be an array'')) = Inr acc'"
    using assms(1) by (auto simp: normalized_task_def xs(1) x raw Let_def res_simps split: if_split_asm)
  then obtain cs where "acc' = (map task_entry_dict (xs @ [(task_id, key, intent, cs)]), map fst (xs @ [(task_id, key, intent, cs)]),
      map (\<lambda>x. fst (snd x)) (xs @ [(task_id, key, intent, cs)]))"
    by (cases "dget d ''acceptance_criteria''") (auto simp: and_then_Inr_iff task_entry_dict_def)
  moreover have "entries_ok s (xs @ [(task_id, key, intent, cs)])"
    using xs(2) parts by (auto simp: entries_ok_def nonblank_nonempty)
  ultimately show ?thesis unfolding task_acc_ok_def by blast
qed

lemma normalized_tasks_Inr:
  assumes "normalized_tasks payload s = Inr (result, ids)"
  obtains xs where "result = map task_entry_dict xs" and "ids = map fst xs" and "entries_ok s xs"
proof -
  obtain raws keys where run: "fold_res (normalized_task s) ([], [], []) (enumerate 0 raws) = Inr (result, ids, keys)"
    using assms by (auto simp: normalized_tasks_def res_simps)
  have "task_acc_ok s (result, ids, keys)"
    by (rule fold_res_inv [where P = "task_acc_ok s", OF _ _ run])
       (auto intro: normalized_task_ok simp: task_acc_ok_def [of s "([], [], [])"] entries_ok_def)
  then show ?thesis using that by (auto simp: task_acc_ok_def)
qed

definition entry_record :: "string \<Rightarrow> string \<Rightarrow> int \<Rightarrow> task_entry \<Rightarrow> task_state" where
  "entry_record plan_id revision_id n = (\<lambda>(i, k, intent, cs).
     \<lparr>tk_task_id = i, tk_task_key = k, tk_plan_id = plan_id, tk_plan_revision_id = revision_id, tk_intent = intent,
      tk_acceptance_criteria = map canon_dict cs, tk_lifecycle_state = Task_PENDING, tk_outcome = None,
      tk_created_seq = n, tk_updated_seq = n\<rparr>)"

lemma entry_record_fields [simp]:
  "tk_task_id (entry_record p r n x) = fst x" "tk_task_key (entry_record p r n x) = fst (snd x)"
  by (simp_all add: entry_record_def split: prod.split)

lemma map_res_dict_of [simp]: "map_res dict_of (map JObj ds) = Inr ds"
  by (induction ds) simp_all

lemma add_entry:
  assumes "entries_ok s (xs @ [x])"
  shows "add_task s e plan_id revision_id (map (entry_record plan_id revision_id (ev_seq e)) xs) (JObj (canon_dict (task_entry_dict x))) =
    Inr (map (entry_record plan_id revision_id (ev_seq e)) (xs @ [x]))"
proof -
  obtain i k intent cs where x: "x = (i, k, intent, cs)" by (cases x)
  have fields: "text_field (canon_dict (task_entry_dict x)) ''task_id'' = i" "text_field (canon_dict (task_entry_dict x)) ''task_key'' = k"
      "text_field (canon_dict (task_entry_dict x)) ''intent'' = intent"
    by (rule text_field_canon, simp add: task_entry_dict_def x)+
  have criteria: "dget (canon_dict (task_entry_dict x)) ''acceptance_criteria'' = JList (map JObj (map canon_dict cs))"
    by (simp add: dget_canon_dict task_entry_dict_def x dict_list_def o_def)
  have ok: "i \<noteq> []" "k \<noteq> []" "intent \<noteq> []" "task_of s i = None" "i \<notin> fst ` set xs" "k \<notin> (\<lambda>x. fst (snd x)) ` set xs"
    using assms by (auto simp: entries_ok_def x)
  have made: "entry_record plan_id revision_id (ev_seq e) x =
      \<lparr>tk_task_id = i, tk_task_key = k, tk_plan_id = plan_id, tk_plan_revision_id = revision_id, tk_intent = intent,
       tk_acceptance_criteria = map canon_dict cs, tk_lifecycle_state = Task_PENDING, tk_outcome = None,
       tk_created_seq = ev_seq e, tk_updated_seq = ev_seq e\<rparr>" by (simp add: entry_record_def x)
  have ids: "tk_task_id ` set (map (entry_record plan_id revision_id (ev_seq e)) xs) = fst ` set xs"
      "tk_task_key ` set (map (entry_record plan_id revision_id (ev_seq e)) xs) = (\<lambda>x. fst (snd x)) ` set xs"
    by (simp_all add: image_image)
  show ?thesis
    unfolding add_task_def json.case Let_def fields criteria elements.simps is_list.simps and_then_simps map_res_dict_of set_map ids
    using ok by (simp add: made image_image)
qed

lemma fold_entries:
  "entries_ok s xs \<Longrightarrow>
   fold_res (add_task s e plan_id revision_id) [] (map (\<lambda>x. JObj (canon_dict (task_entry_dict x))) xs) =
     Inr (map (entry_record plan_id revision_id (ev_seq e)) xs)"
proof (induction xs rule: rev_induct)
  case Nil
  then show ?case by simp
next
  case (snoc x xs)
  then have "entries_ok s xs" by (auto simp: entries_ok_def)
  then show ?case using snoc add_entry [OF snoc.prems] by (simp add: fold_res_snoc)
qed

text \<open>A normalized dependency and what the reducer makes of it.\<close>

definition edge_dict :: "string \<times> string \<Rightarrow> dict" where
  "edge_dict = (\<lambda>(predecessor, successor).
     [(''predecessor_task_id'', JStr predecessor), (''successor_task_id'', JStr successor),
      (''dependency_kind'', JStr ''FINISH_TO_START'')])"

definition edges_ok :: "string list \<Rightarrow> edges \<Rightarrow> bool" where
  "edges_ok ids es \<longleftrightarrow> distinct es \<and> (\<forall>(p, q) \<in> set es. p \<in> set ids \<and> q \<in> set ids \<and> p \<noteq> q)"

definition edge_acc_ok :: "string list \<Rightarrow> dict list \<times> edges \<Rightarrow> bool" where
  "edge_acc_ok ids acc \<longleftrightarrow> (\<exists>es. acc = (map edge_dict es, es) \<and> edges_ok ids es)"

lemma normalized_dependency_ok:
  assumes "normalized_dependency s ids acc x = Inr acc'" and "edge_acc_ok ids acc"
  shows "edge_acc_ok ids acc'"
proof -
  obtain es where es: "acc = (map edge_dict es, es)" "edges_ok ids es" using assms(2) by (auto simp: edge_acc_ok_def)
  obtain i raw where x: "x = (i, raw)" by (cases x)
  obtain d where raw: "raw = JObj d"
    using assms(1) by (cases raw) (simp_all add: normalized_dependency_def es(1) x Let_def)
  obtain p q where pq: "p \<noteq> q" "filter (\<lambda>t. t \<notin> set ids) [p, q] = []" "(p, q) \<notin> set es"
      "acc' = (map edge_dict es @ [edge_dict (p, q)], es @ [(p, q)])"
    using assms(1) unfolding normalized_dependency_def es(1) x raw edge_dict_def Let_def prod.case json.case and_then_Inr_iff
    by (auto simp del: filter.simps split: if_split_asm list.split_asm)
  have "p \<in> set ids" "q \<in> set ids" using pq(2) by (simp_all split: if_split_asm)
  then have "edges_ok ids (es @ [(p, q)])" using pq(1,3) es(2) by (simp add: edges_ok_def)
  then show ?thesis using pq(4) unfolding edge_acc_ok_def by auto
qed

lemma normalized_dependencies_Inr:
  assumes "normalized_dependencies payload s ids = Inr result"
  obtains es where "result = map edge_dict es" and "edges_ok ids es" and "\<not> has_cycle ids es"
proof -
  obtain raws es where run: "fold_res (normalized_dependency s ids) ([], []) (enumerate 0 raws) = Inr (result, es)"
      and acyclic: "\<not> has_cycle ids es"
    using assms by (auto simp: normalized_dependencies_def res_simps)
  have "edge_acc_ok ids (result, es)"
    by (rule fold_res_inv [where P = "edge_acc_ok ids", OF _ _ run])
       (auto intro: normalized_dependency_ok simp: edge_acc_ok_def [of ids "([], [])"] edges_ok_def)
  then show ?thesis using that acyclic by (auto simp: edge_acc_ok_def)
qed

definition edge_dependency :: "string \<Rightarrow> string \<times> string \<Rightarrow> task_dependency" where
  "edge_dependency revision_id = (\<lambda>(p, q).
     \<lparr>dep_revision_id = revision_id, dep_predecessor_task_id = p, dep_successor_task_id = q,
      dep_dependency_kind = ''FINISH_TO_START''\<rparr>)"

lemma dependency_edge_edge [simp]: "dependency_edge (edge_dependency r x) = x"
  by (cases x) (simp add: dependency_edge_def edge_dependency_def)

lemma add_edge:
  assumes "edges_ok ids (es @ [x])"
  shows "add_dependency r ids (map (edge_dependency r) es) (JObj (canon_dict (edge_dict x))) =
    Inr (map (edge_dependency r) (es @ [x]))"
proof -
  obtain p q where x: "x = (p, q)" by (cases x)
  have fields: "text_field (canon_dict (edge_dict x)) ''predecessor_task_id'' = p"
      "text_field (canon_dict (edge_dict x)) ''successor_task_id'' = q"
      "text_field (canon_dict (edge_dict x)) ''dependency_kind'' = ''FINISH_TO_START''"
    by (rule text_field_canon, simp add: edge_dict_def x)+
  have edges: "map dependency_edge (map (edge_dependency r) es) = es" by (simp add: o_def)
  show ?thesis
    unfolding add_dependency_def json.case Let_def fields edges
    using assms by (simp add: edges_ok_def x edge_dependency_def)
qed

lemma fold_edges:
  "edges_ok ids es \<Longrightarrow>
   fold_res (add_dependency r ids) [] (map (\<lambda>x. JObj (canon_dict (edge_dict x))) es) = Inr (map (edge_dependency r) es)"
proof (induction es rule: rev_induct)
  case Nil
  then show ?case by simp
next
  case (snoc x es)
  then have "edges_ok ids es" by (simp add: edges_ok_def)
  then show ?case using snoc add_edge [OF snoc.prems] by (simp add: fold_res_snoc)
qed

section \<open>Soundness\<close>

text \<open>The reducer accepts every envelope the bus can build for a pending event.\<close>

definition wg_accepts :: "(string \<Rightarrow> string) \<Rightarrow> work_graph \<Rightarrow> runtime_state \<Rightarrow> pending_event \<Rightarrow> bool" where
  "wg_accepts sha s core p \<longleftrightarrow>
     (\<forall>e. event_for core p e \<longrightarrow> (\<exists>s'. wg_reduce sha s e (core\<lparr>rs_seq := rs_seq core + 1\<rparr>) = Inr s'))"

definition graph_ready :: "work_graph \<Rightarrow> runtime_state \<Rightarrow> bool" where
  "graph_ready s core \<longleftrightarrow> mission_open core \<and> wg_mission_id s = rs_mission_id core"

lemma wg_reduce_event:
  assumes "graph_ready s core" and "event_for core p e" and "pe_event_type p \<in> set WG_EVENT_TYPES"
  shows "wg_reduce sha s e (core\<lparr>rs_seq := rs_seq core + 1\<rparr>) =
    (let t = pe_event_type p; d = canon_dict (pe_payload p); core' = core\<lparr>rs_seq := rs_seq core + 1\<rparr> in
     if t = ''plan.created.v1'' then reduce_plan_created s e d
     else if t = ''plan.revision_recorded.v1'' then reduce_revision sha s e d
     else if t = ''plan.revision_activated.v1'' then reduce_revision_activated s d
     else if t = ''plan.lifecycle_changed.v1'' then reduce_plan_lifecycle s d
     else if t \<in> set [''task.lifecycle_changed.v1'', ''task.outcome_recorded.v1''] then reduce_task s e d
     else reduce_snapshot sha s e core' d)"
proof -
  have "mission_open (core\<lparr>rs_seq := rs_seq core + 1\<rparr>)" using assms(1) by (simp add: graph_ready_def mission_open_def)
  then show ?thesis using assms by (simp add: wg_reduce_def event_for_def graph_ready_def Let_def)
qed

lemma create_plan_sound:
  assumes "create_plan_event c s = Inr p" and ready: "graph_ready s core"
  shows "wg_accepts sha s core p"
proof -
  obtain i where i: "nonblank i" "plan_of s i = None"
    and p: "p = \<lparr>pe_event_type = ''plan.created.v1'', pe_entity_type = ''PLAN'', pe_entity_id = i,
               pe_payload = [(''plan_id'', JStr i)], pe_session_id = None\<rparr>"
    using assms(1) by (auto simp: create_plan_event_def res_simps)
  have "text_field (canon_dict (pe_payload p)) ''plan_id'' = i" by (rule text_field_canon) (simp add: p)
  then have "\<exists>s'. reduce_plan_created s e (canon_dict (pe_payload p)) = Inr s'" if "event_for core p e" for e
    using that i by (simp add: reduce_plan_created_def event_for_def p nonblank_nonempty)
  then show ?thesis using wg_reduce_event [OF ready, of p] by (simp add: wg_accepts_def p WG_EVENT_TYPES_def Let_def)
qed

lemma activate_revision_sound:
  assumes "activate_revision_event c s = Inr p" and ready: "graph_ready s core"
  shows "wg_accepts sha s core p"
proof -
  obtain i k plan r where found: "plan_of s i = Some plan" "pl_lifecycle_state plan = Plan_OPEN" "revision_of s k = Some r"
      "rv_plan_id r = i" "pl_current_revision_id plan \<noteq> Some k"
    and p: "p = \<lparr>pe_event_type = ''plan.revision_activated.v1'', pe_entity_type = ''PLAN_REVISION'', pe_entity_id = k,
                 pe_payload = [(''plan_id'', JStr i), (''revision_id'', JStr k),
                               (''previous_revision_id'', jopt (pl_current_revision_id plan))],
                 pe_session_id = None\<rparr>"
    using assms(1) by (auto simp: activate_revision_event_def res_simps split: option.split_asm if_split_asm)
  have fields: "text_field (canon_dict (pe_payload p)) ''plan_id'' = i" "text_field (canon_dict (pe_payload p)) ''revision_id'' = k"
    by (rule text_field_canon, simp add: p)+
  have "canon (jopt x) = jopt x" for x by (cases x) simp_all
  then have "dget (canon_dict (pe_payload p)) ''previous_revision_id'' = jopt (pl_current_revision_id plan)"
    by (simp add: p dget_canon_dict)
  then have "\<exists>s'. reduce_revision_activated s (canon_dict (pe_payload p)) = Inr s'"
    using found by (simp add: reduce_revision_activated_def Let_def fields require_plan_def)
  then show ?thesis using wg_reduce_event [OF ready, of p] by (simp add: wg_accepts_def p WG_EVENT_TYPES_def Let_def)
qed

lemma plan_target_edge:
  assumes "plan_target t s plan = Inr target" and "t \<in> {''CLOSE_PLAN'', ''ARCHIVE_PLAN''}"
  shows "(pl_lifecycle_state plan, target) \<in> set plan_edges" and "target = Plan_CLOSED \<Longrightarrow> \<not> has_open_task s (pl_plan_id plan)"
  using assms by (auto simp: plan_target_def plan_edges_def Let_def split: if_split_asm)

lemma plan_lifecycle_sound:
  assumes "plan_lifecycle_event c s = Inr p" and "c_type c \<in> {''CLOSE_PLAN'', ''ARCHIVE_PLAN''}" and ready: "graph_ready s core"
  shows "wg_accepts sha s core p"
proof -
  obtain i reason plan target summary where plan: "plan_of s i = Some plan" and target: "plan_target (c_type c) s plan = Inr target"
    and p: "p = \<lparr>pe_event_type = ''plan.lifecycle_changed.v1'', pe_entity_type = ''PLAN'', pe_entity_id = i,
          pe_payload = [(''plan_id'', JStr i), (''from_state'', JStr (plan_lifecycle_value (pl_lifecycle_state plan))),
                        (''to_state'', JStr (plan_lifecycle_value target)),
                        (''reason_code'', JStr reason), (''reason_summary'', jopt summary)],
          pe_session_id = None\<rparr>"
    using assms(1) by (auto simp: plan_lifecycle_event_def res_simps)
  note edge = plan_target_edge [OF target assms(2)]
  have id: "text_field (canon_dict (pe_payload p)) ''plan_id'' = i" by (rule text_field_canon) (simp add: p)
  have states: "dget (canon_dict (pe_payload p)) ''from_state'' = JStr (plan_lifecycle_value (pl_lifecycle_state plan))"
      "dget (canon_dict (pe_payload p)) ''to_state'' = JStr (plan_lifecycle_value target)"
    by (simp_all add: p dget_canon_dict)
  have "\<exists>s'. reduce_plan_lifecycle s (canon_dict (pe_payload p)) = Inr s'"
    using plan edge plan_ofD [OF plan]
    by (simp add: reduce_plan_lifecycle_def Let_def id states require_plan_def)
  then show ?thesis using wg_reduce_event [OF ready, of p] by (simp add: wg_accepts_def p WG_EVENT_TYPES_def Let_def)
qed

lemma task_transition_Inr:
  assumes "task_transition c plan task target = Inr (t, out)"
  shows "(t = ''task.lifecycle_changed.v1'' \<and> out = None \<and> target = Task_ACTIVE \<and> tk_lifecycle_state task = Task_PENDING \<and>
          pl_lifecycle_state plan = Plan_OPEN \<and> pl_current_revision_id plan = Some (tk_plan_revision_id task)) \<or>
         (t = ''task.outcome_recorded.v1'' \<and> (\<exists>d. out = Some d) \<and> target \<in> set TASK_TERMINAL \<and>
          (target \<noteq> Task_CANCELLED \<longrightarrow> tk_lifecycle_state task = Task_ACTIVE) \<and> tk_lifecycle_state task \<notin> set TASK_TERMINAL)"
  using assms
  by (auto simp: task_transition_def and_then_Inr_iff TASK_TERMINAL_def split: if_split_asm)

lemma transition_sound:
  assumes "transition_event c s = Inr p" and ready: "graph_ready s core"
  shows "wg_accepts sha s core p"
proof -
  obtain i plan task target t out r1 r2 where plan: "plan_of s (tk_plan_id task) = Some plan" and task: "task_of s i = Some task"
    and moved: "task_transition c plan task target = Inr (t, out)"
    and p: "p = \<lparr>pe_event_type = t, pe_entity_type = ''TASK'', pe_entity_id = i,
       pe_payload = [(''plan_id'', JStr (tk_plan_id task)), (''plan_revision_id'', JStr (tk_plan_revision_id task)),
          (''task_id'', JStr i), (''from_state'', JStr (task_lifecycle_value (tk_lifecycle_state task))),
          (''to_state'', JStr (task_lifecycle_value target)), (''reason_code'', jopt r1), (''reason_summary'', jopt r2)] @
         (case out of None \<Rightarrow> [] | Some d \<Rightarrow> [(''outcome'', JObj d)]),
       pe_session_id = None\<rparr>"
    using assms(1) unfolding transition_event_def Let_def
    by (auto simp: res_simps split: option.split_asm if_split_asm, case_tac "TaskLifecycleState a") (auto simp: res_simps)
  have id: "text_field (canon_dict (pe_payload p)) ''task_id'' = i" by (rule text_field_canon) (simp add: p)
  have fields: "dget (canon_dict (pe_payload p)) ''plan_id'' = JStr (tk_plan_id task)"
      "dget (canon_dict (pe_payload p)) ''plan_revision_id'' = JStr (tk_plan_revision_id task)"
      "dget (canon_dict (pe_payload p)) ''from_state'' = JStr (task_lifecycle_value (tk_lifecycle_state task))"
      "dget (canon_dict (pe_payload p)) ''to_state'' = JStr (task_lifecycle_value target)"
    by (simp_all add: p dget_canon_dict)
  have outcome: "dget (canon_dict (pe_payload p)) ''outcome'' = (case out of None \<Rightarrow> JNull | Some d \<Rightarrow> JObj (canon_dict d))"
    by (cases out) (simp_all add: p dget_canon_dict canon_dict_def)
  have "\<exists>s'. reduce_task s e (canon_dict (pe_payload p)) = Inr s'" if e: "ev_entity_id e = i" "ev_event_type e = t" for e
  proof -
    have "\<exists>o'. task_outcome s e task (tk_lifecycle_state task) target (case out of None \<Rightarrow> JNull | Some d \<Rightarrow> JObj (canon_dict d)) = Inr o'"
      using task_transition_Inr [OF moved] plan e(2)
      by (cases "tk_lifecycle_state task") (auto simp: task_outcome_def require_plan_def TASK_TERMINAL_def)
    then show ?thesis using task e(1)
      by (auto simp: reduce_task_def Let_def id fields outcome)
  qed
  then have "\<exists>s'. reduce_task s e (canon_dict (pe_payload p)) = Inr s'" if "event_for core p e" for e
    using that by (simp add: event_for_def p)
  moreover have "pe_event_type p = ''task.lifecycle_changed.v1'' \<or> pe_event_type p = ''task.outcome_recorded.v1''"
    using task_transition_Inr [OF moved] by (auto simp: p)
  then have "wg_reduce sha s e (core\<lparr>rs_seq := rs_seq core + 1\<rparr>) = reduce_task s e (canon_dict (pe_payload p))"
    if "event_for core p e" for e
    using wg_reduce_event [OF ready that] by (elim disjE) (simp_all add: WG_EVENT_TYPES_def Let_def)
  ultimately show ?thesis by (simp add: wg_accepts_def)
qed

lemma canon_dict_map [simp]: "canon_dict (map (\<lambda>(k, v). (k, canon v)) d) = canon_dict d"
  by (simp add: canon_dict_def o_def split_def)

lemma dict_list_canon_entries: "canon (dict_list (map f xs)) = JList (map (\<lambda>x. JObj (canon_dict (f x))) xs)"
  by (simp add: dict_list_def o_def)

lemma canonical_sha256_canon: "canonical_sha256 sha (canon v) = canonical_sha256 sha v"
  by (simp add: canonical_sha256_def)

lemma revision_sound:
  assumes "revision_event sha c s = Inr p" and ready: "graph_ready s core"
  shows "wg_accepts sha s core p"
proof -
  obtain i plan k parent objective constraints tasks ids deps where plan: "plan_of s i = Some plan" "pl_lifecycle_state plan = Plan_OPEN"
    and k: "nonblank k" "revision_of s k = None" and parent: "parent_revision (c_payload c) s i = Inr parent"
    and tasks: "normalized_tasks (c_payload c) s = Inr (tasks, ids)"
    and deps: "normalized_dependencies (c_payload c) s ids = Inr deps"
    and p: "pe_event_type p = ''plan.revision_recorded.v1''" "pe_entity_id p = k"
      "pe_payload p = (let content = [(''plan_id'', JStr i), (''revision_id'', JStr k), (''parent_revision_id'', jopt parent),
         (''content_schema_version'', JInt WORK_GRAPH_SCHEMA_VERSION), (''objective'', JStr objective),
         (''constraints'', dict_list constraints), (''task_definitions'', dict_list tasks), (''dependencies'', dict_list deps)]
       in content @ [(''content_hash'', JStr (canonical_sha256 sha (JObj content)))])"
    using assms(1) by (auto simp: revision_event_def res_simps Let_def)
  obtain xs where xs: "tasks = map task_entry_dict xs" "ids = map fst xs" "entries_ok s xs" by (rule normalized_tasks_Inr [OF tasks])
  obtain es where es: "deps = map edge_dict es" "edges_ok ids es" "\<not> has_cycle ids es" by (rule normalized_dependencies_Inr [OF deps])
  let ?content = "[(''plan_id'', JStr i), (''revision_id'', JStr k), (''parent_revision_id'', jopt parent),
         (''content_schema_version'', JInt WORK_GRAPH_SCHEMA_VERSION), (''objective'', JStr objective),
         (''constraints'', dict_list constraints), (''task_definitions'', dict_list tasks), (''dependencies'', dict_list deps)]"
  let ?d = "canon_dict (pe_payload p)"
  have opt: "canon (jopt x) = jopt x" for x by (cases x) simp_all
  have payload: "pe_payload p = ?content @ [(''content_hash'', JStr (canonical_sha256 sha (JObj ?content)))]" by (simp add: p(3) Let_def)
  have ids: "text_field ?d ''plan_id'' = i" "text_field ?d ''revision_id'' = k" by (rule text_field_canon, simp add: payload)+
  have "revision_content ?d = map (\<lambda>(k, v). (k, canon v)) ?content" by (simp add: revision_content_def dget_canon_dict payload)
  then have "canonical_sha256 sha (JObj (revision_content ?d)) = canonical_sha256 sha (JObj ?content)"
    using canonical_sha256_canon [of sha "JObj (revision_content ?d)"] canonical_sha256_canon [of sha "JObj ?content"]
    by (simp only: canon_JObj canon_dict_map)
  then have hash: "dget ?d ''content_hash'' = JStr (canonical_sha256 sha (JObj (revision_content ?d)))"
    by (simp only: dget_canon_dict payload) simp
  have collections: "dget ?d ''task_definitions'' = JList (map (\<lambda>x. JObj (canon_dict (task_entry_dict x))) xs)"
      "dget ?d ''dependencies'' = JList (map (\<lambda>x. JObj (canon_dict (edge_dict x))) es)"
      "dget ?d ''constraints'' = JList (map (\<lambda>x. JObj (canon_dict x)) constraints)"
    using dict_list_canon_entries [of "\<lambda>x. x" constraints]
    by (simp_all add: dget_canon_dict payload xs(1) es(1) dict_list_canon_entries del: dict_list_canon)
  have fields: "dget ?d ''parent_revision_id'' = jopt parent" "dget ?d ''content_schema_version'' = JInt WORK_GRAPH_SCHEMA_VERSION"
    by (simp_all add: dget_canon_dict payload opt)
  have index: "dindex ?d ''content_hash'' = Inr (dget ?d ''content_hash'')"
    using hash by (cases "map_of ?d ''content_hash''") (simp_all add: dindex_def dget_def)
  have parent_ok: "\<not> (jopt parent \<noteq> JNull \<and> (case revision_of s (py_str (jopt parent)) of None \<Rightarrow> True | Some r \<Rightarrow> rv_plan_id r \<noteq> i))"
    using parent by (auto simp: parent_revision_def res_simps split: if_split_asm option.split_asm)
  have objs: "map_res dict_of (map (\<lambda>x. JObj (f x)) ys) = Inr (map f ys)" for f :: "'a \<Rightarrow> dict" and ys
    by (induction ys) simp_all
  have "\<exists>s'. reduce_revision sha s e ?d = Inr s'" if "ev_entity_id e = k" for e
  proof -
    have ts: "fold_res (add_task s e i k) [] (map (\<lambda>x. JObj (canon_dict (task_entry_dict x))) xs) =
        Inr (map (entry_record i k (ev_seq e)) xs)" by (rule fold_entries [OF xs(3)])
    have ts_ids: "map tk_task_id (map (entry_record i k (ev_seq e)) xs) = ids" by (simp add: xs(2))
    have ds: "fold_res (add_dependency k ids) [] (map (\<lambda>x. JObj (canon_dict (edge_dict x))) es) = Inr (map (edge_dependency k) es)"
      by (rule fold_edges [OF es(2)])
    have edges: "map dependency_edge (map (edge_dependency k) es) = es" by (simp add: o_def)
    show ?thesis
      unfolding reduce_revision_def Let_def ids require_plan_def plan option.case and_then_simps collections fields
        elements.simps ts ts_ids ds edges index hash is_list.simps
      using plan k es(3) parent_ok that by (simp add: nonblank_nonempty hash index objs)
  qed
  then show ?thesis using wg_reduce_event [OF ready, of p] by (simp add: wg_accepts_def p(1,2) event_for_def WG_EVENT_TYPES_def Let_def)
qed

lemma snapshot_plan_Inr:
  assumes "snapshot_plan payload s scope = Inr plan_id"
  shows "(scope = ''MISSION'' \<and> plan_id = JNull) \<or> (scope = ''PLAN'' \<and> (\<exists>i p. plan_id = JStr i \<and> plan_of s i = Some p))"
  using assms by (auto simp: snapshot_plan_def res_simps split: if_split_asm)

lemma snapshot_payload_Inr:
  "snapshot_payload m n scope plan_id core s = Inr d \<Longrightarrow>
     dget d ''mission_id'' = JStr m \<and> dget d ''as_of_seq'' = JInt n \<and> dget d ''scope'' = scope \<and> dget d ''plan_id'' = plan_id"
  by (auto simp: snapshot_payload_def and_then_Inr_iff)

lemma snapshot_sound:
  assumes "snapshot_event sha c composed s = Inr p" and "wg_state composed = Inr s" and ready: "graph_ready s (cs_core_state composed)"
    and same: "cs_mission_id composed = rs_mission_id (cs_core_state composed)" "cs_seq composed = rs_seq (cs_core_state composed)"
    and head: "c_expected_seq c = cs_seq composed"
  shows "wg_accepts sha s (cs_core_state composed) p"
proof -
  let ?core = "cs_core_state composed" and ?d = "canon_dict (pe_payload p)"
  obtain k scope plan_id as_of d where k: "nonblank k" "snapshot_of s k = None"
    and plan: "snapshot_plan (c_payload c) s scope = Inr plan_id"
    and as_of: "is_int as_of" "\<not> is_bool as_of" "py_eq as_of (JInt (c_expected_seq c))"
    and d: "snapshot_payload (cs_mission_id composed) (cs_seq composed) (JStr scope) plan_id ?core s = Inr d"
    and p: "pe_event_type p = ''snapshot.recorded.v1''" "pe_entity_id p = k" "pe_payload p =
         [(''snapshot_id'', JStr k), (''scope'', JStr scope), (''plan_id'', plan_id),
          (''as_of_seq'', as_of), (''work_graph_schema_version'', JInt WORK_GRAPH_SCHEMA_VERSION),
          (''projection_version'', JInt PROJECTION_VERSION), (''canonicalization_version'', JInt CANONICALIZATION_VERSION),
          (''payload_hash'', JStr (canonical_sha256 sha (JObj d))), (''state_payload'', JObj d)]"
    using assms(1,2) by (auto simp: snapshot_event_def snapshot_state_payload_def res_simps Let_def)
  have seq: "as_of = JInt (rs_seq ?core)" using as_of same head by (cases as_of) (simp_all add: py_eq_def)
  note plan = snapshot_plan_Inr [OF plan]
  have plan_canon: "canon plan_id = plan_id" using plan by auto
  have id: "text_field ?d ''snapshot_id'' = k" by (rule text_field_canon) (simp add: p)
  have fields: "dget ?d ''as_of_seq'' = JInt (rs_seq ?core)" "dget ?d ''scope'' = JStr scope" "dget ?d ''plan_id'' = plan_id"
      "dget ?d ''work_graph_schema_version'' = JInt WORK_GRAPH_SCHEMA_VERSION" "dget ?d ''projection_version'' = JInt PROJECTION_VERSION"
      "dget ?d ''canonicalization_version'' = JInt CANONICALIZATION_VERSION"
      "dget ?d ''payload_hash'' = JStr (canonical_sha256 sha (JObj (canon_dict d)))" "dget ?d ''state_payload'' = JObj (canon_dict d)"
    using canonical_sha256_canon [of sha "JObj d"] by (simp_all add: dget_canon_dict p(3) plan_canon seq canon_JObj)
  have index: "dindex ?d ''payload_hash'' = Inr (JStr (canonical_sha256 sha (JObj (canon_dict d))))"
    using fields(7) by (cases "map_of ?d ''payload_hash''") (simp_all add: dindex_def dget_def)
  note anchor = snapshot_payload_Inr [OF d]
  have eq: "py_eq (JObj (canon_dict d)) (JObj d)" using py_eq_canon [of "JObj d"] by (simp only: canon_JObj)
  have scope: "check_snapshot_scope s ?d = Inr ()"
    using plan by (auto simp: check_snapshot_scope_def fields require_plan_def text_field_def py_or_def)
  have "\<exists>s'. reduce_snapshot sha s e (?core\<lparr>rs_seq := rs_seq ?core + 1\<rparr>) ?d = Inr s'"
    if "ev_entity_id e = k" "ev_seq e = rs_seq ?core + 1" for e
    unfolding reduce_snapshot_def Let_def id fields index json.case
    using that k d anchor eq scope plan_canon ready same
    by (simp add: nonblank_nonempty dget_canon_dict graph_ready_def)
  then show ?thesis using wg_reduce_event [OF ready, of p] by (simp add: wg_accepts_def p(1,2) event_for_def WG_EVENT_TYPES_def Let_def)
qed

lemma wg_handle_sound:
  assumes "wg_handle sha c composed = Inr ps" and "wg_state composed = Inr s"
    and ids: "wg_mission_id s = rs_mission_id (cs_core_state composed)"
    and same: "cs_mission_id composed = rs_mission_id (cs_core_state composed)" "cs_seq composed = rs_seq (cs_core_state composed)"
    and head: "c_expected_seq c = cs_seq composed"
  shows "\<exists>p. ps = [p] \<and> pe_event_type p \<in> set WG_EVENT_TYPES \<and> wg_accepts sha s (cs_core_state composed) p"
proof -
  have known: "c_type c \<in> set WG_COMMAND_TYPES" and mutable: "require_mutable_mission composed = Inr ()"
    using assms(1) by (auto simp: wg_handle_def res_simps)
  from mutable have ready: "graph_ready s (cs_core_state composed)"
    using ids by (auto simp: require_mutable_mission_def graph_ready_def mission_open_def split: option.split_asm if_split_asm)
  let ?event = "if c_type c = ''CREATE_PLAN'' then create_plan_event c s
      else if c_type c = ''RECORD_PLAN_REVISION'' then revision_event sha c s
      else if c_type c = ''ACTIVATE_PLAN_REVISION'' then activate_revision_event c s
      else if c_type c \<in> set [''CLOSE_PLAN'', ''ARCHIVE_PLAN''] then plan_lifecycle_event c s
      else if c_type c = ''TRANSITION_TASK'' then transition_event c s
      else snapshot_event sha c composed s"
  have "and_then ?event (\<lambda>p. Inr [p]) = Inr ps" using assms(1,2) known mutable unfolding wg_handle_def by simp
  then obtain p where p: "ps = [p]" "?event = Inr p" unfolding and_then_Inr_iff by blast
  have accepted: "wg_accepts sha s (cs_core_state composed) p"
    using p(2) create_plan_sound [OF _ ready] revision_sound [OF _ ready] activate_revision_sound [OF _ ready]
      plan_lifecycle_sound [OF _ _ ready] transition_sound [OF _ ready] snapshot_sound [OF _ assms(2) ready same head]
    by (simp split: if_split_asm)
  have "\<exists>e. event_for (cs_core_state composed) p e"
    by (rule exI [of _ "\<lparr>ev_event_id = [], ev_mission_id = rs_mission_id (cs_core_state composed), ev_seq = rs_seq (cs_core_state composed) + 1,
          ev_event_type = pe_event_type p, ev_entity_type = [], ev_entity_id = pe_entity_id p, ev_command_id = [],
          ev_correlation_id = [], ev_initiator_type = [], ev_initiator_id = [], ev_payload = canon_dict (pe_payload p),
          ev_created_at = [], ev_session_id = None, ev_schema_version = 1\<rparr>"])
       (simp add: event_for_def)
  then obtain e s' where "event_for (cs_core_state composed) p e"
      "wg_reduce sha s e (cs_core_state composed\<lparr>rs_seq := rs_seq (cs_core_state composed) + 1\<rparr>) = Inr s'"
    using accepted by (auto simp: wg_accepts_def)
  from wg_reduce_Inr(2) [OF this(2)] this(1) have "pe_event_type p \<in> set WG_EVENT_TYPES" by (simp add: event_for_def)
  then show ?thesis using p(1) accepted by blast
qed

end
