(* ===== verification/WgProjections.thy ===== *)
theory WgProjections
  imports WgHandlers ComposedProjections
begin

text \<open>
  work_graph/projections.py: the five projection tables of the work graph with their migration, and the
  callbacks that clear, write, read and check them.  A callback is the list of its statements with its
  result, as in Database.

  Main results: writing a graph whose identifiers are distinct never fails (\<open>wg_apply_total\<close>), and
  reading the tables back gives the graph in its stored form (\<open>wg_read_apply\<close>).
\<close>

section \<open>Tables\<close>

definition projection_table :: "(string \<times> bool) list \<Rightarrow> string list \<Rightarrow> table_def" where
  "projection_table cols key =
     \<lparr>td_columns = cols, td_keys = [key], td_refs = [], td_checks = []\<rparr>"

definition wg_tables :: "(string \<times> table_def) list" where
  "wg_tables =
     [(''work_graph_plan_projection'',
       projection_table [(''mission_id'', True), (''plan_id'', True), (''state_json'', True), (''projection_seq'', True)]
         [''mission_id'', ''plan_id'']),
      (''work_graph_revision_projection'',
       projection_table [(''mission_id'', True), (''revision_id'', True), (''plan_id'', True), (''state_json'', True),
                         (''projection_seq'', True)] [''mission_id'', ''revision_id'']),
      (''work_graph_task_projection'',
       projection_table [(''mission_id'', True), (''task_id'', True), (''plan_id'', True), (''revision_id'', True),
                         (''state_json'', True), (''projection_seq'', True)] [''mission_id'', ''task_id'']),
      (''work_graph_dependency_projection'',
       projection_table [(''mission_id'', True), (''revision_id'', True), (''predecessor_task_id'', True),
                         (''successor_task_id'', True), (''state_json'', True), (''projection_seq'', True)]
         [''mission_id'', ''revision_id'', ''predecessor_task_id'', ''successor_task_id'']),
      (''work_graph_snapshot_projection'',
       projection_table [(''mission_id'', True), (''snapshot_id'', True), (''scope'', True), (''plan_id'', False),
                         (''state_json'', True), (''projection_seq'', True)] [''mission_id'', ''snapshot_id''])]"

definition PROJECTION_TABLES :: "string list" where
  "PROJECTION_TABLES =
     [''work_graph_plan_projection'', ''work_graph_revision_projection'', ''work_graph_task_projection'',
      ''work_graph_dependency_projection'', ''work_graph_snapshot_projection'']"

text \<open>The text of the five statements, of which the migration's checksum is taken; what they mean is
  \<open>wg_tables\<close>.\<close>

definition sql_text :: "string list \<Rightarrow> string" where
  "sql_text ls = concat (map (\<lambda>l. CHR 0x0A # l) ls)"

definition MIGRATION_SQL :: "string list" where
  "MIGRATION_SQL =
     [sql_text
       [''    CREATE TABLE work_graph_plan_projection ('',
        ''        mission_id TEXT NOT NULL,'',
        ''        plan_id TEXT NOT NULL,'',
        ''        state_json TEXT NOT NULL,'',
        ''        projection_seq INTEGER NOT NULL,'',
        ''        PRIMARY KEY(mission_id, plan_id)'',
        ''    )'', ''    ''],
      sql_text
       [''    CREATE TABLE work_graph_revision_projection ('',
        ''        mission_id TEXT NOT NULL,'',
        ''        revision_id TEXT NOT NULL,'',
        ''        plan_id TEXT NOT NULL,'',
        ''        state_json TEXT NOT NULL,'',
        ''        projection_seq INTEGER NOT NULL,'',
        ''        PRIMARY KEY(mission_id, revision_id)'',
        ''    )'', ''    ''],
      sql_text
       [''    CREATE TABLE work_graph_task_projection ('',
        ''        mission_id TEXT NOT NULL,'',
        ''        task_id TEXT NOT NULL,'',
        ''        plan_id TEXT NOT NULL,'',
        ''        revision_id TEXT NOT NULL,'',
        ''        state_json TEXT NOT NULL,'',
        ''        projection_seq INTEGER NOT NULL,'',
        ''        PRIMARY KEY(mission_id, task_id)'',
        ''    )'', ''    ''],
      sql_text
       [''    CREATE TABLE work_graph_dependency_projection ('',
        ''        mission_id TEXT NOT NULL,'',
        ''        revision_id TEXT NOT NULL,'',
        ''        predecessor_task_id TEXT NOT NULL,'',
        ''        successor_task_id TEXT NOT NULL,'',
        ''        state_json TEXT NOT NULL,'',
        ''        projection_seq INTEGER NOT NULL,'',
        ''        PRIMARY KEY(mission_id, revision_id, predecessor_task_id, successor_task_id)'',
        ''    )'', ''    ''],
      sql_text
       [''    CREATE TABLE work_graph_snapshot_projection ('',
        ''        mission_id TEXT NOT NULL,'',
        ''        snapshot_id TEXT NOT NULL,'',
        ''        scope TEXT NOT NULL,'',
        ''        plan_id TEXT,'',
        ''        state_json TEXT NOT NULL,'',
        ''        projection_seq INTEGER NOT NULL,'',
        ''        PRIMARY KEY(mission_id, snapshot_id)'',
        ''    )'', ''    '']]"

definition apply_schema :: "unit callback" where
  "apply_schema = (map (\<lambda>(t, def). SqlCreate ''table'' t t (TableDef def)) wg_tables, Inr ())"

definition wg_migrations :: "(string \<Rightarrow> string) \<Rightarrow> migration_step list py" where
  "wg_migrations sha =
     and_then (make_MigrationStep 1 (canonical_sha256 sha (JList (map JStr MIGRATION_SQL))) apply_schema) (\<lambda>step.
     Inr [step])"

section \<open>Writing\<close>

definition clear_statements :: "string option \<Rightarrow> sql list" where
  "clear_statements mission_id =
     map (\<lambda>t. SqlDelete t (case mission_id of None \<Rightarrow> [] | Some m \<Rightarrow> [(''mission_id'', JStr m)])) (sort PROJECTION_TABLES)"

definition wg_clear :: "db \<Rightarrow> string option \<Rightarrow> unit callback" where
  "wg_clear d mission_id = (clear_statements mission_id, Inr ())"

definition plan_row :: "string \<Rightarrow> int \<Rightarrow> plan_state \<Rightarrow> dict" where
  "plan_row m n x =
     [(''mission_id'', JStr m), (''plan_id'', JStr (pl_plan_id x)),
      (''state_json'', JStr (canonical_json (JObj (plan_to_dict x)))), (''projection_seq'', JInt n)]"

definition revision_row :: "string \<Rightarrow> int \<Rightarrow> revision_state \<Rightarrow> dict" where
  "revision_row m n x =
     [(''mission_id'', JStr m), (''revision_id'', JStr (rv_revision_id x)), (''plan_id'', JStr (rv_plan_id x)),
      (''state_json'', JStr (canonical_json (JObj (revision_to_dict x)))), (''projection_seq'', JInt n)]"

definition task_row :: "string \<Rightarrow> int \<Rightarrow> task_state \<Rightarrow> dict" where
  "task_row m n x =
     [(''mission_id'', JStr m), (''task_id'', JStr (tk_task_id x)), (''plan_id'', JStr (tk_plan_id x)),
      (''revision_id'', JStr (tk_plan_revision_id x)),
      (''state_json'', JStr (canonical_json (JObj (task_to_dict x)))), (''projection_seq'', JInt n)]"

definition dependency_row :: "string \<Rightarrow> int \<Rightarrow> task_dependency \<Rightarrow> dict" where
  "dependency_row m n x =
     [(''mission_id'', JStr m), (''revision_id'', JStr (dep_revision_id x)),
      (''predecessor_task_id'', JStr (dep_predecessor_task_id x)),
      (''successor_task_id'', JStr (dep_successor_task_id x)),
      (''state_json'', JStr (canonical_json (JObj (dependency_to_dict x)))), (''projection_seq'', JInt n)]"

definition snapshot_row :: "string \<Rightarrow> int \<Rightarrow> snapshot_index \<Rightarrow> dict" where
  "snapshot_row m n x =
     [(''mission_id'', JStr m), (''snapshot_id'', JStr (sn_snapshot_id x)), (''scope'', JStr (sn_scope x)),
      (''plan_id'', jopt (sn_plan_id x)),
      (''state_json'', JStr (canonical_json (JObj (snapshot_to_dict x)))), (''projection_seq'', JInt n)]"

text \<open>The rows of the five \<open>executemany\<close> calls, in their order.\<close>

definition graph_rows :: "string \<Rightarrow> int \<Rightarrow> work_graph \<Rightarrow> (string \<times> dict list) list" where
  "graph_rows m n s =
     [(''work_graph_plan_projection'', map (plan_row m n) (wg_plans s)),
      (''work_graph_revision_projection'', map (revision_row m n) (wg_revisions s)),
      (''work_graph_task_projection'', map (task_row m n) (wg_tasks s)),
      (''work_graph_dependency_projection'', map (dependency_row m n) (wg_dependencies s)),
      (''work_graph_snapshot_projection'', map (snapshot_row m n) (wg_snapshots s))]"

definition insert_statements :: "(string \<times> dict list) list \<Rightarrow> sql list" where
  "insert_statements ps = concat (map (\<lambda>(t, rows). map (SqlInsert t) rows) ps)"

definition wg_apply :: "db \<Rightarrow> work_graph composed_state \<Rightarrow> unit callback" where
  "wg_apply d composed =
     (case wg_state composed of
        Inl e \<Rightarrow> ([], Inl e)
      | Inr s \<Rightarrow>
          (clear_statements (Some (cs_mission_id composed)) @
             insert_statements (graph_rows (cs_mission_id composed) (cs_seq composed) s), Inr ()))"

section \<open>Reading\<close>

text \<open>\<open>[json.loads(row["state_json"]) for row in rows(table, order_by)]\<close>\<close>

definition stored_values :: "db \<Rightarrow> string \<Rightarrow> string \<Rightarrow> (dict \<Rightarrow> 'k::linorder) \<Rightarrow> json list py" where
  "stored_values d m t order =
     map_res read_json (sort_key order (select_rows d t [(''mission_id'', JStr m)]))"

text \<open>\<open>{item[key]: item for item in items}\<close>\<close>

definition by_key :: "string \<Rightarrow> json list \<Rightarrow> json py" where
  "by_key key vs =
     and_then (map_res (\<lambda>v. and_then (as_dict v) (\<lambda>x. and_then (dindex x key) (\<lambda>k.
                 and_then (as_text k) (\<lambda>i. Inr (i, v))))) vs) (\<lambda>ps.
     Inr (JObj (dict_of_pairs ps)))"

definition dependency_order :: "dict \<Rightarrow> string \<times> string \<times> string" where
  "dependency_order r = (text_of r ''revision_id'', text_of r ''predecessor_task_id'', text_of r ''successor_task_id'')"

definition wg_read_state :: "db \<Rightarrow> string \<Rightarrow> work_graph py" where
  "wg_read_state d m =
     and_then (stored_values d m ''work_graph_plan_projection'' (\<lambda>r. text_of r ''plan_id'')) (\<lambda>plans.
     and_then (stored_values d m ''work_graph_revision_projection'' (\<lambda>r. text_of r ''revision_id'')) (\<lambda>revisions.
     and_then (stored_values d m ''work_graph_task_projection'' (\<lambda>r. text_of r ''task_id'')) (\<lambda>tasks.
     and_then (stored_values d m ''work_graph_dependency_projection'' dependency_order) (\<lambda>dependencies.
     and_then (stored_values d m ''work_graph_snapshot_projection'' (\<lambda>r. text_of r ''snapshot_id'')) (\<lambda>snapshots.
     and_then (by_key ''plan_id'' plans) (\<lambda>ps.
     and_then (by_key ''revision_id'' revisions) (\<lambda>rs.
     and_then (by_key ''task_id'' tasks) (\<lambda>ts.
     and_then (by_key ''snapshot_id'' snapshots) (\<lambda>xs.
     wg_from_dict [(''mission_id'', JStr m), (''plans'', ps), (''revisions'', rs), (''tasks'', ts),
                   (''dependencies'', JList dependencies), (''snapshots'', xs)])))))))))"

definition wg_read :: "db \<Rightarrow> string \<Rightarrow> work_graph callback" where
  "wg_read d m = ([], wg_read_state d m)"

definition wg_projection_seq :: "db \<Rightarrow> string \<Rightarrow> int option callback" where
  "wg_projection_seq d m =
     ([], and_then (map_res (\<lambda>r. py_int (dget r ''projection_seq''))
                     (concat (map (\<lambda>t. select_rows d t [(''mission_id'', JStr m)]) (sort PROJECTION_TABLES)))) (\<lambda>ns.
          Inr (case remdups ns of [] \<Rightarrow> None | [n] \<Rightarrow> Some n | _ \<Rightarrow> Some (- 1))))"

definition graph_hash :: "(string \<Rightarrow> string) \<Rightarrow> work_graph \<Rightarrow> string" where
  "graph_hash sha s = canonical_sha256 sha (JObj (wg_to_dict s))"

definition wg_verify :: "(string \<Rightarrow> string) \<Rightarrow> work_graph \<Rightarrow> work_graph option \<Rightarrow> dict py" where
  "wg_verify sha replayed projected =
     (let replay_hash = graph_hash sha replayed; projection_hash = map_option (graph_hash sha) projected
      in Inr [(''ok'', JBool (Some replay_hash = projection_hash)), (''replay_hash'', JStr replay_hash),
              (''projection_hash'', jopt projection_hash)])"

section \<open>Running the statements\<close>

definition graph_writes :: "action \<Rightarrow> bool" where
  "graph_writes = projection_authorize PROJECTION_TABLES"

lemma graph_writes_rows [simp]:
  "t \<in> set PROJECTION_TABLES \<Longrightarrow> run_sql graph_writes d (SqlInsert t r) = insert_row d t r"
  "t \<in> set PROJECTION_TABLES \<Longrightarrow> run_sql graph_writes d (SqlDelete t cs) = delete_rows d t cs"
  by (simp_all add: run_sql_def graph_writes_def projection_authorize_def SCHEMA_ACTIONS_def CONTROL_ACTIONS_def)

lemma fold_inserts:
  "t \<in> set PROJECTION_TABLES \<Longrightarrow> fold_res (run_sql graph_writes) d (map (SqlInsert t) rows) = insert_rows t d rows"
  by (induction rows arbitrary: d) (simp_all cong: and_then_cong)

lemma fold_deletes:
  assumes "fold_res (run_sql graph_writes) d (map (\<lambda>t. SqlDelete t cs) ts) = Inr d'" and "set ts \<subseteq> set PROJECTION_TABLES"
  shows "db_schema d' = db_schema d"
    and "db_rows d' t = (if t \<in> set ts then filter (\<lambda>r. \<not> row_matches cs r) (db_rows d t) else db_rows d t)"
  using assms
  by (induction ts arbitrary: d)
     (auto simp: and_then_Inr_iff delete_rows_Inr filter_filter dest: delete_rows_schema)

lemma fold_insert_tables:
  assumes "fold_res (run_sql graph_writes) d (insert_statements ps) = Inr d'"
    and "fst ` set ps \<subseteq> set PROJECTION_TABLES" and "distinct (map fst ps)"
  shows "db_schema d' = db_schema d"
    and "db_rows d' t = db_rows d t @ (case map_of ps t of None \<Rightarrow> [] | Some rows \<Rightarrow> rows)"
proof (atomize (full), use assms in \<open>induction ps arbitrary: d\<close>)
  case Nil
  then show ?case by (simp add: insert_statements_def)
next
  case (Cons p ps)
  obtain u rows where p: "p = (u, rows)" by (cases p)
  obtain d1 where d1: "insert_rows u d rows = Inr d1" and rest: "fold_res (run_sql graph_writes) d1 (insert_statements ps) = Inr d'"
    using Cons.prems by (auto simp: p insert_statements_def fold_res_append fold_inserts and_then_Inr_iff)
  have "map_of ps u = None" using Cons.prems(3) by (simp add: p map_of_eq_None_iff)
  then show ?case using Cons.IH [OF rest] Cons.prems insert_rows_Inr [OF d1] by (auto simp: p)
qed

lemma graph_tables:
  "set (sort PROJECTION_TABLES) = set PROJECTION_TABLES" "map fst (graph_rows m n s) = PROJECTION_TABLES" "distinct PROJECTION_TABLES"
  "map fst wg_tables = PROJECTION_TABLES"
  by (rule set_sort) (simp_all add: graph_rows_def PROJECTION_TABLES_def wg_tables_def)

text \<open>After a write the tables hold the rows of the other missions and the rows of the graph.\<close>

lemma wg_apply_Inr:
  assumes run: "run_callback graph_writes d (wg_apply d composed) = Inr (d', u)" and s: "wg_state composed = Inr s"
  shows "db_schema d' = db_schema d"
    and "t \<in> set PROJECTION_TABLES \<Longrightarrow> db_rows d' t = without_mission (cs_mission_id composed) (db_rows d t) @
           the (map_of (graph_rows (cs_mission_id composed) (cs_seq composed) s) t)"
    and "t \<notin> set PROJECTION_TABLES \<Longrightarrow> db_rows d' t = db_rows d t"
proof -
  let ?m = "cs_mission_id composed" and ?rows = "graph_rows (cs_mission_id composed) (cs_seq composed) s"
  obtain d1 where del: "fold_res (run_sql graph_writes) d (map (\<lambda>t. SqlDelete t [(''mission_id'', JStr ?m)]) (sort PROJECTION_TABLES)) = Inr d1"
    and ins: "fold_res (run_sql graph_writes) d1 (insert_statements ?rows) = Inr d'"
    using run by (auto simp: run_callback_def wg_apply_def s clear_statements_def fold_res_append and_then_Inr_iff)
  have tables: "fst ` set ?rows = set PROJECTION_TABLES" using graph_tables(2) by (metis set_map)
  note d1 = fold_deletes [OF del order_eq_refl [OF graph_tables(1)]]
  note d2 = fold_insert_tables [OF ins order_eq_refl [OF tables], unfolded graph_tables(2), OF graph_tables(3)]
  show "db_schema d' = db_schema d" using d1(1) d2(1) by simp
  show "db_rows d' t = without_mission ?m (db_rows d t) @ the (map_of ?rows t)" if "t \<in> set PROJECTION_TABLES"
  proof -
    have "map_of ?rows t \<noteq> None" using that tables by (simp add: map_of_eq_None_iff)
    then show ?thesis using that by (auto simp: d2(2) d1(2) without_mission_def)
  qed
  show "db_rows d' t = db_rows d t" if "t \<notin> set PROJECTION_TABLES"
  proof -
    have "map_of ?rows t = None" using that tables by (simp add: map_of_eq_None_iff)
    then show ?thesis using that by (simp add: d2(2) d1(2))
  qed
qed

lemma graph_row_mission:
  "(t, rows) \<in> set (graph_rows m n s) \<Longrightarrow> r \<in> set rows \<Longrightarrow> dget r ''mission_id'' = JStr m \<and> dget r ''projection_seq'' = JInt n"
  by (auto simp: graph_rows_def plan_row_def revision_row_def task_row_def dependency_row_def snapshot_row_def)

lemma wg_apply_selected:
  assumes run: "run_callback graph_writes d (wg_apply d composed) = Inr (d', u)" and s: "wg_state composed = Inr s"
    and t: "t \<in> set PROJECTION_TABLES"
  shows "select_rows d' t [(''mission_id'', JStr k)] =
    (if k = cs_mission_id composed then the (map_of (graph_rows (cs_mission_id composed) (cs_seq composed) s) t)
     else select_rows d t [(''mission_id'', JStr k)])"
proof -
  let ?m = "cs_mission_id composed" and ?rows = "graph_rows (cs_mission_id composed) (cs_seq composed) s"
  have "t \<in> fst ` set ?rows" using t graph_tables(2) by (metis set_map)
  then obtain rows where rows: "map_of ?rows t = Some rows" by (cases "map_of ?rows t") (auto simp: map_of_eq_None_iff)
  note own = select_own [of rows ?m k] graph_row_mission [OF map_of_SomeD [OF rows]]
  show ?thesis
    by (simp add: select_rows_def wg_apply_Inr(2) [OF run s t] rows select_without own)
qed

section \<open>Reading the tables back\<close>

lemma stored_rows:
  assumes "\<And>x. dget (row x) ''state_json'' = JStr (canonical_json (JObj (enc x)))" and "\<And>x. order (row x) = key x"
    and "select_rows d t [(''mission_id'', JStr m)] = map row xs"
  shows "stored_values d m t order = Inr (map (\<lambda>x. canon (JObj (enc x))) (sort_key key xs))"
  unfolding stored_values_def assms(3) sort_key_map map_res_map assms(2)
  by (rule map_res_total) (simp add: read_json_def assms(1) json_loads_canonical)

lemma by_key_rows:
  assumes "\<And>x. map_of (enc x) k = Some (JStr (key x))"
  shows "by_key k (map (\<lambda>x. canon (JObj (enc x))) xs) = Inr (JObj (dict_of_pairs (map (\<lambda>x. (key x, canon (JObj (enc x)))) xs)))"
proof -
  have "map_res (\<lambda>v. and_then (as_dict v) (\<lambda>x. and_then (dindex x k) (\<lambda>k. and_then (as_text k) (\<lambda>i. Inr (i, v)))))
      (map (\<lambda>x. canon (JObj (enc x))) xs) = Inr (map (\<lambda>x. (key x, canon (JObj (enc x)))) xs)"
    unfolding map_res_map by (rule map_res_total) (simp add: assms)
  then show ?thesis by (simp only: by_key_def and_then_simps)
qed

text \<open>The dictionary read back is the canonical form of the one \<open>to_dict\<close> writes.\<close>

lemma keyed_dicts_read:
  assumes "distinct (map key xs)"
  shows "JObj (dict_of_pairs (map (\<lambda>x. (key x, canon (JObj (enc x)))) (sort_key key xs))) = canon (keyed_dicts enc key xs)"
proof -
  let ?ps = "map (\<lambda>x. (key x, JObj (enc x))) (sort_key key xs)"
  have dist: "distinct (map key (sort_key key xs))" using assms by (simp add: distinct_map)
  then have pairs: "dict_of_pairs ?ps = ?ps"
      "dict_of_pairs (map (\<lambda>x. (key x, canon (JObj (enc x)))) (sort_key key xs)) = map (\<lambda>x. (key x, canon (JObj (enc x)))) (sort_key key xs)"
    by (simp_all add: dict_of_pairs_distinct o_def)
  have "canon_dict ?ps = canon_values ?ps"
    using dist by (intro canon_dict_sorted_values) (simp_all add: o_def)
  then show ?thesis unfolding keyed_dicts_def pairs by (simp add: canon_values_def o_def)
qed

lemma row_fields:
  "dget (plan_row m n p) ''state_json'' = JStr (canonical_json (JObj (plan_to_dict p)))"
  "dget (revision_row m n r) ''state_json'' = JStr (canonical_json (JObj (revision_to_dict r)))"
  "dget (task_row m n t) ''state_json'' = JStr (canonical_json (JObj (task_to_dict t)))"
  "dget (dependency_row m n x) ''state_json'' = JStr (canonical_json (JObj (dependency_to_dict x)))"
  "dget (snapshot_row m n s) ''state_json'' = JStr (canonical_json (JObj (snapshot_to_dict s)))"
  "text_of (plan_row m n p) ''plan_id'' = pl_plan_id p" "text_of (revision_row m n r) ''revision_id'' = rv_revision_id r"
  "text_of (task_row m n t) ''task_id'' = tk_task_id t" "text_of (snapshot_row m n s) ''snapshot_id'' = sn_snapshot_id s"
  "dependency_order (dependency_row m n x) = dependency_key x"
  by (simp_all add: plan_row_def revision_row_def task_row_def dependency_row_def snapshot_row_def text_of_def
      dependency_order_def dependency_key_def)

lemma entity_ids:
  "map_of (plan_to_dict p) ''plan_id'' = Some (JStr (pl_plan_id p))"
  "map_of (revision_to_dict r) ''revision_id'' = Some (JStr (rv_revision_id r))"
  "map_of (task_to_dict t) ''task_id'' = Some (JStr (tk_task_id t))"
  "map_of (snapshot_to_dict s) ''snapshot_id'' = Some (JStr (sn_snapshot_id s))"
  by (simp_all add: plan_to_dict_def revision_to_dict_def task_to_dict_def snapshot_to_dict_def)

lemma wg_read_rows:
  assumes rows: "\<And>t rows. (t, rows) \<in> set (graph_rows (wg_mission_id s) n s) \<Longrightarrow> select_rows d t [(''mission_id'', JStr (wg_mission_id s))] = rows"
    and ids: "graph_ids_distinct s"
  shows "wg_read_state d (wg_mission_id s) = Inr (norm_graph s)"
proof -
  let ?m = "wg_mission_id s"
  have dist: "distinct (map pl_plan_id (wg_plans s))" "distinct (map rv_revision_id (wg_revisions s))"
      "distinct (map tk_task_id (wg_tasks s))" "distinct (map sn_snapshot_id (wg_snapshots s))"
    using ids by (simp_all add: graph_ids_distinct_def)
  have sel: "select_rows d ''work_graph_plan_projection'' [(''mission_id'', JStr ?m)] = map (plan_row ?m n) (wg_plans s)"
      "select_rows d ''work_graph_revision_projection'' [(''mission_id'', JStr ?m)] = map (revision_row ?m n) (wg_revisions s)"
      "select_rows d ''work_graph_task_projection'' [(''mission_id'', JStr ?m)] = map (task_row ?m n) (wg_tasks s)"
      "select_rows d ''work_graph_dependency_projection'' [(''mission_id'', JStr ?m)] = map (dependency_row ?m n) (wg_dependencies s)"
      "select_rows d ''work_graph_snapshot_projection'' [(''mission_id'', JStr ?m)] = map (snapshot_row ?m n) (wg_snapshots s)"
    by (rule rows, simp add: graph_rows_def)+
  have stored: "stored_values d ?m ''work_graph_plan_projection'' (\<lambda>r. text_of r ''plan_id'') = Inr (map (\<lambda>x. canon (JObj (plan_to_dict x))) (sort_key pl_plan_id (wg_plans s)))"
      "stored_values d ?m ''work_graph_revision_projection'' (\<lambda>r. text_of r ''revision_id'') = Inr (map (\<lambda>x. canon (JObj (revision_to_dict x))) (sort_key rv_revision_id (wg_revisions s)))"
      "stored_values d ?m ''work_graph_task_projection'' (\<lambda>r. text_of r ''task_id'') = Inr (map (\<lambda>x. canon (JObj (task_to_dict x))) (sort_key tk_task_id (wg_tasks s)))"
      "stored_values d ?m ''work_graph_dependency_projection'' dependency_order = Inr (map (\<lambda>x. canon (JObj (dependency_to_dict x))) (sort_key dependency_key (wg_dependencies s)))"
      "stored_values d ?m ''work_graph_snapshot_projection'' (\<lambda>r. text_of r ''snapshot_id'') = Inr (map (\<lambda>x. canon (JObj (snapshot_to_dict x))) (sort_key sn_snapshot_id (wg_snapshots s)))"
    by (rule stored_rows [OF _ _ sel(1)] stored_rows [OF _ _ sel(2)] stored_rows [OF _ _ sel(3)] stored_rows [OF _ _ sel(4)]
        stored_rows [OF _ _ sel(5)]; simp add: row_fields)+
  note decode = plan_codec.decode_keyed [OF dist(1)] revision_codec.decode_keyed [OF dist(2)]
    task_codec.decode_keyed [OF dist(3)] snapshot_codec.decode_keyed [OF dist(4)]
  note read = by_key_rows [OF entity_ids(1)] by_key_rows [OF entity_ids(2)] by_key_rows [OF entity_ids(3)] by_key_rows [OF entity_ids(4)]
  note keyed = keyed_dicts_read [OF dist(1)] keyed_dicts_read [OF dist(2)] keyed_dicts_read [OF dist(3)] keyed_dicts_read [OF dist(4)]
  have list: "and_then (elements (py_or (JList xs) (JList []))) f = f xs" for xs and f :: "json list \<Rightarrow> 'z py"
    by (cases xs) (simp_all add: py_or_def)
  show ?thesis
    unfolding wg_read_state_def stored and_then_simps read keyed
    by (simp add: wg_from_dict_def decode list)
       (simp add: decode_dependencies norm_graph_def canon_JObj)
qed

lemma wg_read_apply:
  assumes run: "run_callback graph_writes d (wg_apply d composed) = Inr (d', u)" and s: "wg_state composed = Inr s"
    and ids: "graph_ids_distinct s" and m: "wg_mission_id s = cs_mission_id composed"
  shows "wg_read_state d' (wg_mission_id s) = Inr (norm_graph s)"
proof (rule wg_read_rows [OF _ ids])
  fix t rows assume mem: "(t, rows) \<in> set (graph_rows (wg_mission_id s) (cs_seq composed) s)"
  then have t: "t \<in> set PROJECTION_TABLES" using graph_tables(2) by (metis fst_conv image_eqI set_map)
  have "map_of (graph_rows (wg_mission_id s) (cs_seq composed) s) t = Some rows"
    using mem graph_tables(2,3) by (simp add: map_of_eq_Some_iff)
  then show "select_rows d' t [(''mission_id'', JStr (wg_mission_id s))] = rows"
    by (simp add: wg_apply_selected [OF run s t] m)
qed

lemma wg_read_other:
  assumes "run_callback graph_writes d (wg_apply d composed) = Inr (d', u)" and "wg_state composed = Inr s"
    and "k \<noteq> cs_mission_id composed"
  shows "wg_read_state d' k = wg_read_state d k"
  using wg_apply_selected [OF assms(1,2), of _ k] assms(3)
  by (simp add: wg_read_state_def stored_values_def PROJECTION_TABLES_def)

lemma wg_projection_seq_apply:
  assumes run: "run_callback graph_writes d (wg_apply d composed) = Inr (d', u)" and s: "wg_state composed = Inr s"
  shows "snd (wg_projection_seq d' (cs_mission_id composed)) =
    Inr (if wg_plans s = [] \<and> wg_revisions s = [] \<and> wg_tasks s = [] \<and> wg_dependencies s = [] \<and> wg_snapshots s = [] then None
         else Some (cs_seq composed))"
proof -
  let ?m = "cs_mission_id composed" and ?n = "cs_seq composed"
  let ?rows = "concat (map (\<lambda>t. select_rows d' t [(''mission_id'', JStr ?m)]) (sort PROJECTION_TABLES))"
  have sel: "select_rows d' t [(''mission_id'', JStr ?m)] = the (map_of (graph_rows ?m ?n s) t)" if "t \<in> set PROJECTION_TABLES" for t
    by (simp add: wg_apply_selected [OF run s that])
  have row: "dget r ''projection_seq'' = JInt ?n" if r: "r \<in> set ?rows" for r
  proof -
    obtain t where t: "t \<in> set PROJECTION_TABLES" "r \<in> set (the (map_of (graph_rows ?m ?n s) t))" using r sel by auto
    then have "t \<in> fst ` set (graph_rows ?m ?n s)" using graph_tables(2) by (metis set_map)
    then obtain rows where "map_of (graph_rows ?m ?n s) t = Some rows"
      by (cases "map_of (graph_rows ?m ?n s) t") (auto simp: map_of_eq_None_iff)
    then show ?thesis using graph_row_mission [OF map_of_SomeD] t(2) by auto
  qed
  have "map_res (\<lambda>r. py_int (dget r ''projection_seq'')) ?rows = Inr (map (\<lambda>_. ?n) ?rows)"
    by (rule map_res_total) (use row in simp)
  moreover have "remdups (map (\<lambda>_. ?n) xs) = (if xs = [] then [] else [?n])" for xs :: "dict list"
    by (induction xs) (auto simp: image_constant_conv)
  moreover have "?rows = [] \<longleftrightarrow> wg_plans s = [] \<and> wg_revisions s = [] \<and> wg_tasks s = [] \<and> wg_dependencies s = [] \<and> wg_snapshots s = []"
    using sel by (auto simp: graph_rows_def PROJECTION_TABLES_def)
  ultimately show ?thesis by (simp add: wg_projection_seq_def)
qed

section \<open>Writing never fails\<close>

definition graph_schema :: "db \<Rightarrow> bool" where
  "graph_schema d \<longleftrightarrow> (\<forall>(t, def) \<in> set wg_tables.
     table_of d t = Some def \<and> unique_keys d t = map (\<lambda>k. (k, [])) (td_keys def) \<and> abort_message d t ''DELETE'' = None)"

lemma graph_schema_frame:
  assumes "db_schema d' = db_schema d"
  shows "graph_schema d' = graph_schema d"
  unfolding graph_schema_def table_of_frame [OF assms] unique_keys_frame [OF assms] abort_message_frame [OF assms] ..

text \<open>Rows that satisfy the constraints of their table, with keys that differ among themselves and from
  those stored.\<close>

lemma insert_rows_total:
  assumes table: "table_of d t = Some (projection_table cols key)" "unique_keys d t = [(key, [])]"
    and rows: "\<And>r. r \<in> set rows \<Longrightarrow> fst ` set r \<subseteq> fst ` set cols \<and> (\<forall>(c, required) \<in> set cols. required \<longrightarrow> dget r c \<noteq> JNull)"
    and keys: "distinct (map (\<lambda>r. map (dget r) key) rows)"
    and old: "\<And>r q. r \<in> set rows \<Longrightarrow> q \<in> set (db_rows d t) \<Longrightarrow> map (dget r) key \<noteq> map (dget q) key"
  shows "\<exists>d'. insert_rows t d rows = Inr d'"
  using assms
proof (induction rows arbitrary: d)
  case Nil
  then show ?case by simp
next
  case (Cons r rows)
  let ?d = "d\<lparr>db_rows := (db_rows d)(t := db_rows d t @ [r])\<rparr>"
  have "\<not> same_key key [] r q" if "q \<in> set (db_rows d t)" for q
    using Cons.prems(5) [of r q] that by (auto simp: same_key_def list_all_iff)
  then have "\<not> has_conflict d t r" by (auto simp: has_conflict_def Cons.prems(2) list_ex_iff)
  moreover have "list_all (\<lambda>(k, _). k \<in> fst ` set cols) r" using Cons.prems(3) [of r] by (simp add: list_all_iff case_prod_beta image_subset_iff)
  ultimately have step: "insert_row d t r = Inr ?d"
    using Cons.prems(1) Cons.prems(3) [of r] by (auto simp: insert_row_Inr row_ok_def projection_table_def list_all_iff)
  have "\<exists>d'. insert_rows t ?d rows = Inr d'"
  proof (rule Cons.IH)
    show "map (dget x) key \<noteq> map (dget q) key" if "x \<in> set rows" "q \<in> set (db_rows ?d t)" for x q
      using that Cons.prems(4) Cons.prems(5) [of x q] by (auto simp del: map_eq_conv) (metis image_eqI)
  qed (use Cons.prems in \<open>auto simp: table_of_def unique_keys_def\<close>)
  then show ?case by (simp add: step)
qed

lemma wg_table_form: "(t, def) \<in> set wg_tables \<Longrightarrow> def = projection_table (td_columns def) (hd (td_keys def))"
  by (auto simp: wg_tables_def projection_table_def)

lemma fold_deletes_total:
  assumes "graph_schema d" and "set ts \<subseteq> set PROJECTION_TABLES"
  shows "\<exists>d'. fold_res (run_sql graph_writes) d (map (\<lambda>t. SqlDelete t cs) ts) = Inr d'"
  using assms
proof (induction ts arbitrary: d)
  case Nil
  then show ?case by simp
next
  case (Cons t ts)
  then have "t \<in> fst ` set wg_tables" using graph_tables(4) by (metis list.set_intros(1) set_map subsetD)
  then obtain td where "table_of d t = Some td" "abort_message d t ''DELETE'' = None"
    using Cons.prems(1) by (fastforce simp: graph_schema_def)
  then obtain d1 where d1: "delete_rows d t cs = Inr d1" by (simp add: delete_rows_def)
  then show ?case using Cons.IH [of d1] Cons.prems graph_schema_frame [OF delete_rows_schema [OF d1]] by auto
qed

text \<open>The five groups of rows, each for its table.\<close>

lemma fold_tables_total:
  assumes "graph_schema d" and "fst ` set ps \<subseteq> set PROJECTION_TABLES" and "distinct (map fst ps)"
    and "\<And>t rows cols key. (t, rows) \<in> set ps \<Longrightarrow> (t, projection_table cols key) \<in> set wg_tables \<Longrightarrow>
      (\<forall>r \<in> set rows. fst ` set r \<subseteq> fst ` set cols \<and> (\<forall>(c, required) \<in> set cols. required \<longrightarrow> dget r c \<noteq> JNull)) \<and>
      distinct (map (\<lambda>r. map (dget r) key) rows) \<and>
      (\<forall>r \<in> set rows. \<forall>q \<in> set (db_rows d t). map (dget r) key \<noteq> map (dget q) key)"
  shows "\<exists>d'. fold_res (run_sql graph_writes) d (insert_statements ps) = Inr d'"
  using assms
proof (induction ps arbitrary: d)
  case Nil
  then show ?case by (simp add: insert_statements_def)
next
  case (Cons p ps)
  obtain t rows where p: "p = (t, rows)" by (cases p)
  have t: "t \<in> set PROJECTION_TABLES" using Cons.prems(2) by (simp add: p)
  then have "t \<in> fst ` set wg_tables" using graph_tables(4) by (metis set_map)
  then obtain td where "(t, td) \<in> set wg_tables" by force
  with wg_table_form [OF this] obtain cols key where td: "(t, projection_table cols key) \<in> set wg_tables" by metis
  then have table: "table_of d t = Some (projection_table cols key)" "unique_keys d t = [(key, [])]"
    using Cons.prems(1) by (fastforce simp: graph_schema_def projection_table_def)+
  have "(t, rows) \<in> set (p # ps)" by (simp add: p)
  note ok = Cons.prems(4) [OF this td]
  obtain d1 where d1: "insert_rows t d rows = Inr d1"
    using insert_rows_total [OF table, of rows] ok by blast
  have frame: "db_rows d1 u = db_rows d u" if "u \<in> fst ` set ps" for u
  proof -
    have "u \<noteq> t" using that Cons.prems(3) by (auto simp: p)
    then show ?thesis using insert_rows_Inr [OF d1] by simp
  qed
  have "\<exists>d'. fold_res (run_sql graph_writes) d1 (insert_statements ps) = Inr d'"
  proof (rule Cons.IH)
    show "graph_schema d1" using graph_schema_frame [of d1 d] insert_rows_Inr [OF d1] Cons.prems(1) by simp
  next
    fix u us cols key assume u: "(u, us) \<in> set ps" "(u, projection_table cols key) \<in> set wg_tables"
    have "db_rows d1 u = db_rows d u" by (rule frame) (use u(1) in force)
    then show "(\<forall>r \<in> set us. fst ` set r \<subseteq> fst ` set cols \<and> (\<forall>(c, required) \<in> set cols. required \<longrightarrow> dget r c \<noteq> JNull)) \<and>
      distinct (map (\<lambda>r. map (dget r) key) us) \<and>
      (\<forall>r \<in> set us. \<forall>q \<in> set (db_rows d1 u). map (dget r) key \<noteq> map (dget q) key)"
      using Cons.prems(4) [OF _ u(2), of us] u(1) by simp
  qed (use Cons.prems(2,3) in auto)
  then show ?case using d1 t by (simp add: insert_statements_def p fold_res_append fold_inserts)
qed

lemma graph_rows_ok:
  assumes "graph_ids_distinct s" and "distinct (map dependency_key (wg_dependencies s))"
    and "(t, rows) \<in> set (graph_rows m n s)" and "(t, projection_table cols key) \<in> set wg_tables"
  shows "(\<forall>r \<in> set rows. fst ` set r \<subseteq> fst ` set cols \<and> (\<forall>(c, required) \<in> set cols. required \<longrightarrow> dget r c \<noteq> JNull)) \<and>
      distinct (map (\<lambda>r. map (dget r) key) rows) \<and> ''mission_id'' \<in> set key"
proof -
  note defs = graph_rows_def wg_tables_def projection_table_def plan_row_def revision_row_def task_row_def dependency_row_def
    snapshot_row_def
  have dist: "distinct (map pl_plan_id (wg_plans s))" "distinct (map rv_revision_id (wg_revisions s))"
      "distinct (map tk_task_id (wg_tasks s))" "distinct (map sn_snapshot_id (wg_snapshots s))"
    using assms(1) by (simp_all add: graph_ids_distinct_def)
  have "t \<in> set PROJECTION_TABLES" using assms(3) graph_tables(2) by (metis fst_conv image_eqI set_map)
  then have "t = ''work_graph_plan_projection'' \<or> t = ''work_graph_revision_projection'' \<or>
      t = ''work_graph_task_projection'' \<or> t = ''work_graph_dependency_projection'' \<or> t = ''work_graph_snapshot_projection''"
    by (simp add: PROJECTION_TABLES_def)
  then show ?thesis
  proof (elim disjE, goal_cases)
    case 1
    then show ?thesis using assms(3,4) dist(1) by (simp add: defs distinct_map inj_on_def)
  next
    case 2
    then show ?thesis using assms(3,4) dist(2) by (simp add: defs distinct_map inj_on_def)
  next
    case 3
    then show ?thesis using assms(3,4) dist(3) by (simp add: defs distinct_map inj_on_def)
  next
    case 4
    then show ?thesis using assms(2-4) by (simp add: defs distinct_map inj_on_def dependency_key_def)
  next
    case 5
    then show ?thesis using assms(3,4) dist(4) by (simp add: defs distinct_map inj_on_def)
  qed
qed

theorem wg_apply_total:
  assumes schema: "graph_schema d" and s: "wg_state composed = Inr s"
    and ids: "graph_ids_distinct s" "distinct (map dependency_key (wg_dependencies s))"
  shows "\<exists>d'. run_callback graph_writes d (wg_apply d composed) = Inr (d', ())"
proof -
  let ?m = "cs_mission_id composed" and ?rows = "graph_rows (cs_mission_id composed) (cs_seq composed) s"
  have sub: "set (sort PROJECTION_TABLES) \<subseteq> set PROJECTION_TABLES" by (rule order_eq_refl [OF graph_tables(1)])
  obtain d1 where d1: "fold_res (run_sql graph_writes) d (map (\<lambda>t. SqlDelete t [(''mission_id'', JStr ?m)]) (sort PROJECTION_TABLES)) = Inr d1"
    using fold_deletes_total [OF schema sub] by blast
  have tables: "fst ` set ?rows = set PROJECTION_TABLES" using graph_tables(2) by (metis set_map)
  have "\<exists>d'. fold_res (run_sql graph_writes) d1 (insert_statements ?rows) = Inr d'"
  proof (rule fold_tables_total)
    show "graph_schema d1" using graph_schema_frame [OF fold_deletes(1) [OF d1 sub]] schema by simp
    show "fst ` set ?rows \<subseteq> set PROJECTION_TABLES" "distinct (map fst ?rows)"
      by (simp_all only: tables order_refl graph_tables(2,3))
  next
    fix t rows cols key
    assume mem: "(t, rows) \<in> set ?rows" "(t, projection_table cols key) \<in> set wg_tables"
    note ok = graph_rows_ok [OF ids mem]
    have "t \<in> set PROJECTION_TABLES" using imageI [OF mem(1), of fst] tables by simp
    then have "t \<in> set (sort PROJECTION_TABLES)" unfolding graph_tables(1) .
    then have foreign: "dget q ''mission_id'' \<noteq> JStr ?m" if "q \<in> set (db_rows d1 t)" for q
      using that by (simp only: fold_deletes(2) [OF d1 sub] if_True) (simp add: row_matches_def)
    have "\<forall>r \<in> set rows. \<forall>q \<in> set (db_rows d1 t). map (dget r) key \<noteq> map (dget q) key"
    proof (intro ballI notI)
      fix r q assume rq: "r \<in> set rows" "q \<in> set (db_rows d1 t)" and "map (dget r) key = map (dget q) key"
      then have "dget r ''mission_id'' = dget q ''mission_id''" using ok by (simp add: map_eq_conv)
      then show False using foreign [OF rq(2)] graph_row_mission [OF mem(1) rq(1)] by simp
    qed
    with ok show "(\<forall>r \<in> set rows. fst ` set r \<subseteq> fst ` set cols \<and> (\<forall>(c, required) \<in> set cols. required \<longrightarrow> dget r c \<noteq> JNull)) \<and>
      distinct (map (\<lambda>r. map (dget r) key) rows) \<and>
      (\<forall>r \<in> set rows. \<forall>q \<in> set (db_rows d1 t). map (dget r) key \<noteq> map (dget q) key)" by blast
  qed
  then show ?thesis using d1
    by (auto simp: run_callback_def wg_apply_def s clear_statements_def fold_res_append)
qed

end
