(* ===== verification/EventOrigin.thy ===== *)
theory EventOrigin
  imports RuntimeService
begin

text \<open>
  Where the events of a log come from: in every database a service can reach, every event was proposed by the
  handler of its command's owner, on exactly the state to which the log before it replays
  (\<open>reachable_decided\<close>).  A guard of a handler therefore held in the history at the point where its event
  was recorded.
\<close>

text \<open>The state of a mission after its first \<open>n\<close> events.\<close>

definition state_through :: "'x registry \<Rightarrow> db \<Rightarrow> string \<Rightarrow> int \<Rightarrow> 'x bus_state py" where
  "state_through r d m n =
     and_then (initial_bus_state m r) (\<lambda>s. and_then (list_events d m 0 (Some n)) (\<lambda>es. fold_res (reduce_state r) s es))"

definition decided :: "'x registry \<Rightarrow> db \<Rightarrow> string \<Rightarrow> event_envelope \<Rightarrow> bool" where
  "decided r d m e \<longleftrightarrow>
     (\<exists>env c state head pending. c_mission_id c = m \<and> 0 \<le> head \<and> head < ev_seq e \<and> state_through r d m head = Inr state \<and>
        propose r c state head = Inr pending \<and> e \<in> set (make_events env c head pending))"

definition log_decided :: "'x registry \<Rightarrow> db \<Rightarrow> bool" where
  "log_decided r d \<longleftrightarrow> (\<forall>m. \<forall>row \<in> set (stream d m). \<forall>e. row_to_event row = Inr e \<longrightarrow> decided r d m e)"

lemma state_through_composed:
  "registry_enabled r \<Longrightarrow> state_through r d m n = and_then (replay_composed_state d m r (Some n)) (\<lambda>s. Inr (Composed s))"
  by (simp add: state_through_def initial_bus_state_def replay_composed_state_def and_then_assoc fold_composed)

section \<open>Reading a prefix of a growing log\<close>

lemma list_events_prefix:
  assumes "stream d' m = stream d m @ rows" and "\<And>r. r \<in> set rows \<Longrightarrow> n < row_seq r"
  shows "list_events d' m 0 (Some n) = list_events d m 0 (Some n)"
proof -
  have "filter (\<lambda>r. 0 < row_seq r \<and> row_seq r \<le> n) rows = []" using assms(2) by (force simp: filter_empty_conv)
  then show ?thesis by (simp add: list_events_def assms(1))
qed

lemma list_events_whole:
  assumes "log_ok d"
  shows "list_events d m 0 (Some (int (length (stream d m)))) = list_events d m 0 None"
proof -
  have "row_seq r \<le> int (length (stream d m))" if "r \<in> set (stream d m)" for r
  proof -
    have "row_seq r \<in> set (map int [1..<Suc (length (stream d m))])"
      using assms that unfolding log_ok_def by (metis image_eqI list.set_map)
    then show ?thesis by auto
  qed
  then have "filter (\<lambda>r. 0 < row_seq r \<and> row_seq r \<le> int (length (stream d m))) (stream d m) =
      filter (\<lambda>r. 0 < row_seq r) (stream d m)" by (intro filter_cong) auto
  then show ?thesis by (simp add: list_events_def)
qed

lemma state_through_prefix:
  "stream d' m = stream d m @ rows \<Longrightarrow> (\<And>r. r \<in> set rows \<Longrightarrow> n < row_seq r) \<Longrightarrow>
     state_through r d' m n = state_through r d m n"
  by (simp add: state_through_def list_events_prefix)

lemma state_through_head:
  "log_ok d \<Longrightarrow> load_state d m r = Inr s \<Longrightarrow> state_through r d m (int (length (stream d m))) = Inr s"
  by (simp add: state_through_def load_state_fold list_events_whole)

lemma decided_grows:
  assumes "decided r d m e" and "stream d' m = stream d m @ rows" and "\<And>r. r \<in> set rows \<Longrightarrow> ev_seq e \<le> row_seq r"
  shows "decided r d' m e"
  using assms(1)
proof -
  obtain env c state head pending where origin: "c_mission_id c = m" "0 \<le> head" "head < ev_seq e"
      "state_through r d m head = Inr state" "propose r c state head = Inr pending" "e \<in> set (make_events env c head pending)"
    using assms(1) by (auto simp: decided_def)
  have "state_through r d' m head = state_through r d m head"
    by (rule state_through_prefix [OF assms(2)]) (use assms(3) origin(3) in force)
  then show ?thesis using origin unfolding decided_def by metis
qed

section \<open>Through the life of a database\<close>

lemma log_decided_frame:
  assumes "db_rows d' ''events'' = db_rows d ''events''" and "log_decided r d"
  shows "log_decided r d'"
proof -
  have "stream d' m = stream d m" for m by (simp add: stream_def select_rows_def assms(1))
  then show ?thesis using assms(2) decided_grows [of r d _ _ d' "[]"] by (simp add: log_decided_def)
qed

lemma stream_row_event:
  assumes "log_ok d" and "row \<in> set (stream d m)" and "row_to_event row = Inr e"
  shows "ev_seq e = row_seq row" and "row_seq row \<le> int (length (stream d m))"
proof -
  have "row_seq row \<in> set (map int [1..<Suc (length (stream d m))])"
    using assms(1,2) unfolding log_ok_def by (metis image_eqI list.set_map)
  then have pos: "0 < row_seq row" and "row_seq row \<le> int (length (stream d m))" by auto
  then show "row_seq row \<le> int (length (stream d m))" by simp
  from pos obtain n where "dget row ''seq'' = JInt n" "row_seq row = n" by (auto simp: row_seq_def split: json.split_asm)
  then show "ev_seq e = row_seq row" using row_to_event_seq [OF assms(3)] by simp
qed

lemma append_decided:
  assumes app: "append_events sha r env c d state head pending = Inr (d', res)" and ok: "log_ok d"
    and state: "load_state d (c_mission_id c) r = Inr state" and safe: "core_tables_safe r"
    and head: "head = get_head_seq d (c_mission_id c)" and proposed: "propose r c state head = Inr pending"
    and old: "log_decided r d"
  shows "log_decided r d'"
  unfolding log_decided_def
proof (intro allI ballI impI)
  fix m row e assume row: "row \<in> set (stream d' m)" "row_to_event row = Inr e"
  let ?m = "c_mission_id c" and ?events = "make_events env c head pending"
  have head: "head = int (length (stream d ?m))" using log_head [OF ok] head by simp
  from append_events_effect [OF app ok state safe] show "decided r d' m e"
  proof cases
    case (1 new h)
    have later: "head < ev_seq x" if "x \<in> set ?events" for x
    proof -
      have "ev_seq x \<in> set (map ev_seq ?events)" using that by simp
      then show ?thesis unfolding make_events_facts(3) by auto
    qed
    have grown: "stream d' ?m = stream d ?m @ map event_row ?events" by (rule 1(5))
    show ?thesis
    proof (cases "m = ?m")
      case False
      then have "stream d' m = stream d m @ []" using 1(6) by simp
      then show ?thesis using old row decided_grows [of r d m e d' "[]"] by (auto simp: log_decided_def)
    next
      case m: True
      show ?thesis
      proof (cases "row \<in> set (stream d ?m)")
        case True
        then have "ev_seq e \<le> head" using stream_row_event [OF ok True row(2)] head by simp
        moreover have "decided r d ?m e" using old row(2) True by (auto simp: log_decided_def)
        ultimately show ?thesis using decided_grows [OF _ grown, of r e] later m by fastforce
      next
        case False
        then obtain x where x: "x \<in> set ?events" "row = event_row x" using row(1) grown m by auto
        have "event_norm x = x" using make_events_facts(1) [OF x(1)] by simp
        then have e: "e = x" using row(2) x(2) by simp
        have "state_through r d' ?m head = state_through r d ?m head"
          by (rule state_through_prefix [OF grown]) (use later in auto)
        also have "\<dots> = Inr state" using state_through_head [OF ok state] head by simp
        finally have at_head: "state_through r d' m head = Inr state" using m by simp
        have "0 \<le> head" using head by simp
        then show ?thesis unfolding decided_def e using m at_head x(1) later [OF x(1)] proposed by blast
      qed
    qed
  qed
qed

lemma execute_decided:
  assumes run: "execute sha r env d raw = (d', out)" and inv: "bus_inv r d" and safe: "core_tables_safe r"
    and old: "log_decided r d"
  shows "log_decided r d'"
  using run
proof (cases rule: execute_cases)
  case unchanged
  then show ?thesis using old by simp
next
  case (ran c res)
  from ran(2) show ?thesis
  proof (cases rule: run_command_cases)
    case fresh
    from fresh(1) show ?thesis
    proof (cases rule: decide_cases)
      case (rejected state x)
      have "db_rows d' ''events'' = db_rows d ''events''" by (rule insert_command_frame(1) [OF rejected(4)]) simp
      then show ?thesis using old by (rule log_decided_frame)
    next
      case (applied state pending)
      have ok: "log_ok d" using inv by (simp add: bus_inv_def)
      from append_decided [OF applied(3) ok applied(1) safe refl applied(2) old] show ?thesis .
    qed
  qed (use old in simp_all)
qed

lemma reachable_decided: "service_reachable sha r d \<Longrightarrow> log_decided r d"
proof (induction rule: service_reachable.induct)
  case (created p xs now d)
  have "db_rows d ''events'' = []"
    using open_service_rows [OF created.hyps, of "''events''"] by (simp add: CORE_PROJECTION_TABLES_def empty_db_def)
  then show ?case by (simp add: log_decided_def stream_def select_rows_def)
next
  case (called d env raw d' out)
  then show ?case using execute_decided reachable_inv by blast
next
  case (rebuilt d scope d' out)
  have "db_rows d' ''events'' = db_rows d ''events''"
  proof (cases out)
    case (Inl x)
    then have "d' = d"
      using rebuilt.hyps(2) by (auto simp: service_rebuild_def immediate_transaction_def split: sum.split_asm prod.split_asm)
    then show ?thesis by simp
  next
    case (Inr report)
    then show ?thesis using service_rebuild_shows(1) [of sha r d scope d' report] rebuilt.hyps reachable_inv by blast
  qed
  then show ?case using rebuilt.IH log_decided_frame by blast
next
  case (reopened d p xs now d')
  have "db_rows d' ''events'' = db_rows d ''events''"
    using open_service_rows [OF reopened.hyps(2), of "''events''"] by (simp add: CORE_PROJECTION_TABLES_def)
  then show ?case using reopened log_decided_frame by blast
qed

text \<open>For the events a client lists.\<close>

lemma listed_decided:
  assumes "service_reachable sha r d" and "list_events d m k through = Inr es" and "e \<in> set es"
  shows "decided r d m e"
proof -
  have "\<exists>row \<in> set (stream d m). row_to_event row = Inr e"
    using map_res_source [OF assms(2) [unfolded list_events_def] assms(3)] by auto
  then show ?thesis using reachable_decided [OF assms(1)] unfolding log_decided_def by blast
qed

end
