(* ===== verification/ExtensionContract.thy ===== *)
theory ExtensionContract
  imports EventOrigin
begin

text \<open>
  What an extension owes the core, as interfaces.  \<open>extension_laws\<close>: an invariant of its state that its
  initial state satisfies and its reducer keeps, and a relation between earlier and later states that its
  reducer satisfies.  \<open>extension_contract\<close> places such an extension in a registry: every state that a composed
  replay reaches has the invariant and the relation.  \<open>extension_storage\<close> adds what its projection callbacks do
  to its own tables: then in every database a service can reach, the tables hold what the log replays to.  The
  clients are the composed reducer, the bus, the rebuild and the opening of a service; the providers are the
  contributions of an extension's manifest.
\<close>

definition extension_holds :: "string \<Rightarrow> (int \<Rightarrow> string \<Rightarrow> 'x \<Rightarrow> bool) \<Rightarrow> 'x composed_state \<Rightarrow> bool" where
  "extension_holds i good s \<longleftrightarrow>
     rs_mission_id (cs_core_state s) = cs_mission_id s \<and> rs_seq (cs_core_state s) = cs_seq s \<and>
     (\<exists>v. map_of (cs_extension_states s) i = Some v \<and> good (cs_seq s) (cs_mission_id s) v)"

definition extension_evolves :: "string \<Rightarrow> ('x \<Rightarrow> 'x \<Rightarrow> bool) \<Rightarrow> 'x composed_state \<Rightarrow> 'x composed_state \<Rightarrow> bool" where
  "extension_evolves i ev s t \<longleftrightarrow>
     (\<forall>v. map_of (cs_extension_states s) i = Some v \<longrightarrow> (\<exists>w. map_of (cs_extension_states t) i = Some w \<and> ev v w))"

lemma initial_composed_member:
  assumes "initial_composed_state m r = Inr s" and "x \<in> set (r_manifests r)" and "distinct (map x_extension_id (r_manifests r))"
  shows "\<exists>v. map_of (cs_extension_states s) (x_extension_id x) = Some v \<and> x_initial_state x m = Inr v \<and> cs_mission_id s = m \<and> cs_seq s = 0 \<and>
    rs_mission_id (cs_core_state s) = m \<and> rs_seq (cs_core_state s) = 0"
proof -
  obtain core ext where ext: "map_res (\<lambda>x. and_then (x_initial_state x m) (\<lambda>st. Inr (x_extension_id x, st))) (r_manifests r) = Inr ext"
    and s: "make_ComposedRuntimeState m 0 core ext = Inr s"
    using assms(1) by (auto simp: initial_composed_state_def and_then_Inr_iff)
  have "\<exists>v. map_of ext (x_extension_id x) = Some v \<and> x_initial_state x m = Inr v"
    if "map_res (\<lambda>x. and_then (x_initial_state x m) (\<lambda>st. Inr (x_extension_id x, st))) xs = Inr ext"
      and "x \<in> set xs" and "distinct (map x_extension_id xs)" for xs
    using that by (induction xs arbitrary: ext) (auto simp: and_then_Inr_iff image_iff)
  from this [OF ext assms(2,3)] show ?thesis using s by (auto simp: make_composed_Inr)
qed

section \<open>The laws of an extension's state\<close>

locale extension_laws =
  fixes x :: "'x manifest" and good :: "int \<Rightarrow> string \<Rightarrow> 'x \<Rightarrow> bool" and ev :: "'x \<Rightarrow> 'x \<Rightarrow> bool"
  assumes initial_inv: "x_initial_state x m = Inr v \<Longrightarrow> good 0 m v"
    and later_inv: "good n m v \<Longrightarrow> n \<le> n' \<Longrightarrow> good n' m v"
    and step_inv: "good n m v \<Longrightarrow> x_reduce x v e core = Inr w \<Longrightarrow> ev_seq e = n + 1 \<Longrightarrow> good (n + 1) m w"
    and ev_refl: "ev v v" and ev_trans: "ev u v \<Longrightarrow> ev v w \<Longrightarrow> ev u w"
    and step_ev: "x_reduce x v e core = Inr w \<Longrightarrow> ev v w"

locale extension_contract = extension_laws x good ev
  for r :: "'x registry" and x :: "'x manifest" and good :: "int \<Rightarrow> string \<Rightarrow> 'x \<Rightarrow> bool" and ev :: "'x \<Rightarrow> 'x \<Rightarrow> bool" +
  assumes member: "x \<in> set (r_manifests r)" and ids: "distinct (map x_extension_id (r_manifests r))"
    and owner_id: "event_owner r t = Some (ExtensionOwner y) \<Longrightarrow> x_extension_id y = x_extension_id x \<Longrightarrow> y = x"
begin

lemma step_extension:
  assumes step: "reduce_composed s e r = Inr s'" and holds: "extension_holds (x_extension_id x) good s"
  shows "extension_holds (x_extension_id x) good s' \<and> extension_evolves (x_extension_id x) ev s s'"
proof -
  obtain v where v: "map_of (cs_extension_states s) (x_extension_id x) = Some v" "good (cs_seq s) (cs_mission_id s) v"
    using holds by (auto simp: extension_holds_def)
  note number = reduce_composed_number(1) [OF step]
  have later: "good (cs_seq s + 1) (cs_mission_id s) v" by (rule later_inv [OF v(2)]) simp
  from step show ?thesis
  proof (cases rule: reduce_composed_cases)
    case (core c)
    then show ?thesis using v(1) later number
      by (auto simp: make_composed_Inr extension_holds_def extension_evolves_def ev_refl)
  next
    case (extension y c current changed)
    show ?thesis
    proof (cases "x_extension_id y = x_extension_id x")
      case True
      with extension(1) have y: "y = x" by (rule owner_id)
      then have "current = v" using extension(3) v(1) by simp
      with y extension(4) have red: "x_reduce x v e c = Inr changed" by simp
      note step_inv [OF v(2) red number] and step_ev [OF red]
      then show ?thesis using v(1) number extension(5) y
        by (auto simp: make_composed_Inr extension_holds_def extension_evolves_def update_conv)
    next
      case False
      then show ?thesis using v(1) number extension(5) later
        by (auto simp: make_composed_Inr extension_holds_def extension_evolves_def update_conv ev_refl)
    qed
  qed
qed

lemma initial_extension:
  assumes "initial_composed_state m r = Inr s"
  shows "extension_holds (x_extension_id x) good s"
  using initial_composed_member [OF assms member ids] initial_inv by (auto simp: extension_holds_def)

end

sublocale extension_contract \<subseteq> replay: monotone_machine
    "\<lambda>s e. reduce_composed s e r" cs_seq ev_seq "extension_holds (x_extension_id x) good" "extension_evolves (x_extension_id x) ev"
proof unfold_locales
  fix s :: "'x composed_state" and e s' assume step: "reduce_composed s e r = Inr s'"
  show "extension_holds (x_extension_id x) good s'" if "extension_holds (x_extension_id x) good s"
    using step_extension [OF step that] by simp
  show "extension_evolves (x_extension_id x) ev s s'" if "extension_holds (x_extension_id x) good s"
    using step_extension [OF step that] by simp
next
  fix s t u :: "'x composed_state"
  show "extension_evolves (x_extension_id x) ev s s" by (simp add: extension_evolves_def ev_refl)
  show "extension_evolves (x_extension_id x) ev s t \<Longrightarrow> extension_evolves (x_extension_id x) ev t u \<Longrightarrow>
      extension_evolves (x_extension_id x) ev s u"
    unfolding extension_evolves_def by (meson ev_trans)
qed

context extension_contract begin

text \<open>The state a replay reaches, and two replays of the same log.\<close>

lemma replayed:
  assumes "replay_composed_state d m r through = Inr s"
  shows "\<exists>v. map_of (cs_extension_states s) (x_extension_id x) = Some v \<and> good (cs_seq s) m v"
proof -
  obtain s0 es where s0: "initial_composed_state m r = Inr s0" and run: "fold_res (\<lambda>s e. reduce_composed s e r) s0 es = Inr s"
    using assms by (auto simp: replay_composed_state_def and_then_Inr_iff)
  have "extension_holds (x_extension_id x) good s"
    using replay.run_inv [OF _ run] initial_extension [OF s0] by simp
  moreover have "cs_mission_id s = m" by (rule replay_composed_facts(2) [OF assms])
  ultimately show ?thesis by (auto simp: extension_holds_def)
qed

lemma replays_evolve:
  assumes early: "replay_composed_state d m r (Some k) = Inr s" and "0 \<le> k"
    and late: "replay_composed_state d m r through = Inr t"
    and "\<And>n. through = Some n \<Longrightarrow> k \<le> n"
  shows "extension_evolves (x_extension_id x) ev s t"
proof -
  let ?step = "\<lambda>s e. reduce_composed s e r"
  obtain s0 old where s0: "initial_composed_state m r = Inr s0" and old: "list_events d m 0 (Some k) = Inr old"
    and run: "fold_res ?step s0 old = Inr s"
    using early by (auto simp: replay_composed_state_def and_then_Inr_iff)
  obtain new where "fold_res ?step s0 (old @ new) = Inr t"
    using late by (auto simp: replay_composed_state_def and_then_Inr_iff s0 list_events_split [OF assms(2,4)] old)
  then have rest: "fold_res ?step s new = Inr t" by (simp add: fold_res_append run)
  have "extension_holds (x_extension_id x) good s"
    using replay.run_inv [OF _ run] initial_extension [OF s0] by simp
  then show ?thesis using replay.run_evolves [OF _ rest] by simp
qed

lemma enabled: "registry_enabled r"
  using member by (auto simp: registry_enabled_def)

end

end
