(* ===== verification/WgExtension.thy ===== *)
theory WgExtension
  imports WgProjections ExtensionContract
begin

text \<open>
  work_graph/extension.py: the manifest that registers the work graph with the core, and what follows from
  it: the registry that holds it, and the invariant and the evolution of the graph over every replay
  (\<open>graph_contract\<close>).  The hash function has to give the hexadecimal digests \<open>hashlib.sha256\<close> gives
  (\<open>hex_digest\<close>) for the migration's checksum to be accepted.
\<close>

section \<open>The manifest\<close>

definition wg_manifest :: "(string \<Rightarrow> string) \<Rightarrow> migration_step list \<Rightarrow> work_graph manifest" where
  "wg_manifest sha steps =
     \<lparr>x_extension_id = EXTENSION_ID, x_extension_version = ''1'', x_command_types = WG_COMMAND_TYPES,
      x_event_types = WG_EVENT_TYPES, x_initial_state = (\<lambda>m. Inr (empty_work_graph m)),
      x_to_dict = (\<lambda>s. Inr (wg_to_dict s)), x_encode = (\<lambda>s. Inr (wg_to_dict s)), x_decode = wg_from_dict,
      x_hash = (\<lambda>s. Inr (graph_hash sha s)), x_handle = wg_handle sha, x_reduce = wg_reduce sha,
      x_projection_tables = Some PROJECTION_TABLES, x_apply = wg_apply, x_read = wg_read, x_clear = wg_clear,
      x_verify = wg_verify sha, x_projection_seq = Some wg_projection_seq, x_migration_owner = Some EXTENSION_ID,
      x_migrations = steps\<rparr>"

definition work_graph_extension :: "(string \<Rightarrow> string) \<Rightarrow> work_graph manifest py" where
  "work_graph_extension sha = and_then (wg_migrations sha) (\<lambda>steps. make_ExtensionManifest (wg_manifest sha steps))"

definition hex_digest :: "(string \<Rightarrow> string) \<Rightarrow> bool" where
  "hex_digest sha \<longleftrightarrow> (\<forall>t. length (sha t) = 64 \<and> list_all is_lower_hex (sha t))"

definition wg_step :: "(string \<Rightarrow> string) \<Rightarrow> migration_step" where
  "wg_step sha = \<lparr>mg_version = 1, mg_checksum = canonical_sha256 sha (JList (map JStr MIGRATION_SQL)), mg_apply = apply_schema\<rparr>"

lemma wg_manifest_id [simp]: "x_extension_id (wg_manifest sha steps) = EXTENSION_ID"
  by (simp add: wg_manifest_def)

lemma lower_hex: "list_all is_lower_hex s \<Longrightarrow> lower s = s"
  by (induction s) (auto simp: lower_def lower_char_def is_lower_hex_def Let_def)

lemma work_graph_extension_Inr:
  assumes "hex_digest sha"
  shows "work_graph_extension sha = Inr (wg_manifest sha [wg_step sha])"
proof -
  have "make_MigrationStep 1 (canonical_sha256 sha (JList (map JStr MIGRATION_SQL))) apply_schema = Inr (wg_step sha)"
    using assms lower_hex by (simp add: make_MigrationStep_def hex_digest_def canonical_sha256_def wg_step_def)
  then show ?thesis
    by (simp add: work_graph_extension_def wg_migrations_def make_ExtensionManifest_def wg_manifest_def EXTENSION_ID_def
        nonblank_def is_space_def WG_COMMAND_TYPES_def WG_EVENT_TYPES_def)
qed

text \<open>The registry of a service whose one extension is the work graph.\<close>

definition wg_registry :: "work_graph manifest \<Rightarrow> work_graph registry" where
  "wg_registry x =
     \<lparr>r_core_command_types = SUPPORTED_COMMANDS, r_core_event_types = SUPPORTED_EVENTS, r_manifests = [x],
      r_by_id = [(EXTENSION_ID, x)], r_command_owners = rev (map (\<lambda>t. (t, x)) WG_COMMAND_TYPES),
      r_event_owners = rev (map (\<lambda>t. (t, x)) WG_EVENT_TYPES), r_table_owners = rev (map (\<lambda>t. (t, x)) PROJECTION_TABLES)\<rparr>"

lemma claim_types_total:
  assumes "\<And>t os. t \<in> set ts \<Longrightarrow> t \<notin> fst ` set os \<Longrightarrow> refuse t os = Inr ()" and "distinct ts"
    and "fst ` set os \<inter> set ts = {}"
  shows "fold_res (claim_type refuse x) os ts = Inr (rev (map (\<lambda>t. (t, x)) ts) @ os)"
  using assms
proof (induction ts arbitrary: os)
  case Nil
  then show ?case by simp
next
  case (Cons t ts)
  have "claim_type refuse x os t = Inr ((t, x) # os)" using Cons.prems(1,3) by (simp add: claim_type_def)
  moreover have "fold_res (claim_type refuse x) ((t, x) # os) ts = Inr (rev (map (\<lambda>t. (t, x)) ts) @ (t, x) # os)"
    by (rule Cons.IH) (use Cons.prems in auto)
  ultimately show ?case by simp
qed

lemma wg_types:
  "distinct WG_COMMAND_TYPES" "distinct WG_EVENT_TYPES" "distinct PROJECTION_TABLES"
  "set WG_COMMAND_TYPES \<inter> set SUPPORTED_COMMANDS = {}" "set WG_EVENT_TYPES \<inter> set SUPPORTED_EVENTS = {}"
  "set PROJECTION_TABLES \<inter> set CORE_PROJECTION_TABLES = {}" "''extension_migrations'' \<notin> set PROJECTION_TABLES"
  by (simp_all add: WG_COMMAND_TYPES_def WG_EVENT_TYPES_def PROJECTION_TABLES_def SUPPORTED_COMMANDS_def SUPPORTED_EVENTS_def
      CORE_PROJECTION_TABLES_def)

text \<open>The registry of a service that is built with the work graph as its one extension.\<close>

theorem wg_registry_built:
  assumes "hex_digest sha"
  shows "and_then (work_graph_extension sha) (\<lambda>x. ExtensionRegistry [x]) = Inr (wg_registry (wg_manifest sha [wg_step sha]))"
proof -
  let ?x = "wg_manifest sha [wg_step sha]"
  have fields: "x_command_types ?x = WG_COMMAND_TYPES" "x_event_types ?x = WG_EVENT_TYPES"
      "x_projection_tables ?x = Some PROJECTION_TABLES" "x_migration_owner ?x = Some EXTENSION_ID" "x_migrations ?x = [wg_step sha]"
      "mg_version (wg_step sha) = 1"
    by (simp_all add: wg_manifest_def) (simp add: wg_step_def)
  have tables: "projection_tables ?x = Inr PROJECTION_TABLES"
    by (simp add: projection_tables_def fields distinct_remdups_id wg_types)
       (simp add: PROJECTION_TABLES_def nonblank_def is_space_def isidentifier_def ident_start_def is_digit_def Let_def)
  have valid: "validate_manifest ?x = Inr ()"
    by (simp add: validate_manifest_def tables migration_steps_def fields)
       (simp add: WG_COMMAND_TYPES_def WG_EVENT_TYPES_def check_command_type_def check_event_type_def nonblank_def is_space_def
          starts_with_def)
  have commands: "fold_res (claim_type (refuse_command SUPPORTED_COMMANDS) ?x) [] WG_COMMAND_TYPES =
      Inr (rev (map (\<lambda>t. (t, ?x)) WG_COMMAND_TYPES) @ [])"
    by (rule claim_types_total) (use wg_types in \<open>auto simp: refuse_command_def\<close>)
  have events: "fold_res (claim_type (refuse_event SUPPORTED_EVENTS) ?x) [] WG_EVENT_TYPES =
      Inr (rev (map (\<lambda>t. (t, ?x)) WG_EVENT_TYPES) @ [])"
    by (rule claim_types_total) (use wg_types in \<open>auto simp: refuse_event_def\<close>)
  have owners: "fold_res (claim_type refuse_table ?x) [] PROJECTION_TABLES =
      Inr (rev (map (\<lambda>t. (t, ?x)) PROJECTION_TABLES) @ [])"
    by (rule claim_types_total) (use wg_types in \<open>auto simp: refuse_table_def\<close>)
  show ?thesis
    using commands events owners
    by (simp add: work_graph_extension_Inr [OF assms] ExtensionRegistry_def make_ExtensionRegistry_def register_def valid tables
        fields distinct_remdups_id wg_types wg_registry_def)
qed

section \<open>Replay of the graph\<close>

definition graph_holds :: "int \<Rightarrow> string \<Rightarrow> work_graph \<Rightarrow> bool" where
  "graph_holds n m s \<longleftrightarrow> graph_inv n s \<and> wg_mission_id s = m"

interpretation graph_contract: extension_contract "wg_registry (wg_manifest sha steps)" "wg_manifest sha steps" graph_holds graph_evolves
  for sha :: "string \<Rightarrow> string" and steps :: "migration_step list"
proof unfold_locales
  let ?x = "wg_manifest sha steps"
  show "?x \<in> set (r_manifests (wg_registry ?x))" "distinct (map x_extension_id (r_manifests (wg_registry ?x)))"
    by (simp_all add: wg_registry_def)
  show "y = ?x" if "event_owner (wg_registry ?x) t = Some (ExtensionOwner y)" for t y
    using that by (auto simp: event_owner_def wg_registry_def dest!: map_of_SomeD split: if_split_asm)
  show "graph_holds 0 m v" if "x_initial_state ?x m = Inr v" for m v
    using that graph_inv_empty by (auto simp: wg_manifest_def graph_holds_def empty_work_graph_def)
  show "graph_holds n' m v" if "graph_holds n m v" "n \<le> n'" for n m v n'
    using that by (auto simp: graph_holds_def intro: graph_inv_mono)
  show "graph_evolves v v" for v by (rule graph_evolves_refl)
  show "graph_evolves u w" if "graph_evolves u v" "graph_evolves v w" for u v w
    using that by (rule graph_evolves_trans)
  fix v e core w assume red: "x_reduce ?x v e core = Inr w"
  then have step: "graph_step (ev_seq e) v w" by (simp add: wg_manifest_def wg_reduce_Inr(1))
  show "graph_evolves v w" by (rule graph_step_evolves [OF step])
  show "graph_holds (n + 1) m w" if "graph_holds n m v" "ev_seq e = n + 1" for n m
    using that graph_step_inv [OF step] graph_step_evolves [OF step] by (auto simp: graph_holds_def graph_evolves_def)
qed

text \<open>The graph of a composed state of that registry.\<close>

lemma wg_state_map_of: "wg_state s = Inr g \<longleftrightarrow> map_of (cs_extension_states s) EXTENSION_ID = Some g"
  by (auto simp: wg_state_def extension_state_def not_registered_def split: option.split)

text \<open>The graph a replay reaches, and two replays of the same log.\<close>

lemma graph_replayed:
  assumes "replay_composed_state d m (wg_registry (wg_manifest sha steps)) through = Inr s"
  shows "\<exists>g. wg_state s = Inr g \<and> wg_mission_id g = m \<and> graph_inv (cs_seq s) g"
  using graph_contract.replayed [OF assms] by (auto simp: graph_holds_def wg_state_map_of)

lemma graph_replays_evolve:
  assumes "replay_composed_state d m (wg_registry (wg_manifest sha steps)) (Some k) = Inr s" and "0 \<le> k"
    and "replay_composed_state d m (wg_registry (wg_manifest sha steps)) through = Inr t"
    and "\<And>n. through = Some n \<Longrightarrow> k \<le> n"
    and "wg_state s = Inr g" and "wg_state t = Inr h"
  shows "graph_evolves g h"
  using graph_contract.replays_evolve [OF assms(1-4)] assms(5,6) by (simp add: extension_evolves_def wg_state_map_of)

end
