(* ===== verification/WgQueries.thy ===== *)
theory WgQueries
  imports WgExtension RuntimeService
begin

text \<open>
  work_graph/queries.py: the reads of the work graph over a service, by replay of the log or from the
  latest snapshot and the events after it.  The service is its registry and its database; the extension
  states have the type \<open>work_graph\<close>, so the \<open>isinstance\<close> check of \<open>_full_state\<close> is typing.
\<close>

section \<open>Results\<close>

record read_meta =
  rm_mission_id :: string
  rm_as_of_seq :: int
  rm_projection_version :: int
  rm_source :: string

definition meta_to_dict :: "read_meta \<Rightarrow> dict" where
  "meta_to_dict m =
     [(''mission_id'', JStr (rm_mission_id m)), (''as_of_seq'', JInt (rm_as_of_seq m)),
      (''projection_version'', JInt (rm_projection_version m)), (''source'', JStr (rm_source m))]"

text \<open>The values the queries return.\<close>

datatype read_value =
    GraphValue work_graph
  | PlanValue plan_state
  | RevisionValues "revision_state list"
  | TaskValue task_state
  | TaskValues "task_state list"
  | DependencyValues "task_dependency list"
  | SnapshotValue snapshot_index

record work_graph_read =
  wr_value :: read_value
  wr_meta :: read_meta

fun encode_value :: "read_value \<Rightarrow> json" where
  "encode_value (GraphValue s) = JObj (wg_to_dict s)"
| "encode_value (PlanValue p) = JObj (plan_to_dict p)"
| "encode_value (RevisionValues rs) = dict_list (map revision_to_dict rs)"
| "encode_value (TaskValue t) = JObj (task_to_dict t)"
| "encode_value (TaskValues ts) = dict_list (map task_to_dict ts)"
| "encode_value (DependencyValues ds) = dict_list (map dependency_to_dict ds)"
| "encode_value (SnapshotValue s) = JObj (snapshot_to_dict s)"

definition read_to_dict :: "work_graph_read \<Rightarrow> dict" where
  "read_to_dict r = [(''value'', encode_value (wr_value r)), (''meta'', JObj (meta_to_dict (wr_meta r)))]"

definition wg_query_read :: "string \<Rightarrow> int \<Rightarrow> read_value \<Rightarrow> string \<Rightarrow> work_graph_read" where
  "wg_query_read m n v source =
     \<lparr>wr_value = v, wr_meta = \<lparr>rm_mission_id = m, rm_as_of_seq = n, rm_projection_version = PROJECTION_VERSION, rm_source = source\<rparr>\<rparr>"

section \<open>Reads by replay\<close>

definition make_WorkGraphQueries :: "work_graph registry \<Rightarrow> work_graph registry py" where
  "make_WorkGraphQueries r = and_then (registry_manifest r EXTENSION_ID) (\<lambda>_. Inr r)"

definition full_state :: "work_graph registry \<Rightarrow> db \<Rightarrow> string \<Rightarrow> int option \<Rightarrow> (work_graph \<times> int) py" where
  "full_state r d m through =
     and_then (service_replay_composed r d m through) (\<lambda>composed.
     if rs_mission (cs_core_state composed) = None then mission_not_found m
     else and_then (extension_state composed EXTENSION_ID) (\<lambda>s. Inr (s, cs_seq composed)))"

definition get_work_graph_state :: "work_graph registry \<Rightarrow> db \<Rightarrow> string \<Rightarrow> int option \<Rightarrow> work_graph_read py" where
  "get_work_graph_state r d m through =
     and_then (full_state r d m through) (\<lambda>(s, n). Inr (wg_query_read m n (GraphValue s) ''REPLAY''))"

definition get_plan :: "work_graph registry \<Rightarrow> db \<Rightarrow> string \<Rightarrow> string \<Rightarrow> int option \<Rightarrow> work_graph_read py" where
  "get_plan r d m plan_id through =
     and_then (full_state r d m through) (\<lambda>(s, n).
     case plan_of s plan_id of
       None \<Rightarrow> runtime_error ''PLAN_NOT_FOUND'' (''Plan not found: '' @ plan_id)
     | Some p \<Rightarrow> Inr (wg_query_read m n (PlanValue p) ''REPLAY''))"

definition list_plan_revisions :: "work_graph registry \<Rightarrow> db \<Rightarrow> string \<Rightarrow> string \<Rightarrow> int option \<Rightarrow> work_graph_read py" where
  "list_plan_revisions r d m plan_id through =
     and_then (full_state r d m through) (\<lambda>(s, n).
     if plan_of s plan_id = None then runtime_error ''PLAN_NOT_FOUND'' (''Plan not found: '' @ plan_id)
     else Inr (wg_query_read m n (RevisionValues (filter (\<lambda>x. rv_plan_id x = plan_id) (wg_revisions s))) ''REPLAY''))"

definition get_task :: "work_graph registry \<Rightarrow> db \<Rightarrow> string \<Rightarrow> string \<Rightarrow> int option \<Rightarrow> work_graph_read py" where
  "get_task r d m task_id through =
     and_then (full_state r d m through) (\<lambda>(s, n).
     case task_of s task_id of
       None \<Rightarrow> runtime_error ''TASK_NOT_FOUND'' (''Task not found: '' @ task_id)
     | Some t \<Rightarrow> Inr (wg_query_read m n (TaskValue t) ''REPLAY''))"

text \<open>\<open>[item for item in items if p(item)]\<close> for a condition that may raise.\<close>

primrec filter_res :: "('a \<Rightarrow> bool py) \<Rightarrow> 'a list \<Rightarrow> 'a list py" where
  "filter_res p [] = Inr []"
| "filter_res p (x # xs) = and_then (p x) (\<lambda>b. and_then (filter_res p xs) (\<lambda>ys. Inr (if b then x # ys else ys)))"

definition text_filter :: "dict \<Rightarrow> string \<Rightarrow> (task_state \<Rightarrow> string) \<Rightarrow> task_state list \<Rightarrow> task_state list" where
  "text_filter filters key f ts =
     (if dhas filters key then filter (\<lambda>t. py_eq (JStr (f t)) (dget filters key)) ts else ts)"

definition availability_filter :: "dict \<Rightarrow> work_graph \<Rightarrow> task_state list \<Rightarrow> task_state list py" where
  "availability_filter filters s ts =
     (if dhas filters ''availability'' then
        (case TaskAvailability (py_str (dget filters ''availability'')) of
           Inl _ \<Rightarrow> runtime_error ''COMMAND_SCHEMA_INVALID'' ''unsupported availability filter''
         | Inr a \<Rightarrow> filter_res (\<lambda>t. and_then (task_availability s (tk_task_id t)) (\<lambda>b. Inr (b = a))) ts)
      else Inr ts)"

definition list_tasks :: "work_graph registry \<Rightarrow> db \<Rightarrow> string \<Rightarrow> dict option \<Rightarrow> int option \<Rightarrow> work_graph_read py" where
  "list_tasks r d m filters through =
     and_then (full_state r d m through) (\<lambda>(s, n).
     let given = (case filters of None \<Rightarrow> [] | Some f \<Rightarrow> f);
         values = text_filter given ''lifecycle_state'' (task_lifecycle_value \<circ> tk_lifecycle_state)
                    (text_filter given ''plan_revision_id'' tk_plan_revision_id
                       (text_filter given ''plan_id'' tk_plan_id (wg_tasks s)))
     in and_then (availability_filter given s values) (\<lambda>ts.
        Inr (wg_query_read m n (TaskValues ts) ''REPLAY'')))"

definition get_dependency_graph :: "work_graph registry \<Rightarrow> db \<Rightarrow> string \<Rightarrow> string \<Rightarrow> int option \<Rightarrow> work_graph_read py" where
  "get_dependency_graph r d m revision_id through =
     and_then (full_state r d m through) (\<lambda>(s, n).
     if revision_of s revision_id = None then
       runtime_error ''REVISION_NOT_FOUND'' (''Revision not found: '' @ revision_id)
     else Inr (wg_query_read m n (DependencyValues (revision_dependencies s revision_id)) ''REPLAY''))"

definition get_snapshot :: "work_graph registry \<Rightarrow> db \<Rightarrow> string \<Rightarrow> string \<Rightarrow> work_graph_read py" where
  "get_snapshot r d m snapshot_id =
     and_then (full_state r d m None) (\<lambda>(s, n).
     case snapshot_of s snapshot_id of
       None \<Rightarrow> runtime_error ''SNAPSHOT_NOT_FOUND'' (''Snapshot not found: '' @ snapshot_id)
     | Some x \<Rightarrow> Inr (wg_query_read m n (SnapshotValue x) ''REPLAY''))"

section \<open>Reads from a snapshot\<close>

text \<open>The exceptions that the two handlers catch: \<open>RuntimeError\<close>, \<open>ValueError\<close>, \<open>TypeError\<close>, \<open>KeyError\<close>
  and, the outer one only, \<open>AttributeError\<close>, which the model of the decoders raises as a \<open>TypeErr\<close>.  Where
  the inner handler lets an \<open>AttributeError\<close> pass and the outer one catches it, the read goes on by replay,
  as it does when the inner one catches it.\<close>

fun read_error :: "exn \<Rightarrow> bool" where
  "read_error (RuntimeErr _) = True"
| "read_error (ValueErr _) = True"
| "read_error (TypeErr _) = True"
| "read_error (KeyErr _) = True"
| "read_error _ = False"

definition snapshot_decode :: "string \<Rightarrow> snapshot_index \<Rightarrow> work_graph composed_state py" where
  "snapshot_decode m sn =
     and_then (and_then (and_then (dindex (sn_state_payload sn) ''core_state'') as_dict) state_from_dict) (\<lambda>core.
     and_then (and_then (and_then (dindex (sn_state_payload sn) ''work_graph_state'') as_dict) wg_from_dict) (\<lambda>graph.
     make_ComposedRuntimeState m (sn_as_of_seq sn) core [(EXTENSION_ID, graph)]))"

definition snapshot_fits :: "(string \<Rightarrow> string) \<Rightarrow> snapshot_index \<Rightarrow> int \<Rightarrow> string \<Rightarrow> string option \<Rightarrow> bool" where
  "snapshot_fits sha sn through scope plan_id \<longleftrightarrow>
     \<not> (sn_scope sn \<noteq> scope \<or> sn_plan_id sn \<noteq> plan_id \<or> sn_recorded_seq sn > through \<or>
        sn_work_graph_schema_version sn \<noteq> WORK_GRAPH_SCHEMA_VERSION \<or> sn_projection_version sn \<noteq> PROJECTION_VERSION \<or>
        sn_canonicalization_version sn \<noteq> CANONICALIZATION_VERSION \<or>
        canonical_sha256 sha (JObj (sn_state_payload sn)) \<noteq> sn_payload_hash sn)"

definition payload_fits :: "string \<Rightarrow> snapshot_index \<Rightarrow> string \<Rightarrow> string option \<Rightarrow> bool" where
  "payload_fits m sn scope plan_id \<longleftrightarrow>
     (let payload = sn_state_payload sn in
      \<not> (\<not> py_eq (dget payload ''mission_id'') (JStr m) \<or> \<not> py_eq (dget payload ''as_of_seq'') (JInt (sn_as_of_seq sn)) \<or>
         \<not> py_eq (dget payload ''scope'') (JStr scope) \<or> \<not> py_eq (dget payload ''plan_id'') (jopt plan_id)))"

text \<open>The event that recorded the snapshot, if it is among the given events with the snapshot's content.\<close>

definition recorded_by :: "snapshot_index \<Rightarrow> event_envelope list \<Rightarrow> bool" where
  "recorded_by sn es =
     (case find (\<lambda>e. ev_seq e = sn_recorded_seq sn \<and> ev_event_type e = ''snapshot.recorded.v1'' \<and>
                     ev_entity_id e = sn_snapshot_id sn) es of
        None \<Rightarrow> False
      | Some e \<Rightarrow> py_eq (JObj (ev_payload e)) (JObj (filter (\<lambda>(k, _). k \<noteq> ''recorded_seq'') (snapshot_to_dict sn))))"

definition snapshot_base ::
  "(string \<Rightarrow> string) \<Rightarrow> work_graph registry \<Rightarrow> db \<Rightarrow> string \<Rightarrow> snapshot_index \<Rightarrow> int \<Rightarrow> string \<Rightarrow> string option \<Rightarrow>
   work_graph composed_state option py" where
  "snapshot_base sha r d m sn through scope plan_id =
     (if length (r_manifests r) \<noteq> 1 then Inr None
      else if \<not> snapshot_fits sha sn through scope plan_id then Inr None
      else if \<not> payload_fits m sn scope plan_id then Inr None
      else
        and_then (list_events d m (sn_as_of_seq sn) (Some through)) (\<lambda>events.
        if \<not> recorded_by sn events then Inr None
        else case snapshot_decode m sn of
            Inl x \<Rightarrow> if read_error x then Inr None else Inl x
          | Inr s \<Rightarrow> Inr (Some s)))"

definition tail_step ::
  "work_graph registry \<Rightarrow> string \<Rightarrow> string option \<Rightarrow> work_graph composed_state \<Rightarrow> event_envelope \<Rightarrow> work_graph composed_state py" where
  "tail_step r scope plan_id composed e =
     (if scope = ''MISSION'' then reduce_composed composed e r
      else case event_owner r (ev_event_type e) of
        None \<Rightarrow> reduce_composed composed e r
      | Some CoreOwner \<Rightarrow> reduce_composed composed e r
      | Some (ExtensionOwner _) \<Rightarrow>
          (let event_plan_id = dget (ev_payload e) ''plan_id'';
               is_mission_snapshot = (ev_event_type e = ''snapshot.recorded.v1'' \<and>
                 py_eq (dget (ev_payload e) ''scope'') (JStr ''MISSION'') \<and> event_plan_id = JNull)
           in if py_eq event_plan_id (jopt plan_id) then reduce_composed composed e r
              else if is_mission_snapshot \<or> is_str event_plan_id then
                and_then (advance_shared_seq (cs_core_state composed) e) (\<lambda>core.
                make_ComposedRuntimeState (cs_mission_id composed) (ev_seq e) core (cs_extension_states composed))
              else reduce_composed composed e r))"

definition replay_snapshot_tail ::
  "work_graph registry \<Rightarrow> db \<Rightarrow> work_graph composed_state \<Rightarrow> string \<Rightarrow> snapshot_index \<Rightarrow> int \<Rightarrow> string \<Rightarrow> string option \<Rightarrow>
   work_graph composed_state py" where
  "replay_snapshot_tail r d composed m sn through scope plan_id =
     and_then (list_events d m (sn_as_of_seq sn) (Some through)) (\<lambda>es.
     fold_res (tail_step r scope plan_id) composed es)"

text \<open>\<open>max(candidates, key=...)\<close>: the first of the largest; an empty list raises.\<close>

definition snapshot_rank :: "snapshot_index \<Rightarrow> int \<times> int" where
  "snapshot_rank sn = (sn_as_of_seq sn, sn_recorded_seq sn)"

definition latest_snapshot :: "snapshot_index list \<Rightarrow> snapshot_index py" where
  "latest_snapshot sns =
     (case sns of
        [] \<Rightarrow> Inl (ValueErr ''max() arg is an empty sequence'')
      | x # xs \<Rightarrow> Inr (foldl (\<lambda>best y. if snapshot_rank best < snapshot_rank y then y else best) x xs))"

definition accelerated_read ::
  "(string \<Rightarrow> string) \<Rightarrow> work_graph registry \<Rightarrow> db \<Rightarrow> string \<Rightarrow> string \<Rightarrow> string option \<Rightarrow> int \<Rightarrow> work_graph_read option py" where
  "accelerated_read sha r d m scope plan_id target =
     and_then (get_extension_projection r d EXTENSION_ID m) (\<lambda>projected.
     and_then (latest_snapshot (filter (\<lambda>x. sn_scope x = scope \<and> sn_plan_id x = plan_id \<and> sn_recorded_seq x \<le> target)
                 (wg_snapshots projected))) (\<lambda>sn.
     and_then (snapshot_base sha r d m sn target scope plan_id) (\<lambda>base.
     case base of
       None \<Rightarrow> Inr None
     | Some composed \<Rightarrow>
         and_then (replay_snapshot_tail r d composed m sn target scope plan_id) (\<lambda>final.
         and_then (extension_state final EXTENSION_ID) (\<lambda>g.
         Inr (Some (wg_query_read m (cs_seq final) (GraphValue g) ''SNAPSHOT_PLUS_TAIL'')))))))"

definition replayed_read :: "work_graph registry \<Rightarrow> db \<Rightarrow> string \<Rightarrow> string \<Rightarrow> string option \<Rightarrow> int option \<Rightarrow> work_graph_read py" where
  "replayed_read r d m scope plan_id through =
     and_then (full_state r d m through) (\<lambda>(s, n).
     and_then (if scope = ''MISSION'' then Inr s else plan_scope s (case plan_id of None \<Rightarrow> ''None'' | Some p \<Rightarrow> p)) (\<lambda>v.
     Inr (wg_query_read m n (GraphValue v) ''REPLAY'')))"

definition check_read_scope :: "string \<Rightarrow> string option \<Rightarrow> unit py" where
  "check_read_scope scope plan_id =
     (if scope \<notin> set [''MISSION'', ''PLAN''] \<or> (scope = ''MISSION'' \<and> plan_id \<noteq> None) then
        runtime_error ''SNAPSHOT_SCOPE_INVALID'' ''invalid Work Graph read scope''
      else if scope = ''PLAN'' \<and> (case plan_id of None \<Rightarrow> True | Some p \<Rightarrow> \<not> nonblank p) then
        runtime_error ''SNAPSHOT_SCOPE_INVALID'' ''PLAN scope requires plan_id''
      else Inr ())"

definition read_work_graph ::
  "(string \<Rightarrow> string) \<Rightarrow> work_graph registry \<Rightarrow> db \<Rightarrow> string \<Rightarrow> string \<Rightarrow> string option \<Rightarrow> int option \<Rightarrow> bool \<Rightarrow>
   work_graph_read py" where
  "read_work_graph sha r d m scope plan_id through allow_snapshot_acceleration =
     and_then (check_read_scope scope plan_id) (\<lambda>_.
     let target = (case through of None \<Rightarrow> get_head_seq d m | Some n \<Rightarrow> n) in
     if allow_snapshot_acceleration then
       (case accelerated_read sha r d m scope plan_id target of
          Inr (Some read) \<Rightarrow> Inr read
        | Inr None \<Rightarrow> replayed_read r d m scope plan_id through
        | Inl x \<Rightarrow> if read_error x then replayed_read r d m scope plan_id through else Inl x)
     else replayed_read r d m scope plan_id through)"

end
