(* ===== verification/ExtensionStorage.thy ===== *)
theory ExtensionStorage
  imports ExtensionContract
begin

text \<open>
  The projection tables of an extension through the life of a database.  \<open>storage_laws\<close> says what the
  extension's callbacks do to its tables (apply, read, clear, migrations); \<open>extension_storage\<close> places it in a
  registry in which nobody else owns its tables.  The result is \<open>reachable_shown\<close>: in every database that a
  service can reach, the tables hold, mission by mission, the stored form of the state that the log replays to.
  The proof follows the life of the database (\<open>service_reachable\<close>) through the bus, the rebuild and the opening.
\<close>

locale storage_laws = extension_laws x good ev
  for x :: "'x manifest" and good :: "int \<Rightarrow> string \<Rightarrow> 'x \<Rightarrow> bool" and ev :: "'x \<Rightarrow> 'x \<Rightarrow> bool" +
  fixes read :: "db \<Rightarrow> string \<Rightarrow> 'x py" and norm :: "'x \<Rightarrow> 'x" and tables :: "string list"
  assumes tables: "x_projection_tables x = Some tables"
    and read_frame: "(\<And>t. t \<in> set tables \<Longrightarrow> db_rows d' t = db_rows d t) \<Longrightarrow> read d' m = read d m"
    and apply_read: "projection_call d x True (x_apply x d s) = Inr (d', u) \<Longrightarrow>
      map_of (cs_extension_states s) (x_extension_id x) = Some v \<Longrightarrow> good (cs_seq s) (cs_mission_id s) v \<Longrightarrow>
      read d' (cs_mission_id s) = Inr (norm v)"
    and apply_other: "projection_call d x True (x_apply x d s) = Inr (d', u) \<Longrightarrow>
      map_of (cs_extension_states s) (x_extension_id x) = Some v \<Longrightarrow> k \<noteq> cs_mission_id s \<Longrightarrow> read d' k = read d k"
    and clear_other: "projection_call d x True (x_clear x d (Some k)) = Inr (d', u) \<Longrightarrow> m \<noteq> k \<Longrightarrow> read d' m = read d m"
    and migrate_rows: "step \<in> set (x_migrations x) \<Longrightarrow> run_callback allowed d (mg_apply step) = Inr (d', u) \<Longrightarrow>
      db_rows d' = db_rows d"

locale extension_storage = extension_contract r x good ev + storage_laws x good ev read norm tables
  for r :: "'x registry" and x :: "'x manifest" and good :: "int \<Rightarrow> string \<Rightarrow> 'x \<Rightarrow> bool" and ev :: "'x \<Rightarrow> 'x \<Rightarrow> bool"
    and read :: "db \<Rightarrow> string \<Rightarrow> 'x py" and norm :: "'x \<Rightarrow> 'x" and tables :: "string list" +
  assumes others: "y \<in> set (r_manifests r) \<Longrightarrow> y \<noteq> x \<Longrightarrow> t \<in> set tables \<Longrightarrow> t \<notin> set (the (x_projection_tables y))"
    and safe: "core_tables_safe r"
    and reserved: "''extension_migrations'' \<notin> set tables" "''sqlite_master'' \<notin> set tables"
begin

lemma tables_apart: "t \<in> set tables \<Longrightarrow> t \<notin> set CORE_PROJECTION_TABLES"
  using safe member tables by (auto simp: core_tables_safe_def)

lemma not_core: "t \<in> set tables \<Longrightarrow>
    t \<notin> {''mission_projection'', ''goal_projection'', ''session_projection'', ''commands'', ''events'', ''schema_migrations''}"
  using tables_apart by (auto simp: CORE_PROJECTION_TABLES_def)

section \<open>One write of the projections\<close>

lemma split_manifests:
  obtains before after where "r_manifests r = before @ x # after" and "x \<notin> set before" and "x \<notin> set after"
proof -
  have "distinct (r_manifests r)" using ids by (auto simp: distinct_map)
  moreover obtain before after where "r_manifests r = before @ x # after" using member by (auto simp: in_set_conv_decomp)
  ultimately show ?thesis using that by auto
qed

lemma fold_others:
  assumes "fold_res f d ys = Inr d'" and "x \<notin> set ys" and "set ys \<subseteq> set (r_manifests r)"
    and "\<And>a y b t. f a y = Inr b \<Longrightarrow> t \<notin> set (the (x_projection_tables y)) \<Longrightarrow> t \<in> set tables \<Longrightarrow> db_rows b t = db_rows a t"
    and t: "t \<in> set tables"
  shows "db_rows d' t = db_rows d t"
proof (rule fold_res_same [where g = "\<lambda>d. db_rows d t", OF assms(1)])
  fix a y b assume y: "y \<in> set ys" and step: "f a y = Inr b"
  then have "t \<notin> set (the (x_projection_tables y))" using others [of y t] assms(2,3) t by auto
  then show "db_rows b t = db_rows a t" using assms(4) [OF step _ t] by simp
qed

lemma apply_shows:
  assumes app: "apply_composed_projection h d s r = Inr d'"
    and v: "map_of (cs_extension_states s) (x_extension_id x) = Some v" "good (cs_seq s) (cs_mission_id s) v"
  shows "read d' (cs_mission_id s) = Inr (norm v)"
    and "k \<noteq> cs_mission_id s \<Longrightarrow> read d' k = read d k"
proof -
  obtain before after where split: "r_manifests r = before @ x # after" "x \<notin> set before" "x \<notin> set after"
    by (rule split_manifests)
  obtain d1 d2 d3 where d1: "apply_projection h d (cs_core_state s) = Inr d1"
    and d2: "fold_res (apply_extension_projection s) d1 before = Inr d2"
    and call: "apply_extension_projection s d2 x = Inr d3"
    and d4: "fold_res (apply_extension_projection s) d3 after = Inr d'"
    using app by (auto simp: apply_composed_projection_def and_then_Inr_iff split(1) fold_res_append)
  note frame = apply_extension_frame(1)
  have "db_rows d1 t = db_rows d t" if "t \<in> set tables" for t
    by (rule apply_projection_frame(1) [OF d1]) (use not_core [OF that] in blast)
  moreover have "db_rows d2 t = db_rows d1 t" if "t \<in> set tables" for t
    by (rule fold_others [OF d2 split(2) _ _ that]) (use split(1) frame in auto)
  ultimately have start: "read d2 k = read d k" for k by (intro read_frame) simp
  have stop: "read d' k = read d3 k" for k
    by (rule read_frame, rule fold_others [OF d4 split(3)]) (use split(1) frame in auto)
  obtain u where run: "projection_call d2 x True (x_apply x d2 s) = Inr (d3, u)"
    using call by (auto simp: apply_extension_projection_def and_then_Inr_iff)
  show "read d' (cs_mission_id s) = Inr (norm v)" using apply_read [OF run v] stop by simp
  show "read d' k = read d k" if "k \<noteq> cs_mission_id s" using apply_other [OF run v(1) that] start stop by simp
qed

section \<open>The invariant\<close>

definition shown :: "db \<Rightarrow> bool" where
  "shown d \<longleftrightarrow>
     (\<forall>m s. stream d m \<noteq> [] \<longrightarrow> replay_composed_state d m r None = Inr s \<longrightarrow>
        (\<exists>v. map_of (cs_extension_states s) (x_extension_id x) = Some v \<and> read d m = Inr (norm v)))"

lemma shown_frame:
  assumes "shown d" and "db_rows d' ''events'' = db_rows d ''events''"
    and "\<And>t. t \<in> set tables \<Longrightarrow> db_rows d' t = db_rows d t"
  shows "shown d'"
  using assms(1) read_frame [OF assms(3)]
  by (simp add: shown_def stream_def select_rows_def assms(2) replay_composed_frame [OF assms(2)])

lemma append_shows:
  assumes app: "append_events h r env c d state head pending = Inr (d', res)" and ok: "log_ok d"
    and state: "load_state d (c_mission_id c) r = Inr state" and shown: "shown d"
  shows "shown d'"
proof -
  let ?m = "c_mission_id c"
  let ?events = "make_events env c head pending"
  obtain new_state d1 d2 where
    d1: "insert_command d c (command_fingerprint h c) res (env_received_at env) = Inr d1"
    and d2: "insert_events d1 ?events = Inr d2" and d3: "apply_state_projection h r d2 new_state = Inr d'"
    and n: "fold_res (reduce_state r) state ?events = Inr new_state"
    using app by (rule append_events_Inr)
  note cmd = insert_command_frame [OF d1]
  have ok1: "log_ok d1" using log_frame [OF cmd(1)] ok by simp
  have mine: "\<And>e. e \<in> set ?events \<Longrightarrow> ev_mission_id e = ?m" using make_events_facts(1) by blast
  note ins = insert_events_ok [OF d2 ok1 mine]
  have rows2: "db_rows d2 t = db_rows d t" if "t \<in> set tables" for t
    using ins(4) [of t] cmd(1) [of t] not_core [OF that] by auto
  from append_events_effect [OF app ok state safe] show ?thesis
  proof cases
    case (1 new h')
    obtain s where s: "replay_composed_state d' ?m r None = Inr s" "new = Composed s"
      using 1(7) enabled by (auto simp: load_state_def and_then_Inr_iff)
    obtain v where v: "map_of (cs_extension_states s) (x_extension_id x) = Some v" "good (cs_seq s) ?m v"
      using replayed [OF s(1)] by blast
    have m: "cs_mission_id s = ?m" by (rule replay_composed_facts(2) [OF s(1)])
    have same: "new_state = Composed s" using n 1(1) s(2) by simp
    have "apply_composed_projection h d2 s r = Inr d'" using d3 by (simp add: same)
    note written = apply_shows [OF this v(1) v(2) [folded m]]
    have "\<exists>v. map_of (cs_extension_states t) (x_extension_id x) = Some v \<and> read d' k = Inr (norm v)"
      if str: "stream d' k \<noteq> []" and t: "replay_composed_state d' k r None = Inr t" for k t
    proof (cases "k = ?m")
      case True
      then show ?thesis using t s(1) v(1) written(1) m by simp
    next
      case False
      have "stream d' k = stream d k" using 1(6) [OF False] by simp
      moreover from this have "replay_composed_state d' k r None = replay_composed_state d k r None"
        by (simp add: replay_composed_state_def list_events_def)
      moreover have "read d' k = read d k" using written(2) False m read_frame [OF rows2] by simp
      ultimately show ?thesis using shown str t by (auto simp: shown_def)
    qed
    then show ?thesis unfolding shown_def by blast
  qed
qed

lemma execute_shows:
  assumes "execute h r env d raw = (d', out)" and inv: "bus_inv r d" and shown: "shown d"
  shows "shown d'"
  using assms(1)
proof (cases rule: execute_cases)
  case unchanged
  then show ?thesis using shown by simp
next
  case (ran c res)
  from ran(2) show ?thesis
  proof (cases rule: run_command_cases)
    case fresh
    from fresh(1) show ?thesis
    proof (cases rule: decide_cases)
      case (rejected state e)
      note frame = insert_command_frame(1) [OF rejected(4)]
      show ?thesis by (rule shown_frame [OF shown]) (use frame not_core in auto)
    next
      case (applied state pending)
      have "log_ok d" using inv by (simp add: bus_inv_def)
      from append_shows [OF applied(3) this applied(1) shown] show ?thesis .
    qed
  qed (simp_all add: shown)
qed

section \<open>Rebuilding\<close>

lemma rebuild_fold:
  assumes "fold_res (rebuild_composed_one h r) (d, hs) ms = Inr (d', hs')" and "distinct ms"
  shows "db_rows d' ''events'' = db_rows d ''events'' \<and>
    (\<forall>m. if m \<in> set ms then
           (\<forall>s. replay_composed_state d m r None = Inr s \<longrightarrow> rs_mission (cs_core_state s) \<noteq> None \<longrightarrow>
              (\<exists>v. map_of (cs_extension_states s) (x_extension_id x) = Some v \<and> read d' m = Inr (norm v)))
         else read d' m = read d m)"
  using assms
proof (induction ms arbitrary: d hs)
  case Nil
  then show ?case by simp
next
  case (Cons k ms)
  let ?i = "x_extension_id x"
  obtain d1 hs1 where step: "rebuild_composed_one h r (d, hs) k = Inr (d1, hs1)"
    and rest: "fold_res (rebuild_composed_one h r) (d1, hs1) ms = Inr (d', hs')"
    using Cons.prems(1) by (auto simp: and_then_Inr_iff)
  have dist: "distinct ms" "k \<notin> set ms" using Cons.prems(2) by simp_all
  note IH = Cons.IH [OF rest dist(1)]
  have one: "db_rows d1 ''events'' = db_rows d ''events'' \<and> (\<forall>m. m \<noteq> k \<longrightarrow> read d1 m = read d m) \<and>
      (\<forall>s. replay_composed_state d k r None = Inr s \<longrightarrow> rs_mission (cs_core_state s) \<noteq> None \<longrightarrow>
         (\<exists>v. map_of (cs_extension_states s) ?i = Some v \<and> read d1 k = Inr (norm v)))"
    using step
  proof (cases rule: rebuild_composed_one_cases)
    case (1 s)
    then show ?thesis by simp
  next
    case (2 s)
    have m: "cs_mission_id s = k" by (rule replay_composed_facts(2) [OF 2(1)])
    obtain v where v: "map_of (cs_extension_states s) ?i = Some v" "good (cs_seq s) (cs_mission_id s) v"
      using replayed [OF 2(1)] m by blast
    note written = apply_shows [OF 2(3) v]
    have "db_rows d1 ''events'' = db_rows d ''events''"
      by (rule apply_composed_shows(6) [OF 2(3) safe replay_composed_facts(4) [OF 2(1)]]) simp
    then show ?thesis using 2(1) v(1) written m by simp
  qed
  then have events: "db_rows d1 ''events'' = db_rows d ''events''" by blast
  have frame: "replay_composed_state d1 m r None = replay_composed_state d m r None" for m
    by (rule replay_composed_frame [OF events])
  have "if m \<in> set (k # ms) then
           (\<forall>s. replay_composed_state d m r None = Inr s \<longrightarrow> rs_mission (cs_core_state s) \<noteq> None \<longrightarrow>
              (\<exists>v. map_of (cs_extension_states s) ?i = Some v \<and> read d' m = Inr (norm v)))
         else read d' m = read d m" for m
  proof (cases "m = k")
    case True
    then have "read d' m = read d1 k" using IH dist(2) by simp
    then show ?thesis using one True by simp
  next
    case False
    then have "read d1 m = read d m" using one by blast
    then show ?thesis using IH False frame [of m] by (simp split: if_split)
  qed
  then show ?case using IH events by simp
qed

lemma clear_keeps:
  assumes fold: "fold_res (clear_extension (Some k)) d (r_manifests r) = Inr d'" and "m \<noteq> k"
  shows "read d' m = read d m"
proof -
  obtain before after where split: "r_manifests r = before @ x # after" "x \<notin> set before" "x \<notin> set after"
    by (rule split_manifests)
  obtain d1 d2 where d1: "fold_res (clear_extension (Some k)) d before = Inr d1"
    and d2: "clear_extension (Some k) d1 x = Inr d2" and d3: "fold_res (clear_extension (Some k)) d2 after = Inr d'"
    using fold by (auto simp: split(1) fold_res_append and_then_Inr_iff)
  have "read d1 m = read d m"
    by (rule read_frame, rule fold_others [OF d1 split(2)]) (use split(1) clear_extension_frame in auto)
  moreover have "read d' m = read d2 m"
    by (rule read_frame, rule fold_others [OF d3 split(3)]) (use split(1) clear_extension_frame in auto)
  moreover have "read d2 m = read d1 m"
    using d2 clear_other [OF _ assms(2)] by (auto simp: clear_extension_def and_then_Inr_iff)
  ultimately show ?thesis by simp
qed

lemma rebuild_shows:
  assumes run: "service_rebuild h r d scope = (d', out)" and inv: "bus_inv r d" and shown: "shown d"
  shows "shown d'"
proof (cases out)
  case (Inl e)
  then have "d' = d" using run by (auto simp: service_rebuild_def immediate_transaction_def split: sum.split_asm prod.split_asm)
  then show ?thesis using shown by simp
next
  case (Inr report)
  have "rebuild_composed_projections h d r scope = Inr (d', report)"
    using run Inr enabled by (auto simp: service_rebuild_def immediate_transaction_def split: sum.split_asm prod.split_asm)
  then obtain d1 d2 hs where d1: "delete_core_rows d (scope_conds scope) = Inr d1"
    and d2: "fold_res (clear_extension scope) d1 (r_manifests r) = Inr d2"
    and fold: "fold_res (rebuild_composed_one h r) (d2, [], []) (rebuild_scope d scope) = Inr (d', hs)"
    by (auto simp: rebuild_composed_projections_def rebuild_scope_def scope_conds_def Let_def and_then_Inr_iff split: prod.split_asm)
  have ok: "log_ok d" using inv by (simp add: bus_inv_def)
  have rows1: "db_rows d1 t = db_rows d t" if "t \<in> set tables \<or> t = ''events''" for t
  proof -
    have "t \<notin> set [''goal_projection'', ''session_projection'', ''mission_projection'']" using that not_core [of t] by auto
    then show ?thesis by (simp add: delete_core_rows_Inr(2) [OF d1])
  qed
  have "db_rows d2 ''events'' = db_rows d1 ''events''"
    by (rule clear_extensions_frame [OF d2 safe]) (simp add: CORE_PROJECTION_TABLES_def)
  then have ev2: "db_rows d2 ''events'' = db_rows d ''events''" using rows1 by simp
  note all = rebuild_fold [OF fold distinct_scope]
  have events: "db_rows d' ''events'' = db_rows d ''events''" using all ev2 by simp
  have "\<exists>v. map_of (cs_extension_states s) (x_extension_id x) = Some v \<and> read d' m = Inr (norm v)"
    if str: "stream d m \<noteq> []" and s: "replay_composed_state d m r None = Inr s" for m s
  proof (cases "m \<in> set (rebuild_scope d scope)")
    case True
    have "load_state d m r = Inr (Composed s)" using s enabled by (simp add: load_state_def)
    moreover have "mission_consistent r d m" using inv by (simp add: bus_inv_def)
    ultimately have "rs_mission (cs_core_state s) \<noteq> None" using str by (auto elim: mission_consistentE)
    moreover have "replay_composed_state d2 m r None = Inr s" using s replay_composed_frame [OF ev2, of m r] by simp
    ultimately show ?thesis using all True by simp
  next
    case False
    then obtain k where k: "scope = Some k" "m \<noteq> k"
      using str logged_stream [OF ok] by (auto simp: rebuild_scope_def split: option.split_asm)
    have "read d' m = read d2 m" using all False by simp
    also have "\<dots> = read d1 m" by (rule clear_keeps [OF d2 [unfolded k(1)] k(2)])
    also have "\<dots> = read d m" by (rule read_frame) (simp add: rows1)
    finally show ?thesis using shown str s by (simp add: shown_def)
  qed
  then show ?thesis
    by (simp add: shown_def stream_def select_rows_def events replay_composed_frame [OF events])
qed

section \<open>Opening\<close>

lemma migrate_own:
  assumes "migrate_extension now d x = Inr d'" and t: "t \<in> set tables"
  shows "db_rows d' t = db_rows d t"
  using assms(1)
proof (cases rule: migrate_extension_Inr)
  case (1 ts steps)
  have steps: "steps = x_migrations x" using 1(2) by (auto simp: migration_steps_def split: if_split_asm)
  show ?thesis
  proof (rule fold_res_same [where g = "\<lambda>d. db_rows d t", OF 1(3)])
    fix a step b assume mem: "step \<in> set steps" and run: "migrate_step x ts now a step = Inr b"
    have rows: "db_rows d1 = db_rows a" if "apply_extension_migration a x step ts = Inr d1" for d1
      using that by (rule apply_migration_Inr) (rule migrate_rows, use mem steps in simp_all)
    have "\<exists>d1. db_rows d1 = db_rows a \<and> (b = d1 \<or> (\<exists>row. insert_row d1 ''extension_migrations'' row = Inr b))"
      using run rows by (auto simp: migrate_step_def and_then_Inr_iff split: list.split_asm if_split_asm)
    moreover have "t \<noteq> ''extension_migrations''" using t reserved(1) by auto
    ultimately show "db_rows b t = db_rows a t" using insert_row_other [of _ "''extension_migrations''" _ b t] by auto
  qed
qed

lemma open_rows:
  assumes opened: "open_service p xs now d = (d', Inr r)" and t: "t \<in> set tables"
  shows "db_rows d' t = db_rows d t"
proof -
  have fold: "fold_res (migrate_extension now) (create_if_missing (initialize d) extension_migrations_object) (r_manifests r) = Inr d'"
    by (rule initialize_extensions_Inr) (use open_service_Inr(3) [OF opened] enabled in simp_all)
  have "db_rows d' t = db_rows (create_if_missing (initialize d) extension_migrations_object) t"
  proof (rule fold_res_same [where g = "\<lambda>d. db_rows d t", OF fold])
    fix a y b assume y: "y \<in> set (r_manifests r)" and run: "migrate_extension now a y = Inr b"
    show "db_rows b t = db_rows a t"
    proof (cases "y = x")
      case True
      then show ?thesis using migrate_own run t by simp
    next
      case False
      have "t \<noteq> ''sqlite_master''" "t \<noteq> ''extension_migrations''" using t reserved by auto
      then show ?thesis using migrate_extension_rows [OF run others [OF y False t]] by simp
    qed
  qed
  also have "\<dots> = db_rows d t"
    using not_core [OF t] initialize_rows [of t d] by (auto simp: create_if_missing_def)
  finally show ?thesis .
qed

section \<open>Reachable databases\<close>

lemma reachable_shown: "service_reachable h r d \<Longrightarrow> shown d"
proof (induction rule: service_reachable.induct)
  case (created p xs now d)
  have "db_rows d ''events'' = []"
    using open_service_rows [OF created, of "''events''"] by (simp add: CORE_PROJECTION_TABLES_def empty_db_def)
  then show ?case by (simp add: shown_def stream_def select_rows_def)
next
  case (called d env raw d' out)
  then show ?case using execute_shows reachable_inv by blast
next
  case (rebuilt d scope d' out)
  then show ?case using rebuild_shows reachable_inv by blast
next
  case (reopened d p xs now d')
  have "db_rows d' ''events'' = db_rows d ''events''"
    using open_service_rows [OF reopened.hyps(2), of "''events''"] by (simp add: CORE_PROJECTION_TABLES_def)
  then show ?case by (rule shown_frame [OF reopened.IH]) (rule open_rows [OF reopened.hyps(2)])
qed

end

end
