(* ===== verification/WgService.thy ===== *)
theory WgService
  imports WgQueries ExtensionStorage
begin

text \<open>
  The work graph in a service: its projection callbacks satisfy the laws of an extension's storage
  (\<open>graph_storage\<close>), so in every database that a service with the work graph can reach, the projection tables
  of the graph hold, mission by mission, the graph that the log replays to (\<open>reachable_graph\<close>).
\<close>

section \<open>The laws of storage\<close>

abbreviation graph_registry :: "(string \<Rightarrow> string) \<Rightarrow> migration_step list \<Rightarrow> work_graph registry" where
  "graph_registry sha steps \<equiv> wg_registry (wg_manifest sha steps)"

lemma graph_registry_simps [simp]:
  "r_manifests (graph_registry sha steps) = [wg_manifest sha steps]" "registry_enabled (graph_registry sha steps)"
  by (simp_all add: wg_registry_def registry_enabled_def)

lemma wg_manifest_storage [simp]:
  "x_projection_tables (wg_manifest sha steps) = Some PROJECTION_TABLES" "x_apply (wg_manifest sha steps) = wg_apply"
  "x_clear (wg_manifest sha steps) = wg_clear" "x_migrations (wg_manifest sha steps) = steps"
  by (simp_all add: wg_manifest_def)

lemma graph_registry_safe: "core_tables_safe (graph_registry sha steps)"
  using wg_types(6) by (auto simp: core_tables_safe_def)

lemma wg_read_frame:
  assumes "\<And>t. t \<in> set PROJECTION_TABLES \<Longrightarrow> db_rows d' t = db_rows d t"
  shows "wg_read_state d' m = wg_read_state d m"
proof -
  have "select_rows d' t cs = select_rows d t cs" if "t \<in> set PROJECTION_TABLES" for t cs
    by (rule select_rows_frame [OF assms [OF that]])
  then show ?thesis by (simp add: wg_read_state_def stored_values_def PROJECTION_TABLES_def)
qed

lemma graph_call: "projection_call d (wg_manifest sha steps) True c = Inr p \<longleftrightarrow> run_callback graph_writes d c = Inr p"
  by (simp add: projection_call_def guarded_call_Inr allowed_tables_def graph_writes_def)

lemma clear_graph:
  assumes "run_callback graph_writes d (wg_clear d (Some k)) = Inr (d', u)" and "m \<noteq> k"
  shows "wg_read_state d' m = wg_read_state d m"
proof -
  have run: "fold_res (run_sql graph_writes) d (map (\<lambda>t. SqlDelete t [(''mission_id'', JStr k)]) (sort PROJECTION_TABLES)) = Inr d'"
    using assms(1) by (auto simp: run_callback_def and_then_Inr_iff wg_clear_def clear_statements_def)
  have "select_rows d' t [(''mission_id'', JStr m)] = select_rows d t [(''mission_id'', JStr m)]" if "t \<in> set PROJECTION_TABLES" for t
  proof -
    have "t \<in> set (sort PROJECTION_TABLES)" using that unfolding graph_tables(1) .
    then show ?thesis
      using fold_deletes(2) [OF run order_eq_refl [OF graph_tables(1)], of t] select_without [of m k] assms(2)
      by (simp add: select_rows_def without_mission_def)
  qed
  then show ?thesis by (simp add: wg_read_state_def stored_values_def PROJECTION_TABLES_def)
qed

lemma fold_creates_rows:
  "fold_res (run_sql allowed) d (map (\<lambda>(t, def). SqlCreate ''table'' t t (TableDef def)) ps) = Inr d' \<Longrightarrow> db_rows d' = db_rows d"
  by (rule fold_res_same [where g = db_rows and f = "run_sql allowed"]) (auto simp: run_sql_def split: if_split_asm)

interpretation graph_laws: storage_laws "wg_manifest sha [wg_step sha]" graph_holds graph_evolves wg_read_state norm_graph PROJECTION_TABLES
  for sha :: "string \<Rightarrow> string"
proof unfold_locales
  let ?x = "wg_manifest sha [wg_step sha]"
  fix d d' :: db and s :: "work_graph composed_state" and g u
  assume call: "projection_call d ?x True (x_apply ?x d s) = Inr (d', u)"
    and g: "map_of (cs_extension_states s) (x_extension_id ?x) = Some g"
  then have run: "run_callback graph_writes d (wg_apply d s) = Inr (d', u)" and state: "wg_state s = Inr g"
    by (simp_all add: graph_call wg_state_map_of)
  show "wg_read_state d' (cs_mission_id s) = Inr (norm_graph g)" if "graph_holds (cs_seq s) (cs_mission_id s) g"
    using wg_read_apply [OF run state] that graph_inv_distinct by (auto simp: graph_holds_def)
  show "wg_read_state d' k = wg_read_state d k" if "k \<noteq> cs_mission_id s" for k
    by (rule wg_read_other [OF run state that])
next
  fix d d' :: db and k m u
  assume "projection_call d (wg_manifest sha [wg_step sha]) True (x_clear (wg_manifest sha [wg_step sha]) d (Some k)) = Inr (d', u)"
    and "m \<noteq> k"
  then show "wg_read_state d' m = wg_read_state d m"
    by (intro clear_graph) (simp_all add: graph_call)
next
  fix step allowed and d d' :: db and u
  assume "step \<in> set (x_migrations (wg_manifest sha [wg_step sha]))" and "run_callback allowed d (mg_apply step) = Inr (d', u)"
  then show "db_rows d' = db_rows d"
    using fold_creates_rows by (auto simp: run_callback_def wg_step_def apply_schema_def and_then_Inr_iff)
next
  show "x_projection_tables (wg_manifest sha [wg_step sha]) = Some PROJECTION_TABLES" by simp
next
  fix d d' :: db and m
  assume "\<And>t. t \<in> set PROJECTION_TABLES \<Longrightarrow> db_rows d' t = db_rows d t"
  then show "wg_read_state d' m = wg_read_state d m" by (rule wg_read_frame)
qed

interpretation graph_storage: extension_storage "graph_registry sha [wg_step sha]" "wg_manifest sha [wg_step sha]" graph_holds
    graph_evolves wg_read_state norm_graph PROJECTION_TABLES
  for sha :: "string \<Rightarrow> string"
proof unfold_locales
  show "core_tables_safe (graph_registry sha [wg_step sha])" by (rule graph_registry_safe)
  show "''extension_migrations'' \<notin> set PROJECTION_TABLES" "''sqlite_master'' \<notin> set PROJECTION_TABLES"
    by (simp_all add: PROJECTION_TABLES_def)
qed simp

section \<open>Reachable databases\<close>

lemma reachable_graph:
  assumes "service_reachable h (graph_registry sha [wg_step sha]) d" and "stream d m \<noteq> []"
    and "replay_composed_state d m (graph_registry sha [wg_step sha]) None = Inr s"
  shows "\<exists>g. wg_state s = Inr g \<and> wg_read_state d m = Inr (norm_graph g)"
  using graph_storage.reachable_shown [OF assms(1)] assms(2,3) by (simp add: graph_storage.shown_def wg_state_map_of)

end
