(* ===== verification/WgReads.thy ===== *)
theory WgReads
  imports WgService
begin

text \<open>
  What the reads of work_graph/queries.py return: in a reachable database every mission with a log has a
  graph, the reads by replay and the stored projection agree on it, and a later read only goes on from an
  earlier one.
\<close>

section \<open>A read at an earlier and at a later point of the log\<close>

lemma full_state_Inr:
  "full_state r d m through = Inr (g, n) \<longleftrightarrow>
     (\<exists>s. replay_composed_state d m r through = Inr s \<and> rs_mission (cs_core_state s) \<noteq> None \<and> wg_state s = Inr g \<and> n = cs_seq s)"
  by (auto simp: full_state_def service_replay_composed_def wg_state_def mission_not_found_def and_then_Inr_iff split: if_split_asm)

lemma replay_on:
  assumes "replay_composed_state d m r None = Inr t" and "0 \<le> n"
  shows "\<exists>s. replay_composed_state d m r (Some n) = Inr s"
proof -
  obtain s0 es where s0: "initial_composed_state m r = Inr s0" and es: "list_events d m 0 None = Inr es"
    and run: "fold_res (\<lambda>s e. reduce_composed s e r) s0 es = Inr t"
    using assms(1) by (auto simp: replay_composed_state_def and_then_Inr_iff)
  obtain old new where old: "list_events d m 0 (Some n) = Inr old" "es = old @ new"
    using es unfolding list_events_split [OF assms(2), of None d m, simplified] and_then_Inr_iff by auto
  have "and_then (fold_res (\<lambda>s e. reduce_composed s e r) s0 old) (\<lambda>s. fold_res (\<lambda>s e. reduce_composed s e r) s new) = Inr t"
    using run old(2) by (simp add: fold_res_append)
  then show ?thesis using s0 old(1) by (auto simp: replay_composed_state_def and_then_Inr_iff)
qed

lemma replays_compose:
  assumes early: "replay_composed_state d m r (Some k) = Inr s" and "0 \<le> k"
    and late: "replay_composed_state d m r through = Inr t" and "\<And>n. through = Some n \<Longrightarrow> k \<le> n"
  obtains new where "list_events d m k through = Inr new" and "fold_res (\<lambda>s e. reduce_composed s e r) s new = Inr t"
proof -
  let ?step = "\<lambda>s e. reduce_composed s e r"
  obtain s0 old where s0: "initial_composed_state m r = Inr s0" and old: "list_events d m 0 (Some k) = Inr old"
    and run: "fold_res ?step s0 old = Inr s"
    using early by (auto simp: replay_composed_state_def and_then_Inr_iff)
  obtain new where new: "list_events d m k through = Inr new" "fold_res ?step s0 (old @ new) = Inr t"
    using late by (auto simp: replay_composed_state_def and_then_Inr_iff s0 list_events_split [OF assms(2,4)] old)
  then have "fold_res ?step s new = Inr t" by (simp add: fold_res_append run)
  then show ?thesis using that new(1) by blast
qed

lemma later_read:
  assumes early: "full_state (graph_registry sha steps) d m (Some k) = Inr (g, n)" and k: "0 \<le> k"
    and whole: "service_replay_composed (graph_registry sha steps) d m None = Inr whole"
    and through: "\<And>n. through = Some n \<Longrightarrow> k \<le> n"
  shows "\<exists>h n'. full_state (graph_registry sha steps) d m through = Inr (h, n') \<and> n \<le> n' \<and> graph_evolves g h \<and> graph_inv n' h"
proof -
  let ?r = "graph_registry sha steps"
  obtain s where s: "replay_composed_state d m ?r (Some k) = Inr s" "rs_mission (cs_core_state s) \<noteq> None"
      "wg_state s = Inr g" "n = cs_seq s" using early by (auto simp: full_state_Inr)
  obtain t where t: "replay_composed_state d m ?r through = Inr t"
    using whole replay_on [of d m ?r whole] k through
    by (cases through) (auto simp: service_replay_composed_def intro: order_trans)
  obtain new where new: "fold_res (\<lambda>s e. reduce_composed s e ?r) s new = Inr t"
    by (rule replays_compose [OF s(1) k t through])
  have "composed_evolves s t" by (rule composed_machine.run_evolves [OF replay_composed_facts(1) [OF s(1)] new])
  then have "rs_mission (cs_core_state t) \<noteq> None" using s(2) by (auto simp: composed_evolves_def core_evolves_def)
  moreover have "cs_seq s \<le> cs_seq t" using composed_machine.run_seq [OF new] by simp
  moreover obtain h where h: "wg_state t = Inr h" "graph_inv (cs_seq t) h" using graph_replayed [OF t] by blast
  moreover have "graph_evolves g h" by (rule graph_replays_evolve [OF s(1) k t through s(3) h(1)])
  ultimately show ?thesis using t s(4) by (auto simp: full_state_Inr)
qed

section \<open>The reads of a reachable database\<close>

lemma reachable_read:
  assumes reach: "service_reachable h (graph_registry sha [wg_step sha]) d" and str: "stream d m \<noteq> []"
  obtains g where "full_state (graph_registry sha [wg_step sha]) d m None = Inr (g, int (length (stream d m)))"
    and "graph_inv (int (length (stream d m))) g" and "wg_mission_id g = m"
    and "get_extension_projection (graph_registry sha [wg_step sha]) d EXTENSION_ID m = Inr (norm_graph g)"
proof -
  let ?r = "graph_registry sha [wg_step sha]"
  obtain b where b: "load_state d m ?r = Inr b" "rs_mission (core_part b) \<noteq> None" "rs_seq (core_part b) = int (length (stream d m))"
    by (rule reachable_mission [OF reach str])
  then obtain s where s: "replay_composed_state d m ?r None = Inr s" "b = Composed s"
    by (auto simp: load_state_def and_then_Inr_iff)
  obtain g where g: "wg_state s = Inr g" "wg_mission_id g = m" "graph_inv (cs_seq s) g" using graph_replayed [OF s(1)] by blast
  have n: "cs_seq s = int (length (stream d m))"
    using replay_composed_facts(1) [OF s(1)] b(3) s(2) by (simp add: composed_inv_def)
  have "wg_read_state d m = Inr (norm_graph g)"
    using reachable_graph [OF reach str s(1)] g(1) by auto
  then have "get_extension_projection ?r d EXTENSION_ID m = Inr (norm_graph g)"
    by (simp add: get_extension_projection_def registry_manifest_def wg_registry_def read_extension_projection_def
        projection_call_def guarded_call_def run_callback_def wg_manifest_def wg_read_def)
  then show ?thesis using that [of g] s b(2) g n by (simp add: full_state_Inr)
qed


section \<open>Listing tasks\<close>

text \<open>A task passes the filters that are given.\<close>

definition passes_texts :: "dict \<Rightarrow> task_state \<Rightarrow> bool" where
  "passes_texts f t \<longleftrightarrow>
     (dhas f ''plan_id'' \<longrightarrow> dget f ''plan_id'' = JStr (tk_plan_id t)) \<and>
     (dhas f ''plan_revision_id'' \<longrightarrow> dget f ''plan_revision_id'' = JStr (tk_plan_revision_id t)) \<and>
     (dhas f ''lifecycle_state'' \<longrightarrow> dget f ''lifecycle_state'' = JStr (task_lifecycle_value (tk_lifecycle_state t)))"

definition passes_filters :: "dict \<Rightarrow> work_graph \<Rightarrow> task_state \<Rightarrow> bool" where
  "passes_filters f s t \<longleftrightarrow> passes_texts f t \<and>
     (dhas f ''availability'' \<longrightarrow>
        (\<exists>a. task_availability s (tk_task_id t) = Inr a \<and> task_availability_value a = py_str (dget f ''availability'')))"

lemma text_filter_filter: "text_filter f key g ts = filter (\<lambda>t. dhas f key \<longrightarrow> dget f key = JStr (g t)) ts"
  by (auto simp: text_filter_def py_eq_str(2))

lemma filter_res_total: "(\<And>x. x \<in> set xs \<Longrightarrow> p x = Inr (q x)) \<Longrightarrow> filter_res p xs = Inr (filter q xs)"
  by (induction xs) simp_all

lemma listed_task_available: "t \<in> set (wg_tasks s) \<Longrightarrow> \<exists>a. task_availability s (tk_task_id t) = Inr a"
proof -
  assume "t \<in> set (wg_tasks s)"
  then obtain u where "task_of s (tk_task_id t) = Some u" using task_of_None [of s "tk_task_id t"] by (cases "task_of s (tk_task_id t)") auto
  then show ?thesis by (auto simp: task_availability_def Let_def split: option.split)
qed

lemma TaskAvailability_Inr: "TaskAvailability v = Inr a \<longleftrightarrow> task_availability_value a = v"
  by (cases a; auto simp: TaskAvailability_def enum_of_def find_by_def split: if_split_asm)

lemma list_tasks_texts:
  assumes "full_state r d m through = Inr (s, n)"
  shows "list_tasks r d m (Some f) through =
    and_then (availability_filter f s (filter (passes_texts f) (wg_tasks s))) (\<lambda>ts. Inr (wg_query_read m n (TaskValues ts) ''REPLAY''))"
proof -
  have "filter (passes_texts f) (wg_tasks s) =
      text_filter f ''lifecycle_state'' (task_lifecycle_value \<circ> tk_lifecycle_state)
        (text_filter f ''plan_revision_id'' tk_plan_revision_id (text_filter f ''plan_id'' tk_plan_id (wg_tasks s)))"
    by (simp add: text_filter_filter) (rule filter_cong, auto simp: passes_texts_def)
  then show ?thesis by (simp add: list_tasks_def assms)
qed

lemma known_availability:
  "v \<in> set [''READY'', ''BLOCKED'', ''NOT_ELIGIBLE''] \<longleftrightarrow> (\<exists>a. TaskAvailability v = Inr a)"
proof
  assume "v \<in> set [''READY'', ''BLOCKED'', ''NOT_ELIGIBLE'']"
  then have "v = task_availability_value READY \<or> v = task_availability_value BLOCKED \<or> v = task_availability_value NOT_ELIGIBLE" by simp
  then show "\<exists>a. TaskAvailability v = Inr a" unfolding TaskAvailability_Inr by metis
next
  assume "\<exists>a. TaskAvailability v = Inr a"
  then obtain a where "task_availability_value a = v" unfolding TaskAvailability_Inr by metis
  then show "v \<in> set [''READY'', ''BLOCKED'', ''NOT_ELIGIBLE'']" by (cases a) auto
qed

lemma list_tasks_filters:
  assumes "full_state r d m through = Inr (s, n)"
  shows "list_tasks r d m (Some f) through =
    (if dhas f ''availability'' \<and> py_str (dget f ''availability'') \<notin> set [''READY'', ''BLOCKED'', ''NOT_ELIGIBLE''] then
       runtime_error ''COMMAND_SCHEMA_INVALID'' ''unsupported availability filter''
     else Inr (wg_query_read m n (TaskValues (filter (passes_filters f s) (wg_tasks s))) ''REPLAY''))"
proof (cases "dhas f ''availability''")
  case False
  then have "passes_filters f s = passes_texts f" by (simp add: passes_filters_def fun_eq_iff)
  then show ?thesis using False by (simp add: list_tasks_texts [OF assms] availability_filter_def)
next
  case True
  show ?thesis
  proof (cases "TaskAvailability (py_str (dget f ''availability''))")
    case (Inl x)
    then have "py_str (dget f ''availability'') \<notin> set [''READY'', ''BLOCKED'', ''NOT_ELIGIBLE'']"
      unfolding known_availability by simp
    then show ?thesis using True Inl unfolding list_tasks_texts [OF assms] by (simp add: availability_filter_def del: set_simps)
  next
    case (Inr a)
    then have known: "py_str (dget f ''availability'') \<in> set [''READY'', ''BLOCKED'', ''NOT_ELIGIBLE'']"
      unfolding known_availability by simp
    have same: "task_availability_value b = py_str (dget f ''availability'') \<longleftrightarrow> b = a" for b
      unfolding TaskAvailability_Inr [symmetric] using Inr by auto
    let ?ts = "filter (passes_texts f) (wg_tasks s)"
    have "filter_res (\<lambda>t. and_then (task_availability s (tk_task_id t)) (\<lambda>b. Inr (b = a))) ?ts =
        Inr (filter (\<lambda>t. task_availability s (tk_task_id t) = Inr a) ?ts)"
    proof (rule filter_res_total)
      fix t assume "t \<in> set ?ts"
      then obtain b where "task_availability s (tk_task_id t) = Inr b" using listed_task_available by auto
      then show "and_then (task_availability s (tk_task_id t)) (\<lambda>b. Inr (b = a)) = Inr (task_availability s (tk_task_id t) = Inr a)" by simp
    qed
    moreover have "passes_filters f s = (\<lambda>t. passes_texts f t \<and> task_availability s (tk_task_id t) = Inr a)"
      using True by (simp add: passes_filters_def same fun_eq_iff)
    ultimately show ?thesis using True Inr known
      unfolding list_tasks_texts [OF assms] by (simp add: availability_filter_def del: set_simps)
  qed
qed

end
