(* ===== verification/WgSamples.thy ===== *)
theory WgSamples
  imports WgReads Samples
begin

text \<open>
  Concrete inputs for the properties of the work graph: a service with the work graph as its extension,
  and a run that creates a mission and a plan, records a revision with two tasks, cancels one of them and
  records a snapshot.  The hash function of the samples gives one digest for every text.
\<close>

definition sample_sha :: "string \<Rightarrow> string" where
  "sample_sha t = replicate 64 (CHR ''0'')"

definition graph_manifest :: "work_graph manifest" where
  "graph_manifest = wg_manifest sample_sha [wg_step sample_sha]"

lemma graph_manifest_code [code]:
  "graph_manifest = wg_manifest sample_sha [\<lparr>mg_version = 1, mg_checksum = replicate 64 (CHR ''0''), mg_apply = apply_schema\<rparr>]"
  by (simp add: graph_manifest_def wg_step_def canonical_sha256_def sample_sha_def)

definition graph_r :: "work_graph registry" where
  "graph_r = wg_registry graph_manifest"

definition graph_start :: db where
  "graph_start = fst (open_service ''db'' [graph_manifest] ''now'' empty_db)"

definition create_plan_command :: raw_command where
  "create_plan_command = sample_command ''c2'' ''CREATE_PLAN'' 1 [(''plan_id'', JStr ''p'')]"

definition record_revision_command :: raw_command where
  "record_revision_command = sample_command ''c3'' ''RECORD_PLAN_REVISION'' 2
     [(''plan_id'', JStr ''p''), (''revision_id'', JStr ''r''), (''objective'', JStr ''o''), (''constraints'', JList []),
      (''task_definitions'', JList
         [JObj [(''task_id'', JStr ''t''), (''task_key'', JStr ''k''), (''intent'', JStr ''i''), (''acceptance_criteria'', JList [])],
          JObj [(''task_id'', JStr ''u''), (''task_key'', JStr ''l''), (''intent'', JStr ''j''), (''acceptance_criteria'', JList [])]]),
      (''dependencies'', JList
         [JObj [(''predecessor_task_id'', JStr ''t''), (''successor_task_id'', JStr ''u''), (''dependency_kind'', JStr ''FINISH_TO_START'')]])]"

definition cancel_task_command :: raw_command where
  "cancel_task_command = sample_command ''c4'' ''TRANSITION_TASK'' 3
     [(''plan_id'', JStr ''p''), (''plan_revision_id'', JStr ''r''), (''task_id'', JStr ''t''), (''target_state'', JStr ''CANCELLED''),
      (''outcome'', JObj [(''summary'', JStr ''s'')])]"

definition record_snapshot_command :: raw_command where
  "record_snapshot_command = sample_command ''c5'' ''RECORD_WORK_SNAPSHOT'' 4
     [(''snapshot_id'', JStr ''s''), (''scope'', JStr ''MISSION''), (''as_of_seq'', JInt 4)]"

text \<open>A mission with two plans; the snapshot is recorded between them.\<close>

definition mission_snapshot_command :: raw_command where
  "mission_snapshot_command = sample_command ''c3'' ''RECORD_WORK_SNAPSHOT'' 2
     [(''snapshot_id'', JStr ''s''), (''scope'', JStr ''MISSION''), (''as_of_seq'', JInt 2)]"

definition second_plan_command :: raw_command where
  "second_plan_command = sample_command ''c4'' ''CREATE_PLAN'' 3 [(''plan_id'', JStr ''q'')]"

definition graph_db1 :: db where
  "graph_db1 = fst (execute sample_sha graph_r (sample_env ''a'') graph_start create_command)"

definition graph_db2 :: db where
  "graph_db2 = fst (execute sample_sha graph_r (sample_env ''b'') graph_db1 create_plan_command)"

definition graph_db3 :: db where
  "graph_db3 = fst (execute sample_sha graph_r (sample_env ''c'') graph_db2 mission_snapshot_command)"

definition graph_db :: db where
  "graph_db = fst (execute sample_sha graph_r (sample_env ''d'') graph_db3 second_plan_command)"

lemma graph_run:
  "(case open_service ''db'' [graph_manifest] ''now'' empty_db of (d0, o0) \<Rightarrow>
    case execute sample_sha graph_r (sample_env ''a'') d0 create_command of (d1, o1) \<Rightarrow>
    case execute sample_sha graph_r (sample_env ''b'') d1 create_plan_command of (d2, o2) \<Rightarrow>
    case execute sample_sha graph_r (sample_env ''c'') d2 mission_snapshot_command of (d3, o3) \<Rightarrow>
    case execute sample_sha graph_r (sample_env ''d'') d3 second_plan_command of (d4, o4) \<Rightarrow>
      (isl o0, map (\<lambda>o'. case o' of Inl _ \<Rightarrow> [] | Inr res \<Rightarrow> cr_outcome res) [o1, o2, o3, o4], length (stream d4 ''m''),
       case read_work_graph sample_sha graph_r d4 ''m'' ''MISSION'' None None True of
         Inl _ \<Rightarrow> None
       | Inr read \<Rightarrow> Some (rm_source (wr_meta read), rm_as_of_seq (wr_meta read)))) =
    (False, [''APPLIED'', ''APPLIED'', ''APPLIED'', ''APPLIED''], 4, Some (''SNAPSHOT_PLUS_TAIL'', 4))"
  by code_simp

lemmas graph_outcomes = graph_run [unfolded case_prod_beta, folded graph_start_def, folded graph_db1_def, folded graph_db2_def,
  folded graph_db3_def, folded graph_db_def, unfolded list.map]

lemma sample_sha_hex: "hex_digest sample_sha"
  by (simp add: hex_digest_def sample_sha_def list_all_iff) (simp add: is_lower_hex_def Let_def)

lemma graph_registered: "work_graph_extension sample_sha = Inr graph_manifest" "ExtensionRegistry [graph_manifest] = Inr graph_r"
  using wg_registry_built [OF sample_sha_hex]
  by (simp_all add: work_graph_extension_Inr [OF sample_sha_hex] graph_manifest_def graph_r_def)

lemma graph_opened: "open_service ''db'' [graph_manifest] ''now'' empty_db = (graph_start, Inr graph_r)"
proof -
  obtain d o' where o': "open_service ''db'' [graph_manifest] ''now'' empty_db = (d, o')" by (rule prod.exhaust)
  then obtain r where "o' = Inr r" using graph_outcomes by (cases o') simp_all
  then show ?thesis using o' open_service_Inr(1) [of "''db''" "[graph_manifest]" "''now''" empty_db d r] graph_registered
    by (simp add: graph_start_def)
qed

lemma graph_db_reachable: "service_reachable sample_sha graph_r graph_db"
proof -
  have step: "service_reachable sample_sha graph_r (fst (execute sample_sha graph_r env d raw))"
    if "service_reachable sample_sha graph_r d" for d env raw
    using service_reachable.called [OF that] by (metis prod.collapse)
  show ?thesis unfolding graph_db_def graph_db3_def graph_db2_def graph_db1_def
    by (intro step service_reachable.created [OF graph_opened])
qed

lemma graph_db_stream: "length (stream graph_db ''m'') = 4" "stream graph_db ''m'' \<noteq> []"
  using graph_outcomes by auto

section \<open>A log with tasks\<close>

text \<open>A revision with two tasks, one after the other; the first task is cancelled, then the revision is activated.\<close>

definition sample_event :: "int \<Rightarrow> string \<Rightarrow> string \<Rightarrow> dict \<Rightarrow> event_envelope" where
  "sample_event n t i p =
     \<lparr>ev_event_id = show_int n, ev_mission_id = ''m'', ev_seq = n, ev_event_type = t, ev_entity_type = ''X'', ev_entity_id = i,
      ev_command_id = ''c'', ev_correlation_id = ''c'', ev_initiator_type = ''user'', ev_initiator_id = ''u'',
      ev_payload = p, ev_created_at = ''now'', ev_session_id = None, ev_schema_version = 1\<rparr>"

definition sample_task :: "string \<Rightarrow> string \<Rightarrow> json" where
  "sample_task i k = JObj [(''task_id'', JStr i), (''task_key'', JStr k), (''intent'', JStr ''do''), (''acceptance_criteria'', JList [])]"

definition sample_log :: "event_envelope list" where
  "sample_log =
     [sample_event 1 ''mission.created'' ''m'' [(''attributes'', JObj [])],
      sample_event 2 ''plan.created.v1'' ''p'' [(''plan_id'', JStr ''p'')],
      sample_event 3 ''plan.revision_recorded.v1'' ''r''
        [(''plan_id'', JStr ''p''), (''revision_id'', JStr ''r''), (''parent_revision_id'', JNull), (''content_schema_version'', JInt 1),
         (''objective'', JStr ''o''), (''constraints'', JList []),
         (''task_definitions'', JList [sample_task ''t'' ''k'', sample_task ''u'' ''l'']),
         (''dependencies'', JList [JObj [(''predecessor_task_id'', JStr ''t''), (''successor_task_id'', JStr ''u''),
            (''dependency_kind'', JStr ''FINISH_TO_START'')]]),
         (''content_hash'', JStr (replicate 64 (CHR ''0'')))],
      sample_event 4 ''task.outcome_recorded.v1'' ''t''
        [(''plan_id'', JStr ''p''), (''plan_revision_id'', JStr ''r''), (''task_id'', JStr ''t''), (''from_state'', JStr ''PENDING''),
         (''to_state'', JStr ''CANCELLED''), (''reason_code'', JNull), (''reason_summary'', JNull),
         (''outcome'', JObj [(''summary'', JStr ''s''), (''external_references'', JList [])])],
      sample_event 5 ''plan.revision_activated.v1'' ''r''
        [(''plan_id'', JStr ''p''), (''revision_id'', JStr ''r''), (''previous_revision_id'', JNull)]]"

definition log_db :: db where
  "log_db = empty_db\<lparr>db_rows := (db_rows empty_db)(''events'' := map event_row sample_log)\<rparr>"

lemma log_run:
  "(case full_state graph_r log_db ''m'' (Some 4) of
      Inl _ \<Rightarrow> None
    | Inr (g, n) \<Rightarrow> Some (n, map (\<lambda>t. (tk_task_id t, task_lifecycle_value (tk_lifecycle_state t))) (wg_tasks g))) =
   Some (4, [(''t'', ''CANCELLED''), (''u'', ''PENDING'')])"
  "(case full_state graph_r log_db ''m'' None of
      Inl _ \<Rightarrow> None
    | Inr (g, n) \<Rightarrow> Some (n, map pl_current_revision_id (wg_plans g))) = Some (5, [Some ''r''])"
  by code_simp+

end
