(* ===== verification/WgEffect.thy ===== *)
theory WgEffect
  imports WgInvariant "HOL-Library.Multiset"
begin

text \<open>
  The reducer of work_graph/reducer.py as checks and an effect: what an accepted event does to the graph is
  a total function of the event, \<open>graph_effect\<close>, that looks at nothing but the identifiers of the graph's
  entities.  Results that relate the states of two replays rest on it.
\<close>

section \<open>The effect of an event\<close>

definition raw_items :: "json \<Rightarrow> json list" where
  "raw_items v = (case v of JList xs \<Rightarrow> xs | _ \<Rightarrow> [])"

definition dict_items :: "json \<Rightarrow> dict list" where
  "dict_items v = projr (map_res dict_of (raw_items v))"

definition declared_task :: "event_envelope \<Rightarrow> string \<Rightarrow> string \<Rightarrow> json \<Rightarrow> task_state" where
  "declared_task e plan_id revision_id raw =
     (let d = projr (as_dict raw) in
      \<lparr>tk_task_id = text_field d ''task_id'', tk_task_key = text_field d ''task_key'', tk_plan_id = plan_id,
       tk_plan_revision_id = revision_id, tk_intent = text_field d ''intent'',
       tk_acceptance_criteria = dict_items (dget d ''acceptance_criteria''), tk_lifecycle_state = Task_PENDING,
       tk_outcome = None, tk_created_seq = ev_seq e, tk_updated_seq = ev_seq e\<rparr>)"

definition declared_dependency :: "string \<Rightarrow> json \<Rightarrow> task_dependency" where
  "declared_dependency revision_id raw =
     (let d = projr (as_dict raw) in
      \<lparr>dep_revision_id = revision_id, dep_predecessor_task_id = text_field d ''predecessor_task_id'',
       dep_successor_task_id = text_field d ''successor_task_id'', dep_dependency_kind = text_field d ''dependency_kind''\<rparr>)"

definition declared_tasks :: "event_envelope \<Rightarrow> task_state list" where
  "declared_tasks e =
     (let p = ev_payload e in
      map (declared_task e (text_field p ''plan_id'') (text_field p ''revision_id'')) (raw_items (dget p ''task_definitions'')))"

definition declared_dependencies :: "event_envelope \<Rightarrow> task_dependency list" where
  "declared_dependencies e =
     (let p = ev_payload e in
      map (declared_dependency (text_field p ''revision_id'')) (raw_items (dget p ''dependencies'')))"

definition declared_revision :: "event_envelope \<Rightarrow> revision_state" where
  "declared_revision e =
     (let p = ev_payload e; parent = dget p ''parent_revision_id'' in
      \<lparr>rv_revision_id = text_field p ''revision_id'', rv_plan_id = text_field p ''plan_id'',
       rv_parent_revision_id = (if parent = JNull then None else Some (py_str parent)),
       rv_content_schema_version = WORK_GRAPH_SCHEMA_VERSION,
       rv_content_hash = py_str (dget p ''content_hash''), rv_objective = text_field p ''objective'',
       rv_constraints = dict_items (dget p ''constraints''),
       rv_task_definitions = dict_items (dget p ''task_definitions''),
       rv_dependencies = dict_items (dget p ''dependencies''), rv_declared_at = ev_created_at e,
       rv_declared_by = event_actor e\<rparr>)"

definition declared_plan :: "event_envelope \<Rightarrow> plan_state" where
  "declared_plan e =
     \<lparr>pl_plan_id = text_field (ev_payload e) ''plan_id'', pl_lifecycle_state = Plan_OPEN, pl_current_revision_id = None,
      pl_created_at = ev_created_at e, pl_created_by = event_actor e\<rparr>"

definition declared_snapshot :: "event_envelope \<Rightarrow> snapshot_index" where
  "declared_snapshot e =
     (let p = ev_payload e in
      \<lparr>sn_snapshot_id = text_field p ''snapshot_id'', sn_scope = py_str (dget p ''scope''),
       sn_plan_id = (if dget p ''plan_id'' = JNull then None else Some (py_str (dget p ''plan_id''))),
       sn_as_of_seq = ev_seq e - 1, sn_work_graph_schema_version = WORK_GRAPH_SCHEMA_VERSION,
       sn_projection_version = projr (py_int (dget p ''projection_version'')),
       sn_canonicalization_version = projr (py_int (dget p ''canonicalization_version'')),
       sn_payload_hash = py_str (dget p ''payload_hash''), sn_state_payload = projr (as_dict (dget p ''state_payload'')),
       sn_recorded_seq = ev_seq e\<rparr>)"

text \<open>The entity with one identifier is updated.\<close>

definition update_by :: "('e \<Rightarrow> 'k) \<Rightarrow> 'k \<Rightarrow> ('e \<Rightarrow> 'e) \<Rightarrow> 'e list \<Rightarrow> 'e list" where
  "update_by key k f xs = map (\<lambda>x. if key x = k then f x else x) xs"

definition moved_task :: "event_envelope \<Rightarrow> task_state \<Rightarrow> task_state" where
  "moved_task e t =
     (let p = ev_payload e in
      t\<lparr>tk_lifecycle_state := projr (TaskLifecycleState (py_str (dget p ''to_state''))),
        tk_outcome := (if ev_event_type e = ''task.lifecycle_changed.v1'' then None
                       else Some (projr (dict_of (dget p ''outcome'')))),
        tk_updated_seq := ev_seq e\<rparr>)"

definition graph_effect :: "event_envelope \<Rightarrow> work_graph \<Rightarrow> work_graph" where
  "graph_effect e s =
     (let t = ev_event_type e; p = ev_payload e in
      if t = ''plan.created.v1'' then s\<lparr>wg_plans := wg_plans s @ [declared_plan e]\<rparr>
      else if t = ''plan.revision_recorded.v1'' then
        s\<lparr>wg_revisions := wg_revisions s @ [declared_revision e], wg_tasks := wg_tasks s @ declared_tasks e,
          wg_dependencies := wg_dependencies s @ declared_dependencies e\<rparr>
      else if t = ''plan.revision_activated.v1'' then
        s\<lparr>wg_plans := update_by pl_plan_id (text_field p ''plan_id'')
            (\<lambda>x. x\<lparr>pl_current_revision_id := Some (text_field p ''revision_id'')\<rparr>) (wg_plans s)\<rparr>
      else if t = ''plan.lifecycle_changed.v1'' then
        s\<lparr>wg_plans := update_by pl_plan_id (text_field p ''plan_id'')
            (\<lambda>x. x\<lparr>pl_lifecycle_state := projr (PlanLifecycleState (py_str (dget p ''to_state'')))\<rparr>) (wg_plans s)\<rparr>
      else if t \<in> set [''task.lifecycle_changed.v1'', ''task.outcome_recorded.v1''] then
        s\<lparr>wg_tasks := update_by tk_task_id (text_field p ''task_id'') (moved_task e) (wg_tasks s)\<rparr>
      else s\<lparr>wg_snapshots := wg_snapshots s @ [declared_snapshot e]\<rparr>)"

section \<open>The reducer has this effect\<close>

lemma replace_by_update:
  assumes "distinct (map key xs)" and "x \<in> set xs" and "key (f x) = key x"
  shows "replace_by key (f x) xs = update_by key (key x) f xs"
proof -
  have "z = x" if "z \<in> set xs" "key z = key x" for z
    using assms(1,2) that by (simp add: distinct_map inj_on_def)
  then show ?thesis using assms(3) by (auto simp: replace_by_def update_by_def)
qed

lemma elements_raw: "is_list v \<Longrightarrow> elements v = Inr (raw_items v)"
  by (cases v) (simp_all add: raw_items_def)

lemma add_task_declared:
  "add_task s e plan_id revision_id ts raw = Inr ts' \<Longrightarrow> ts' = ts @ [declared_task e plan_id revision_id raw]"
  by (cases raw) (auto simp: add_task_def declared_task_def dict_items_def elements_raw Let_def and_then_Inr_iff split: if_split_asm)

lemma add_dependency_declared:
  "add_dependency revision_id ids ds raw = Inr ds' \<Longrightarrow> ds' = ds @ [declared_dependency revision_id raw]"
  by (cases raw) (auto simp: add_dependency_def declared_dependency_def Let_def split: if_split_asm)

lemma fold_res_collect:
  assumes "\<And>acc x acc'. f acc x = Inr acc' \<Longrightarrow> acc' = acc @ [g x]"
  shows "fold_res f acc xs = Inr acc' \<Longrightarrow> acc' = acc @ map g xs"
  using assms by (induction xs arbitrary: acc) (fastforce simp: and_then_Inr_iff)+

lemma reduce_revision_effect:
  assumes "reduce_revision sha s e (ev_payload e) = Inr s'"
  shows "s' = s\<lparr>wg_revisions := wg_revisions s @ [declared_revision e], wg_tasks := wg_tasks s @ declared_tasks e,
          wg_dependencies := wg_dependencies s @ declared_dependencies e\<rparr>"
proof -
  let ?p = "ev_payload e"
  have lists: "is_list (dget ?p ''task_definitions'')" "is_list (dget ?p ''dependencies'')" "is_list (dget ?p ''constraints'')"
    using assms by (auto simp: reduce_revision_def Let_def and_then_Inr_iff split: if_split_asm)
  obtain plan where plan: "plan_of s (text_field ?p ''plan_id'') = Some plan" "pl_lifecycle_state plan = Plan_OPEN"
    using assms by (auto simp: reduce_revision_def Let_def and_then_Inr_iff require_plan_Inr split: if_split_asm)
  note body = assms [unfolded reduce_revision_def Let_def, simplified require_plan_def plan option.case and_then_simps if_False simp_thms
      elements_raw [OF lists(1)] elements_raw [OF lists(2)] elements_raw [OF lists(3)]]
  let ?revision = "\<lambda>h cs tds dds. \<lparr>rv_revision_id = text_field ?p ''revision_id'', rv_plan_id = text_field ?p ''plan_id'',
           rv_parent_revision_id = (if dget ?p ''parent_revision_id'' = JNull then None else Some (py_str (dget ?p ''parent_revision_id''))),
           rv_content_schema_version = WORK_GRAPH_SCHEMA_VERSION, rv_content_hash = py_str h,
           rv_objective = text_field ?p ''objective'', rv_constraints = cs, rv_task_definitions = tds,
           rv_dependencies = dds, rv_declared_at = ev_created_at e, rv_declared_by = event_actor e\<rparr>"
  obtain ts ds h cs tds dds where
    ts: "fold_res (add_task s e (text_field ?p ''plan_id'') (text_field ?p ''revision_id'')) [] (raw_items (dget ?p ''task_definitions'')) = Inr ts"
    and ds: "fold_res (add_dependency (text_field ?p ''revision_id'') (map tk_task_id ts)) [] (raw_items (dget ?p ''dependencies'')) = Inr ds"
    and h: "dindex ?p ''content_hash'' = Inr h" and cs: "map_res dict_of (raw_items (dget ?p ''constraints'')) = Inr cs"
    and tds: "map_res dict_of (raw_items (dget ?p ''task_definitions'')) = Inr tds"
    and dds: "map_res dict_of (raw_items (dget ?p ''dependencies'')) = Inr dds"
    and s': "s' = s\<lparr>wg_revisions := wg_revisions s @ [?revision h cs tds dds], wg_tasks := wg_tasks s @ ts,
        wg_dependencies := wg_dependencies s @ ds\<rparr>"
    using body by (auto simp: and_then_Inr_iff split: if_split_asm)
  have "ts = declared_tasks e"
    using fold_res_collect [OF add_task_declared ts] by (simp add: declared_tasks_def Let_def)
  moreover have "ds = declared_dependencies e"
    using fold_res_collect [OF add_dependency_declared ds] by (simp add: declared_dependencies_def Let_def)
  ultimately show ?thesis using dindex_dget [OF h]
    by (simp add: s' declared_revision_def Let_def dict_items_def cs tds dds)
qed

lemma plan_update:
  assumes "graph_ids_distinct s" and "plan_of s i = Some p" and "pl_plan_id (f p) = pl_plan_id p"
  shows "replace_plan s (f p) = update_by pl_plan_id i f (wg_plans s)"
  using replace_by_update [of pl_plan_id "wg_plans s" p f] assms plan_ofD [OF assms(2)]
  by (simp add: replace_plan_def graph_ids_distinct_def)

lemma task_update:
  assumes "graph_ids_distinct s" and "task_of s i = Some t" and "tk_task_id (f t) = tk_task_id t"
  shows "replace_task s (f t) = update_by tk_task_id i f (wg_tasks s)"
  using replace_by_update [of tk_task_id "wg_tasks s" t f] assms task_ofD [OF assms(2)]
  by (simp add: replace_task_def graph_ids_distinct_def)

lemma reduce_lifecycle_effect:
  assumes "reduce_plan_lifecycle s p = Inr s'" and "graph_ids_distinct s"
  shows "s' = s\<lparr>wg_plans := update_by pl_plan_id (text_field p ''plan_id'')
            (\<lambda>x. x\<lparr>pl_lifecycle_state := projr (PlanLifecycleState (py_str (dget p ''to_state'')))\<rparr>) (wg_plans s)\<rparr>"
proof -
  obtain plan where plan: "plan_of s (text_field p ''plan_id'') = Some plan"
    using assms(1) by (auto simp: reduce_plan_lifecycle_def Let_def and_then_Inr_iff require_plan_Inr)
  show ?thesis
  proof (cases "PlanLifecycleState (py_str (dget p ''from_state''))"; cases "PlanLifecycleState (py_str (dget p ''to_state''))")
    fix source target
    assume state: "PlanLifecycleState (py_str (dget p ''from_state'')) = Inr source"
      "PlanLifecycleState (py_str (dget p ''to_state'')) = Inr target"
    then have "s' = s\<lparr>wg_plans := replace_plan s (plan\<lparr>pl_lifecycle_state := target\<rparr>)\<rparr>"
      using assms(1) plan by (simp add: reduce_plan_lifecycle_def Let_def require_plan_def split: if_split_asm)
    then show ?thesis using plan_update [OF assms(2) plan, of "\<lambda>x. x\<lparr>pl_lifecycle_state := target\<rparr>"] state by simp
  qed (use assms(1) plan in \<open>simp_all add: reduce_plan_lifecycle_def Let_def require_plan_def\<close>)
qed

lemma reduce_task_effect:
  assumes "reduce_task s e (ev_payload e) = Inr s'" and "graph_ids_distinct s"
  shows "s' = s\<lparr>wg_tasks := update_by tk_task_id (text_field (ev_payload e) ''task_id'') (moved_task e) (wg_tasks s)\<rparr>"
proof -
  let ?p = "ev_payload e"
  obtain t source target outcome where t: "task_of s (text_field ?p ''task_id'') = Some t"
    and target: "TaskLifecycleState (py_str (dget ?p ''to_state'')) = Inr target"
    and outcome: "task_outcome s e t source target (dget ?p ''outcome'') = Inr outcome"
    and s': "s' = s\<lparr>wg_tasks := replace_task s (t\<lparr>tk_lifecycle_state := target, tk_outcome := outcome, tk_updated_seq := ev_seq e\<rparr>)\<rparr>"
    using assms(1) by (auto simp: reduce_task_def Let_def and_then_Inr_iff split: option.split_asm if_split_asm sum.split_asm)
  have "outcome = (if ev_event_type e = ''task.lifecycle_changed.v1'' then None else Some (projr (dict_of (dget ?p ''outcome''))))"
    using outcome by (auto simp: task_outcome_def and_then_Inr_iff split: if_split_asm)
  then have "t\<lparr>tk_lifecycle_state := target, tk_outcome := outcome, tk_updated_seq := ev_seq e\<rparr> = moved_task e t"
    by (simp add: moved_task_def Let_def target)
  then show ?thesis using task_update [OF assms(2) t, of "moved_task e"] by (simp add: s' moved_task_def Let_def)
qed

lemma reduce_snapshot_effect:
  "reduce_snapshot sha s e core (ev_payload e) = Inr s' \<Longrightarrow> s' = s\<lparr>wg_snapshots := wg_snapshots s @ [declared_snapshot e]\<rparr>"
  by (auto simp: reduce_snapshot_def Let_def and_then_Inr_iff declared_snapshot_def dest!: dindex_dget
      split: if_split_asm json.split_asm)

lemma reduce_activated_effect:
  assumes "reduce_revision_activated s p = Inr s'" and "graph_ids_distinct s"
  shows "s' = s\<lparr>wg_plans := update_by pl_plan_id (text_field p ''plan_id'')
            (\<lambda>x. x\<lparr>pl_current_revision_id := Some (text_field p ''revision_id'')\<rparr>) (wg_plans s)\<rparr>"
proof -
  obtain plan where "plan_of s (text_field p ''plan_id'') = Some plan"
      "s' = s\<lparr>wg_plans := replace_plan s (plan\<lparr>pl_current_revision_id := Some (text_field p ''revision_id'')\<rparr>)\<rparr>"
    using assms(1) by (auto simp: reduce_revision_activated_def Let_def and_then_Inr_iff require_plan_Inr split: if_split_asm)
  then show ?thesis
    using plan_update [OF assms(2), of _ plan "\<lambda>x. x\<lparr>pl_current_revision_id := Some (text_field p ''revision_id'')\<rparr>"] by simp
qed

lemma reduce_created_effect:
  "reduce_plan_created s e (ev_payload e) = Inr s' \<Longrightarrow> s' = s\<lparr>wg_plans := wg_plans s @ [declared_plan e]\<rparr>"
  by (auto simp: reduce_plan_created_def declared_plan_def Let_def split: if_split_asm)

lemma wg_reduce_effect:
  assumes "wg_reduce sha s e core = Inr s'" and ids: "graph_ids_distinct s"
  shows "s' = graph_effect e s"
proof -
  let ?t = "ev_event_type e" and ?p = "ev_payload e"
  have red: "(if ?t = ''plan.created.v1'' then reduce_plan_created s e ?p
      else if ?t = ''plan.revision_recorded.v1'' then reduce_revision sha s e ?p
      else if ?t = ''plan.revision_activated.v1'' then reduce_revision_activated s ?p
      else if ?t = ''plan.lifecycle_changed.v1'' then reduce_plan_lifecycle s ?p
      else if ?t \<in> set [''task.lifecycle_changed.v1'', ''task.outcome_recorded.v1''] then reduce_task s e ?p
      else reduce_snapshot sha s e core ?p) = Inr s'" (is "(if ?a then _ else if ?b then _ else if ?c then _ else if ?d then _ else if ?e then _ else _) = _")
    using assms(1) unfolding wg_reduce_def Let_def by (simp only: sum.distinct split: if_split_asm)
  consider ?a | "\<not> ?a" ?b | "\<not> ?a" "\<not> ?b" ?c | "\<not> ?a" "\<not> ?b" "\<not> ?c" ?d | "\<not> ?a" "\<not> ?b" "\<not> ?c" "\<not> ?d" ?e
    | "\<not> ?a" "\<not> ?b" "\<not> ?c" "\<not> ?d" "\<not> ?e" by argo
  then show ?thesis
  proof cases
    case 1
    from red [unfolded if_P [OF 1]] have "reduce_plan_created s e ?p = Inr s'" .
    from reduce_created_effect [OF this] show ?thesis unfolding graph_effect_def Let_def if_P [OF 1] .
  next
    case 2
    from red [unfolded if_not_P [OF 2(1)] if_P [OF 2(2)]] have "reduce_revision sha s e ?p = Inr s'" .
    from reduce_revision_effect [OF this] show ?thesis unfolding graph_effect_def Let_def if_not_P [OF 2(1)] if_P [OF 2(2)] .
  next
    case 3
    note branch = if_not_P [OF 3(1)] if_not_P [OF 3(2)] if_P [OF 3(3)]
    from red [unfolded branch] have "reduce_revision_activated s ?p = Inr s'" .
    from reduce_activated_effect [OF this ids] show ?thesis unfolding graph_effect_def Let_def branch .
  next
    case 4
    note branch = if_not_P [OF 4(1)] if_not_P [OF 4(2)] if_not_P [OF 4(3)] if_P [OF 4(4)]
    from red [unfolded branch] have "reduce_plan_lifecycle s ?p = Inr s'" .
    from reduce_lifecycle_effect [OF this ids] show ?thesis unfolding graph_effect_def Let_def branch .
  next
    case 5
    note branch = if_not_P [OF 5(1)] if_not_P [OF 5(2)] if_not_P [OF 5(3)] if_not_P [OF 5(4)] if_P [OF 5(5)]
    from red [unfolded branch] have "reduce_task s e ?p = Inr s'" .
    from reduce_task_effect [OF this ids] show ?thesis unfolding graph_effect_def Let_def branch .
  next
    case 6
    note branch = if_not_P [OF 6(1)] if_not_P [OF 6(2)] if_not_P [OF 6(3)] if_not_P [OF 6(4)] if_not_P [OF 6(5)]
    from red [unfolded branch] have "reduce_snapshot sha s e core ?p = Inr s'" .
    from reduce_snapshot_effect [OF this] show ?thesis unfolding graph_effect_def Let_def branch .
  qed
qed

section \<open>Graphs with the same content\<close>

text \<open>A dictionary without regard to the order of its keys, with \<open>True\<close> and \<open>False\<close> as 1 and 0, and the
  entities with their dictionaries in that form.\<close>

definition plain :: "dict \<Rightarrow> dict" where
  "plain d = canon_dict (map (\<lambda>(k, v). (k, unbool v)) d)"

definition plain_plan :: "plan_state \<Rightarrow> plan_state" where
  "plain_plan p = p\<lparr>pl_created_by := plain (pl_created_by p)\<rparr>"

definition plain_revision :: "revision_state \<Rightarrow> revision_state" where
  "plain_revision r = r\<lparr>rv_constraints := map plain (rv_constraints r), rv_task_definitions := map plain (rv_task_definitions r),
     rv_dependencies := map plain (rv_dependencies r), rv_declared_by := plain (rv_declared_by r)\<rparr>"

definition plain_task :: "task_state \<Rightarrow> task_state" where
  "plain_task t = t\<lparr>tk_acceptance_criteria := map plain (tk_acceptance_criteria t), tk_outcome := map_option plain (tk_outcome t)\<rparr>"

definition plain_snapshot :: "snapshot_index \<Rightarrow> snapshot_index" where
  "plain_snapshot x = x\<lparr>sn_state_payload := plain (sn_state_payload x)\<rparr>"

definition same_items :: "('e \<Rightarrow> 'e) \<Rightarrow> 'e list \<Rightarrow> 'e list \<Rightarrow> bool" where
  "same_items f xs ys \<longleftrightarrow> mset (map f xs) = mset (map f ys)"

text \<open>The same graph up to the order of the entities and the form of their dictionaries.\<close>

definition same_graph :: "work_graph \<Rightarrow> work_graph \<Rightarrow> bool" where
  "same_graph s t \<longleftrightarrow> wg_mission_id s = wg_mission_id t \<and>
     same_items plain_plan (wg_plans s) (wg_plans t) \<and> same_items plain_revision (wg_revisions s) (wg_revisions t) \<and>
     same_items plain_task (wg_tasks s) (wg_tasks t) \<and> same_items (\<lambda>d. d) (wg_dependencies s) (wg_dependencies t) \<and>
     same_items plain_snapshot (wg_snapshots s) (wg_snapshots t)"

lemma unbool_unbool [simp]: "unbool (unbool v) = unbool v"
  by (induction v) (auto simp: o_def)

lemma unbool_canon_dict: "map (\<lambda>(k, v). (k, unbool v)) (canon_dict d) = canon_dict (map (\<lambda>(k, v). (k, unbool v)) d)"
  using unbool_canon [of "JObj d"] by (simp add: canon_JObj del: canon.simps)

lemma plain_plain [simp]: "plain (plain d) = plain d"
  by (simp only: plain_def unbool_canon_dict canon_dict_idem) (simp add: o_def split_def)

lemma plain_keys [simp]:
  "pl_plan_id (plain_plan p) = pl_plan_id p" "rv_revision_id (plain_revision r) = rv_revision_id r"
  "rv_plan_id (plain_revision r) = rv_plan_id r" "tk_task_id (plain_task t) = tk_task_id t"
  "tk_plan_id (plain_task t) = tk_plan_id t" "sn_snapshot_id (plain_snapshot x) = sn_snapshot_id x"
  "sn_plan_id (plain_snapshot x) = sn_plan_id x"
  by (simp_all add: plain_plan_def plain_revision_def plain_task_def plain_snapshot_def)

lemma same_items_append: "same_items f xs ys \<Longrightarrow> same_items f us vs \<Longrightarrow> same_items f (xs @ us) (ys @ vs)"
  by (simp add: same_items_def)

lemma same_items_refl [simp]: "same_items f xs xs"
  by (simp add: same_items_def)

lemma same_items_update:
  assumes same: "same_items f xs ys" and key: "\<And>x. key (f x) = key x" and com: "\<And>x. f (g x) = f (g (f x))"
  shows "same_items f (update_by key k g xs) (update_by key k g ys)"
proof -
  have "map f (update_by key k g zs) = map (\<lambda>x. if key x = k then f (g x) else x) (map f zs)" for zs
    by (simp add: update_by_def key com [symmetric])
  then show ?thesis using same by (simp only: same_items_def mset_map)
qed

lemma same_items_filter:
  assumes same: "same_items f xs ys" and "\<And>x. P (f x) \<longleftrightarrow> P x"
  shows "same_items f (filter P xs) (filter P ys)"
proof -
  have "map f (filter P zs) = filter P (map f zs)" for zs by (simp add: filter_map o_def assms(2))
  then show ?thesis using same by (simp only: same_items_def mset_filter)
qed

lemma same_items_keys:
  assumes same: "same_items f xs ys" and key: "\<And>x. key (f x) = key x"
  shows "mset (map key xs) = mset (map key ys)"
proof -
  have "mset (map key zs) = image_mset key (mset (map f zs))" for zs by (simp add: key o_def multiset.map_comp)
  then show ?thesis using same by (simp add: same_items_def)
qed

lemma same_graph_refl: "same_graph s s"
  by (simp add: same_graph_def)

lemma same_graph_distinct:
  assumes "same_graph s t" and "graph_ids_distinct t"
  shows "graph_ids_distinct s"
proof -
  have "mset (map pl_plan_id (wg_plans s)) = mset (map pl_plan_id (wg_plans t))"
      "mset (map rv_revision_id (wg_revisions s)) = mset (map rv_revision_id (wg_revisions t))"
      "mset (map tk_task_id (wg_tasks s)) = mset (map tk_task_id (wg_tasks t))"
      "mset (map sn_snapshot_id (wg_snapshots s)) = mset (map sn_snapshot_id (wg_snapshots t))"
    by (rule same_items_keys [where f = plain_plan] same_items_keys [where f = plain_revision] same_items_keys [where f = plain_task]
        same_items_keys [where f = plain_snapshot]; use assms(1) in \<open>simp add: same_graph_def\<close>)+
  then show ?thesis using assms(2) unfolding graph_ids_distinct_def by (metis mset_eq_imp_distinct_iff)
qed

lemma same_graph_effect: "same_graph s t \<Longrightarrow> same_graph (graph_effect e s) (graph_effect e t)"
  unfolding same_graph_def graph_effect_def Let_def
  by (auto intro!: same_items_append same_items_update simp: plain_plan_def plain_task_def moved_task_def Let_def o_def option.map_comp)

end
