(* ===== verification/WgDecode.thy ===== *)
theory WgDecode
  imports WgEffect
begin

text \<open>
  Reading an entity or a graph from a dictionary that Python's \<open>==\<close> takes for its \<open>to_dict\<close>: the result is
  the entity up to the form of its dictionaries, and the graph up to the order of its entities
  (\<open>graph_alike\<close>).  This is what a snapshot's payload, which the reducer compares with \<open>==\<close>, is worth.
\<close>

section \<open>Values that are equal in Python\<close>

definition unbool_dict :: "dict \<Rightarrow> dict" where
  "unbool_dict d = map (\<lambda>(k, v). (k, unbool v)) d"

text \<open>\<open>d\<close> is in canonical form and equal to \<open>e\<close>.\<close>

definition alike :: "dict \<Rightarrow> dict \<Rightarrow> bool" where
  "alike d e \<longleftrightarrow> unbool_dict d = canon_dict (unbool_dict e)"

lemma unbool_JObj: "unbool (JObj d) = JObj (unbool_dict d)"
  by (simp add: unbool_dict_def)

lemma plain_unbool: "plain d = canon_dict (unbool_dict d)"
  by (simp add: plain_def unbool_dict_def)

lemma unbool_eq [simp]:
  "unbool v = JNull \<longleftrightarrow> v = JNull" "unbool v = JStr s \<longleftrightarrow> v = JStr s"
  "unbool v = JList xs \<longleftrightarrow> (\<exists>ys. v = JList ys \<and> map unbool ys = xs)"
  "unbool v = JObj d \<longleftrightarrow> (\<exists>e. v = JObj e \<and> unbool_dict e = d)"
  by (cases v; auto simp: unbool_dict_def)+

lemma unbool_int: "unbool v = JInt n \<Longrightarrow> py_int v = Inr n"
  by (cases v) auto

lemma dget_unbool: "dget (unbool_dict d) k = unbool (dget d k)"
  by (induction d) (auto simp: unbool_dict_def)

lemma alike_dget: "alike d e \<Longrightarrow> unbool (dget d k) = canon (unbool (dget e k))"
  unfolding alike_def by (metis dget_canon_dict dget_unbool)

lemma dhas_canon: "dhas (canon_dict d) k = dhas d k"
  by (auto simp: dhas_def map_of_canon_dict)

lemma dhas_unbool: "dhas (unbool_dict d) k = dhas d k"
  by (induction d) (auto simp: unbool_dict_def)

lemma alike_dhas: "alike d e \<Longrightarrow> dhas d k = dhas e k"
  unfolding alike_def by (metis dhas_canon dhas_unbool)

lemma dget_default_has: "dhas d k \<Longrightarrow> dget_default d k v = dget d k"
  by (auto simp: dhas_def dget_default_def dget_def)

lemma canon_dict_unbool [simp]: "canon_dict (map (\<lambda>(k, v). (k, unbool v)) d) = plain d"
  by (simp only: plain_def)

lemma alike_plain: "unbool_dict e = plain d \<Longrightarrow> plain e = plain d"
  by (simp only: plain_unbool [of e]) (simp only: plain_def canon_dict_idem)

lemma alike_obj:
  assumes "unbool v = JObj (plain b)" and "dict_of (py_or v (JObj [])) = Inr d"
  shows "plain d = plain b"
proof -
  obtain e where e: "v = JObj e" "unbool_dict e = plain b" using assms(1) by auto
  then have "d = e" using assms(2) by (cases e) (simp_all add: py_or_def)
  then show ?thesis using alike_plain [OF e(2)] by simp
qed

lemma alike_item: "unbool v = JObj (plain b) \<Longrightarrow> dict_of v = Inr d \<Longrightarrow> plain d = plain b"
  using alike_obj [of v b d] by (cases v) (auto simp: py_or_def)

lemma alike_dicts:
  assumes "unbool v = JList (map (\<lambda>d. JObj (plain d)) ds)" and "dicts_of v = Inr es"
  shows "map plain es = map plain ds"
proof -
  obtain vs where vs: "v = JList vs" "map unbool vs = map (\<lambda>d. JObj (plain d)) ds" using assms(1) by auto
  have "map_res dict_of vs = Inr es" using assms(2) vs(1) by (cases vs) (auto simp: dicts_of_def py_or_def)
  with vs(2) show ?thesis
  proof (induction ds arbitrary: vs es)
    case Nil
    then show ?case by simp
  next
    case (Cons d ds)
    then obtain w ws where vs: "vs = w # ws" "unbool w = JObj (plain d)" "map unbool ws = map (\<lambda>d. JObj (plain d)) ds" by auto
    then obtain x xs where es: "es = x # xs" "dict_of w = Inr x" "map_res dict_of ws = Inr xs"
      using Cons.prems(2) by (auto simp: and_then_Inr_iff)
    show ?case using Cons.IH [OF vs(3) es(3)] alike_item [OF vs(2) es(2)] es(1) by simp
  qed
qed

lemma canon_unbool_dicts [simp]: "canon (unbool (dict_list ds)) = JList (map (\<lambda>d. JObj (plain d)) ds)"
  by (simp add: dict_list_def o_def)

section \<open>Entities\<close>

lemmas from_dict_facts = and_then_Inr_iff

lemma alike_index: "alike d e \<Longrightarrow> dindex d k = Inr v \<Longrightarrow> unbool v = canon (unbool (dget e k))"
  using alike_dget dindex_dget by metis

lemma unbool_jopt: "canon (unbool (jopt x)) = jopt x"
  by (cases x) simp_all

lemma as_opt_alike: "unbool v = jopt x \<Longrightarrow> as_opt_str v = Inr y \<Longrightarrow> y = x"
  by (cases x) auto

lemma plan_alike:
  assumes d: "alike d (plan_to_dict p)" and q: "plan_from_dict d = Inr q"
  shows "plain_plan q = plain_plan p"
proof -
  note get = alike_dget [OF d] and index = alike_index [OF d]
  obtain i l c b where i: "dindex d ''plan_id'' = Inr i" and l: "dindex d ''lifecycle_state'' = Inr l"
    and lv: "PlanLifecycleState (py_str l) = Inr (pl_lifecycle_state q)"
    and r: "as_opt_str (dget d ''current_revision_id'') = Inr (pl_current_revision_id q)"
    and c: "dindex d ''created_at'' = Inr c" and b: "dict_of (py_or (dget d ''created_by'') (JObj [])) = Inr b"
    and fields: "pl_plan_id q = py_str i" "pl_created_at q = py_str c" "pl_created_by q = b"
    using q by (auto simp: plan_from_dict_def and_then_Inr_iff)
  have "i = JStr (pl_plan_id p)" "l = JStr (plan_lifecycle_value (pl_lifecycle_state p))" "c = JStr (pl_created_at p)"
    using index [OF i] index [OF l] index [OF c] by (simp_all add: plan_to_dict_def)
  moreover have "pl_current_revision_id q = pl_current_revision_id p"
    by (rule as_opt_alike [OF _ r]) (simp add: get plan_to_dict_def unbool_jopt)
  moreover have "plain b = plain (pl_created_by p)"
    by (rule alike_obj [OF _ b]) (simp add: get plan_to_dict_def)
  ultimately show ?thesis using fields lv by (cases q; cases p) (simp add: plain_plan_def)
qed


lemma py_int_alike: "unbool v = JInt n \<Longrightarrow> py_int v = Inr m \<Longrightarrow> m = n"
  by (drule unbool_int) simp

lemma revision_alike:
  assumes d: "alike d (revision_to_dict r)" and q: "revision_from_dict d = Inr q"
  shows "plain_revision q = plain_revision r"
proof -
  note get = alike_dget [OF d] and index = alike_index [OF d]
  obtain i p v h ob cs ts ds da b where i: "dindex d ''revision_id'' = Inr i" and p: "dindex d ''plan_id'' = Inr p"
    and parent: "as_opt_str (dget d ''parent_revision_id'') = Inr (rv_parent_revision_id q)"
    and v: "dindex d ''content_schema_version'' = Inr v" "py_int v = Inr (rv_content_schema_version q)"
    and h: "dindex d ''content_hash'' = Inr h" and ob: "dindex d ''objective'' = Inr ob"
    and lists: "dicts_of (dget d ''constraints'') = Inr cs" "dicts_of (dget d ''task_definitions'') = Inr ts"
      "dicts_of (dget d ''dependencies'') = Inr ds"
    and da: "dindex d ''declared_at'' = Inr da" and b: "dict_of (py_or (dget d ''declared_by'') (JObj [])) = Inr b"
    and fields: "q = \<lparr>rv_revision_id = py_str i, rv_plan_id = py_str p, rv_parent_revision_id = rv_parent_revision_id q,
          rv_content_schema_version = rv_content_schema_version q, rv_content_hash = py_str h, rv_objective = py_str ob,
          rv_constraints = cs, rv_task_definitions = ts, rv_dependencies = ds,
          rv_declared_at = py_str da, rv_declared_by = b\<rparr>"
    using q by (auto simp: revision_from_dict_def and_then_Inr_iff)
  have texts: "i = JStr (rv_revision_id r)" "p = JStr (rv_plan_id r)" "h = JStr (rv_content_hash r)" "ob = JStr (rv_objective r)"
      "da = JStr (rv_declared_at r)"
    using index [OF i] index [OF p] index [OF h] index [OF ob] index [OF da] by (simp_all add: revision_to_dict_def)
  have "rv_parent_revision_id q = rv_parent_revision_id r"
    by (rule as_opt_alike [OF _ parent]) (simp add: get revision_to_dict_def unbool_jopt)
  moreover have "rv_content_schema_version q = rv_content_schema_version r"
    by (rule py_int_alike [OF _ v(2)]) (simp add: index [OF v(1)] revision_to_dict_def)
  moreover have "map plain cs = map plain (rv_constraints r)" "map plain ts = map plain (rv_task_definitions r)"
      "map plain ds = map plain (rv_dependencies r)"
    by (rule alike_dicts [OF _ lists(1)] alike_dicts [OF _ lists(2)] alike_dicts [OF _ lists(3)]; simp add: get revision_to_dict_def)+
  moreover have "plain b = plain (rv_declared_by r)"
    by (rule alike_obj [OF _ b]) (simp add: get revision_to_dict_def)
  ultimately show ?thesis by (subst fields) (cases r, simp add: plain_revision_def texts)
qed

lemma task_alike:
  assumes d: "alike d (task_to_dict t)" and q: "task_from_dict d = Inr q"
  shows "plain_task q = plain_task t"
proof -
  note get = alike_dget [OF d] and index = alike_index [OF d]
  obtain i k p r n cs l c u where i: "dindex d ''task_id'' = Inr i" and k: "dindex d ''task_key'' = Inr k"
    and p: "dindex d ''plan_id'' = Inr p" and r: "dindex d ''plan_revision_id'' = Inr r" and n: "dindex d ''intent'' = Inr n"
    and cs: "dicts_of (dget d ''acceptance_criteria'') = Inr cs" and l: "dindex d ''lifecycle_state'' = Inr l"
    and lv: "TaskLifecycleState (py_str l) = Inr (tk_lifecycle_state q)"
    and c: "dindex d ''created_seq'' = Inr c" "py_int c = Inr (tk_created_seq q)"
    and u: "dindex d ''updated_seq'' = Inr u" "py_int u = Inr (tk_updated_seq q)"
    and fields: "q = \<lparr>tk_task_id = py_str i, tk_task_key = py_str k, tk_plan_id = py_str p,
          tk_plan_revision_id = py_str r, tk_intent = py_str n, tk_acceptance_criteria = cs,
          tk_lifecycle_state = tk_lifecycle_state q,
          tk_outcome = (case dget d ''outcome'' of JObj x \<Rightarrow> Some x | _ \<Rightarrow> None),
          tk_created_seq = tk_created_seq q, tk_updated_seq = tk_updated_seq q\<rparr>"
    using q by (auto simp: task_from_dict_def and_then_Inr_iff)
  have texts: "i = JStr (tk_task_id t)" "k = JStr (tk_task_key t)" "p = JStr (tk_plan_id t)" "r = JStr (tk_plan_revision_id t)"
      "n = JStr (tk_intent t)" "l = JStr (task_lifecycle_value (tk_lifecycle_state t))"
    using index [OF i] index [OF k] index [OF p] index [OF r] index [OF n] index [OF l] by (simp_all add: task_to_dict_def)
  have "tk_created_seq q = tk_created_seq t" "tk_updated_seq q = tk_updated_seq t"
    by (rule py_int_alike [OF _ c(2)] py_int_alike [OF _ u(2)]; simp add: index [OF c(1)] index [OF u(1)] task_to_dict_def)+
  moreover have "map plain cs = map plain (tk_acceptance_criteria t)"
    by (rule alike_dicts [OF _ cs]) (simp add: get task_to_dict_def)
  moreover have "tk_lifecycle_state q = tk_lifecycle_state t" using lv texts by simp
  moreover have "map_option plain (case dget d ''outcome'' of JObj x \<Rightarrow> Some x | _ \<Rightarrow> None) = map_option plain (tk_outcome t)"
    using get [of "''outcome''"]
    by (cases "tk_outcome t") (auto simp: task_to_dict_def intro: alike_plain)
  ultimately show ?thesis by (subst fields) (cases t, simp add: plain_task_def texts)
qed

lemma dependency_alike:
  assumes d: "alike d (dependency_to_dict x)" and q: "dependency_from_dict d = Inr q"
  shows "q = x"
proof -
  note index = alike_index [OF d]
  obtain r p s k where r: "dindex d ''revision_id'' = Inr r" and p: "dindex d ''predecessor_task_id'' = Inr p"
    and s: "dindex d ''successor_task_id'' = Inr s" and k: "dindex d ''dependency_kind'' = Inr k"
    and fields: "q = \<lparr>dep_revision_id = py_str r, dep_predecessor_task_id = py_str p,
          dep_successor_task_id = py_str s, dep_dependency_kind = py_str k\<rparr>"
    using q by (auto simp: dependency_from_dict_def and_then_Inr_iff)
  have "r = JStr (dep_revision_id x)" "p = JStr (dep_predecessor_task_id x)" "s = JStr (dep_successor_task_id x)"
      "k = JStr (dep_dependency_kind x)"
    using index [OF r] index [OF p] index [OF s] index [OF k] by (simp_all add: dependency_to_dict_def)
  then show ?thesis using fields by simp
qed

lemma snapshot_alike:
  assumes d: "alike d (snapshot_to_dict x)" and q: "snapshot_from_dict d = Inr q"
  shows "plain_snapshot q = plain_snapshot x"
proof -
  note get = alike_dget [OF d] and index = alike_index [OF d]
  obtain i sc a w pv h sp r where i: "dindex d ''snapshot_id'' = Inr i" and sc: "dindex d ''scope'' = Inr sc"
    and p: "as_opt_str (dget d ''plan_id'') = Inr (sn_plan_id q)"
    and a: "dindex d ''as_of_seq'' = Inr a" "py_int a = Inr (sn_as_of_seq q)"
    and w: "dindex d ''work_graph_schema_version'' = Inr w" "py_int w = Inr (sn_work_graph_schema_version q)"
    and pv: "dindex d ''projection_version'' = Inr pv" "py_int pv = Inr (sn_projection_version q)"
    and cv: "py_int (dget_default d ''canonicalization_version'' (JInt 1)) = Inr (sn_canonicalization_version q)"
    and h: "dindex d ''payload_hash'' = Inr h" and sp: "dict_of (py_or (dget d ''state_payload'') (JObj [])) = Inr sp"
    and r: "dindex d ''recorded_seq'' = Inr r" "py_int r = Inr (sn_recorded_seq q)"
    and fields: "q = \<lparr>sn_snapshot_id = py_str i, sn_scope = py_str sc, sn_plan_id = sn_plan_id q, sn_as_of_seq = sn_as_of_seq q,
          sn_work_graph_schema_version = sn_work_graph_schema_version q, sn_projection_version = sn_projection_version q,
          sn_canonicalization_version = sn_canonicalization_version q, sn_payload_hash = py_str h, sn_state_payload = sp,
          sn_recorded_seq = sn_recorded_seq q\<rparr>"
    using q by (auto simp: snapshot_from_dict_def and_then_Inr_iff)
  have texts: "i = JStr (sn_snapshot_id x)" "sc = JStr (sn_scope x)" "h = JStr (sn_payload_hash x)"
    using index [OF i] index [OF sc] index [OF h] by (simp_all add: snapshot_to_dict_def)
  have "dhas d ''canonicalization_version''" using alike_dhas [OF d] by (simp add: snapshot_to_dict_def)
  then have cv': "py_int (dget d ''canonicalization_version'') = Inr (sn_canonicalization_version q)"
    using cv by (simp add: dget_default_has)
  have "sn_as_of_seq q = sn_as_of_seq x" "sn_work_graph_schema_version q = sn_work_graph_schema_version x"
      "sn_projection_version q = sn_projection_version x" "sn_canonicalization_version q = sn_canonicalization_version x"
      "sn_recorded_seq q = sn_recorded_seq x"
    by (rule py_int_alike [OF _ a(2)] py_int_alike [OF _ w(2)] py_int_alike [OF _ pv(2)] py_int_alike [OF _ cv'] py_int_alike [OF _ r(2)];
        simp add: index [OF a(1)] index [OF w(1)] index [OF pv(1)] index [OF r(1)] get snapshot_to_dict_def)+
  moreover have "sn_plan_id q = sn_plan_id x"
    by (rule as_opt_alike [OF _ p]) (simp add: get snapshot_to_dict_def unbool_jopt)
  moreover have "plain sp = plain (sn_state_payload x)"
    by (rule alike_obj [OF _ sp]) (simp add: get snapshot_to_dict_def)
  ultimately show ?thesis by (subst fields) (cases x, simp add: plain_snapshot_def texts)
qed

section \<open>The graph\<close>

lemma alike_items:
  assumes "map unbool vs = map (\<lambda>x. JObj (plain (enc x))) xs" and "map_res (\<lambda>v. and_then (as_dict v) dec) vs = Inr ys"
    and one: "\<And>d x y. alike d (enc x) \<Longrightarrow> dec d = Inr y \<Longrightarrow> f y = f x"
  shows "map f ys = map f xs"
  using assms(1,2)
proof (induction xs arbitrary: vs ys)
  case Nil
  then show ?case by simp
next
  case (Cons x xs)
  then obtain w ws where vs: "vs = w # ws" "unbool w = JObj (plain (enc x))" "map unbool ws = map (\<lambda>x. JObj (plain (enc x))) xs" by auto
  then obtain d where d: "w = JObj d" "unbool_dict d = plain (enc x)" by auto
  obtain z zs where ys: "ys = z # zs" "dec d = Inr z" "map_res (\<lambda>v. and_then (as_dict v) dec) ws = Inr zs"
    using Cons.prems(2) vs(1) d(1) by (auto simp: and_then_Inr_iff)
  have "alike d (enc x)" using d(2) by (simp only: alike_def plain_unbool)
  then show ?case using Cons.IH [OF vs(3) ys(3)] one ys(1,2) by simp
qed

lemma keyed_dicts_plain:
  assumes "distinct (map key xs)"
  shows "canon (unbool (keyed_dicts enc key xs)) = JObj (map (\<lambda>x. (key x, JObj (plain (enc x)))) (sort_key key xs))"
proof -
  let ?zs = "sort_key key xs"
  have keys: "distinct (map key ?zs)" "sorted (map key ?zs)" using assms by (simp_all add: distinct_map)
  have flat: "unbool (keyed_dicts enc key xs) = JObj (map (\<lambda>x. (key x, unbool (JObj (enc x)))) ?zs)"
    unfolding keyed_dicts_def using keys by (simp add: dict_of_pairs_distinct o_def)
  have "canon_dict (map (\<lambda>x. (key x, unbool (JObj (enc x)))) ?zs) = canon_values (map (\<lambda>x. (key x, unbool (JObj (enc x)))) ?zs)"
    by (rule canon_dict_sorted_values) (use keys in \<open>simp_all add: o_def\<close>)
  then show ?thesis unfolding flat canon_obj by (simp add: canon_values_def o_def)
qed

lemma alike_keyed:
  assumes v: "unbool v = canon (unbool (keyed_dicts enc key xs))" and dist: "distinct (map key xs)"
    and dec: "decode_values dec v = Inr ys" and one: "\<And>d x y. alike d (enc x) \<Longrightarrow> dec d = Inr y \<Longrightarrow> f y = f x"
  shows "same_items f ys xs"
proof -
  obtain es where es: "v = JObj es" "unbool_dict es = map (\<lambda>x. (key x, JObj (plain (enc x)))) (sort_key key xs)"
    using v by (auto simp: keyed_dicts_plain [OF dist])
  have "map unbool (map snd es) = map snd (unbool_dict es)" by (simp add: unbool_dict_def o_def split_def)
  then have vals: "map unbool (map snd es) = map (\<lambda>x. JObj (plain (enc x))) (sort_key key xs)" by (simp add: es(2) o_def)
  have "map_res (\<lambda>v. and_then (as_dict v) dec) (map snd es) = Inr ys"
    using dec by (cases es) (simp_all add: decode_values_def es(1) py_or_def)
  from alike_items [OF vals this one] show ?thesis by (simp add: same_items_def)
qed

lemma graph_alike:
  assumes d: "alike d (wg_to_dict s)" and ids: "graph_ids_distinct s" and q: "wg_from_dict d = Inr q"
  shows "same_graph q s"
proof -
  note get = alike_dget [OF d]
  have dist: "distinct (map pl_plan_id (wg_plans s))" "distinct (map rv_revision_id (wg_revisions s))"
      "distinct (map tk_task_id (wg_tasks s))" "distinct (map sn_snapshot_id (wg_snapshots s))"
    using ids by (simp_all add: graph_ids_distinct_def)
  obtain m ds where m: "dindex d ''mission_id'' = Inr m" "wg_mission_id q = py_str m"
    and plans: "decode_values plan_from_dict (dget d ''plans'') = Inr (wg_plans q)"
    and revisions: "decode_values revision_from_dict (dget d ''revisions'') = Inr (wg_revisions q)"
    and tasks: "decode_values task_from_dict (dget d ''tasks'') = Inr (wg_tasks q)"
    and ds: "elements (py_or (dget d ''dependencies'') (JList [])) = Inr ds"
      "map_res (\<lambda>v. and_then (as_dict v) dependency_from_dict) ds = Inr (wg_dependencies q)"
    and snapshots: "decode_values snapshot_from_dict (dget d ''snapshots'') = Inr (wg_snapshots q)"
    using q by (auto simp: wg_from_dict_def and_then_Inr_iff)
  have "m = JStr (wg_mission_id s)" using alike_index [OF d m(1)] by (simp add: wg_to_dict_def)
  moreover have "same_items plain_plan (wg_plans q) (wg_plans s)"
    by (rule alike_keyed [OF _ dist(1) plans plan_alike]) (simp_all add: get wg_to_dict_def)
  moreover have "same_items plain_revision (wg_revisions q) (wg_revisions s)"
    by (rule alike_keyed [OF _ dist(2) revisions revision_alike]) (simp_all add: get wg_to_dict_def)
  moreover have "same_items plain_task (wg_tasks q) (wg_tasks s)"
    by (rule alike_keyed [OF _ dist(3) tasks task_alike]) (simp_all add: get wg_to_dict_def)
  moreover have "same_items plain_snapshot (wg_snapshots q) (wg_snapshots s)"
    by (rule alike_keyed [OF _ dist(4) snapshots snapshot_alike]) (simp_all add: get wg_to_dict_def)
  moreover have "same_items (\<lambda>x. x) (wg_dependencies q) (wg_dependencies s)"
  proof -
    have "unbool (dget d ''dependencies'') = JList (map (\<lambda>x. JObj (plain (dependency_to_dict x))) (sort_key dependency_key (wg_dependencies s)))"
      by (simp add: get wg_to_dict_def)
    then obtain vs where vs: "dget d ''dependencies'' = JList vs"
        "map unbool vs = map (\<lambda>x. JObj (plain (dependency_to_dict x))) (sort_key dependency_key (wg_dependencies s))" by auto
    have "ds = vs" using ds(1) vs(1) by (cases vs) (simp_all add: py_or_def)
    with vs(2) ds(2) have "map (\<lambda>x. x) (wg_dependencies q) = map (\<lambda>x. x) (sort_key dependency_key (wg_dependencies s))"
      by (intro alike_items [where enc = dependency_to_dict and dec = dependency_from_dict and vs = vs]) (simp_all add: dependency_alike)
    then show ?thesis by (simp add: same_items_def)
  qed
  ultimately show ?thesis using m(2) by (simp add: same_graph_def)
qed

text \<open>Graphs with the same content have equal \<open>to_dict\<close>s.\<close>

lemma unbool_dict_Cons [simp]: "unbool_dict ((k, v) # d) = (k, unbool v) # unbool_dict d" "unbool_dict [] = []"
  by (simp_all add: unbool_dict_def)

lemma plain_canon_values: "plain d = canon_dict (map (\<lambda>(k, v). (k, canon (unbool v))) d)"
  by (simp add: plain_def canon_dict_def o_def case_prod_beta)

lemma plain_cong: "map (\<lambda>(k, v). (k, canon (unbool v))) d = map (\<lambda>(k, v). (k, canon (unbool v))) e \<Longrightarrow> plain d = plain e"
  by (simp only: plain_canon_values)

lemma plain_to_dict:
  "plain (plan_to_dict (plain_plan p)) = plain (plan_to_dict p)"
  "plain (revision_to_dict (plain_revision r)) = plain (revision_to_dict r)"
  "plain (task_to_dict (plain_task t)) = plain (task_to_dict t)"
  "plain (snapshot_to_dict (plain_snapshot x)) = plain (snapshot_to_dict x)"
  by (rule plain_cong; simp add: plan_to_dict_def plain_plan_def revision_to_dict_def plain_revision_def task_to_dict_def
      plain_task_def snapshot_to_dict_def plain_snapshot_def o_def split: option.split)+

lemma keyed_same:
  assumes same: "same_items f xs ys" and key: "\<And>x. key (f x) = key x" and dist: "distinct (map key ys)"
    and enc: "\<And>x. plain (enc (f x)) = plain (enc x)"
  shows "canon (unbool (keyed_dicts enc key xs)) = canon (unbool (keyed_dicts enc key ys))"
proof -
  have dist': "distinct (map key xs)" using same_items_keys [where key = key and f = f, OF same key] dist by (metis mset_eq_imp_distinct_iff)
  have image: "map (\<lambda>x. (key x, JObj (plain (enc x)))) (sort_key key zs) =
      map (\<lambda>x. (key x, JObj (plain (enc x)))) (sort_key key (map f zs))" for zs
    by (simp add: sort_key_map o_def key enc)
  have "sort_key key (map f xs) = sort_key key (map f ys)"
  proof (rule sort_key_inj_key_eq)
    show "mset (map f xs) = mset (sort_key key (map f ys))" using same by (simp add: same_items_def)
    have "distinct (map key (map f xs))" using dist' by (simp add: o_def key)
    then show "inj_on key (set (map f xs))" by (simp only: distinct_map)
  qed simp
  then have "map (\<lambda>x. (key x, JObj (plain (enc x)))) (sort_key key xs) = map (\<lambda>x. (key x, JObj (plain (enc x)))) (sort_key key ys)"
    using image [of xs] image [of ys] by argo
  then show ?thesis unfolding keyed_dicts_plain [OF dist] keyed_dicts_plain [OF dist'] by (rule arg_cong)
qed

lemma same_graph_values:
  assumes same: "same_graph s t" and ids: "graph_ids_distinct t" and deps: "distinct (map dependency_key (wg_dependencies t))"
  shows "py_eq (JObj (wg_to_dict s)) (JObj (wg_to_dict t))"
proof -
  have "sort_key dependency_key (wg_dependencies s) = sort_key dependency_key (wg_dependencies t)"
  proof (rule sort_key_inj_key_eq)
    show m: "mset (wg_dependencies s) = mset (sort_key dependency_key (wg_dependencies t))"
      using same by (simp add: same_graph_def same_items_def)
    then have "set (wg_dependencies s) = set (wg_dependencies t)" by (metis set_mset_mset mset_sort)
    then show "inj_on dependency_key (set (wg_dependencies s))" using deps by (simp add: distinct_map)
  qed simp
  moreover have "canon (unbool (keyed_dicts plan_to_dict pl_plan_id (wg_plans s))) = canon (unbool (keyed_dicts plan_to_dict pl_plan_id (wg_plans t)))"
    by (rule keyed_same [where f = plain_plan]) (use same ids in \<open>simp_all add: same_graph_def graph_ids_distinct_def plain_to_dict\<close>)
  moreover have "canon (unbool (keyed_dicts revision_to_dict rv_revision_id (wg_revisions s))) = canon (unbool (keyed_dicts revision_to_dict rv_revision_id (wg_revisions t)))"
    by (rule keyed_same [where f = plain_revision]) (use same ids in \<open>simp_all add: same_graph_def graph_ids_distinct_def plain_to_dict\<close>)
  moreover have "canon (unbool (keyed_dicts task_to_dict tk_task_id (wg_tasks s))) = canon (unbool (keyed_dicts task_to_dict tk_task_id (wg_tasks t)))"
    by (rule keyed_same [where f = plain_task]) (use same ids in \<open>simp_all add: same_graph_def graph_ids_distinct_def plain_to_dict\<close>)
  moreover have "canon (unbool (keyed_dicts snapshot_to_dict sn_snapshot_id (wg_snapshots s))) = canon (unbool (keyed_dicts snapshot_to_dict sn_snapshot_id (wg_snapshots t)))"
    by (rule keyed_same [where f = plain_snapshot]) (use same ids in \<open>simp_all add: same_graph_def graph_ids_distinct_def plain_to_dict\<close>)
  moreover have "wg_mission_id s = wg_mission_id t" using same by (simp add: same_graph_def)
  ultimately have "plain (wg_to_dict s) = plain (wg_to_dict t)"
    by (intro plain_cong) (simp only: wg_to_dict_def list.map prod.case)
  then show ?thesis by (simp add: py_eq_def unbool_JObj plain_unbool)
qed

end
