(* ===== verification/WgAcceleration.thy ===== *)
theory WgAcceleration
  imports WgDecode WgReads
begin

text \<open>
  Reading from a snapshot: the state that work_graph/queries.py builds from a snapshot and the events after
  it has the same content as the state that the whole log replays to, for a mission and for one plan of
  it (\<open>accelerated_read_replays\<close>).
\<close>

section \<open>One event on two graphs\<close>

lemma graph_event:
  assumes step: "reduce_composed s e (graph_registry sha steps) = Inr s'" and g: "wg_state s = Inr g" and ids: "graph_ids_distinct g"
  shows "if ev_event_type e \<in> set WG_EVENT_TYPES
         then wg_state s' = Inr (graph_effect e g) \<and> (\<exists>core. wg_reduce sha g e core = Inr (graph_effect e g))
         else wg_state s' = Inr g"
  using step
proof (cases rule: reduce_composed_cases)
  case (core c)
  then have "ev_event_type e \<notin> set WG_EVENT_TYPES"
    using wg_types(5) by (auto simp: event_owner_def wg_registry_def split: if_split_asm)
  then show ?thesis using core(3) g by (auto simp: make_composed_Inr wg_state_map_of)
next
  case (extension x c current changed)
  have x: "x = wg_manifest sha steps" and type: "ev_event_type e \<in> set WG_EVENT_TYPES"
    using extension(1) by (auto simp: event_owner_def wg_registry_def dest!: map_of_SomeD split: if_split_asm)
  have "current = g" using extension(3) g x by (simp add: wg_state_map_of)
  then have red: "wg_reduce sha g e c = Inr changed" using extension(4) x by (simp add: wg_manifest_def)
  then have "changed = graph_effect e g" by (rule wg_reduce_effect [OF _ ids])
  then show ?thesis using extension(5) type red x by (auto simp: make_composed_Inr wg_state_map_of update_conv)
qed

lemma list_events_after:
  assumes "list_events d m k through = Inr es" and "e \<in> set es" and "0 \<le> k"
  shows "k < ev_seq e"
proof -
  obtain r where r: "row_to_event r = Inr e" "k < row_seq r"
    using map_res_source [OF assms(1) [unfolded list_events_def] assms(2)] by auto
  then have "dget r ''seq'' = JInt (row_seq r)" using assms(3) by (cases "dget r ''seq''") (auto simp: row_seq_def)
  then show ?thesis using r row_to_event_seq by metis
qed

section \<open>The part of one plan\<close>

definition plan_part :: "string \<Rightarrow> work_graph \<Rightarrow> work_graph" where
  "plan_part p s =
     (let revision_ids = map rv_revision_id (filter (\<lambda>r. rv_plan_id r = p) (wg_revisions s));
          task_ids = map tk_task_id (filter (\<lambda>t. tk_plan_id t = p) (wg_tasks s))
      in \<lparr>wg_mission_id = wg_mission_id s, wg_plans = filter (\<lambda>x. pl_plan_id x = p) (wg_plans s),
          wg_revisions = filter (\<lambda>r. rv_plan_id r = p) (wg_revisions s), wg_tasks = filter (\<lambda>t. tk_plan_id t = p) (wg_tasks s),
          wg_dependencies = filter (\<lambda>d. dep_revision_id d \<in> set revision_ids \<and>
             dep_predecessor_task_id d \<in> set task_ids \<and> dep_successor_task_id d \<in> set task_ids) (wg_dependencies s),
          wg_snapshots = filter (\<lambda>x. sn_plan_id x = Some p) (wg_snapshots s)\<rparr>)"

lemma plan_scope_part: "plan_scope s p = Inr v \<longleftrightarrow> plan_of s p \<noteq> None \<and> v = plan_part p s"
  by (auto simp: plan_scope_def plan_part_def Let_def)

lemma plan_part_distinct: "graph_ids_distinct s \<Longrightarrow> graph_ids_distinct (plan_part p s)"
  by (simp add: graph_ids_distinct_def plan_part_def Let_def distinct_map_filter)

text \<open>The part of the graph that a read shows, by its scope.\<close>

definition scope_part :: "string \<Rightarrow> string option \<Rightarrow> work_graph \<Rightarrow> work_graph" where
  "scope_part scope plan_id s = (if scope = ''MISSION'' then s else plan_part (the plan_id) s)"

text \<open>Every work graph event names its plan, but for the snapshots of the mission.\<close>

definition names_plan :: "event_envelope \<Rightarrow> bool" where
  "names_plan e \<longleftrightarrow> (ev_event_type e \<in> set WG_EVENT_TYPES \<longrightarrow> is_str (dget (ev_payload e) ''plan_id'') \<or>
     (ev_event_type e = ''snapshot.recorded.v1'' \<and> dget (ev_payload e) ''scope'' = JStr ''MISSION'' \<and>
      dget (ev_payload e) ''plan_id'' = JNull))"

lemma filter_update:
  assumes "\<And>x. P (f x) \<longleftrightarrow> P x"
  shows "filter P (update_by key k f xs) = update_by key k f (filter P xs)"
  by (induction xs) (auto simp: update_by_def assms)

lemma update_nothing_by: "(\<And>x. x \<in> set xs \<Longrightarrow> key x \<noteq> k) \<Longrightarrow> update_by key k f xs = xs"
  by (auto simp: update_by_def intro: map_idI)

lemma revision_facts:
  assumes red: "wg_reduce sha g e core = Inr g'" and type: "ev_event_type e = ''plan.revision_recorded.v1''"
  shows "revision_of g (rv_revision_id (declared_revision e)) = None"
    and "\<And>t. t \<in> set (declared_tasks e) \<Longrightarrow> task_of g (tk_task_id t) = None \<and> tk_plan_id t = rv_plan_id (declared_revision e)"
    and "\<And>d. d \<in> set (declared_dependencies e) \<Longrightarrow> dep_revision_id d = rv_revision_id (declared_revision e) \<and>
      dep_predecessor_task_id d \<in> tk_task_id ` set (declared_tasks e) \<and> dep_successor_task_id d \<in> tk_task_id ` set (declared_tasks e)"
proof -
  have rev: "reduce_revision sha g e (ev_payload e) = Inr g'"
    using red type by (simp add: wg_reduce_def Let_def split: if_split_asm)
  note effect = reduce_revision_effect [OF rev]
  from rev obtain plan r raws ts deps ds where fresh: "revision_of g (rv_revision_id r) = None"
    and ts: "fold_res (add_task g e (rv_plan_id r) (rv_revision_id r)) [] raws = Inr ts"
    and ds: "fold_res (add_dependency (rv_revision_id r) (map tk_task_id ts)) [] deps = Inr ds"
    and g': "g' = g\<lparr>wg_revisions := wg_revisions g @ [r], wg_tasks := wg_tasks g @ ts, wg_dependencies := wg_dependencies g @ ds\<rparr>"
    by (rule reduce_revision_Inr)
  have same: "r = declared_revision e" "ts = declared_tasks e" "ds = declared_dependencies e"
    using arg_cong [OF trans [OF effect [symmetric] g'], of wg_revisions] arg_cong [OF trans [OF effect [symmetric] g'], of wg_tasks]
      arg_cong [OF trans [OF effect [symmetric] g'], of wg_dependencies] by simp_all
  show "revision_of g (rv_revision_id (declared_revision e)) = None" using fresh same by simp
  show "task_of g (tk_task_id t) = None \<and> tk_plan_id t = rv_plan_id (declared_revision e)" if "t \<in> set (declared_tasks e)" for t
    using fold_add_task [OF ts] that same by (auto simp: fresh_tasks_def)
  show "dep_revision_id d = rv_revision_id (declared_revision e) \<and>
      dep_predecessor_task_id d \<in> tk_task_id ` set (declared_tasks e) \<and> dep_successor_task_id d \<in> tk_task_id ` set (declared_tasks e)"
    if "d \<in> set (declared_dependencies e)" for d
    using fold_add_dependency [OF ds] that same by (auto simp: dependencies_ok_def)
qed

lemma plan_part_revision:
  assumes red: "wg_reduce sha g e core = Inr (graph_effect e g)" and inv: "graph_inv n g"
    and type: "ev_event_type e = ''plan.revision_recorded.v1''"
  shows "plan_part p (graph_effect e g) =
    (if rv_plan_id (declared_revision e) = p then graph_effect e (plan_part p g) else plan_part p g)"
proof -
  let ?r = "declared_revision e" and ?ts = "declared_tasks e" and ?ds = "declared_dependencies e"
  note new = revision_facts [OF red type]
  have effect: "graph_effect e s = s\<lparr>wg_revisions := wg_revisions s @ [?r], wg_tasks := wg_tasks s @ ?ts,
      wg_dependencies := wg_dependencies s @ ?ds\<rparr>" for s
    by (simp add: graph_effect_def type)
  have old: "dep_revision_id d \<noteq> rv_revision_id ?r \<and> dep_predecessor_task_id d \<notin> tk_task_id ` set ?ts \<and>
      dep_successor_task_id d \<notin> tk_task_id ` set ?ts" if d: "d \<in> set (wg_dependencies g)" for d
  proof (intro conjI)
    show "dep_revision_id d \<noteq> rv_revision_id ?r"
      using dependency_recorded [OF inv d] new(1) [unfolded revision_of_None] by (metis imageI)
    have known: "dep_predecessor_task_id d \<in> tk_task_id ` set (wg_tasks g)" "dep_successor_task_id d \<in> tk_task_id ` set (wg_tasks g)"
      using inv d by (auto simp: graph_inv_def graph_dependencies_ok_def)
    have "tk_task_id t \<notin> tk_task_id ` set (wg_tasks g)" if "t \<in> set ?ts" for t
      using new(2) [OF that] by (simp add: task_of_None)
    then show "dep_predecessor_task_id d \<notin> tk_task_id ` set ?ts" "dep_successor_task_id d \<notin> tk_task_id ` set ?ts"
      using known by (metis imageE)+
  qed
  show ?thesis
  proof (cases "rv_plan_id ?r = p")
    case True
    have tasks: "filter (\<lambda>t. tk_plan_id t = p) ?ts = ?ts" by (rule filter_True) (use new(2) True in simp)
    have ids: "map tk_task_id (filter (\<lambda>t. tk_plan_id t = p) (wg_tasks g @ ?ts)) =
        map tk_task_id (filter (\<lambda>t. tk_plan_id t = p) (wg_tasks g)) @ map tk_task_id ?ts" using tasks by simp
    show ?thesis using True new(3) old tasks
      by (simp add: plan_part_def effect Let_def) (intro conjI filter_cong filter_True; force)
  next
    case False
    have tasks: "filter (\<lambda>t. tk_plan_id t = p) ?ts = []" using new(2) False by (auto simp: filter_empty_conv)
    have "rv_revision_id ?r \<notin> rv_revision_id ` {x \<in> set (wg_revisions g). rv_plan_id x = p}"
      using new(1) by (auto simp: revision_of_None)
    then have "filter (\<lambda>d. dep_revision_id d \<in> rv_revision_id ` {x \<in> set (wg_revisions g). rv_plan_id x = p} \<and>
        dep_predecessor_task_id d \<in> tk_task_id ` {x \<in> set (wg_tasks g). tk_plan_id x = p} \<and>
        dep_successor_task_id d \<in> tk_task_id ` {x \<in> set (wg_tasks g). tk_plan_id x = p}) ?ds = []"
      using new(3) by (auto simp: filter_empty_conv)
    then show ?thesis using False tasks by (simp add: plan_part_def effect Let_def)
  qed
qed


lemma plan_update_part:
  assumes effect: "\<And>s. graph_effect e s = s\<lparr>wg_plans := update_by pl_plan_id q f (wg_plans s)\<rparr>"
    and f: "\<And>x. pl_plan_id (f x) = pl_plan_id x"
  shows "plan_part p (graph_effect e g) = (if q = p then graph_effect e (plan_part p g) else plan_part p g)"
proof -
  have "update_by pl_plan_id q f (filter (\<lambda>x. pl_plan_id x = p) (wg_plans g)) = filter (\<lambda>x. pl_plan_id x = p) (wg_plans g)" if "q \<noteq> p"
    by (rule update_nothing_by) (use that in auto)
  then show ?thesis by (simp add: plan_part_def Let_def effect filter_update f)
qed

lemma task_update_part:
  assumes effect: "\<And>s. graph_effect e s = s\<lparr>wg_tasks := update_by tk_task_id i (moved_task e) (wg_tasks s)\<rparr>"
    and q: "\<And>t. t \<in> set (wg_tasks g) \<Longrightarrow> tk_task_id t = i \<Longrightarrow> tk_plan_id t = q"
  shows "plan_part p (graph_effect e g) = (if q = p then graph_effect e (plan_part p g) else plan_part p g)"
proof -
  have same: "tk_task_id (moved_task e t) = tk_task_id t" "tk_plan_id (moved_task e t) = tk_plan_id t" for t
    by (simp_all add: moved_task_def Let_def)
  have ids: "tk_task_id ` set (update_by tk_task_id i (moved_task e) ts) = tk_task_id ` set ts" for ts
    by (induction ts) (simp_all add: update_by_def same)
  have "update_by tk_task_id i (moved_task e) (filter (\<lambda>t. tk_plan_id t = p) (wg_tasks g)) = filter (\<lambda>t. tk_plan_id t = p) (wg_tasks g)"
    if "q \<noteq> p"
    by (rule update_nothing_by) (use that q in auto)
  then show ?thesis by (simp add: plan_part_def Let_def effect filter_update same ids)
qed

text \<open>An event of the plan does to the part of the plan what it does to the graph; other events leave the
  part as it is.\<close>

lemma plan_part_effect:
  assumes red: "wg_reduce sha g e core = Inr (graph_effect e g)" and inv: "graph_inv n g"
    and q: "dget (ev_payload e) ''plan_id'' = JStr q"
  shows "plan_part p (graph_effect e g) = (if q = p then graph_effect e (plan_part p g) else plan_part p g)"
proof -
  have plan_text: "text_field (ev_payload e) ''plan_id'' = q" by (simp add: text_field_def q py_or_def)
  have "ev_event_type e \<in> set WG_EVENT_TYPES" by (rule wg_reduce_Inr(2) [OF red])
  then consider "ev_event_type e = ''plan.created.v1''" | "ev_event_type e = ''plan.lifecycle_changed.v1''"
    | "ev_event_type e = ''plan.revision_recorded.v1''" | "ev_event_type e = ''plan.revision_activated.v1''"
    | "ev_event_type e \<in> {''task.lifecycle_changed.v1'', ''task.outcome_recorded.v1''}" | "ev_event_type e = ''snapshot.recorded.v1''"
    unfolding WG_EVENT_TYPES_def by auto
  then show ?thesis
  proof cases
    case 1
    then show ?thesis by (simp add: graph_effect_def plan_part_def Let_def declared_plan_def plan_text)
  next
    case 2
    then show ?thesis
      by (intro plan_update_part [where
            f = "\<lambda>x. x\<lparr>pl_lifecycle_state := projr (PlanLifecycleState (py_str (dget (ev_payload e) ''to_state'')))\<rparr>"])
         (auto simp: graph_effect_def plan_text)
  next
    case 3
    then show ?thesis using plan_part_revision [OF red inv, of p] by (simp add: declared_revision_def Let_def plan_text)
  next
    case 4
    then show ?thesis
      by (intro plan_update_part [where
            f = "\<lambda>x. x\<lparr>pl_current_revision_id := Some (text_field (ev_payload e) ''revision_id'')\<rparr>"])
         (auto simp: graph_effect_def plan_text)
  next
    case 5
    then have "reduce_task g e (ev_payload e) = Inr (graph_effect e g)"
      using red by (auto simp: wg_reduce_def Let_def split: if_split_asm)
    then obtain t where t: "task_of g (text_field (ev_payload e) ''task_id'') = Some t" "tk_plan_id t = q"
      by (auto simp: reduce_task_def Let_def q dest!: py_eq_JStr split: option.split_asm if_split_asm)
    show ?thesis
    proof (rule task_update_part)
      show "graph_effect e s = s\<lparr>wg_tasks := update_by tk_task_id (text_field (ev_payload e) ''task_id'') (moved_task e) (wg_tasks s)\<rparr>" for s
        using 5 by (auto simp: graph_effect_def)
      fix u assume u: "u \<in> set (wg_tasks g)" "tk_task_id u = text_field (ev_payload e) ''task_id''"
      have "distinct (map tk_task_id (wg_tasks g))" using graph_inv_distinct [OF inv] by (simp add: graph_ids_distinct_def)
      then have "u = t" using u task_ofD [OF t(1)] by (auto simp: distinct_map inj_on_def)
      then show "tk_plan_id u = q" using t(2) by simp
    qed
  next
    case 6
    then show ?thesis by (simp add: graph_effect_def plan_part_def Let_def declared_snapshot_def q)
  qed
qed

lemma plan_part_mission_snapshot:
  assumes "ev_event_type e = ''snapshot.recorded.v1''" and "dget (ev_payload e) ''plan_id'' = JNull"
  shows "plan_part p (graph_effect e g) = plan_part p g"
  using assms by (simp add: graph_effect_def plan_part_def Let_def declared_snapshot_def)


section \<open>The tail\<close>

text \<open>The state of the read from the snapshot and the state of the full replay after the same events.\<close>

definition read_agrees :: "string \<Rightarrow> string option \<Rightarrow> work_graph composed_state \<Rightarrow> work_graph composed_state \<Rightarrow> bool" where
  "read_agrees scope plan_id s a \<longleftrightarrow> cs_seq s = cs_seq a \<and>
     (\<exists>g h. wg_state s = Inr g \<and> wg_state a = Inr h \<and> graph_inv (cs_seq a) h \<and> same_graph g (scope_part scope plan_id h))"

lemma scope_part_distinct: "graph_ids_distinct s \<Longrightarrow> graph_ids_distinct (scope_part scope plan_id s)"
  by (simp add: scope_part_def plan_part_distinct)

lemma scope_part_other:
  assumes "scope \<noteq> ''MISSION''"
  shows "scope_part scope (Some p) s = plan_part p s"
  using assms by (simp add: scope_part_def)

lemma reduced_agrees:
  assumes step: "reduce_composed s e (graph_registry sha steps) = Inr s'" and full: "reduce_composed a e (graph_registry sha steps) = Inr a'"
    and agree: "read_agrees scope plan_id s a"
    and part: "\<And>h core. wg_reduce sha h e core = Inr (graph_effect e h) \<Longrightarrow> graph_inv (cs_seq a) h \<Longrightarrow> wg_state a = Inr h \<Longrightarrow>
        scope_part scope plan_id (graph_effect e h) = graph_effect e (scope_part scope plan_id h)"
  shows "read_agrees scope plan_id s' a'"
proof -
  obtain g h where g: "wg_state s = Inr g" and h: "wg_state a = Inr h" "graph_inv (cs_seq a) h"
    and same: "same_graph g (scope_part scope plan_id h)" using agree by (auto simp: read_agrees_def)
  note ids = graph_inv_distinct [OF h(2)]
  note left = graph_event [OF step g same_graph_distinct [OF same scope_part_distinct [OF ids]]]
  note right = graph_event [OF full h(1) ids]
  have seq: "cs_seq s' = cs_seq a'" "cs_seq a \<le> cs_seq a'"
    using reduce_composed_number [OF step] reduce_composed_number [OF full] by simp_all
  show ?thesis
  proof (cases "ev_event_type e \<in> set WG_EVENT_TYPES")
    case True
    then obtain core where red: "wg_reduce sha h e core = Inr (graph_effect e h)" using right by auto
    have "graph_inv (cs_seq a') (graph_effect e h)"
      using graph_step_inv [OF wg_reduce_Inr(1) [OF red] h(2)] reduce_composed_number [OF full] by simp
    moreover have "same_graph (graph_effect e g) (scope_part scope plan_id (graph_effect e h))"
      using same_graph_effect [OF same] part [OF red h(2,1)] by simp
    ultimately show ?thesis using True left right seq by (simp add: read_agrees_def)
  next
    case False
    then show ?thesis using left right seq same graph_inv_mono [OF h(2)] by (simp add: read_agrees_def)
  qed
qed

lemma skipped_agrees:
  assumes step: "advance_shared_seq (cs_core_state s) e = Inr core"
      "make_ComposedRuntimeState (cs_mission_id s) (ev_seq e) core (cs_extension_states s) = Inr s'"
    and full: "reduce_composed a e (graph_registry sha steps) = Inr a'" and type: "ev_event_type e \<in> set WG_EVENT_TYPES"
    and agree: "read_agrees scope plan_id s a"
    and part: "\<And>h core. wg_reduce sha h e core = Inr (graph_effect e h) \<Longrightarrow> graph_inv (cs_seq a) h \<Longrightarrow> wg_state a = Inr h \<Longrightarrow>
        scope_part scope plan_id (graph_effect e h) = scope_part scope plan_id h"
  shows "read_agrees scope plan_id s' a'"
proof -
  obtain g h where g: "wg_state s = Inr g" and h: "wg_state a = Inr h" "graph_inv (cs_seq a) h"
    and same: "same_graph g (scope_part scope plan_id h)" using agree by (auto simp: read_agrees_def)
  note right = graph_event [OF full h(1) graph_inv_distinct [OF h(2)]]
  then obtain core' where red: "wg_reduce sha h e core' = Inr (graph_effect e h)" using type by auto
  have "graph_inv (cs_seq a') (graph_effect e h)"
    using graph_step_inv [OF wg_reduce_Inr(1) [OF red] h(2)] reduce_composed_number [OF full] by simp
  moreover have "wg_state s' = Inr g" "cs_seq s' = cs_seq a'"
    using step(2) g reduce_composed_number [OF full] by (auto simp: make_composed_Inr wg_state_map_of)
  ultimately show ?thesis using right type same part [OF red h(2,1)] by (simp add: read_agrees_def)
qed

lemma graph_owner:
  "ev_event_type e \<in> set WG_EVENT_TYPES \<Longrightarrow>
     event_owner (graph_registry sha steps) (ev_event_type e) = Some (ExtensionOwner (wg_manifest sha steps))"
  "ev_event_type e \<notin> set WG_EVENT_TYPES \<Longrightarrow>
     event_owner (graph_registry sha steps) (ev_event_type e) \<in> {None, Some CoreOwner}"
  using wg_types(5) by (auto simp: event_owner_def wg_registry_def map_of_eq_None_iff image_iff WG_EVENT_TYPES_def)

lemma tail_agrees:
  assumes step: "tail_step (graph_registry sha steps) scope plan_id s e = Inr s'"
    and full: "reduce_composed a e (graph_registry sha steps) = Inr a'" and agree: "read_agrees scope plan_id s a"
    and names: "names_plan e" and scope: "scope \<noteq> ''MISSION'' \<Longrightarrow> plan_id \<noteq> None"
  shows "read_agrees scope plan_id s' a'"
proof (cases "scope = ''MISSION''")
  case True
  then have "reduce_composed s e (graph_registry sha steps) = Inr s'" using step by (simp add: tail_step_def)
  then show ?thesis by (rule reduced_agrees [OF _ full agree]) (simp add: scope_part_def True)
next
  case part: False
  obtain p where p: "plan_id = Some p" using scope part by auto
  show ?thesis
  proof (cases "ev_event_type e \<in> set WG_EVENT_TYPES")
    case False
    then have "reduce_composed s e (graph_registry sha steps) = Inr s'"
      using step part graph_owner(2) [OF False, of sha steps] by (auto simp: tail_step_def)
    moreover have "\<not> wg_reduce sha h e core = Inr g" for h core g using wg_reduce_Inr(2) False by blast
    ultimately show ?thesis by (intro reduced_agrees [OF _ full agree]) auto
  next
    case True
    note tail = step [unfolded tail_step_def if_not_P [OF part] graph_owner(1) [OF True] option.case owner.case Let_def p]
    show ?thesis
    proof (cases "is_str (dget (ev_payload e) ''plan_id'')")
      case is_str: True
      then obtain q where q: "dget (ev_payload e) ''plan_id'' = JStr q" by (cases "dget (ev_payload e) ''plan_id''") auto
      note effect = plan_part_effect [OF _ _ q]
      show ?thesis
      proof (cases "q = p")
        case True
        then have "reduce_composed s e (graph_registry sha steps) = Inr s'" using tail q by simp
        then show ?thesis
          by (rule reduced_agrees [OF _ full agree]) (simp add: scope_part_other [OF part] p effect True)
      next
        case False
        then have "\<not> py_eq (JStr q) (jopt (Some p))" using py_eq_JStr by auto
        then have "and_then (advance_shared_seq (cs_core_state s) e) (\<lambda>core.
            make_ComposedRuntimeState (cs_mission_id s) (ev_seq e) core (cs_extension_states s)) = Inr s'"
          using tail q by simp
        then obtain core where core: "advance_shared_seq (cs_core_state s) e = Inr core"
            "make_ComposedRuntimeState (cs_mission_id s) (ev_seq e) core (cs_extension_states s) = Inr s'"
          by (auto simp: and_then_Inr_iff)
        show ?thesis
          by (rule skipped_agrees [OF core full \<open>ev_event_type e \<in> set WG_EVENT_TYPES\<close> agree])
             (simp add: scope_part_other [OF part] p effect False)
      qed
    next
      case False
      then have mission: "ev_event_type e = ''snapshot.recorded.v1''" "dget (ev_payload e) ''scope'' = JStr ''MISSION''"
          "dget (ev_payload e) ''plan_id'' = JNull"
        using names True by (auto simp: names_plan_def)
      have "\<not> py_eq JNull (JStr p)" using py_eq_JStr by auto
      then have "and_then (advance_shared_seq (cs_core_state s) e) (\<lambda>core.
          make_ComposedRuntimeState (cs_mission_id s) (ev_seq e) core (cs_extension_states s)) = Inr s'"
        using tail mission by simp
      then obtain core where core: "advance_shared_seq (cs_core_state s) e = Inr core"
          "make_ComposedRuntimeState (cs_mission_id s) (ev_seq e) core (cs_extension_states s) = Inr s'"
        by (auto simp: and_then_Inr_iff)
      show ?thesis
        by (rule skipped_agrees [OF core full True agree])
           (simp add: scope_part_other [OF part] p plan_part_mission_snapshot [OF mission(1,3)])
    qed
  qed
qed

lemma tails_agree:
  assumes "fold_res (tail_step (graph_registry sha steps) scope plan_id) s es = Inr s'"
    and "fold_res (\<lambda>s e. reduce_composed s e (graph_registry sha steps)) a es = Inr a'"
    and "read_agrees scope plan_id s a" and "\<And>e. e \<in> set es \<Longrightarrow> names_plan e" and "scope \<noteq> ''MISSION'' \<Longrightarrow> plan_id \<noteq> None"
  shows "read_agrees scope plan_id s' a'"
  using assms
proof (induction es arbitrary: s a)
  case Nil
  then show ?case by simp
next
  case (Cons e es)
  obtain t b where t: "tail_step (graph_registry sha steps) scope plan_id s e = Inr t"
      "fold_res (tail_step (graph_registry sha steps) scope plan_id) t es = Inr s'"
    and b: "reduce_composed a e (graph_registry sha steps) = Inr b"
      "fold_res (\<lambda>s e. reduce_composed s e (graph_registry sha steps)) b es = Inr a'"
    using Cons.prems(1,2) by (auto simp: and_then_Inr_iff)
  have "read_agrees scope plan_id t b"
    by (rule tail_agrees [OF t(1) b(1) Cons.prems(3)]) (use Cons.prems(4,5) in auto)
  from Cons.IH [OF t(2) b(2) this] Cons.prems(4,5) show ?case by simp
qed


section \<open>The base\<close>

lemma snapshot_event_first:
  assumes run: "fold_res (\<lambda>s e. reduce_composed s e r) a es = Inr t" and es: "list_events d m k through = Inr es"
    and e: "e \<in> set es" "ev_seq e = k + 1" and k: "0 \<le> k"
  obtains rest where "es = e # rest" and "cs_seq a = k"
proof -
  obtain xs ys where split: "es = xs @ e # ys" using e(1) by (auto dest: split_list)
  have numbers: "map ev_seq es = map (\<lambda>i. cs_seq a + int i) [1..<Suc (length es)]" by (rule composed_machine.run_numbers [OF run])
  have number: "ev_seq (es ! i) = cs_seq a + int i + 1" if "i < length es" for i
    using arg_cong [OF numbers, of "\<lambda>l. l ! i"] that by (simp add: nth_append del: upt_Suc)
  have at: "k + 1 = cs_seq a + int (length xs) + 1" using number [of "length xs"] split e(2) by simp
  have "xs = []"
  proof (cases xs)
    case (Cons z zs)
    have "k < ev_seq z" by (rule list_events_after [OF es _ k]) (simp add: split Cons)
    moreover have "ev_seq z = cs_seq a + 1" using number [of 0] split Cons by simp
    ultimately show ?thesis using at Cons by simp
  qed
  then show ?thesis using that [of ys] split at by simp
qed

text \<open>What an accepted snapshot event says of the state before it.\<close>

lemma recorded_state:
  assumes step: "reduce_composed a e (graph_registry sha steps) = Inr b" and type: "ev_event_type e = ''snapshot.recorded.v1''"
    and h: "wg_state a = Inr h" "graph_inv (cs_seq a) h"
  obtains expected where "py_eq (JObj (sn_state_payload (declared_snapshot e))) (JObj expected)"
    and "(sn_scope (declared_snapshot e) \<noteq> ''MISSION'' \<longrightarrow> sn_plan_id (declared_snapshot e) \<noteq> None) \<longrightarrow>
           dget expected ''work_graph_state'' =
           JObj (wg_to_dict (scope_part (sn_scope (declared_snapshot e)) (sn_plan_id (declared_snapshot e)) h))"
    and "sn_scope (declared_snapshot e) \<noteq> ''MISSION'' \<longrightarrow> sn_plan_id (declared_snapshot e) \<noteq> None \<longrightarrow>
           plan_of h (the (sn_plan_id (declared_snapshot e))) \<noteq> None"
    and "sn_snapshot_id (declared_snapshot e) = ev_entity_id e" and "wg_snapshots (graph_effect e h) = wg_snapshots h @ [declared_snapshot e]"
    and "rs_mission (cs_core_state a) \<noteq> None" and "wg_state b = Inr (graph_effect e h)"
proof -
  let ?x = "declared_snapshot e" and ?p = "ev_payload e"
  have wg: "ev_event_type e \<in> set WG_EVENT_TYPES" by (simp add: WG_EVENT_TYPES_def type)
  note event = graph_event [OF step h(1) graph_inv_distinct [OF h(2)], unfolded if_P [OF wg]]
  have mission: "rs_mission (cs_core_state a) \<noteq> None"
    using step
  proof (cases rule: reduce_composed_cases)
    case (core c)
    then show ?thesis using graph_owner(1) [OF wg, of sha steps] by simp
  next
    case (extension x c current changed)
    have "x = wg_manifest sha steps" using extension(1) graph_owner(1) [OF wg, of sha steps] by simp
    then have "wg_reduce sha current e c = Inr changed" using extension(4) by (simp add: wg_manifest_def)
    from wg_reduce_Inr(4) [OF this] have "rs_mission c \<noteq> None" by (auto simp: mission_open_def split: option.split_asm)
    moreover have "rs_mission c = rs_mission (cs_core_state a)"
      using extension(2) by (auto simp: advance_shared_seq_def split: if_split_asm)
    ultimately show ?thesis by simp
  qed
  from event obtain core where "wg_reduce sha h e core = Inr (graph_effect e h)" by blast
  then have red: "reduce_snapshot sha h e core ?p = Inr (graph_effect e h)"
    by (simp add: wg_reduce_def Let_def type split: if_split_asm)
  obtain payload expected where payload: "dget ?p ''state_payload'' = JObj payload" and id: "text_field ?p ''snapshot_id'' = ev_entity_id e"
    and scope: "check_snapshot_scope h ?p = Inr ()" and eq: "py_eq (JObj payload) (JObj expected)"
    and expected: "snapshot_payload (wg_mission_id h) (ev_seq e - 1) (dget ?p ''scope'') (dget ?p ''plan_id'') (core\<lparr>rs_seq := ev_seq e - 1\<rparr>) h = Inr expected"
    using red by (auto simp: reduce_snapshot_def Let_def and_then_Inr_iff split: if_split_asm json.split_asm)
  have state: "sn_state_payload ?x = payload" by (simp add: declared_snapshot_def Let_def payload)
  consider (plan) q where "dget ?p ''scope'' = JStr ''PLAN''" "plan_of h (text_field ?p ''plan_id'') = Some q"
    | (whole) "dget ?p ''scope'' = JStr ''MISSION''" "dget ?p ''plan_id'' = JNull"
    using scope by (auto simp: check_snapshot_scope_def and_then_Inr_iff require_plan_Inr split: if_split_asm)
  then have "(sn_scope ?x \<noteq> ''MISSION'' \<longrightarrow> sn_plan_id ?x \<noteq> None) \<longrightarrow>
      dget expected ''work_graph_state'' = JObj (wg_to_dict (scope_part (sn_scope ?x) (sn_plan_id ?x) h)) \<and>
      (sn_scope ?x \<noteq> ''MISSION'' \<longrightarrow> plan_of h (the (sn_plan_id ?x)) \<noteq> None)"
  proof cases
    case whole
    then show ?thesis using expected
      by (auto simp: snapshot_payload_def and_then_Inr_iff declared_snapshot_def Let_def scope_part_def dget_def)
  next
    case (plan q)
    then have sn: "sn_scope ?x = ''PLAN''" "sn_plan_id ?x \<noteq> None \<Longrightarrow> sn_plan_id ?x = Some (py_str (dget ?p ''plan_id''))"
      by (auto simp: declared_snapshot_def Let_def)
    show ?thesis using expected plan(1) sn
      by (auto simp: snapshot_payload_def and_then_Inr_iff plan_scope_part scope_part_def dget_def)
  qed
  then show ?thesis
    using that [OF eq [folded state]] mission event id type
    by (auto simp: declared_snapshot_def Let_def graph_effect_def)
qed


lemma check_scope_Inr:
  "check_read_scope scope plan_id = Inr u \<Longrightarrow> scope \<in> {''MISSION'', ''PLAN''} \<and> (scope = ''MISSION'' \<longleftrightarrow> plan_id = None)"
  by (auto simp: check_read_scope_def split: if_split_asm option.split_asm)

lemma decoded_agrees:
  assumes eq: "py_eq (JObj payload) (JObj expected)" and graph: "dget expected ''work_graph_state'' = JObj (wg_to_dict s)"
    and ids: "graph_ids_distinct s"
    and decode: "and_then (and_then (dindex (canon_dict payload) ''work_graph_state'') as_dict) wg_from_dict = Inr q"
  shows "same_graph q s"
proof -
  have "alike (canon_dict payload) expected"
    using eq by (simp only: py_eq_def unbool_JObj canon_JObj alike_def json.inject)
      (simp only: unbool_dict_def unbool_canon_dict)
  note get = alike_index [OF this]
  obtain v d where v: "dindex (canon_dict payload) ''work_graph_state'' = Inr v" "as_dict v = Inr d" "wg_from_dict d = Inr q"
    using decode by (auto simp: and_then_Inr_iff)
  have d: "v = JObj d" using v(2) by (cases v) auto
  have "JObj (unbool_dict d) = JObj (canon_dict (unbool_dict (wg_to_dict s)))"
    using get [OF v(1)] by (simp only: d graph unbool_JObj canon_JObj)
  then have "alike d (wg_to_dict s)" by (simp add: alike_def)
  from graph_alike [OF this ids v(3)] show ?thesis .
qed

lemma find_SomeD: "find P xs = Some x \<Longrightarrow> x \<in> set xs \<and> P x"
  by (induction xs) (auto split: if_split_asm)

lemma replay_holds:
  assumes "replay_composed_state d m (graph_registry sha steps) through = Inr s"
  shows "extension_holds EXTENSION_ID graph_holds s"
proof -
  obtain s0 es where s0: "initial_composed_state m (graph_registry sha steps) = Inr s0"
      and run: "fold_res (\<lambda>s e. reduce_composed s e (graph_registry sha steps)) s0 es = Inr s"
    using assms by (auto simp: replay_composed_state_def and_then_Inr_iff)
  show ?thesis using graph_contract.replay.run_inv [OF _ run] graph_contract.initial_extension [OF s0] by simp
qed

lemma run_graph_evolves:
  assumes "extension_holds EXTENSION_ID graph_holds s"
    and "fold_res (\<lambda>s e. reduce_composed s e (graph_registry sha steps)) s es = Inr t" and "wg_state s = Inr g" and "wg_state t = Inr h"
  shows "graph_evolves g h"
proof -
  have "extension_evolves EXTENSION_ID graph_evolves s t"
    using graph_contract.replay.run_evolves [OF _ assms(2)] assms(1) by simp
  then show ?thesis using assms(3,4) by (simp add: extension_evolves_def wg_state_map_of)
qed

lemma base_agrees:
  assumes whole: "replay_composed_state d m (graph_registry sha steps) None = Inr w" and gw: "wg_state w = Inr gw"
    and sn: "sn \<in> set (wg_snapshots (norm_graph gw))"
    and base: "snapshot_base h (graph_registry sha steps) d m sn target scope plan_id = Inr (Some s)"
    and scope: "check_read_scope scope plan_id = Inr ()"
  obtains a g t es where "0 \<le> sn_as_of_seq sn" and "sn_as_of_seq sn \<le> target"
    and "full_state (graph_registry sha steps) d m (Some (sn_as_of_seq sn)) = Inr (g, cs_seq a)"
    and "replay_composed_state d m (graph_registry sha steps) (Some target) = Inr t"
    and "list_events d m (sn_as_of_seq sn) (Some target) = Inr es"
    and "fold_res (\<lambda>s e. reduce_composed s e (graph_registry sha steps)) a es = Inr t"
    and "read_agrees scope plan_id s a" and "scope \<noteq> ''MISSION'' \<longrightarrow> plan_of g (the plan_id) \<noteq> None"
proof -
  let ?r = "graph_registry sha steps" and ?k = "sn_as_of_seq sn"
  obtain es where es: "list_events d m ?k (Some target) = Inr es" and rec: "recorded_by sn es" and s: "snapshot_decode m sn = Inr s"
    and fits: "snapshot_fits h sn target scope plan_id"
    using base by (auto simp: snapshot_base_def and_then_Inr_iff split: if_split_asm sum.split_asm)
  obtain e where e: "e \<in> set es" "ev_seq e = sn_recorded_seq sn" "ev_event_type e = ''snapshot.recorded.v1''" "ev_entity_id e = sn_snapshot_id sn"
    using rec unfolding recorded_by_def by (auto split: option.split_asm dest: find_SomeD)
  obtain x where x: "x \<in> set (wg_snapshots gw)" "sn = norm_snapshot x" using sn by (auto simp: norm_graph_def)
  have inv: "graph_inv (cs_seq w) gw" using graph_replayed [OF whole] gw by auto
  then have seqs: "sn_recorded_seq sn = ?k + 1" using x by (auto simp: graph_inv_def snapshots_ok_def norm_snapshot_def)
  obtain core q where parts: "and_then (and_then (dindex (sn_state_payload sn) ''work_graph_state'') as_dict) wg_from_dict = Inr q"
      "make_ComposedRuntimeState m ?k core [(EXTENSION_ID, q)] = Inr s"
    using s unfolding snapshot_decode_def and_then_Inr_iff by blast
  then have k: "0 \<le> ?k" "cs_seq s = ?k" "wg_state s = Inr q" by (auto simp: make_composed_Inr wg_state_map_of)
  have target: "?k \<le> target" using fits seqs by (simp add: snapshot_fits_def)
  obtain a where a: "replay_composed_state d m ?r (Some ?k) = Inr a" using replay_on [OF whole k(1)] by blast
  obtain t where t: "replay_composed_state d m ?r (Some target) = Inr t" using replay_on [OF whole] k(1) target by fastforce
  obtain new where "list_events d m ?k (Some target) = Inr new" "fold_res (\<lambda>s e. reduce_composed s e ?r) a new = Inr t"
    by (rule replays_compose [OF a k(1) t]) (use target in auto)
  then have run: "fold_res (\<lambda>s e. reduce_composed s e ?r) a es = Inr t" using es by simp
  have number: "ev_seq e = ?k + 1" using e(2) seqs by simp
  obtain rest where rest: "es = e # rest" "cs_seq a = ?k" by (rule snapshot_event_first [OF run es e(1) number k(1)])
  obtain b where b: "reduce_composed a e ?r = Inr b" "fold_res (\<lambda>s e. reduce_composed s e ?r) b rest = Inr t"
    using run rest(1) by (auto simp: and_then_Inr_iff)
  obtain g where g: "wg_state a = Inr g" "graph_inv (cs_seq a) g" using graph_replayed [OF a] by blast
  have "extension_holds EXTENSION_ID graph_holds b"
    using graph_contract.replay.inv_step [OF _ b(1)] replay_holds [OF a] by simp
  note evolves = run_graph_evolves [OF this b(2)]
  obtain gt where gt: "wg_state t = Inr gt" using graph_replayed [OF t] by blast
  note later = graph_replays_evolve [OF t order_trans [OF k(1) target] whole _ gt gw]
  have sn_x: "sn_scope x = scope" "sn_plan_id x = plan_id" "sn_snapshot_id x = ev_entity_id e"
    using fits x(2) e(4) by (simp_all add: snapshot_fits_def norm_snapshot_def)
  obtain expected where expected: "py_eq (JObj (sn_state_payload (declared_snapshot e))) (JObj expected)"
    and graph: "(sn_scope (declared_snapshot e) \<noteq> ''MISSION'' \<longrightarrow> sn_plan_id (declared_snapshot e) \<noteq> None) \<longrightarrow>
        dget expected ''work_graph_state'' = JObj (wg_to_dict (scope_part (sn_scope (declared_snapshot e)) (sn_plan_id (declared_snapshot e)) g))"
    and plan: "sn_scope (declared_snapshot e) \<noteq> ''MISSION'' \<longrightarrow> sn_plan_id (declared_snapshot e) \<noteq> None \<longrightarrow>
        plan_of g (the (sn_plan_id (declared_snapshot e))) \<noteq> None"
    and known: "sn_snapshot_id (declared_snapshot e) = ev_entity_id e"
    and new: "wg_snapshots (graph_effect e g) = wg_snapshots g @ [declared_snapshot e]"
    and mission: "rs_mission (cs_core_state a) \<noteq> None" and after: "wg_state b = Inr (graph_effect e g)"
    by (rule recorded_state [OF b(1) e(3) g])
  have "declared_snapshot e \<in> set (wg_snapshots gw)"
    using evolves [OF after gt] later new by (auto simp: graph_evolves_def)
  moreover have "inj_on sn_snapshot_id (set (wg_snapshots gw))"
    using inv by (simp add: graph_inv_def snapshots_ok_def distinct_map)
  ultimately have same: "x = declared_snapshot e" using x(1) known sn_x(3) by (intro inj_onD [of sn_snapshot_id]) simp_all
  have named: "scope \<noteq> ''MISSION'' \<Longrightarrow> plan_id \<noteq> None" using check_scope_Inr [OF scope] by simp
  have payload: "sn_state_payload sn = canon_dict (sn_state_payload (declared_snapshot e))" by (simp add: x(2) same norm_snapshot_def)
  have dict: "dget expected ''work_graph_state'' = JObj (wg_to_dict (scope_part scope plan_id g))"
    using graph named sn_x same by simp
  have "same_graph q (scope_part scope plan_id g)"
    by (rule decoded_agrees [OF expected dict scope_part_distinct [OF graph_inv_distinct [OF g(2)]] parts(1) [unfolded payload]])
  then have "read_agrees scope plan_id s a" using k(2,3) rest(2) g by (simp add: read_agrees_def)
  moreover have "full_state ?r d m (Some ?k) = Inr (g, cs_seq a)" using a mission g(1) by (simp add: full_state_Inr)
  moreover have "plan_of g (the plan_id) \<noteq> None" if "scope \<noteq> ''MISSION''" using plan named sn_x same that by simp
  ultimately show ?thesis using that [OF k(1) target _ t es run] by blast
qed


section \<open>The logged events\<close>

lemma is_str_canon: "is_str (canon v) = is_str v"
  by (cases v) simp_all

lemma event_names_plan:
  assumes "wg_handle sha c composed = Inr ps" and "p \<in> set ps"
  shows "is_str (dget (pe_payload p) ''plan_id'') \<or>
     (pe_event_type p = ''snapshot.recorded.v1'' \<and> dget (pe_payload p) ''scope'' = JStr ''MISSION'' \<and> dget (pe_payload p) ''plan_id'' = JNull)"
proof -
  have known: "c_type c \<in> set WG_COMMAND_TYPES" and mutable: "require_mutable_mission composed = Inr ()"
    using assms(1) by (auto simp: wg_handle_def res_simps)
  obtain s where s: "wg_state composed = Inr s"
    using assms(1) known mutable by (cases "wg_state composed") (simp_all add: wg_handle_def)
  let ?event = "if c_type c = ''CREATE_PLAN'' then create_plan_event c s
      else if c_type c = ''RECORD_PLAN_REVISION'' then revision_event sha c s
      else if c_type c = ''ACTIVATE_PLAN_REVISION'' then activate_revision_event c s
      else if c_type c \<in> set [''CLOSE_PLAN'', ''ARCHIVE_PLAN''] then plan_lifecycle_event c s
      else if c_type c = ''TRANSITION_TASK'' then transition_event c s else snapshot_event sha c composed s"
  have "and_then ?event (\<lambda>p. Inr [p]) = Inr ps" using assms(1) known mutable s unfolding wg_handle_def by simp
  then obtain q where "ps = [q]" "?event = Inr q" unfolding and_then_Inr_iff by blast
  then have "?event = Inr p" using assms(2) by simp
  then have "create_plan_event c s = Inr p \<or> revision_event sha c s = Inr p \<or> activate_revision_event c s = Inr p \<or>
      plan_lifecycle_event c s = Inr p \<or> transition_event c s = Inr p \<or> snapshot_event sha c composed s = Inr p"
    by (simp del: set_simps split: if_split_asm)
  then show ?thesis
  proof (elim disjE)
    assume "create_plan_event c s = Inr p"
    then show ?thesis by (auto simp: create_plan_event_def and_then_Inr_iff split: if_split_asm)
  next
    assume "revision_event sha c s = Inr p"
    then show ?thesis by (auto simp: revision_event_def and_then_Inr_iff Let_def split: if_split_asm)
  next
    assume "activate_revision_event c s = Inr p"
    then show ?thesis by (auto simp: activate_revision_event_def and_then_Inr_iff split: if_split_asm option.split_asm)
  next
    assume "plan_lifecycle_event c s = Inr p"
    then show ?thesis by (auto simp: plan_lifecycle_event_def and_then_Inr_iff)
  next
    assume "transition_event c s = Inr p"
    then obtain q where "dget (pe_payload p) ''plan_id'' = JStr q"
      unfolding transition_event_def Let_def
      by (auto simp: res_simps split: option.split_asm if_split_asm, case_tac "TaskLifecycleState a") (auto simp: res_simps)
    then show ?thesis by simp
  next
    assume "snapshot_event sha c composed s = Inr p"
    then show ?thesis
      by (auto simp: snapshot_event_def snapshot_plan_def Let_def and_then_Inr_iff split: if_split_asm)
  qed
qed

lemma decided_names_plan:
  assumes "decided (graph_registry sha steps) d m e"
  shows "names_plan e"
proof -
  obtain env c state head pending where pending: "propose (graph_registry sha steps) c state head = Inr pending"
    and e: "e \<in> set (make_events env c head pending)"
    using assms by (auto simp: decided_def)
  obtain p where p: "p \<in> set pending" "ev_event_type e = pe_event_type p" "ev_payload e = canon_dict (pe_payload p)"
    using e by (auto simp: make_events_def make_event_def dest: set_zip_rightD)
  obtain owner where owner: "command_owner (graph_registry sha steps) (c_type c) = Some owner"
    and made: "(case owner of CoreOwner \<Rightarrow> handle c (core_part state) | ExtensionOwner x \<Rightarrow> extension_pending x c state) = Inr pending"
    using pending by (auto simp: propose_def and_then_Inr_iff split: option.split_asm if_split_asm)
  show ?thesis
  proof (cases owner)
    case CoreOwner
    then have "pe_event_type p \<in> set SUPPORTED_EVENTS" using made handle_event_types p(1) by simp
    then show ?thesis using wg_types(5) p(2) by (auto simp: names_plan_def)
  next
    case (ExtensionOwner x)
    then have "x = wg_manifest sha steps"
      using owner by (auto simp: command_owner_def wg_registry_def dest!: map_of_SomeD split: if_split_asm)
    then obtain composed where "wg_handle sha c composed = Inr pending"
      using made ExtensionOwner
      by (cases state) (auto simp: extension_pending_def wg_manifest_def not_registered_def and_then_Inr_iff)
    from event_names_plan [OF this p(1)] show ?thesis
      using p(2,3) by (auto simp: names_plan_def dget_canon_dict is_str_canon)
  qed
qed


section \<open>The read\<close>

lemma latest_snapshot_mem:
  assumes "latest_snapshot sns = Inr sn"
  shows "sn \<in> set sns"
proof -
  have "foldl (\<lambda>best y. if snapshot_rank best < snapshot_rank y then y else best) x xs \<in> set (x # xs)" for x xs
    by (induction xs arbitrary: x) (auto split: if_split_asm)
  then show ?thesis using assms by (cases sns) (auto simp: latest_snapshot_def)
qed

lemma replay_to_head:
  assumes whole: "replay_composed_state d m r None = Inr w" and t: "replay_composed_state d m r (Some (cs_seq w)) = Inr t"
  shows "t = w"
proof -
  have k: "0 \<le> cs_seq w"
    using replay_composed_facts(1) [OF whole] by (auto simp: composed_inv_def core_inv_def split: option.split_asm)
  obtain new where new: "list_events d m (cs_seq w) None = Inr new" "fold_res (\<lambda>s e. reduce_composed s e r) t new = Inr w"
    by (rule replays_compose [OF t k whole]) simp
  show ?thesis
  proof (cases new)
    case (Cons e es)
    then have "ev_seq e = cs_seq t + 1" "cs_seq t + 1 \<le> cs_seq w"
      using new(2) composed_machine.run_seq [OF new(2)] by (auto simp: and_then_Inr_iff dest: reduce_composed_number(1))
    moreover have "cs_seq w < ev_seq e" by (rule list_events_after [OF new(1) _ k]) (simp add: Cons)
    ultimately show ?thesis by simp
  qed (use new(2) in simp)
qed

text \<open>What the read from a snapshot returns.\<close>

lemma accelerated_Inr:
  assumes "accelerated_read k r d m scope plan_id target = Inr (Some read)"
  obtains projected sn s final g where "get_extension_projection r d EXTENSION_ID m = Inr projected"
    and "sn \<in> set (wg_snapshots projected)" and "snapshot_base k r d m sn target scope plan_id = Inr (Some s)"
    and "replay_snapshot_tail r d s m sn target scope plan_id = Inr final" and "wg_state final = Inr g"
    and "read = wg_query_read m (cs_seq final) (GraphValue g) ''SNAPSHOT_PLUS_TAIL''"
proof -
  obtain projected sn base where p: "get_extension_projection r d EXTENSION_ID m = Inr projected"
    and sn: "latest_snapshot (filter (\<lambda>x. sn_scope x = scope \<and> sn_plan_id x = plan_id \<and> sn_recorded_seq x \<le> target) (wg_snapshots projected)) = Inr sn"
    and base: "snapshot_base k r d m sn target scope plan_id = Inr base"
    and rest: "(case base of None \<Rightarrow> Inr None
       | Some composed \<Rightarrow> and_then (replay_snapshot_tail r d composed m sn target scope plan_id) (\<lambda>final.
           and_then (extension_state final EXTENSION_ID) (\<lambda>g.
           Inr (Some (wg_query_read m (cs_seq final) (GraphValue g) ''SNAPSHOT_PLUS_TAIL''))))) = Inr (Some read)"
    using assms unfolding accelerated_read_def and_then_Inr_iff by blast
  obtain s where s: "base = Some s" using rest by (cases base) simp_all
  obtain final g where "replay_snapshot_tail r d s m sn target scope plan_id = Inr final" "extension_state final EXTENSION_ID = Inr g"
      "read = wg_query_read m (cs_seq final) (GraphValue g) ''SNAPSHOT_PLUS_TAIL''"
    using rest unfolding s option.case and_then_Inr_iff by auto
  then show ?thesis using that [OF p _ base [unfolded s]] latest_snapshot_mem [OF sn] by (simp add: wg_state_def)
qed

lemma accelerated_agrees:
  assumes reach: "service_reachable h (graph_registry sha [wg_step sha]) d"
    and scope: "check_read_scope scope plan_id = Inr ()"
    and read: "accelerated_read k (graph_registry sha [wg_step sha]) d m scope plan_id
        (case through of None \<Rightarrow> get_head_seq d m | Some n \<Rightarrow> n) = Inr (Some read)"
  obtains full where "replayed_read (graph_registry sha [wg_step sha]) d m scope plan_id through = Inr full"
    and "rm_as_of_seq (wr_meta read) = rm_as_of_seq (wr_meta full)"
    and "py_eq (encode_value (wr_value read)) (encode_value (wr_value full))"
proof -
  let ?r = "graph_registry sha [wg_step sha]" and ?target = "case through of None \<Rightarrow> get_head_seq d m | Some n \<Rightarrow> n"
  obtain projected sn s final g where projected: "get_extension_projection ?r d EXTENSION_ID m = Inr projected"
    and sn: "sn \<in> set (wg_snapshots projected)" and base: "snapshot_base k ?r d m sn ?target scope plan_id = Inr (Some s)"
    and final: "replay_snapshot_tail ?r d s m sn ?target scope plan_id = Inr final" "wg_state final = Inr g"
    and read': "read = wg_query_read m (cs_seq final) (GraphValue g) ''SNAPSHOT_PLUS_TAIL''"
    by (rule accelerated_Inr [OF read])
  have str: "stream d m \<noteq> []"
  proof
    assume "stream d m = []"
    then have "list_events d m j n = Inr []" for j n by (simp add: list_events_def)
    then show False using base by (simp add: snapshot_base_def recorded_by_def split: if_split_asm)
  qed
  obtain gw where gw: "full_state ?r d m None = Inr (gw, int (length (stream d m)))"
      "get_extension_projection ?r d EXTENSION_ID m = Inr (norm_graph gw)"
    by (rule reachable_read [OF reach str])
  obtain w where w: "replay_composed_state d m ?r None = Inr w" "rs_mission (cs_core_state w) \<noteq> None" "wg_state w = Inr gw"
      "cs_seq w = int (length (stream d m))" using gw(1) by (auto simp: full_state_Inr)
  have mem: "sn \<in> set (wg_snapshots (norm_graph gw))" using sn projected gw(2) by simp
  obtain a ga t es where k: "0 \<le> sn_as_of_seq sn" "sn_as_of_seq sn \<le> ?target"
    and early: "full_state ?r d m (Some (sn_as_of_seq sn)) = Inr (ga, cs_seq a)"
    and t: "replay_composed_state d m ?r (Some ?target) = Inr t"
    and es: "list_events d m (sn_as_of_seq sn) (Some ?target) = Inr es"
    and run: "fold_res (\<lambda>s e. reduce_composed s e ?r) a es = Inr t"
    and agree: "read_agrees scope plan_id s a" and plan: "scope \<noteq> ''MISSION'' \<longrightarrow> plan_of ga (the plan_id) \<noteq> None"
    by (rule base_agrees [OF w(1,3) mem base scope])
  have tail: "fold_res (tail_step ?r scope plan_id) s es = Inr final"
    using final(1) es by (simp add: replay_snapshot_tail_def)
  have names: "names_plan e" if "e \<in> set es" for e
    by (rule decided_names_plan [OF listed_decided [OF reach es that]])
  have named: "scope \<noteq> ''MISSION'' \<Longrightarrow> plan_id \<noteq> None" using check_scope_Inr [OF scope] by simp
  obtain gt where gt: "wg_state t = Inr gt" "graph_inv (cs_seq t) gt" "cs_seq final = cs_seq t"
    and same: "same_graph g (scope_part scope plan_id gt)"
    using tails_agree [OF tail run agree names named] final(2) by (auto simp: read_agrees_def)
  have head: "get_head_seq d m = cs_seq w" using log_head reachable_inv [OF reach] w(4) by (simp add: bus_inv_def)
  have at: "replay_composed_state d m ?r through = Inr t"
  proof (cases through)
    case None
    then have "t = w" using replay_to_head [OF w(1), of t] t head by simp
    then show ?thesis using None w(1) by simp
  qed (use t in simp)
  have after: "sn_as_of_seq sn \<le> n" if "through = Some n" for n using k(2) that by simp
  obtain gl n where later: "full_state ?r d m through = Inr (gl, n)" "graph_evolves ga gl"
    using later_read [OF early k(1) _ after, where whole = w and through = through] w(1)
    by (auto simp: service_replay_composed_def)
  then have gl: "gl = gt" "n = cs_seq t" using at gt(1) by (auto simp: full_state_Inr)
  have "\<exists>v. (if scope = ''MISSION'' then Inr gt else plan_scope gt (case plan_id of None \<Rightarrow> ''None'' | Some p \<Rightarrow> p)) = Inr v \<and>
      v = scope_part scope plan_id gt"
  proof (cases "scope = ''MISSION''")
    case False
    then obtain p where p: "plan_id = Some p" "plan_of ga p \<noteq> None" using named plan by auto
    then have "plan_of gt p \<noteq> None" using later(2) gl(1) unfolding graph_evolves_def by blast
    then show ?thesis using False p(1) plan_scope_part [of gt p] by (simp add: scope_part_other)
  qed (simp add: scope_part_def)
  then have full: "replayed_read ?r d m scope plan_id through =
      Inr (wg_query_read m (cs_seq t) (GraphValue (scope_part scope plan_id gt)) ''REPLAY'')"
    using later(1) gl by (auto simp: replayed_read_def)
  have "distinct (map dependency_key (wg_dependencies gt))" using gt(2) by (simp add: graph_inv_def graph_dependencies_ok_def)
  then have "distinct (map dependency_key (wg_dependencies (scope_part scope plan_id gt)))"
    by (simp add: scope_part_def plan_part_def Let_def distinct_map_filter)
  from same_graph_values [OF same scope_part_distinct [OF graph_inv_distinct [OF gt(2)]] this]
  show ?thesis using that [OF full] gt(3) by (simp add: read' wg_query_read_def)
qed

lemma accelerated_read_replays:
  assumes reach: "service_reachable h (graph_registry sha [wg_step sha]) d"
    and read: "read_work_graph k (graph_registry sha [wg_step sha]) d m scope plan_id through True = Inr read"
  shows "\<exists>full. read_work_graph k (graph_registry sha [wg_step sha]) d m scope plan_id through False = Inr full \<and>
     rm_as_of_seq (wr_meta read) = rm_as_of_seq (wr_meta full) \<and>
     py_eq (encode_value (wr_value read)) (encode_value (wr_value full))"
proof -
  let ?r = "graph_registry sha [wg_step sha]" and ?target = "case through of None \<Rightarrow> get_head_seq d m | Some n \<Rightarrow> n"
  have scope: "check_read_scope scope plan_id = Inr ()"
    using read by (auto simp: read_work_graph_def and_then_Inr_iff)
  then have plain: "read_work_graph k ?r d m scope plan_id through False = replayed_read ?r d m scope plan_id through"
    by (simp add: read_work_graph_def Let_def)
  have body: "(case accelerated_read k ?r d m scope plan_id ?target of
          Inr (Some read) \<Rightarrow> Inr read
        | Inr None \<Rightarrow> replayed_read ?r d m scope plan_id through
        | Inl x \<Rightarrow> if read_error x then replayed_read ?r d m scope plan_id through else Inl x) = Inr read"
    using read scope by (simp add: read_work_graph_def Let_def)
  show ?thesis
  proof (cases "accelerated_read k ?r d m scope plan_id ?target = Inr (Some read)")
    case True
    from accelerated_agrees [OF reach scope True] show ?thesis unfolding plain by blast
  next
    case False
    then have "replayed_read ?r d m scope plan_id through = Inr read"
      using body by (auto split: sum.split_asm option.split_asm if_split_asm)
    then show ?thesis unfolding plain by auto
  qed
qed

end
