(* ===== verification/WgProgress.thy ===== *)
theory WgProgress
  imports WgInvariant
begin

text \<open>
  How often the lifecycles of a work graph can move: every task and every plan has a bounded number of moves
  left, and each accepted lifecycle event of work_graph/reducer.py uses one up, so a run of such events
  ends (\<open>moves_run_out\<close>).
\<close>

fun task_moves :: "task_lifecycle \<Rightarrow> nat" where
  "task_moves Task_PENDING = 2"
| "task_moves Task_ACTIVE = 1"
| "task_moves _ = 0"

fun plan_moves :: "plan_lifecycle \<Rightarrow> nat" where
  "plan_moves Plan_OPEN = 2"
| "plan_moves Plan_CLOSED = 1"
| "plan_moves Plan_ARCHIVED = 0"

definition moves_left :: "work_graph \<Rightarrow> nat" where
  "moves_left s = (\<Sum>t\<leftarrow>wg_tasks s. task_moves (tk_lifecycle_state t)) + (\<Sum>p\<leftarrow>wg_plans s. plan_moves (pl_lifecycle_state p))"

definition lifecycle_event :: "event_envelope \<Rightarrow> bool" where
  "lifecycle_event e \<longleftrightarrow>
     ev_event_type e \<in> set [''plan.lifecycle_changed.v1'', ''task.lifecycle_changed.v1'', ''task.outcome_recorded.v1'']"

lemma moves_left_bound: "moves_left s \<le> 2 * (length (wg_tasks s) + length (wg_plans s))"
proof -
  have "(\<Sum>t\<leftarrow>ts. task_moves (tk_lifecycle_state t)) \<le> 2 * length ts" for ts
  proof (induction ts)
    case (Cons t ts)
    then show ?case by (cases "tk_lifecycle_state t") simp_all
  qed simp
  note tasks = this [of "wg_tasks s"]
  have "(\<Sum>p\<leftarrow>ps. plan_moves (pl_lifecycle_state p)) \<le> 2 * length ps" for ps
  proof (induction ps)
    case (Cons p ps)
    then show ?case by (cases "pl_lifecycle_state p") simp_all
  qed simp
  from this [of "wg_plans s"] tasks show ?thesis by (simp add: moves_left_def)
qed

lemma sum_replaced:
  fixes f :: "'e \<Rightarrow> nat"
  assumes "distinct (map key xs)" and "x \<in> set xs" and "key y = key x"
  shows "(\<Sum>z\<leftarrow>replace_by key y xs. f z) + f x = (\<Sum>z\<leftarrow>xs. f z) + f y"
  using assms
proof (induction xs)
  case (Cons z zs)
  show ?case
  proof (cases "z = x")
    case True
    then have "replace_by key y zs = zs" using Cons.prems by (auto simp: replace_by_def image_iff intro!: map_idI)
    then show ?thesis using True Cons.prems by (simp add: replace_by_def)
  next
    case False
    then have "key z \<noteq> key y" "x \<in> set zs" using Cons.prems by (auto simp: image_iff)
    then show ?thesis using Cons by (simp add: replace_by_def)
  qed
qed simp

text \<open>Each accepted lifecycle event uses a move up.\<close>

lemma move_used:
  assumes red: "wg_reduce sha s e core = Inr s'" and type: "lifecycle_event e" and ids: "graph_ids_distinct s"
  shows "Suc (moves_left s') = moves_left s \<or> moves_left s' + 2 = moves_left s" and "graph_ids_distinct s'"
proof -
  have "reduce_plan_lifecycle s (ev_payload e) = Inr s' \<or> reduce_task s e (ev_payload e) = Inr s'"
    using red type by (auto simp: wg_reduce_def lifecycle_event_def Let_def split: if_split_asm)
  then have "(Suc (moves_left s') = moves_left s \<or> moves_left s' + 2 = moves_left s) \<and> graph_ids_distinct s'"
  proof
    assume red: "reduce_task s e (ev_payload e) = Inr s'"
    show ?thesis
    proof (rule reduce_task_Inr [OF red])
      fix t :: task_state and l outcome
      let ?t = "t\<lparr>tk_lifecycle_state := l, tk_outcome := outcome, tk_updated_seq := ev_seq e\<rparr>"
      assume t: "task_of s (ev_entity_id e) = Some t" and s': "s' = s\<lparr>wg_tasks := replace_task s ?t\<rparr>"
        and out: "task_outcome s e t (tk_lifecycle_state t) l (dget (ev_payload e) ''outcome'') = Inr outcome"
      have moved: "Suc (task_moves l) = task_moves (tk_lifecycle_state t) \<or> task_moves l + 2 = task_moves (tk_lifecycle_state t)"
        using out by (cases "tk_lifecycle_state t"; cases l)
          (auto simp: task_outcome_def and_then_Inr_iff TASK_TERMINAL_def split: if_split_asm)
      have dist: "distinct (map tk_task_id (wg_tasks s))" using ids by (simp add: graph_ids_distinct_def)
      have "(\<Sum>z\<leftarrow>replace_task s ?t. task_moves (tk_lifecycle_state z)) + task_moves (tk_lifecycle_state t) =
          (\<Sum>z\<leftarrow>wg_tasks s. task_moves (tk_lifecycle_state z)) + task_moves l"
        using sum_replaced [OF dist, of t ?t "\<lambda>z. task_moves (tk_lifecycle_state z)"] task_ofD [OF t]
        by (simp add: replace_task_def)
      moreover have "graph_ids_distinct s'" using ids by (simp add: s' graph_ids_distinct_def replace_task_def keyed_simps)
      ultimately show ?thesis using moved by (auto simp: s' moves_left_def)
    qed
  next
    assume red: "reduce_plan_lifecycle s (ev_payload e) = Inr s'"
    obtain plan where plan: "plan_of s (text_field (ev_payload e) ''plan_id'') = Some plan"
      using red by (auto simp: reduce_plan_lifecycle_def Let_def and_then_Inr_iff require_plan_Inr)
    obtain l where edge: "(pl_lifecycle_state plan, l) \<in> set plan_edges"
      and s': "s' = s\<lparr>wg_plans := replace_plan s (plan\<lparr>pl_lifecycle_state := l\<rparr>)\<rparr>"
      using red plan
      by (auto simp: reduce_plan_lifecycle_def Let_def require_plan_def split: if_split_asm sum.split_asm)
    have dist: "distinct (map pl_plan_id (wg_plans s))" using ids by (simp add: graph_ids_distinct_def)
    have "(\<Sum>z\<leftarrow>replace_plan s (plan\<lparr>pl_lifecycle_state := l\<rparr>). plan_moves (pl_lifecycle_state z)) + plan_moves (pl_lifecycle_state plan) =
        (\<Sum>z\<leftarrow>wg_plans s. plan_moves (pl_lifecycle_state z)) + plan_moves l"
      using sum_replaced [OF dist, of plan "plan\<lparr>pl_lifecycle_state := l\<rparr>" "\<lambda>z. plan_moves (pl_lifecycle_state z)"] plan_ofD [OF plan]
      by (simp add: replace_plan_def)
    moreover have "Suc (plan_moves l) = plan_moves (pl_lifecycle_state plan)" using edge by (auto simp: plan_edges_def)
    moreover have "graph_ids_distinct s'" using ids by (simp add: s' graph_ids_distinct_def replace_plan_def keyed_simps)
    ultimately show ?thesis by (auto simp: s' moves_left_def)
  qed
  then show "Suc (moves_left s') = moves_left s \<or> moves_left s' + 2 = moves_left s" "graph_ids_distinct s'" by simp_all
qed

lemma moves_run_out:
  assumes "fold_res (\<lambda>s (e, core). wg_reduce sha s e core) s steps = Inr s'" and "list_all (\<lambda>(e, _). lifecycle_event e) steps"
    and "graph_ids_distinct s"
  shows "length steps + moves_left s' \<le> moves_left s"
  using assms
proof (induction steps arbitrary: s)
  case Nil
  then show ?case by simp
next
  case (Cons step steps)
  obtain e core where step: "step = (e, core)" by (cases step)
  obtain t where t: "wg_reduce sha s e core = Inr t" "fold_res (\<lambda>s (e, core). wg_reduce sha s e core) t steps = Inr s'"
    using Cons.prems(1) by (auto simp: step and_then_Inr_iff)
  note used = move_used [OF t(1) _ Cons.prems(3)]
  show ?case using Cons.IH [OF t(2)] used Cons.prems(2) by (auto simp: step)
qed

end
