(* ===== verification/EventCursors.thy ===== *)
theory EventCursors
  imports CoreContracts
begin

text \<open>
  The event cursor of execution_context/contracts.py: a position in the event stream of a mission, with the
  checks of its constructor, \<open>to_dict\<close> and \<open>from_dict\<close>.  \<open>nfc\<close> is \<open>unicodedata.normalize("NFC", _)\<close>; the only
  law used of it is that normalizing twice changes nothing more (\<open>idempotent\<close>).
\<close>

definition idempotent :: "(string \<Rightarrow> string) \<Rightarrow> bool" where
  "idempotent nfc \<longleftrightarrow> (\<forall>s. nfc (nfc s) = nfc s)"

section \<open>Checked values\<close>

definition context_error :: "string \<Rightarrow> 'a py" where
  "context_error message = runtime_error ''EXECUTION_CONTEXT_SCHEMA_INVALID'' message"

definition context_text :: "(string \<Rightarrow> string) \<Rightarrow> json \<Rightarrow> string \<Rightarrow> string py" where
  "context_text nfc v name =
     (case v of
        JStr s \<Rightarrow>
          let normalized = nfc s in
          if \<not> nonblank normalized then context_error (name @ '' must be a non-empty string'')
          else if normalized \<noteq> strip normalized then
            context_error (name @ '' cannot contain leading or trailing whitespace'')
          else Inr normalized
      | _ \<Rightarrow> context_error (name @ '' must be a string''))"

definition context_positive_int :: "json \<Rightarrow> string \<Rightarrow> int py" where
  "context_positive_int v name =
     (case v of JInt i \<Rightarrow> if i < 1 then context_error (name @ '' must be a positive integer'') else Inr i
      | _ \<Rightarrow> context_error (name @ '' must be a positive integer''))"

definition context_non_negative_int :: "json \<Rightarrow> string \<Rightarrow> int py" where
  "context_non_negative_int v name =
     (case v of JInt i \<Rightarrow> if i < 0 then context_error (name @ '' must be a non-negative integer'') else Inr i
      | _ \<Rightarrow> context_error (name @ '' must be a non-negative integer''))"

section \<open>Cursors\<close>

record event_cursor =
  ec_mission_id :: "string option"
  ec_through_seq :: int
  ec_stream_schema_version :: int

text \<open>The part of the constructor after the legacy forms of its arguments are resolved.\<close>

definition checked_cursor :: "(string \<Rightarrow> string) \<Rightarrow> json \<Rightarrow> json \<Rightarrow> json \<Rightarrow> event_cursor py" where
  "checked_cursor nfc mission_id through_seq version =
     (if mission_id \<noteq> JNull \<and> \<not> is_str mission_id then
        context_error ''cursor.mission_id must be a string when provided''
      else
        and_then (if mission_id = JNull then Inr None
                  else and_then (context_text nfc mission_id ''cursor.mission_id'') (\<lambda>m. Inr (Some m))) (\<lambda>m.
        if through_seq = JNull then context_error ''cursor.through_seq is required''
        else
          and_then (context_non_negative_int through_seq ''cursor.through_seq'') (\<lambda>n.
          and_then (context_positive_int version ''cursor.stream_schema_version'') (\<lambda>v.
          Inr \<lparr>ec_mission_id = m, ec_through_seq = n, ec_stream_schema_version = v\<rparr>))))"

definition make_EventCursor :: "(string \<Rightarrow> string) \<Rightarrow> json \<Rightarrow> json \<Rightarrow> json \<Rightarrow> json \<Rightarrow> event_cursor py" where
  "make_EventCursor nfc mission_id through_seq version seq =
     (if seq \<noteq> JNull then
        if mission_id \<noteq> JNull \<or> through_seq \<noteq> JNull then
          context_error ''cursor cannot combine seq with mission_id or through_seq''
        else checked_cursor nfc JNull seq version
      else if is_int mission_id \<and> through_seq = JNull then checked_cursor nfc JNull mission_id version
      else checked_cursor nfc mission_id through_seq version)"

definition cursor_to_dict :: "event_cursor \<Rightarrow> dict" where
  "cursor_to_dict c =
     (if ec_mission_id c = None \<and> ec_stream_schema_version c = 1 then [(''seq'', JInt (ec_through_seq c))]
      else [(''mission_id'', jopt (ec_mission_id c)), (''through_seq'', JInt (ec_through_seq c)),
            (''stream_schema_version'', JInt (ec_stream_schema_version c))])"

definition cursor_from_dict :: "(string \<Rightarrow> string) \<Rightarrow> json \<Rightarrow> event_cursor py" where
  "cursor_from_dict nfc v =
     (case v of
        JObj d \<Rightarrow>
          if fst ` set d = {''seq''} then make_EventCursor nfc JNull JNull (JInt 1) (dget d ''seq'')
          else if fst ` set d \<noteq> {''mission_id'', ''through_seq'', ''stream_schema_version''} then
            context_error ''cursor must contain seq or mission_id, through_seq and stream_schema_version''
          else
            make_EventCursor nfc (dget d ''mission_id'') (dget d ''through_seq'') (dget d ''stream_schema_version'') JNull
      | _ \<Rightarrow> context_error ''cursor must be an object'')"

section \<open>Reading a cursor back\<close>

definition cursor_ok :: "(string \<Rightarrow> string) \<Rightarrow> event_cursor \<Rightarrow> bool" where
  "cursor_ok nfc c \<longleftrightarrow>
     (\<forall>m. ec_mission_id c = Some m \<longrightarrow> nfc m = m \<and> nonblank m \<and> strip m = m) \<and>
     0 \<le> ec_through_seq c \<and> 1 \<le> ec_stream_schema_version c"

lemma context_text_Inr: "context_text nfc v name = Inr t \<longleftrightarrow> (\<exists>s. v = JStr s \<and> t = nfc s \<and> nonblank t \<and> strip t = t)"
  by (auto simp: context_text_def context_error_def Let_def split: json.split)

lemma context_int_Inr:
  "context_positive_int v name = Inr n \<longleftrightarrow> v = JInt n \<and> 1 \<le> n"
  "context_non_negative_int v name = Inr n \<longleftrightarrow> v = JInt n \<and> 0 \<le> n"
  by (auto simp: context_positive_int_def context_non_negative_int_def context_error_def split: json.split)

lemma checked_cursor_Inr:
  "checked_cursor nfc mv tv vv = Inr c \<longleftrightarrow>
     (case ec_mission_id c of None \<Rightarrow> mv = JNull | Some m \<Rightarrow> \<exists>s. mv = JStr s \<and> m = nfc s \<and> nonblank m \<and> strip m = m) \<and>
     tv = JInt (ec_through_seq c) \<and> 0 \<le> ec_through_seq c \<and>
     vv = JInt (ec_stream_schema_version c) \<and> 1 \<le> ec_stream_schema_version c"
  by (cases c; cases mv)
     (auto simp: checked_cursor_def context_error_def and_then_Inr_iff context_text_Inr context_int_Inr split: option.split)

lemma make_cursor_ok:
  assumes "idempotent nfc" and "make_EventCursor nfc mv tv vv sv = Inr c"
  shows "cursor_ok nfc c"
proof -
  obtain mv' tv' where "checked_cursor nfc mv' tv' vv = Inr c"
    using assms(2) by (auto simp: make_EventCursor_def context_error_def split: if_split_asm)
  then show ?thesis using assms(1) by (auto simp: checked_cursor_Inr cursor_ok_def idempotent_def split: option.split_asm)
qed

lemma cursor_from_dict_ok: "idempotent nfc \<Longrightarrow> cursor_from_dict nfc v = Inr c \<Longrightarrow> cursor_ok nfc c"
  by (auto simp: cursor_from_dict_def context_error_def dest: make_cursor_ok split: json.split_asm if_split_asm)

lemma canon_dict_keys: "fst ` set (canon_dict d) = fst ` set d"
proof -
  have "fst ` set (canon_dict d) = dom (map_of (canon_dict d))" by (simp add: dom_map_of_conv_image_fst)
  also have "\<dots> = dom (map_of d)" by (auto simp: map_of_canon_dict dom_def)
  finally show ?thesis by (simp add: dom_map_of_conv_image_fst)
qed

text \<open>A stored cursor may have its keys in any order.\<close>

lemma cursor_from_canon: "cursor_from_dict nfc (canon v) = cursor_from_dict nfc v"
proof (cases v)
  case (JObj d)
  have "make_EventCursor nfc (canon a) (canon b) (canon c) (canon e) = make_EventCursor nfc a b c e" for a b c e
    by (cases a; cases b; cases c; cases e)
       (simp_all add: make_EventCursor_def checked_cursor_def context_text_def context_non_negative_int_def
         context_positive_int_def canon_JObj del: canon.simps(2))
  from this [of JNull JNull "JInt 1"] this [of _ _ _ JNull] JObj show ?thesis
    by (simp add: cursor_from_dict_def canon_JObj canon_dict_keys dget_canon_dict del: canon.simps(2))
qed (simp_all add: cursor_from_dict_def)

lemma cursor_round_trip [simp]: "cursor_ok nfc c \<Longrightarrow> cursor_from_dict nfc (JObj (cursor_to_dict c)) = Inr c"
  by (cases "ec_mission_id c")
     (auto simp: cursor_from_dict_def cursor_to_dict_def make_EventCursor_def checked_cursor_Inr cursor_ok_def)

end
