(* ===== verification/ResumeContracts.thy ===== *)
theory ResumeContracts
  imports EventCursors
begin

text \<open>
  execution_resume/contracts.py: the record of an execution attempt and the state that lists a mission's
  attempts, with their checks, \<open>to_dict\<close> and \<open>from_dict\<close>, and the lookups by task and predecessor.
\<close>

definition ER_EXTENSION_ID :: string where "ER_EXTENSION_ID = ''r1_3b_execution_resume''"
definition ER_EXTENSION_VERSION :: string where "ER_EXTENSION_VERSION = ''1''"

section \<open>Checked values\<close>

definition resume_invalid :: "string \<Rightarrow> 'a py" where
  "resume_invalid message = runtime_error ''EXECUTION_RESUME_SCHEMA_INVALID'' message"

definition lineage_mismatch :: "string \<Rightarrow> 'a py" where
  "lineage_mismatch message = runtime_error ''EXECUTION_LINEAGE_MISMATCH'' message"

definition er_text :: "json \<Rightarrow> string \<Rightarrow> string py" where
  "er_text v name =
     (case v of JStr s \<Rightarrow> if nonblank s then Inr s else resume_invalid (name @ '' must be a non-empty string'')
      | _ \<Rightarrow> resume_invalid (name @ '' must be a non-empty string''))"

definition er_optional_text :: "json \<Rightarrow> string \<Rightarrow> string option py" where
  "er_optional_text v name = (if v = JNull then Inr None else and_then (er_text v name) (\<lambda>s. Inr (Some s)))"

definition er_non_negative :: "json \<Rightarrow> string \<Rightarrow> int py" where
  "er_non_negative v name =
     (case v of JInt i \<Rightarrow> if i < 0 then resume_invalid (name @ '' must be a non-negative integer'') else Inr i
      | _ \<Rightarrow> resume_invalid (name @ '' must be a non-negative integer''))"

definition er_positive :: "json \<Rightarrow> string \<Rightarrow> int py" where
  "er_positive v name =
     (case v of JInt i \<Rightarrow> if i < 1 then resume_invalid (name @ '' must be a positive integer'') else Inr i
      | _ \<Rightarrow> resume_invalid (name @ '' must be a positive integer''))"

definition is_digest :: "string \<Rightarrow> bool" where
  "is_digest s \<longleftrightarrow> length s = 64 \<and> list_all (\<lambda>c. c \<in> set ''0123456789abcdef'') s"

definition er_digest :: "json \<Rightarrow> string \<Rightarrow> string py" where
  "er_digest v name =
     and_then (er_text v name) (\<lambda>s.
     if \<not> is_digest s then resume_invalid (name @ '' must be a lowercase SHA-256 digest'') else Inr s)"

definition er_mapping :: "json \<Rightarrow> string \<Rightarrow> dict py" where
  "er_mapping v name = (case v of JObj d \<Rightarrow> Inr d | _ \<Rightarrow> resume_invalid (name @ '' must be an object''))"

definition er_version :: "json \<Rightarrow> string \<Rightarrow> int py" where
  "er_version v name =
     and_then (er_positive v name) (\<lambda>n.
     if n \<noteq> 1 then runtime_error ''EXECUTION_CONTEXT_SCHEMA_MISMATCH'' (''unsupported '' @ name) else Inr n)"

section \<open>Attempts\<close>

datatype attempt_kind = START | RESUME

fun attempt_kind_value :: "attempt_kind \<Rightarrow> string" where
  "attempt_kind_value START = ''START''"
| "attempt_kind_value RESUME = ''RESUME''"

text \<open>\<open>attempt_kind not in {"START", "RESUME"}\<close>: a list or an object cannot be hashed.\<close>

fun er_attempt_kind :: "json \<Rightarrow> attempt_kind py" where
  "er_attempt_kind (JStr s) =
     (if s = ''START'' then Inr START else if s = ''RESUME'' then Inr RESUME
      else resume_invalid ''unsupported attempt_kind'')"
| "er_attempt_kind (JList xs) = Inl (TypeErr ''unhashable type'')"
| "er_attempt_kind (JObj d) = Inl (TypeErr ''unhashable type'')"
| "er_attempt_kind v = resume_invalid ''unsupported attempt_kind''"

record attempt_record =
  at_attempt_id :: string
  at_mission_id :: string
  at_runtime_session_id :: string
  at_plan_id :: string
  at_plan_revision_id :: string
  at_task_id :: string
  at_attempt_kind :: attempt_kind
  at_predecessor_attempt_id :: "string option"
  at_root_attempt_id :: string
  at_ordinal :: int
  at_context_cursor :: event_cursor
  at_context_semantic_digest :: string
  at_context_schema_version :: int
  at_context_builder_version :: int
  at_context_canonicalization_version :: int
  at_policy_id :: string
  at_policy_version :: int
  at_knowledge_set_digest :: string
  at_command_id :: string
  at_created_seq :: int
  at_created_at :: string
  at_created_by :: "string \<times> string"

text \<open>\<open>self.created_seq - 1\<close> before the type of \<open>created_seq\<close> has been checked.\<close>

fun before_seq :: "json \<Rightarrow> int py" where
  "before_seq (JInt i) = Inr (i - 1)"
| "before_seq (JBool b) = Inr (if b then 0 else - 1)"
| "before_seq v = Inl (TypeErr ''unsupported operand type(s) for -'')"

definition cursor_mismatch :: "string \<Rightarrow> 'a py" where
  "cursor_mismatch message = runtime_error ''RUNTIME_REHYDRATION_CURSOR_MISMATCH'' message"

definition anchor_mismatch :: "string \<Rightarrow> 'a py" where
  "anchor_mismatch message = runtime_error ''EXECUTION_CONTEXT_ANCHOR_MISMATCH'' message"

definition check_lineage :: "attempt_kind \<Rightarrow> string option \<Rightarrow> unit py" where
  "check_lineage kind predecessor =
     (if kind = START \<and> predecessor \<noteq> None then lineage_mismatch ''START cannot have a predecessor''
      else if kind = RESUME \<and> predecessor = None then lineage_mismatch ''RESUME requires a predecessor''
      else Inr ())"

definition check_cursor :: "event_cursor \<Rightarrow> string \<Rightarrow> json \<Rightarrow> unit py" where
  "check_cursor cursor mission_id created_seq =
     (if ec_mission_id cursor \<noteq> Some mission_id then cursor_mismatch ''context cursor Mission mismatch''
      else if ec_stream_schema_version cursor \<noteq> 1 then cursor_mismatch ''unsupported context cursor schema''
      else and_then (before_seq created_seq) (\<lambda>n.
        if ec_through_seq cursor \<noteq> n then anchor_mismatch ''Attempt Event is not after its Context cursor''
        else Inr ()))"

definition created_by_fields :: "json \<Rightarrow> (string \<times> string) py" where
  "created_by_fields v =
     and_then (er_mapping v ''created_by'') (\<lambda>d.
     and_then (er_text (dget d ''type'') ''created_by.type'') (\<lambda>t.
     and_then (er_text (dget d ''id'') ''created_by.id'') (\<lambda>i. Inr (t, i))))"

text \<open>The constructor with its keyword arguments as a dictionary; the cursor is an object already.\<close>

definition ExecutionAttemptRecord :: "dict \<Rightarrow> event_cursor \<Rightarrow> attempt_record py" where
  "ExecutionAttemptRecord k cursor =
     and_then (er_text (dget k ''attempt_id'') ''attempt_id'') (\<lambda>attempt_id.
     and_then (er_text (dget k ''mission_id'') ''mission_id'') (\<lambda>mission_id.
     and_then (er_text (dget k ''runtime_session_id'') ''runtime_session_id'') (\<lambda>runtime_session_id.
     and_then (er_text (dget k ''plan_id'') ''plan_id'') (\<lambda>plan_id.
     and_then (er_text (dget k ''plan_revision_id'') ''plan_revision_id'') (\<lambda>plan_revision_id.
     and_then (er_text (dget k ''task_id'') ''task_id'') (\<lambda>task_id.
     and_then (er_text (dget k ''root_attempt_id'') ''root_attempt_id'') (\<lambda>root_attempt_id.
     and_then (er_text (dget k ''policy_id'') ''policy_id'') (\<lambda>policy_id.
     and_then (er_text (dget k ''command_id'') ''command_id'') (\<lambda>command_id.
     and_then (er_text (dget k ''created_at'') ''created_at'') (\<lambda>created_at.
     and_then (er_attempt_kind (dget k ''attempt_kind'')) (\<lambda>kind.
     and_then (er_optional_text (dget k ''predecessor_attempt_id'') ''predecessor_attempt_id'') (\<lambda>predecessor.
     and_then (check_lineage kind predecessor) (\<lambda>_.
     and_then (er_positive (dget k ''ordinal'') ''ordinal'') (\<lambda>ordinal.
     if kind = START \<and> (root_attempt_id \<noteq> attempt_id \<or> ordinal \<noteq> 1) then lineage_mismatch ''invalid START lineage''
     else
     and_then (check_cursor cursor mission_id (dget k ''created_seq'')) (\<lambda>_.
     and_then (er_digest (dget k ''context_semantic_digest'') ''context_semantic_digest'') (\<lambda>digest.
     and_then (er_digest (dget k ''knowledge_set_digest'') ''knowledge_set_digest'') (\<lambda>knowledge.
     and_then (er_version (dget k ''context_schema_version'') ''context_schema_version'') (\<lambda>schema.
     and_then (er_version (dget k ''context_builder_version'') ''context_builder_version'') (\<lambda>builder.
     and_then (er_version (dget k ''context_canonicalization_version'') ''context_canonicalization_version'') (\<lambda>canonicalization.
     and_then (er_positive (dget k ''policy_version'') ''policy_version'') (\<lambda>policy_version.
     and_then (er_positive (dget k ''created_seq'') ''created_seq'') (\<lambda>created_seq.
     and_then (created_by_fields (dget k ''created_by'')) (\<lambda>created_by.
     Inr \<lparr>at_attempt_id = attempt_id, at_mission_id = mission_id, at_runtime_session_id = runtime_session_id,
          at_plan_id = plan_id, at_plan_revision_id = plan_revision_id, at_task_id = task_id, at_attempt_kind = kind,
          at_predecessor_attempt_id = predecessor, at_root_attempt_id = root_attempt_id, at_ordinal = ordinal,
          at_context_cursor = cursor, at_context_semantic_digest = digest, at_context_schema_version = schema,
          at_context_builder_version = builder, at_context_canonicalization_version = canonicalization,
          at_policy_id = policy_id, at_policy_version = policy_version, at_knowledge_set_digest = knowledge,
          at_command_id = command_id, at_created_seq = created_seq, at_created_at = created_at,
          at_created_by = created_by\<rparr>)))))))))))))))))))))))"

definition attempt_to_dict :: "attempt_record \<Rightarrow> dict" where
  "attempt_to_dict a =
     [(''attempt_id'', JStr (at_attempt_id a)),
      (''mission_id'', JStr (at_mission_id a)),
      (''runtime_session_id'', JStr (at_runtime_session_id a)),
      (''plan_id'', JStr (at_plan_id a)),
      (''plan_revision_id'', JStr (at_plan_revision_id a)),
      (''task_id'', JStr (at_task_id a)),
      (''attempt_kind'', JStr (attempt_kind_value (at_attempt_kind a))),
      (''predecessor_attempt_id'', jopt (at_predecessor_attempt_id a)),
      (''root_attempt_id'', JStr (at_root_attempt_id a)),
      (''ordinal'', JInt (at_ordinal a)),
      (''context_cursor'', JObj (cursor_to_dict (at_context_cursor a))),
      (''context_semantic_digest'', JStr (at_context_semantic_digest a)),
      (''context_schema_version'', JInt (at_context_schema_version a)),
      (''context_builder_version'', JInt (at_context_builder_version a)),
      (''context_canonicalization_version'', JInt (at_context_canonicalization_version a)),
      (''policy_id'', JStr (at_policy_id a)),
      (''policy_version'', JInt (at_policy_version a)),
      (''knowledge_set_digest'', JStr (at_knowledge_set_digest a)),
      (''command_id'', JStr (at_command_id a)),
      (''created_seq'', JInt (at_created_seq a)),
      (''created_at'', JStr (at_created_at a)),
      (''created_by'', JObj [(''type'', JStr (fst (at_created_by a))), (''id'', JStr (snd (at_created_by a)))])]"

definition attempt_fields :: "string list" where
  "attempt_fields =
     [''attempt_id'', ''mission_id'', ''runtime_session_id'', ''plan_id'', ''plan_revision_id'', ''task_id'',
      ''attempt_kind'', ''predecessor_attempt_id'', ''root_attempt_id'', ''ordinal'', ''context_cursor'',
      ''context_semantic_digest'', ''context_schema_version'', ''context_builder_version'',
      ''context_canonicalization_version'', ''policy_id'', ''policy_version'', ''knowledge_set_digest'',
      ''command_id'', ''created_seq'', ''created_at'', ''created_by'']"

definition attempt_from_dict :: "(string \<Rightarrow> string) \<Rightarrow> json \<Rightarrow> attempt_record py" where
  "attempt_from_dict nfc v =
     (case v of
        JObj d \<Rightarrow>
          if fst ` set d \<noteq> set attempt_fields then resume_invalid ''Attempt record contains unknown or missing fields''
          else and_then (cursor_from_dict nfc (dget d ''context_cursor'')) (\<lambda>cursor. ExecutionAttemptRecord d cursor)
      | _ \<Rightarrow> resume_invalid ''Attempt record must be an object'')"

section \<open>The attempts of a mission\<close>

record resume_state =
  er_mission_id :: string
  er_attempts :: "attempt_record list"

definition ExecutionResumeState :: "string \<Rightarrow> attempt_record list \<Rightarrow> resume_state py" where
  "ExecutionResumeState mission_id attempts =
     and_then (er_text (JStr mission_id) ''mission_id'') (\<lambda>m.
     if \<not> distinct (map at_attempt_id attempts) then
       runtime_error ''EXECUTION_ATTEMPT_ID_CONFLICT'' ''Attempt IDs must be unique''
     else if list_ex (\<lambda>a. at_mission_id a \<noteq> m) attempts then lineage_mismatch ''Attempt Mission mismatch''
     else if map at_created_seq attempts \<noteq> sort (map at_created_seq attempts) then
       resume_invalid ''attempts must be ordered by created_seq''
     else Inr \<lparr>er_mission_id = m, er_attempts = attempts\<rparr>)"

definition attempt_of :: "resume_state \<Rightarrow> string \<Rightarrow> attempt_record option" where
  "attempt_of s i = find_by at_attempt_id i (er_attempts s)"

definition attempts_for_task :: "resume_state \<Rightarrow> string \<Rightarrow> attempt_record list" where
  "attempts_for_task s t = filter (\<lambda>a. at_task_id a = t) (er_attempts s)"

definition latest_attempt :: "resume_state \<Rightarrow> string \<Rightarrow> attempt_record option" where
  "latest_attempt s t =
     (let attempts = attempts_for_task s t in if attempts = [] then None else Some (last attempts))"

definition superseded_by :: "resume_state \<Rightarrow> string \<Rightarrow> string option" where
  "superseded_by s i =
     (let attempts = filter (\<lambda>a. at_predecessor_attempt_id a = Some i) (er_attempts s)
      in if attempts = [] then None else Some (at_attempt_id (last attempts)))"

definition resume_to_dict :: "resume_state \<Rightarrow> dict" where
  "resume_to_dict s =
     [(''mission_id'', JStr (er_mission_id s)),
      (''attempts'', JList (map (\<lambda>a. JObj (attempt_to_dict a)) (er_attempts s)))]"

text \<open>The mission is passed to the state's constructor, whose check of its type is the first.\<close>

definition resume_from_dict :: "(string \<Rightarrow> string) \<Rightarrow> json \<Rightarrow> resume_state py" where
  "resume_from_dict nfc v =
     (case v of
        JObj d \<Rightarrow>
          if fst ` set d \<noteq> {''mission_id'', ''attempts''} then
            resume_invalid ''Execution Resume state contains unknown or missing fields''
          else (case dget d ''attempts'' of
              JList vs \<Rightarrow>
                and_then (map_res (attempt_from_dict nfc) vs) (\<lambda>attempts.
                and_then (er_text (dget d ''mission_id'') ''mission_id'') (\<lambda>m. ExecutionResumeState m attempts))
            | _ \<Rightarrow> resume_invalid ''attempts must be an array'')
      | _ \<Rightarrow> resume_invalid ''Execution Resume state contains unknown or missing fields'')"

section \<open>What the constructors accept\<close>

lemma er_text_Inr: "er_text v name = Inr s \<longleftrightarrow> v = JStr s \<and> nonblank s"
  by (auto simp: er_text_def resume_invalid_def split: json.split)

lemma er_optional_text_Inr: "er_optional_text v name = Inr x \<longleftrightarrow> v = jopt x \<and> (\<forall>s. x = Some s \<longrightarrow> nonblank s)"
  by (cases x) (auto simp: er_optional_text_def and_then_Inr_iff er_text_Inr)

lemma er_positive_Inr: "er_positive v name = Inr n \<longleftrightarrow> v = JInt n \<and> 1 \<le> n"
  by (auto simp: er_positive_def resume_invalid_def split: json.split)

lemma er_version_Inr: "er_version v name = Inr n \<longleftrightarrow> v = JInt 1 \<and> n = 1"
  by (auto simp: er_version_def and_then_Inr_iff er_positive_Inr)

lemma er_digest_Inr: "er_digest v name = Inr s \<longleftrightarrow> v = JStr s \<and> nonblank s \<and> is_digest s"
  by (auto simp: er_digest_def resume_invalid_def and_then_Inr_iff er_text_Inr)

lemma er_attempt_kind_Inr: "er_attempt_kind v = Inr k \<longleftrightarrow> v = JStr (attempt_kind_value k)"
  by (cases v; cases k) (auto simp: resume_invalid_def)

lemma check_lineage_Inr: "check_lineage k p = Inr u \<longleftrightarrow> (k = START \<longleftrightarrow> p = None)"
  by (cases k) (auto simp: check_lineage_def lineage_mismatch_def)

lemma check_cursor_Inr:
  "check_cursor c m v = Inr u \<longleftrightarrow> ec_mission_id c = Some m \<and> ec_stream_schema_version c = 1 \<and> before_seq v = Inr (ec_through_seq c)"
  by (auto simp: check_cursor_def cursor_mismatch_def anchor_mismatch_def and_then_Inr_iff)

lemma created_by_Inr:
  "created_by_fields v = Inr b \<longleftrightarrow> (\<exists>d. v = JObj d \<and> dget d ''type'' = JStr (fst b) \<and> nonblank (fst b) \<and>
     dget d ''id'' = JStr (snd b) \<and> nonblank (snd b))"
  by (cases b; cases v) (auto simp: created_by_fields_def er_mapping_def resume_invalid_def and_then_Inr_iff er_text_Inr)

lemma created_by_nonblank: "created_by_fields v = Inr b \<Longrightarrow> nonblank (fst b) \<and> nonblank (snd b)"
  by (auto simp: created_by_Inr)

definition attempt_ok :: "(string \<Rightarrow> string) \<Rightarrow> attempt_record \<Rightarrow> bool" where
  "attempt_ok nfc a \<longleftrightarrow>
     nonblank (at_attempt_id a) \<and> nonblank (at_mission_id a) \<and> nonblank (at_runtime_session_id a) \<and> nonblank (at_plan_id a) \<and>
     nonblank (at_plan_revision_id a) \<and> nonblank (at_task_id a) \<and> nonblank (at_root_attempt_id a) \<and> nonblank (at_policy_id a) \<and>
     nonblank (at_command_id a) \<and> nonblank (at_created_at a) \<and>
     (at_attempt_kind a = START \<longleftrightarrow> at_predecessor_attempt_id a = None) \<and>
     (\<forall>p. at_predecessor_attempt_id a = Some p \<longrightarrow> nonblank p) \<and> 1 \<le> at_ordinal a \<and>
     (at_attempt_kind a = START \<longrightarrow> at_root_attempt_id a = at_attempt_id a \<and> at_ordinal a = 1) \<and>
     cursor_ok nfc (at_context_cursor a) \<and> ec_mission_id (at_context_cursor a) = Some (at_mission_id a) \<and>
     ec_stream_schema_version (at_context_cursor a) = 1 \<and> ec_through_seq (at_context_cursor a) = at_created_seq a - 1 \<and>
     nonblank (at_context_semantic_digest a) \<and> is_digest (at_context_semantic_digest a) \<and>
     nonblank (at_knowledge_set_digest a) \<and> is_digest (at_knowledge_set_digest a) \<and>
     at_context_schema_version a = 1 \<and> at_context_builder_version a = 1 \<and> at_context_canonicalization_version a = 1 \<and>
     1 \<le> at_policy_version a \<and> 1 \<le> at_created_seq a \<and> nonblank (fst (at_created_by a)) \<and> nonblank (snd (at_created_by a))"

lemma ExecutionAttemptRecord_fields:
  assumes "ExecutionAttemptRecord k c = Inr a"
  shows "at_context_cursor a = c" and "dget k ''attempt_id'' = JStr (at_attempt_id a)" and "dget k ''mission_id'' = JStr (at_mission_id a)"
    and "dget k ''runtime_session_id'' = JStr (at_runtime_session_id a)" and "dget k ''plan_id'' = JStr (at_plan_id a)"
    and "dget k ''plan_revision_id'' = JStr (at_plan_revision_id a)" and "dget k ''task_id'' = JStr (at_task_id a)"
    and "dget k ''attempt_kind'' = JStr (attempt_kind_value (at_attempt_kind a))"
    and "dget k ''predecessor_attempt_id'' = jopt (at_predecessor_attempt_id a)"
    and "dget k ''root_attempt_id'' = JStr (at_root_attempt_id a)" and "dget k ''ordinal'' = JInt (at_ordinal a)"
    and "dget k ''created_seq'' = JInt (at_created_seq a)"
    and "cursor_ok nfc c \<Longrightarrow> attempt_ok nfc a" and "at_attempt_kind a = START \<longleftrightarrow> at_predecessor_attempt_id a = None"
proof -
  note inverse = er_text_Inr er_optional_text_Inr er_positive_Inr er_version_Inr er_digest_Inr er_attempt_kind_Inr
    check_lineage_Inr check_cursor_Inr
  have "at_context_cursor a = c \<and> dget k ''attempt_id'' = JStr (at_attempt_id a) \<and> dget k ''mission_id'' = JStr (at_mission_id a) \<and>
    dget k ''runtime_session_id'' = JStr (at_runtime_session_id a) \<and> dget k ''plan_id'' = JStr (at_plan_id a) \<and>
    dget k ''plan_revision_id'' = JStr (at_plan_revision_id a) \<and> dget k ''task_id'' = JStr (at_task_id a) \<and>
    dget k ''attempt_kind'' = JStr (attempt_kind_value (at_attempt_kind a)) \<and>
    dget k ''predecessor_attempt_id'' = jopt (at_predecessor_attempt_id a) \<and>
    dget k ''root_attempt_id'' = JStr (at_root_attempt_id a) \<and> dget k ''ordinal'' = JInt (at_ordinal a) \<and>
    dget k ''created_seq'' = JInt (at_created_seq a) \<and> (at_attempt_kind a = START \<longleftrightarrow> at_predecessor_attempt_id a = None) \<and>
    (cursor_ok nfc c \<longrightarrow> attempt_ok nfc a)"
    using assms unfolding ExecutionAttemptRecord_def lineage_mismatch_def and_then_Inr_iff if_Inl_eq_Inr_iff inverse
    apply (elim exE conjE)
    apply (drule sym [of "Inr _"])
    apply (simp only: sum.inject)
    apply (frule created_by_nonblank)
    apply (simp only: attempt_ok_def attempt_record.simps simp_thms before_seq.simps sum.inject)
    apply (intro conjI impI allI)
    apply (simp_all only: simp_thms)
    by blast+
  then show "at_context_cursor a = c" and "dget k ''attempt_id'' = JStr (at_attempt_id a)" and "dget k ''mission_id'' = JStr (at_mission_id a)"
    and "dget k ''runtime_session_id'' = JStr (at_runtime_session_id a)" and "dget k ''plan_id'' = JStr (at_plan_id a)"
    and "dget k ''plan_revision_id'' = JStr (at_plan_revision_id a)" and "dget k ''task_id'' = JStr (at_task_id a)"
    and "dget k ''attempt_kind'' = JStr (attempt_kind_value (at_attempt_kind a))"
    and "dget k ''predecessor_attempt_id'' = jopt (at_predecessor_attempt_id a)"
    and "dget k ''root_attempt_id'' = JStr (at_root_attempt_id a)" and "dget k ''ordinal'' = JInt (at_ordinal a)"
    and "dget k ''created_seq'' = JInt (at_created_seq a)" and "cursor_ok nfc c \<Longrightarrow> attempt_ok nfc a"
    and "at_attempt_kind a = START \<longleftrightarrow> at_predecessor_attempt_id a = None"
    by simp_all
qed

section \<open>Reading attempts back\<close>

lemma ExecutionAttemptRecord_total:
  assumes "attempt_ok nfc a" and "created_by_fields (dget d ''created_by'') = Inr (at_created_by a)"
    and "\<And>k. k \<notin> {''context_cursor'', ''created_by''} \<Longrightarrow> dget d k = dget (attempt_to_dict a) k"
  shows "ExecutionAttemptRecord d (at_context_cursor a) = Inr a"
proof -
  have lineage: "check_lineage (at_attempt_kind a) (at_predecessor_attempt_id a) = Inr ()"
    using assms(1) by (simp add: check_lineage_Inr attempt_ok_def)
  have cursor: "check_cursor (at_context_cursor a) (at_mission_id a) (JInt (at_created_seq a)) = Inr ()"
    using assms(1) by (simp add: check_cursor_Inr attempt_ok_def)
  show ?thesis
    unfolding ExecutionAttemptRecord_def assms(2)
    using assms(1) lineage cursor unfolding attempt_ok_def
    by (cases "at_attempt_kind a"; cases "at_predecessor_attempt_id a")
       (simp_all add: assms(3) attempt_to_dict_def er_text_def er_optional_text_def er_positive_def er_version_def er_digest_def)
qed

lemma attempt_dict_plain:
  "k \<notin> {''context_cursor'', ''created_by''} \<Longrightarrow> canon (dget (attempt_to_dict a) k) = dget (attempt_to_dict a) k"
  by (cases "at_predecessor_attempt_id a") (simp_all add: attempt_to_dict_def)

text \<open>The record of an attempt satisfies the contract of a codec, and so does the state of a mission.\<close>

lemma attempt_fields_dict: "fst ` set (attempt_to_dict a) = set attempt_fields"
  by (simp add: attempt_to_dict_def attempt_fields_def)

lemma attempt_round_trip:
  assumes "attempt_ok nfc a"
  shows "attempt_from_dict nfc (canon (JObj (attempt_to_dict a))) = Inr a"
proof -
  have "cursor_from_dict nfc (canon (JObj (cursor_to_dict (at_context_cursor a)))) = Inr (at_context_cursor a)"
    using assms by (simp only: cursor_from_canon) (simp add: attempt_ok_def)
  then have "cursor_from_dict nfc (dget (canon_dict (attempt_to_dict a)) ''context_cursor'') = Inr (at_context_cursor a)"
    unfolding dget_canon_dict by (simp add: attempt_to_dict_def del: canon.simps)
  moreover have "created_by_fields (dget (canon_dict (attempt_to_dict a)) ''created_by'') = Inr (at_created_by a)"
    using assms by (simp add: dget_canon_dict attempt_to_dict_def canon_JObj created_by_Inr attempt_ok_def del: canon.simps(2))
  then have "ExecutionAttemptRecord (canon_dict (attempt_to_dict a)) (at_context_cursor a) = Inr a"
    by (rule ExecutionAttemptRecord_total [OF assms]) (subst dget_canon_dict, rule attempt_dict_plain)
  ultimately show ?thesis
    by (simp add: attempt_from_dict_def canon_JObj canon_dict_keys attempt_fields_dict del: canon.simps(2))
qed

definition resume_ok :: "(string \<Rightarrow> string) \<Rightarrow> resume_state \<Rightarrow> bool" where
  "resume_ok nfc s \<longleftrightarrow>
     nonblank (er_mission_id s) \<and> distinct (map at_attempt_id (er_attempts s)) \<and> sorted (map at_created_seq (er_attempts s)) \<and>
     (\<forall>a \<in> set (er_attempts s). attempt_ok nfc a \<and> at_mission_id a = er_mission_id s)"

lemma ExecutionResumeState_Inr:
  "ExecutionResumeState m as = Inr s \<longleftrightarrow>
     nonblank m \<and> distinct (map at_attempt_id as) \<and> (\<forall>a \<in> set as. at_mission_id a = m) \<and> sorted (map at_created_seq as) \<and>
     s = \<lparr>er_mission_id = m, er_attempts = as\<rparr>"
proof -
  have "map at_created_seq as = sort (map at_created_seq as) \<longleftrightarrow> sorted (map at_created_seq as)"
    by (metis sorted_sort sorted_sort_id)
  then show ?thesis
    by (auto simp: ExecutionResumeState_def lineage_mismatch_def resume_invalid_def and_then_Inr_iff er_text_Inr list_ex_iff)
qed

lemma resume_round_trip:
  assumes "resume_ok nfc s"
  shows "resume_from_dict nfc (canon (JObj (resume_to_dict s))) = Inr s"
proof -
  have ok: "attempt_ok nfc a" if "a \<in> set (er_attempts s)" for a using assms that by (simp add: resume_ok_def)
  have keys: "fst ` set (canon_dict (resume_to_dict s)) = {''mission_id'', ''attempts''}"
    by (simp add: canon_dict_keys resume_to_dict_def)
  have "map_res (attempt_from_dict nfc) (map (\<lambda>a. canon (JObj (attempt_to_dict a))) (er_attempts s)) = Inr (er_attempts s)"
    unfolding map_res_map using map_res_total [of "er_attempts s" "attempt_from_dict nfc \<circ> (\<lambda>a. canon (JObj (attempt_to_dict a)))" "\<lambda>a. a"]
      attempt_round_trip ok by simp
  moreover have "ExecutionResumeState (er_mission_id s) (er_attempts s) = Inr s"
    using assms by (simp add: ExecutionResumeState_Inr resume_ok_def)
  moreover have "dget (canon_dict (resume_to_dict s)) ''attempts'' = JList (map (\<lambda>a. canon (JObj (attempt_to_dict a))) (er_attempts s))"
      "dget (canon_dict (resume_to_dict s)) ''mission_id'' = JStr (er_mission_id s)"
    by (simp_all add: dget_canon_dict resume_to_dict_def)
  moreover have "er_text (JStr (er_mission_id s)) ''mission_id'' = Inr (er_mission_id s)"
    using assms by (simp add: er_text_Inr resume_ok_def)
  ultimately show ?thesis by (simp add: resume_from_dict_def canon_JObj keys del: canon.simps(2))
qed

interpretation attempt_codec: dict_codec "\<lambda>a. Inr (attempt_to_dict a)" "\<lambda>d. attempt_from_dict nfc (JObj d)" "attempt_ok nfc" "\<lambda>a. a"
  for nfc :: "string \<Rightarrow> string"
  by unfold_locales (auto simp: canon_JObj dest!: attempt_round_trip)

interpretation resume_codec: dict_codec "\<lambda>s. Inr (resume_to_dict s)" "\<lambda>d. resume_from_dict nfc (JObj d)" "resume_ok nfc" "\<lambda>s. s"
  for nfc :: "string \<Rightarrow> string"
  by unfold_locales (auto simp: canon_JObj dest!: resume_round_trip)

end
