(* ===== verification/ResumeReducer.thy ===== *)
theory ResumeReducer
  imports ResumeContracts WgReducer Registry
begin

text \<open>
  execution_resume/reducer.py: the reducer of the two event types of execution attempts.  The abstract machine
  \<open>attempt_step\<close> appends one attempt, which starts the chain of its task or continues it; \<open>resume_inv\<close> is its
  invariant: the attempts of a task form one chain, numbered from 1, each resuming the one before.
\<close>

section \<open>The reducer\<close>

definition ER_EVENT_TYPES :: "string list" where
  "ER_EVENT_TYPES = [''execution.attempt_started.v1'', ''execution.attempt_resumed.v1'']"

definition ends_with :: "string \<Rightarrow> string \<Rightarrow> bool" where
  "ends_with suffix s = starts_with (rev suffix) (rev s)"

definition payload_text :: "json \<Rightarrow> string \<Rightarrow> string py" where
  "payload_text v name =
     (case v of JStr s \<Rightarrow> if nonblank s then Inr s else violation (name @ '' must be a non-empty string'')
      | _ \<Rightarrow> violation (name @ '' must be a non-empty string''))"

definition payload_digest :: "json \<Rightarrow> string \<Rightarrow> string py" where
  "payload_digest v name =
     and_then (payload_text v name) (\<lambda>s.
     if \<not> is_digest s then violation (name @ '' must be a lowercase SHA-256 digest'') else Inr s)"

definition attempt_payload_fields :: "string list" where
  "attempt_payload_fields =
     [''attempt_id'', ''mission_id'', ''plan_id'', ''plan_revision_id'', ''task_id'', ''attempt_kind'',
      ''predecessor_attempt_id'', ''root_attempt_id'', ''ordinal'', ''context_cursor'', ''context_semantic_digest'',
      ''context_schema_version'', ''context_builder_version'', ''context_canonicalization_version'', ''policy_id'',
      ''policy_version'', ''knowledge_set_digest'']"

definition check_payload_version :: "dict \<Rightarrow> string \<Rightarrow> unit py" where
  "check_payload_version p name =
     (if \<not> py_eq (dget p name) (JInt 1) \<or> is_bool (dget p name) then
        runtime_error ''EXECUTION_CONTEXT_SCHEMA_MISMATCH'' (''unsupported '' @ name)
      else Inr ())"

definition require_event_payload :: "(string \<Rightarrow> string) \<Rightarrow> event_envelope \<Rightarrow> dict py" where
  "require_event_payload nfc e =
     (if ev_event_type e \<notin> set ER_EVENT_TYPES then
        runtime_error ''EXTENSION_EVENT_NOT_OWNED'' (''unsupported Execution Resume event: '' @ ev_event_type e)
      else if ev_entity_type e \<noteq> ''EXECUTION_ATTEMPT'' then violation ''Execution Resume event entity_type is invalid''
      else case ev_session_id e of
        None \<Rightarrow> violation ''Execution Attempt Event requires a Session''
      | Some session_id \<Rightarrow>
          (let p = ev_payload e;
               allowed = set attempt_payload_fields \<union>
                 (if ends_with ''resumed.v1'' (ev_event_type e) then {''resume_from_attempt_id''} else {})
           in if fst ` set p \<noteq> allowed then
                violation ''Execution Attempt Event payload contains unknown or missing fields''
              else if \<not> py_eq (dget p ''attempt_id'') (JStr (ev_entity_id e)) \<or>
                      \<not> py_eq (dget p ''mission_id'') (JStr (ev_mission_id e)) then
                violation ''Execution Attempt Event identity mismatch''
              else if \<not> py_eq (dget p ''attempt_kind'')
                        (JStr (if ends_with ''started.v1'' (ev_event_type e) then ''START'' else ''RESUME'')) then
                violation ''Execution Attempt Event kind mismatch''
              else
                and_then (cursor_from_dict nfc (dget p ''context_cursor'')) (\<lambda>cursor.
                if ec_mission_id cursor \<noteq> Some (ev_mission_id e) \<or> ec_through_seq cursor \<noteq> ev_seq e - 1 then
                  anchor_mismatch ''Attempt Event does not follow its Context cursor''
                else if ec_stream_schema_version cursor \<noteq> 1 then
                  cursor_mismatch ''unsupported Context cursor schema''
                else
                  and_then (check_all (check_payload_version p)
                    [''context_schema_version'', ''context_builder_version'', ''context_canonicalization_version'',
                     ''policy_version'']) (\<lambda>_.
                  and_then (payload_digest (dget p ''context_semantic_digest'') ''context_semantic_digest'') (\<lambda>_.
                  and_then (payload_digest (dget p ''knowledge_set_digest'') ''knowledge_set_digest'') (\<lambda>_.
                  and_then (payload_text (dget p ''policy_id'') ''policy_id'') (\<lambda>_.
                  and_then (payload_text (if dhas p ''runtime_session_id'' then dget p ''runtime_session_id''
                                          else JStr session_id) ''runtime_session_id'') (\<lambda>_.
                  Inr p))))))))"

text \<open>\<open>state.attempt(predecessor_id) if predecessor_id is not None else None\<close>; a value that is no text equals
  no identifier.\<close>

definition find_predecessor :: "resume_state \<Rightarrow> json \<Rightarrow> attempt_record option" where
  "find_predecessor s v = (case v of JStr i \<Rightarrow> attempt_of s i | _ \<Rightarrow> None)"

definition check_start :: "resume_state \<Rightarrow> dict \<Rightarrow> string \<Rightarrow> attempt_record option \<Rightarrow> unit py" where
  "check_start s p attempt_id predecessor =
     (if predecessor \<noteq> None \<or> \<not> py_eq (dget p ''root_attempt_id'') (JStr attempt_id) \<or>
         \<not> py_eq (dget p ''ordinal'') (JInt 1) then lineage_mismatch ''invalid START lineage''
      else if attempts_for_task s (py_str (dget p ''task_id'')) \<noteq> [] then
        runtime_error ''EXECUTION_ATTEMPT_ALREADY_EXISTS'' ''Task already has an Attempt''
      else Inr ())"

definition check_resume :: "resume_state \<Rightarrow> dict \<Rightarrow> attempt_record option \<Rightarrow> unit py" where
  "check_resume s p predecessor =
     (if \<not> py_eq (dget p ''resume_from_attempt_id'') (dget p ''predecessor_attempt_id'') then
        lineage_mismatch ''Resume source anchor mismatch''
      else case predecessor of
        None \<Rightarrow> runtime_error ''EXECUTION_ATTEMPT_NOT_FOUND'' ''Resume source Attempt not found''
      | Some q \<Rightarrow>
          if map_option at_attempt_id (latest_attempt s (py_str (dget p ''task_id''))) \<noteq> Some (at_attempt_id q) then
            runtime_error ''EXECUTION_RESUME_SOURCE_NOT_LATEST'' ''Resume source must be latest''
          else if \<not> py_eq (dget p ''root_attempt_id'') (JStr (at_root_attempt_id q)) then
            lineage_mismatch ''Resume root Attempt mismatch''
          else if \<not> py_eq (dget p ''ordinal'') (JInt (at_ordinal q + 1)) then
            lineage_mismatch ''Resume ordinal is not contiguous''
          else if \<not> py_eq (JStr (at_plan_id q)) (dget p ''plan_id'') \<or>
                  \<not> py_eq (JStr (at_plan_revision_id q)) (dget p ''plan_revision_id'') then
            lineage_mismatch ''Resume Plan lineage mismatch''
          else if \<not> py_eq (JStr (at_task_id q)) (dget p ''task_id'') then
            lineage_mismatch ''Resume Task lineage mismatch''
          else Inr ())"

text \<open>The record of the attempt; its arguments are evaluated in the order of the call.\<close>

definition event_record :: "(string \<Rightarrow> string) \<Rightarrow> event_envelope \<Rightarrow> dict \<Rightarrow> attempt_record py" where
  "event_record nfc e p =
     and_then (payload_text (dget p ''plan_id'') ''plan_id'') (\<lambda>plan_id.
     and_then (payload_text (dget p ''plan_revision_id'') ''plan_revision_id'') (\<lambda>plan_revision_id.
     and_then (payload_text (dget p ''task_id'') ''task_id'') (\<lambda>task_id.
     and_then (payload_text (dget p ''root_attempt_id'') ''root_attempt_id'') (\<lambda>root.
     and_then (cursor_from_dict nfc (dget p ''context_cursor'')) (\<lambda>cursor.
     ExecutionAttemptRecord
       [(''attempt_id'', JStr (py_str (dget p ''attempt_id''))), (''mission_id'', JStr (ev_mission_id e)),
        (''runtime_session_id'', JStr (case ev_session_id e of None \<Rightarrow> [] | Some i \<Rightarrow> i)),
        (''plan_id'', JStr plan_id), (''plan_revision_id'', JStr plan_revision_id), (''task_id'', JStr task_id),
        (''attempt_kind'', JStr (py_str (dget p ''attempt_kind''))),
        (''predecessor_attempt_id'', dget p ''predecessor_attempt_id''), (''root_attempt_id'', JStr root),
        (''ordinal'', dget p ''ordinal''), (''context_semantic_digest'', dget p ''context_semantic_digest''),
        (''context_schema_version'', dget p ''context_schema_version''),
        (''context_builder_version'', dget p ''context_builder_version''),
        (''context_canonicalization_version'', dget p ''context_canonicalization_version''),
        (''policy_id'', dget p ''policy_id''), (''policy_version'', dget p ''policy_version''),
        (''knowledge_set_digest'', dget p ''knowledge_set_digest''), (''command_id'', JStr (ev_command_id e)),
        (''created_seq'', JInt (ev_seq e)), (''created_at'', JStr (ev_created_at e)),
        (''created_by'', JObj [(''type'', JStr (ev_initiator_type e)), (''id'', JStr (ev_initiator_id e))])] cursor)))))"

definition resume_reduce :: "(string \<Rightarrow> string) \<Rightarrow> resume_state \<Rightarrow> event_envelope \<Rightarrow> runtime_state \<Rightarrow> resume_state py" where
  "resume_reduce nfc s e core =
     (if ev_mission_id e \<noteq> er_mission_id s \<or> rs_mission_id core \<noteq> er_mission_id s then
        violation ''Execution Resume Mission identity mismatch''
      else if rs_seq core \<noteq> ev_seq e then violation ''Execution Resume Event does not share Core seq''
      else if \<not> mission_open core then violation ''terminal or missing Mission cannot accept Attempt facts''
      else
        and_then (require_event_payload nfc e) (\<lambda>p.
        let attempt_id = py_str (dget p ''attempt_id''); predecessor = find_predecessor s (dget p ''predecessor_attempt_id'') in
        if attempt_of s attempt_id \<noteq> None then violation ''Attempt identity is already used''
        else
          and_then (if py_str (dget p ''attempt_kind'') = ''START'' then check_start s p attempt_id predecessor
                    else check_resume s p predecessor) (\<lambda>_.
          and_then (event_record nfc e p) (\<lambda>a. ExecutionResumeState (er_mission_id s) (er_attempts s @ [a])))))"

section \<open>The machine of attempts\<close>

definition attempt_link :: "attempt_record option \<Rightarrow> attempt_record \<Rightarrow> bool" where
  "attempt_link previous a \<longleftrightarrow>
     (case previous of
        None \<Rightarrow> at_attempt_kind a = START \<and> at_predecessor_attempt_id a = None \<and> at_root_attempt_id a = at_attempt_id a \<and>
                at_ordinal a = 1
      | Some q \<Rightarrow> at_attempt_kind a = RESUME \<and> at_predecessor_attempt_id a = Some (at_attempt_id q) \<and>
                  at_root_attempt_id a = at_root_attempt_id q \<and> at_ordinal a = at_ordinal q + 1 \<and>
                  at_plan_id a = at_plan_id q \<and> at_plan_revision_id a = at_plan_revision_id q \<and> at_task_id a = at_task_id q)"

primrec attempt_chain :: "attempt_record option \<Rightarrow> attempt_record list \<Rightarrow> bool" where
  "attempt_chain previous [] = True"
| "attempt_chain previous (a # as) \<longleftrightarrow> attempt_link previous a \<and> attempt_chain (Some a) as"

definition attempt_added :: "int \<Rightarrow> attempt_record \<Rightarrow> resume_state \<Rightarrow> resume_state \<Rightarrow> bool" where
  "attempt_added n a s s' \<longleftrightarrow>
     s' = s\<lparr>er_attempts := er_attempts s @ [a]\<rparr> \<and> at_created_seq a = n \<and> at_mission_id a = er_mission_id s \<and>
     attempt_of s (at_attempt_id a) = None \<and> attempt_link (latest_attempt s (at_task_id a)) a"

inductive attempt_step :: "int \<Rightarrow> resume_state \<Rightarrow> resume_state \<Rightarrow> bool" where
  added: "attempt_added n a s s' \<Longrightarrow> attempt_step n s s'"

inductive_cases attempt_stepE: "attempt_step n s s'"

lemma attempt_chain_snoc:
  "attempt_chain previous (as @ [a]) \<longleftrightarrow>
     attempt_chain previous as \<and> attempt_link (if as = [] then previous else Some (last as)) a"
  by (induction as arbitrary: previous) auto

lemma latest_attempt_Some: "latest_attempt s t = Some q \<Longrightarrow> q \<in> set (er_attempts s) \<and> at_task_id q = t"
  by (auto simp: latest_attempt_def attempts_for_task_def Let_def dest: last_in_set split: if_split_asm)

lemma attempt_of_None: "attempt_of s i = None \<longleftrightarrow> i \<notin> at_attempt_id ` set (er_attempts s)"
  by (simp add: attempt_of_def keyed_simps)

lemma attempt_of_SomeD: "attempt_of s i = Some a \<Longrightarrow> a \<in> set (er_attempts s) \<and> at_attempt_id a = i"
  by (auto simp: attempt_of_def dest: find_by_SomeD)

lemma payload_text_Inr: "payload_text v name = Inr s \<longleftrightarrow> v = JStr s \<and> nonblank s"
  by (auto simp: payload_text_def split: json.split)

text \<open>The record of an accepted event.\<close>

definition records_event :: "event_envelope \<Rightarrow> attempt_record \<Rightarrow> bool" where
  "records_event e a \<longleftrightarrow>
     at_created_seq a = ev_seq e \<and> at_attempt_id a = ev_entity_id e \<and> at_mission_id a = ev_mission_id e \<and>
     ev_session_id e = Some (at_runtime_session_id a) \<and> dget (ev_payload e) ''plan_id'' = JStr (at_plan_id a) \<and>
     dget (ev_payload e) ''plan_revision_id'' = JStr (at_plan_revision_id a) \<and> dget (ev_payload e) ''task_id'' = JStr (at_task_id a)"

lemma require_event_payload_Inr:
  assumes "require_event_payload nfc e = Inr p"
  shows "p = ev_payload e" and "ev_event_type e \<in> set ER_EVENT_TYPES" and "ev_session_id e \<noteq> None"
    and "dget p ''attempt_id'' = JStr (ev_entity_id e)"
    and "dget p ''attempt_kind'' = JStr (if ends_with ''started.v1'' (ev_event_type e) then ''START'' else ''RESUME'')"
  using assms
  by (auto simp: require_event_payload_def Let_def and_then_Inr_iff py_eq_JStr anchor_mismatch_def cursor_mismatch_def
      split: if_split_asm option.split_asm)

lemma event_record_Inr:
  assumes "event_record nfc e p = Inr a"
  shows "at_created_seq a = ev_seq e" and "at_attempt_id a = py_str (dget p ''attempt_id'')" and "at_mission_id a = ev_mission_id e"
    and "at_runtime_session_id a = (case ev_session_id e of None \<Rightarrow> [] | Some i \<Rightarrow> i)"
    and "dget p ''plan_id'' = JStr (at_plan_id a)" and "dget p ''plan_revision_id'' = JStr (at_plan_revision_id a)"
    and "dget p ''task_id'' = JStr (at_task_id a)" and "attempt_kind_value (at_attempt_kind a) = py_str (dget p ''attempt_kind'')"
    and "dget p ''predecessor_attempt_id'' = jopt (at_predecessor_attempt_id a)"
    and "dget p ''root_attempt_id'' = JStr (at_root_attempt_id a)" and "dget p ''ordinal'' = JInt (at_ordinal a)"
    and "idempotent nfc \<Longrightarrow> attempt_ok nfc a" and "at_attempt_kind a = START \<longleftrightarrow> at_predecessor_attempt_id a = None"
proof -
  obtain plan_id revision_id task_id root cursor k where texts: "dget p ''plan_id'' = JStr plan_id"
      "dget p ''plan_revision_id'' = JStr revision_id" "dget p ''task_id'' = JStr task_id" "dget p ''root_attempt_id'' = JStr root"
      and cursor: "cursor_from_dict nfc (dget p ''context_cursor'') = Inr cursor"
      and k: "ExecutionAttemptRecord k cursor = Inr a"
        "k = [(''attempt_id'', JStr (py_str (dget p ''attempt_id''))), (''mission_id'', JStr (ev_mission_id e)),
        (''runtime_session_id'', JStr (case ev_session_id e of None \<Rightarrow> [] | Some i \<Rightarrow> i)),
        (''plan_id'', JStr plan_id), (''plan_revision_id'', JStr revision_id), (''task_id'', JStr task_id),
        (''attempt_kind'', JStr (py_str (dget p ''attempt_kind''))),
        (''predecessor_attempt_id'', dget p ''predecessor_attempt_id''), (''root_attempt_id'', JStr root),
        (''ordinal'', dget p ''ordinal''), (''context_semantic_digest'', dget p ''context_semantic_digest''),
        (''context_schema_version'', dget p ''context_schema_version''),
        (''context_builder_version'', dget p ''context_builder_version''),
        (''context_canonicalization_version'', dget p ''context_canonicalization_version''),
        (''policy_id'', dget p ''policy_id''), (''policy_version'', dget p ''policy_version''),
        (''knowledge_set_digest'', dget p ''knowledge_set_digest''), (''command_id'', JStr (ev_command_id e)),
        (''created_seq'', JInt (ev_seq e)), (''created_at'', JStr (ev_created_at e)),
        (''created_by'', JObj [(''type'', JStr (ev_initiator_type e)), (''id'', JStr (ev_initiator_id e))])]"
    using assms unfolding event_record_def and_then_Inr_iff payload_text_Inr by blast
  note fields = ExecutionAttemptRecord_fields [OF k(1), unfolded k(2)]
  show "at_created_seq a = ev_seq e" "at_attempt_id a = py_str (dget p ''attempt_id'')" "at_mission_id a = ev_mission_id e"
    "at_runtime_session_id a = (case ev_session_id e of None \<Rightarrow> [] | Some i \<Rightarrow> i)" "dget p ''plan_id'' = JStr (at_plan_id a)"
    "dget p ''plan_revision_id'' = JStr (at_plan_revision_id a)" "dget p ''task_id'' = JStr (at_task_id a)"
    "attempt_kind_value (at_attempt_kind a) = py_str (dget p ''attempt_kind'')"
    "dget p ''predecessor_attempt_id'' = jopt (at_predecessor_attempt_id a)"
    "dget p ''root_attempt_id'' = JStr (at_root_attempt_id a)" "dget p ''ordinal'' = JInt (at_ordinal a)"
    "at_attempt_kind a = START \<longleftrightarrow> at_predecessor_attempt_id a = None"
    using fields(2-12,14) by (simp_all add: texts)
  show "attempt_ok nfc a" if "idempotent nfc"
    by (rule ExecutionAttemptRecord_fields(13) [OF k(1)]) (rule cursor_from_dict_ok [OF that cursor])
qed

lemma check_resume_Inr:
  "check_resume s p predecessor = Inr u \<longleftrightarrow> py_eq (dget p ''resume_from_attempt_id'') (dget p ''predecessor_attempt_id'') \<and>
     (\<exists>q. predecessor = Some q \<and>
        map_option at_attempt_id (latest_attempt s (py_str (dget p ''task_id''))) = Some (at_attempt_id q) \<and>
        py_eq (dget p ''root_attempt_id'') (JStr (at_root_attempt_id q)) \<and> py_eq (dget p ''ordinal'') (JInt (at_ordinal q + 1)) \<and>
        py_eq (JStr (at_plan_id q)) (dget p ''plan_id'') \<and> py_eq (JStr (at_plan_revision_id q)) (dget p ''plan_revision_id'') \<and>
        py_eq (JStr (at_task_id q)) (dget p ''task_id''))"
  by (cases predecessor) (auto simp: check_resume_def lineage_mismatch_def if_Inl_eq_Inr_iff)

lemma ordinal_eq: "py_eq (JInt i) (JInt j) \<longleftrightarrow> i = j"
  by (simp add: py_eq_def)

text \<open>An accepted event takes a step of the machine.\<close>

lemma resume_reduce_Inr:
  assumes "resume_reduce nfc s e core = Inr s'"
  shows "\<exists>a. attempt_added (ev_seq e) a s s' \<and> records_event e a \<and> (idempotent nfc \<longrightarrow> attempt_ok nfc a)"
    and "mission_open core" and "rs_seq core = ev_seq e" and "ev_mission_id e = er_mission_id s"
    and "ev_event_type e \<in> set ER_EVENT_TYPES" and "distinct (map at_attempt_id (er_attempts s'))"
    and "nonblank (er_mission_id s')"
proof -
  let ?q = "find_predecessor s (dget (ev_payload e) ''predecessor_attempt_id'')" and ?p = "ev_payload e"
  obtain p where p: "require_event_payload nfc e = Inr p"
    using assms by (auto simp: resume_reduce_def and_then_Inr_iff split: if_split_asm)
  note payload = require_event_payload_Inr [OF p]
  have "and_then (if py_str (dget ?p ''attempt_kind'') = ''START'' then check_start s ?p (ev_entity_id e) ?q
                  else check_resume s ?p ?q) (\<lambda>_.
        and_then (event_record nfc e ?p) (\<lambda>a. ExecutionResumeState (er_mission_id s) (er_attempts s @ [a]))) = Inr s'"
    and mission: "ev_mission_id e = er_mission_id s" and opened: "mission_open core" "rs_seq core = ev_seq e"
    and fresh: "attempt_of s (ev_entity_id e) = None"
    using assms payload(1,4) by (simp_all add: resume_reduce_def p Let_def split: if_split_asm)
  then obtain a where checked: "(if py_str (dget ?p ''attempt_kind'') = ''START'' then check_start s ?p (ev_entity_id e) ?q
                  else check_resume s ?p ?q) = Inr ()"
    and a: "event_record nfc e ?p = Inr a" and s': "ExecutionResumeState (er_mission_id s) (er_attempts s @ [a]) = Inr s'"
    unfolding and_then_Inr_iff by auto
  note fields = event_record_Inr [OF a]
  note state = s' [unfolded ExecutionResumeState_Inr]
  have "attempt_link (latest_attempt s (at_task_id a)) a"
  proof (cases "py_str (dget ?p ''attempt_kind'') = ''START''")
    case True
    then have kind: "at_attempt_kind a = START" using fields(8) by (cases "at_attempt_kind a") simp_all
    have start: "attempts_for_task s (at_task_id a) = []" "at_root_attempt_id a = ev_entity_id e" "at_ordinal a = 1"
      using checked True fields(7,10,11)
      by (auto simp: check_start_def lineage_mismatch_def py_eq_str ordinal_eq split: if_split_asm)
    have "at_predecessor_attempt_id a = None" using fields(13) kind by simp
    then show ?thesis using kind start fields(2) payload(1,4) by (simp add: attempt_link_def latest_attempt_def)
  next
    case False
    then have kind: "at_attempt_kind a = RESUME" using fields(8) by (cases "at_attempt_kind a") simp_all
    obtain q where q: "?q = Some q" "map_option at_attempt_id (latest_attempt s (at_task_id a)) = Some (at_attempt_id q)"
      "at_root_attempt_id a = at_root_attempt_id q" "at_ordinal a = at_ordinal q + 1" "at_plan_id a = at_plan_id q"
      "at_plan_revision_id a = at_plan_revision_id q" "at_task_id a = at_task_id q"
      using checked False fields(5-7,10,11)
      by (simp add: check_resume_Inr py_eq_str ordinal_eq) metis
    obtain i where i: "dget ?p ''predecessor_attempt_id'' = JStr i" "attempt_of s i = Some q"
      using q(1) by (auto simp: find_predecessor_def split: json.split_asm)
    have member: "q \<in> set (er_attempts s)" "at_attempt_id q = i" using attempt_of_SomeD [OF i(2)] by simp_all
    have previous: "at_predecessor_attempt_id a = Some i" using i(1) fields(9) by (cases "at_predecessor_attempt_id a") simp_all
    obtain l where l: "latest_attempt s (at_task_id a) = Some l" "at_attempt_id l = at_attempt_id q" using q(2) by auto
    have "distinct (map at_attempt_id (er_attempts s))" using state by simp
    then have "l = q" using latest_attempt_Some [OF l(1)] l(2) member(1) by (auto simp: distinct_map dest: inj_onD)
    then show ?thesis using l(1) kind q previous member(2) by (simp add: attempt_link_def)
  qed
  then have "attempt_added (ev_seq e) a s s'"
    using fresh fields(1-3) payload(1,4) mission state by (simp add: attempt_added_def)
  moreover have "records_event e a" using fields(1-7) payload(1,3,4) by (auto simp: records_event_def)
  ultimately show "\<exists>a. attempt_added (ev_seq e) a s s' \<and> records_event e a \<and> (idempotent nfc \<longrightarrow> attempt_ok nfc a)"
    using fields(12) by blast
  show "mission_open core" "rs_seq core = ev_seq e" "ev_mission_id e = er_mission_id s" "ev_event_type e \<in> set ER_EVENT_TYPES"
    "distinct (map at_attempt_id (er_attempts s'))" "nonblank (er_mission_id s')"
    using opened mission payload(2) state by simp_all
qed

section \<open>The invariant\<close>

definition resume_inv :: "int \<Rightarrow> resume_state \<Rightarrow> bool" where
  "resume_inv n s \<longleftrightarrow>
     distinct (map at_attempt_id (er_attempts s)) \<and> sorted_wrt (<) (map at_created_seq (er_attempts s)) \<and>
     (\<forall>a \<in> set (er_attempts s). at_mission_id a = er_mission_id s \<and> at_created_seq a \<le> n) \<and>
     (\<forall>t. attempt_chain None (attempts_for_task s t))"

text \<open>Attempts are only added, at the end.\<close>

definition resume_evolves :: "resume_state \<Rightarrow> resume_state \<Rightarrow> bool" where
  "resume_evolves s s' \<longleftrightarrow> er_mission_id s' = er_mission_id s \<and> (\<exists>new. er_attempts s' = er_attempts s @ new)"

lemma resume_inv_mono: "resume_inv n s \<Longrightarrow> n \<le> n' \<Longrightarrow> resume_inv n' s"
  unfolding resume_inv_def by (meson order_trans)

lemma resume_inv_empty: "resume_inv n \<lparr>er_mission_id = m, er_attempts = []\<rparr>"
  by (simp add: resume_inv_def attempts_for_task_def)

lemma attempt_added_inv:
  assumes added: "attempt_added (n + 1) a s s'" and inv: "resume_inv n s"
  shows "resume_inv (n + 1) s'"
proof -
  note added = added [unfolded attempt_added_def attempt_of_None]
  have earlier: "at_created_seq b < at_created_seq a" if "b \<in> set (er_attempts s)" for b
    using inv that added unfolding resume_inv_def by fastforce
  have "attempt_chain None (attempts_for_task s' t)" for t
  proof (cases "at_task_id a = t")
    case True
    have "attempts_for_task s' t = attempts_for_task s t @ [a]" using added True by (simp add: attempts_for_task_def)
    moreover have "attempt_link (latest_attempt s t) a" using added True by blast
    ultimately show ?thesis using inv by (simp add: attempt_chain_snoc resume_inv_def latest_attempt_def Let_def split: if_splits)
  next
    case False
    then have "attempts_for_task s' t = attempts_for_task s t" using added by (simp add: attempts_for_task_def)
    then show ?thesis using inv by (simp add: resume_inv_def)
  qed
  moreover have "sorted_wrt (<) (map at_created_seq (er_attempts s'))"
    using inv added earlier by (auto simp: resume_inv_def sorted_wrt_append)
  moreover have "distinct (map at_attempt_id (er_attempts s'))" using inv added by (simp add: resume_inv_def)
  moreover have "at_mission_id b = er_mission_id s' \<and> at_created_seq b \<le> n + 1" if "b \<in> set (er_attempts s')" for b
    using inv added that by (fastforce simp: resume_inv_def)
  ultimately show ?thesis by (simp add: resume_inv_def)
qed

lemma attempt_added_evolves: "attempt_added n a s s' \<Longrightarrow> resume_evolves s s'"
  by (auto simp: attempt_added_def resume_evolves_def)

lemma resume_evolves_refl: "resume_evolves s s"
  by (simp add: resume_evolves_def)

lemma resume_evolves_trans: "resume_evolves s t \<Longrightarrow> resume_evolves t u \<Longrightarrow> resume_evolves s u"
  by (auto simp: resume_evolves_def)

text \<open>A chain, position by position.\<close>

lemma attempt_chain_nth:
  assumes "attempt_chain None as" and "i < length as"
  shows "at_ordinal (as ! i) = int i + 1" and "at_root_attempt_id (as ! i) = at_attempt_id (as ! 0)"
    and "at_plan_id (as ! i) = at_plan_id (as ! 0)" and "at_plan_revision_id (as ! i) = at_plan_revision_id (as ! 0)"
    and "at_predecessor_attempt_id (as ! i) = (if i = 0 then None else Some (at_attempt_id (as ! (i - 1))))"
    and "at_attempt_kind (as ! i) = (if i = 0 then START else RESUME)"
proof -
  have link: "attempt_link (if i = 0 then None else Some (as ! (i - 1))) (as ! i)" if "i < length as" for i
  proof -
    have "attempt_link (if i = 0 then previous else Some (as ! (i - 1))) (as ! i)"
      if "attempt_chain previous as" "i < length as" for previous as
      using that
    proof (induction as arbitrary: previous i)
      case (Cons a as)
      show ?case
      proof (cases i)
        case (Suc j)
        then show ?thesis using Cons.IH [of "Some a" j] Cons.prems by (cases j) simp_all
      qed (use Cons.prems in simp)
    qed simp
    from this [OF assms(1) that] show ?thesis .
  qed
  have "at_ordinal (as ! i) = int i + 1 \<and> at_root_attempt_id (as ! i) = at_attempt_id (as ! 0) \<and>
      at_plan_id (as ! i) = at_plan_id (as ! 0) \<and> at_plan_revision_id (as ! i) = at_plan_revision_id (as ! 0)" if "i < length as" for i
    using that
  proof (induction i)
    case 0
    then show ?case using link [of 0] by (simp add: attempt_link_def)
  next
    case (Suc i)
    then show ?case using link [of "Suc i"] by (simp add: attempt_link_def)
  qed
  then show "at_ordinal (as ! i) = int i + 1" "at_root_attempt_id (as ! i) = at_attempt_id (as ! 0)"
    "at_plan_id (as ! i) = at_plan_id (as ! 0)" "at_plan_revision_id (as ! i) = at_plan_revision_id (as ! 0)"
    using assms(2) by simp_all
  show "at_predecessor_attempt_id (as ! i) = (if i = 0 then None else Some (at_attempt_id (as ! (i - 1))))"
    "at_attempt_kind (as ! i) = (if i = 0 then START else RESUME)"
    using link [OF assms(2)] by (simp_all add: attempt_link_def split: if_splits)
qed

end
