(* ===== verification/ResumeHandlers.thy ===== *)
theory ResumeHandlers
  imports ResumeReducer WgHandlers
begin

text \<open>
  execution_resume/handlers.py: starting and resuming an execution attempt.  The handlers read the state of two
  extensions, the work graph's and their own, so extension states are values of a datatype with one constructor
  for each, and the \<open>isinstance\<close> checks of the code are its case distinctions.
\<close>

datatype extension_value = GraphState work_graph | ResumeState resume_state

section \<open>Reading a command\<close>

definition ER_COMMAND_TYPES :: "string list" where
  "ER_COMMAND_TYPES = [''START_EXECUTION_ATTEMPT'', ''RESUME_EXECUTION_ATTEMPT'']"

definition command_text :: "json \<Rightarrow> string \<Rightarrow> string py" where
  "command_text v name =
     (case v of
        JStr s \<Rightarrow> if nonblank s then Inr s else runtime_error ''COMMAND_SCHEMA_INVALID'' (name @ '' must be a non-empty string'')
      | _ \<Rightarrow> runtime_error ''COMMAND_SCHEMA_INVALID'' (name @ '' must be a non-empty string''))"

definition command_digest :: "json \<Rightarrow> string \<Rightarrow> string py" where
  "command_digest v name =
     and_then (command_text v name) (\<lambda>s.
     if \<not> is_digest s then runtime_error ''COMMAND_SCHEMA_INVALID'' (name @ '' must be a lowercase SHA-256 digest'')
     else Inr s)"

definition schema_mismatch :: "string \<Rightarrow> 'a py" where
  "schema_mismatch message = runtime_error ''EXTENSION_SCHEMA_MISMATCH'' message"

definition resume_state_of :: "extension_value composed_state \<Rightarrow> resume_state py" where
  "resume_state_of composed =
     and_then (extension_state composed ER_EXTENSION_ID) (\<lambda>v.
     case v of ResumeState s \<Rightarrow> Inr s | _ \<Rightarrow> schema_mismatch ''invalid Execution Resume extension state'')"

definition work_graph_of :: "extension_value composed_state \<Rightarrow> work_graph py" where
  "work_graph_of composed =
     and_then (extension_state composed EXTENSION_ID) (\<lambda>v.
     case v of GraphState g \<Rightarrow> Inr g | _ \<Rightarrow> schema_mismatch ''invalid Work Graph extension state'')"

definition require_active_runtime :: "'x composed_state \<Rightarrow> command_envelope \<Rightarrow> unit py" where
  "require_active_runtime composed c =
     (case rs_mission (cs_core_state composed) of
        None \<Rightarrow> runtime_error ''MISSION_NOT_FOUND'' (''Mission not found: '' @ c_mission_id c)
      | Some m \<Rightarrow>
          if ms_status m \<noteq> Mission_ACTIVE then
            runtime_error ''INVALID_STATE_TRANSITION'' ''Execution Attempt requires ACTIVE Mission''
          else (case c_session_id c of
              None \<Rightarrow> runtime_error ''EXECUTION_SESSION_NOT_OPEN'' ''Execution Attempt requires an OPEN Session''
            | Some i \<Rightarrow>
                if i = [] then runtime_error ''EXECUTION_SESSION_NOT_OPEN'' ''Execution Attempt requires an OPEN Session''
                else (case session_of (cs_core_state composed) i of
                    None \<Rightarrow> runtime_error ''EXECUTION_SESSION_NOT_OPEN'' (''Session is not OPEN: '' @ i)
                  | Some x \<Rightarrow>
                      if ss_mission_id x \<noteq> c_mission_id c \<or> ss_status x \<noteq> Session_OPEN then
                        runtime_error ''EXECUTION_SESSION_NOT_OPEN'' (''Session is not OPEN: '' @ i)
                      else Inr ())))"

text \<open>The checks on the graph that the handlers and the service share: the task is an active task of the open
  plan's current revision.\<close>

definition runnable_task :: "work_graph \<Rightarrow> string \<Rightarrow> string \<Rightarrow> string \<Rightarrow> task_state py" where
  "runnable_task g plan_id revision_id task_id =
     (case plan_of g plan_id of
        None \<Rightarrow> runtime_error ''PLAN_NOT_FOUND'' (''Plan not found: '' @ plan_id)
      | Some plan \<Rightarrow>
          if pl_lifecycle_state plan \<noteq> Plan_OPEN then runtime_error ''PLAN_NOT_OPEN'' (''Plan is not OPEN: '' @ plan_id)
          else if pl_current_revision_id plan \<noteq> Some revision_id then
            runtime_error ''TASK_REVISION_NOT_CURRENT'' ''Task must belong to the current Plan Revision''
          else (case task_of g task_id of
              None \<Rightarrow> runtime_error ''TASK_NOT_FOUND'' (''Task not found: '' @ task_id)
            | Some task \<Rightarrow>
                if tk_plan_id task \<noteq> plan_id \<or> tk_plan_revision_id task \<noteq> revision_id then
                  runtime_error ''REVISION_PLAN_MISMATCH'' ''Task identity does not match Plan Revision''
                else if tk_lifecycle_state task \<noteq> Task_ACTIVE then
                  runtime_error ''EXECUTION_TASK_NOT_ACTIVE'' (''Task is not ACTIVE: '' @ task_id)
                else Inr task))"

definition require_task :: "extension_value composed_state \<Rightarrow> command_envelope \<Rightarrow> task_state py" where
  "require_task composed c =
     and_then (work_graph_of composed) (\<lambda>g.
     and_then (command_text (dget (c_payload c) ''plan_id'') ''payload.plan_id'') (\<lambda>plan_id.
     and_then (command_text (dget (c_payload c) ''plan_revision_id'') ''payload.plan_revision_id'') (\<lambda>revision_id.
     and_then (command_text (dget (c_payload c) ''task_id'') ''payload.task_id'') (\<lambda>task_id.
     runnable_task g plan_id revision_id task_id))))"

section \<open>The anchor in the context\<close>

definition anchor_fields :: "string list" where
  "anchor_fields =
     [''attempt_id'', ''plan_id'', ''plan_revision_id'', ''task_id'', ''context_cursor'', ''context_semantic_digest'',
      ''context_schema_version'', ''context_builder_version'', ''context_canonicalization_version'', ''policy_id'',
      ''policy_version'', ''knowledge_set_digest'']"

definition check_anchor_version :: "dict \<Rightarrow> string \<Rightarrow> unit py" where
  "check_anchor_version p name =
     (if dget p name \<noteq> JInt 1 then
        runtime_error ''EXECUTION_CONTEXT_SCHEMA_MISMATCH'' (''unsupported '' @ name)
      else Inr ())"

definition anchor_entries ::
  "dict \<Rightarrow> string \<Rightarrow> string \<Rightarrow> string \<Rightarrow> string \<Rightarrow> event_cursor \<Rightarrow> string \<Rightarrow> string \<Rightarrow> string \<Rightarrow> dict" where
  "anchor_entries p attempt_id plan_id revision_id task_id cursor digest policy_id knowledge =
     [(''attempt_id'', JStr attempt_id), (''plan_id'', JStr plan_id), (''plan_revision_id'', JStr revision_id),
      (''task_id'', JStr task_id), (''context_cursor'', JObj (cursor_to_dict cursor)),
      (''context_semantic_digest'', JStr digest), (''context_schema_version'', dget p ''context_schema_version''),
      (''context_builder_version'', dget p ''context_builder_version''),
      (''context_canonicalization_version'', dget p ''context_canonicalization_version''),
      (''policy_id'', JStr policy_id), (''policy_version'', dget p ''policy_version''),
      (''knowledge_set_digest'', JStr knowledge)]"

definition anchor_versions :: "string list" where
  "anchor_versions =
     [''context_schema_version'', ''context_builder_version'', ''context_canonicalization_version'', ''policy_version'']"

definition context_anchor :: "(string \<Rightarrow> string) \<Rightarrow> command_envelope \<Rightarrow> dict py" where
  "context_anchor nfc c =
     (let p = c_payload c; resuming = c_type c = ''RESUME_EXECUTION_ATTEMPT'' in
      if fst ` set p \<noteq> set anchor_fields \<union> (if resuming then {''resume_from_attempt_id''} else {}) then
        runtime_error ''COMMAND_SCHEMA_INVALID'' ''Execution Attempt payload contains unknown or missing fields''
      else
        and_then (command_text (dget p ''attempt_id'') ''payload.attempt_id'') (\<lambda>attempt_id.
        if \<not> is_mapping (dget p ''context_cursor'') then
          runtime_error ''COMMAND_SCHEMA_INVALID'' ''payload.context_cursor must be an object''
        else
          and_then (cursor_from_dict nfc (dget p ''context_cursor'')) (\<lambda>cursor.
          if ec_mission_id cursor \<noteq> Some (c_mission_id c) \<or> ec_through_seq cursor \<noteq> c_expected_seq c then
            anchor_mismatch ''Context cursor must equal command expected_seq''
          else if ec_stream_schema_version cursor \<noteq> 1 then
            cursor_mismatch ''unsupported Context cursor schema''
          else
            and_then (command_text (dget p ''plan_id'') ''payload.plan_id'') (\<lambda>plan_id.
            and_then (command_text (dget p ''plan_revision_id'') ''payload.plan_revision_id'') (\<lambda>revision_id.
            and_then (command_text (dget p ''task_id'') ''payload.task_id'') (\<lambda>task_id.
            and_then (command_digest (dget p ''context_semantic_digest'') ''payload.context_semantic_digest'') (\<lambda>digest.
            and_then (command_text (dget p ''policy_id'') ''payload.policy_id'') (\<lambda>policy_id.
            and_then (command_digest (dget p ''knowledge_set_digest'') ''payload.knowledge_set_digest'') (\<lambda>knowledge.
            let anchor = anchor_entries p attempt_id plan_id revision_id task_id cursor digest policy_id knowledge in
            and_then (check_all (check_anchor_version anchor) anchor_versions) (\<lambda>_.
            if resuming then
              and_then (command_text (dget p ''resume_from_attempt_id'') ''payload.resume_from_attempt_id'') (\<lambda>i.
              Inr (anchor @ [(''resume_from_attempt_id'', JStr i)]))
            else Inr anchor))))))))))"

section \<open>The handlers\<close>

text \<open>The source of a resumed attempt: the latest attempt of the same task.\<close>

definition resume_source :: "resume_state \<Rightarrow> string \<Rightarrow> string \<Rightarrow> task_state \<Rightarrow> attempt_record py" where
  "resume_source s mission_id predecessor_id task =
     (case attempt_of s predecessor_id of
        None \<Rightarrow> runtime_error ''EXECUTION_ATTEMPT_NOT_FOUND'' (''Attempt not found: '' @ predecessor_id)
      | Some q \<Rightarrow>
          if at_mission_id q \<noteq> mission_id \<or> at_plan_id q \<noteq> tk_plan_id task \<or>
             at_plan_revision_id q \<noteq> tk_plan_revision_id task \<or> at_task_id q \<noteq> tk_task_id task then
            lineage_mismatch ''Resume source does not belong to the target Task''
          else if map_option at_attempt_id (latest_attempt s (tk_task_id task)) \<noteq> Some predecessor_id then
            runtime_error ''EXECUTION_RESUME_SOURCE_NOT_LATEST'' ''Resume source must be the latest Task Attempt''
          else Inr q)"

definition attempt_event ::
  "command_envelope \<Rightarrow> dict \<Rightarrow> string \<Rightarrow> attempt_record option \<Rightarrow> pending_event" where
  "attempt_event c anchor attempt_id predecessor =
     \<lparr>pe_event_type = (if predecessor = None then ''execution.attempt_started.v1'' else ''execution.attempt_resumed.v1''),
      pe_entity_type = ''EXECUTION_ATTEMPT'', pe_entity_id = attempt_id,
      pe_payload = anchor @
        [(''mission_id'', JStr (c_mission_id c)),
         (''attempt_kind'', JStr (if predecessor = None then ''START'' else ''RESUME'')),
         (''predecessor_attempt_id'', jopt (map_option at_attempt_id predecessor)),
         (''root_attempt_id'', JStr (case predecessor of None \<Rightarrow> attempt_id | Some q \<Rightarrow> at_root_attempt_id q)),
         (''ordinal'', JInt (case predecessor of None \<Rightarrow> 1 | Some q \<Rightarrow> at_ordinal q + 1))],
      pe_session_id = c_session_id c\<rparr>"

definition resume_handle :: "(string \<Rightarrow> string) \<Rightarrow> command_envelope \<Rightarrow> extension_value composed_state \<Rightarrow> pending_event list py" where
  "resume_handle nfc c composed =
     (if c_type c \<notin> set ER_COMMAND_TYPES then
        runtime_error ''EXTENSION_COMMAND_NOT_OWNED'' (''unsupported Execution Resume command: '' @ c_type c)
      else
        and_then (require_active_runtime composed c) (\<lambda>_.
        and_then (require_task composed c) (\<lambda>task.
        and_then (resume_state_of composed) (\<lambda>s.
        and_then (context_anchor nfc c) (\<lambda>anchor.
        let attempt_id = py_str (dget anchor ''attempt_id'') in
        if attempt_of s attempt_id \<noteq> None then
          runtime_error ''EXECUTION_ATTEMPT_ID_CONFLICT'' (''Attempt ID already used: '' @ attempt_id)
        else if c_type c = ''START_EXECUTION_ATTEMPT'' then
          if attempts_for_task s (tk_task_id task) \<noteq> [] then
            runtime_error ''EXECUTION_ATTEMPT_ALREADY_EXISTS'' (''Task already has an Attempt: '' @ tk_task_id task)
          else Inr [attempt_event c anchor attempt_id None]
        else
          and_then (resume_source s (c_mission_id c) (py_str (dget anchor ''resume_from_attempt_id'')) task) (\<lambda>q.
          Inr [attempt_event c anchor attempt_id (Some q)]))))))"

section \<open>What an accepted command says about the runtime\<close>

definition runnable :: "extension_value composed_state \<Rightarrow> string \<Rightarrow> string \<Rightarrow> string \<Rightarrow> string \<Rightarrow> bool" where
  "runnable composed session_id plan_id revision_id task_id \<longleftrightarrow>
     (\<exists>m x g plan task. rs_mission (cs_core_state composed) = Some m \<and> ms_status m = Mission_ACTIVE \<and>
        session_of (cs_core_state composed) session_id = Some x \<and> ss_status x = Session_OPEN \<and>
        work_graph_of composed = Inr g \<and> plan_of g plan_id = Some plan \<and> pl_lifecycle_state plan = Plan_OPEN \<and>
        pl_current_revision_id plan = Some revision_id \<and> task_of g task_id = Some task \<and> tk_plan_id task = plan_id \<and>
        tk_plan_revision_id task = revision_id \<and> tk_lifecycle_state task = Task_ACTIVE)"

lemma command_text_Inr: "command_text v name = Inr s \<longleftrightarrow> v = JStr s \<and> nonblank s"
  by (auto simp: command_text_def split: json.split)

lemma command_digest_Inr: "command_digest v name = Inr s \<longleftrightarrow> v = JStr s \<and> nonblank s \<and> is_digest s"
  by (auto simp: command_digest_def and_then_Inr_iff command_text_Inr)

lemma runnable_task_Inr:
  "runnable_task g p r t = Inr task \<longleftrightarrow>
     (\<exists>plan. plan_of g p = Some plan \<and> pl_lifecycle_state plan = Plan_OPEN \<and> pl_current_revision_id plan = Some r \<and>
        task_of g t = Some task \<and> tk_plan_id task = p \<and> tk_plan_revision_id task = r \<and> tk_lifecycle_state task = Task_ACTIVE)"
  by (auto simp: runnable_task_def split: option.split)

lemma require_active_Inr:
  "require_active_runtime composed c = Inr u \<longleftrightarrow>
     (\<exists>m i x. rs_mission (cs_core_state composed) = Some m \<and> ms_status m = Mission_ACTIVE \<and> c_session_id c = Some i \<and> i \<noteq> [] \<and>
        session_of (cs_core_state composed) i = Some x \<and> ss_mission_id x = c_mission_id c \<and> ss_status x = Session_OPEN)"
  by (auto simp: require_active_runtime_def split: option.split)

lemma check_anchor_versions:
  "check_all (check_anchor_version p) ns = Inr () \<longleftrightarrow> (\<forall>n \<in> set ns. dget p n = JInt 1)"
  by (induction ns) (auto simp: check_anchor_version_def and_then_Inr_iff)

lemma anchor_checked:
  "check_all (check_anchor_version (anchor_entries p i pl rv t cursor digest policy knowledge)) anchor_versions = Inr u \<longleftrightarrow>
     (\<forall>n \<in> set anchor_versions. dget p n = JInt 1)"
  using check_anchor_versions [of "anchor_entries p i pl rv t cursor digest policy knowledge" anchor_versions]
  by (cases u) (simp add: anchor_entries_def anchor_versions_def)

text \<open>An accepted anchor: its texts and digests are well formed, its cursor is the head the command expects.\<close>

definition anchor_ok ::
  "(string \<Rightarrow> string) \<Rightarrow> command_envelope \<Rightarrow> string \<Rightarrow> string \<Rightarrow> string \<Rightarrow> string \<Rightarrow> event_cursor \<Rightarrow> string \<Rightarrow> string \<Rightarrow> string \<Rightarrow> bool" where
  "anchor_ok nfc c i pl rv t cursor digest policy knowledge \<longleftrightarrow>
     nonblank i \<and> nonblank pl \<and> nonblank rv \<and> nonblank t \<and> nonblank policy \<and> nonblank digest \<and> is_digest digest \<and>
     nonblank knowledge \<and> is_digest knowledge \<and> cursor_from_dict nfc (dget (c_payload c) ''context_cursor'') = Inr cursor \<and>
     ec_mission_id cursor = Some (c_mission_id c) \<and> ec_through_seq cursor = c_expected_seq c \<and>
     ec_stream_schema_version cursor = 1 \<and> (\<forall>n \<in> set anchor_versions. dget (c_payload c) n = JInt 1) \<and>
     dget (c_payload c) ''plan_id'' = JStr pl \<and> dget (c_payload c) ''plan_revision_id'' = JStr rv \<and>
     dget (c_payload c) ''task_id'' = JStr t"

lemma context_anchor_Inr:
  assumes "context_anchor nfc c = Inr anchor"
  obtains i pl rv t cursor digest policy knowledge extra where
    "anchor_ok nfc c i pl rv t cursor digest policy knowledge"
    and "anchor = anchor_entries (c_payload c) i pl rv t cursor digest policy knowledge @ extra"
    and "c_type c = ''RESUME_EXECUTION_ATTEMPT'' \<Longrightarrow> \<exists>source. extra = [(''resume_from_attempt_id'', JStr source)]"
    and "c_type c \<noteq> ''RESUME_EXECUTION_ATTEMPT'' \<Longrightarrow> extra = []"
proof -
  let ?p = "c_payload c" and ?resuming = "c_type c = ''RESUME_EXECUTION_ATTEMPT''"
  have "\<exists>i pl rv t cursor digest policy knowledge. (if ?resuming then
           and_then (command_text (dget ?p ''resume_from_attempt_id'') ''payload.resume_from_attempt_id'') (\<lambda>source.
           Inr (anchor_entries ?p i pl rv t cursor digest policy knowledge @ [(''resume_from_attempt_id'', JStr source)]))
         else Inr (anchor_entries ?p i pl rv t cursor digest policy knowledge)) = Inr anchor \<and>
      anchor_ok nfc c i pl rv t cursor digest policy knowledge"
    using assms unfolding context_anchor_def Let_def and_then_Inr_iff if_Inl_eq_Inr_iff command_text_Inr command_digest_Inr
      anchor_mismatch_def cursor_mismatch_def anchor_checked anchor_ok_def not_not de_Morgan_disj
    by - (elim exE conjE, (rule exI)+, (rule conjI, assumption)+, assumption)
  then obtain i pl rv t cursor digest policy knowledge where
      ok: "anchor_ok nfc c i pl rv t cursor digest policy knowledge"
      and rest: "(if ?resuming then
           and_then (command_text (dget ?p ''resume_from_attempt_id'') ''payload.resume_from_attempt_id'') (\<lambda>source.
           Inr (anchor_entries ?p i pl rv t cursor digest policy knowledge @ [(''resume_from_attempt_id'', JStr source)]))
         else Inr (anchor_entries ?p i pl rv t cursor digest policy knowledge)) = Inr anchor"
    by (elim exE conjE) (rule that)
  show ?thesis
  proof (cases ?resuming)
    case True
    then obtain source where "anchor = anchor_entries ?p i pl rv t cursor digest policy knowledge @ [(''resume_from_attempt_id'', JStr source)]"
      using rest by (simp add: and_then_Inr_iff) blast
    then show ?thesis using that [OF ok] True by blast
  next
    case False
    then show ?thesis using that [OF ok, of "[]"] rest by simp
  qed
qed

section \<open>What an accepted command proposes\<close>

definition resume_entry :: "attempt_record option \<Rightarrow> dict" where
  "resume_entry predecessor = (case predecessor of None \<Rightarrow> [] | Some q \<Rightarrow> [(''resume_from_attempt_id'', JStr (at_attempt_id q))])"

definition proposes ::
  "(string \<Rightarrow> string) \<Rightarrow> command_envelope \<Rightarrow> extension_value composed_state \<Rightarrow> resume_state \<Rightarrow> pending_event \<Rightarrow> bool" where
  "proposes nfc c composed s p \<longleftrightarrow>
     (\<exists>i pl rv t cursor digest policy knowledge session previous.
        anchor_ok nfc c i pl rv t cursor digest policy knowledge \<and> attempt_of s i = None \<and>
        c_session_id c = Some session \<and> runnable composed session pl rv t \<and> previous = latest_attempt s t \<and>
        (\<forall>q. previous = Some q \<longrightarrow> at_plan_id q = pl \<and> at_plan_revision_id q = rv \<and> attempt_of s (at_attempt_id q) = Some q) \<and>
        p = attempt_event c (anchor_entries (c_payload c) i pl rv t cursor digest policy knowledge @ resume_entry previous) i previous)"

lemma task_of_id: "task_of g i = Some t \<Longrightarrow> tk_task_id t = i"
  by (auto simp: task_of_def dest: find_by_SomeD)

lemma resume_source_Inr:
  assumes "resume_source s m i task = Inr q" and "distinct (map at_attempt_id (er_attempts s))"
  shows "latest_attempt s (tk_task_id task) = Some q" and "at_plan_id q = tk_plan_id task"
    and "at_plan_revision_id q = tk_plan_revision_id task" and "at_attempt_id q = i" and "attempt_of s i = Some q"
proof -
  have q: "attempt_of s i = Some q" "at_plan_id q = tk_plan_id task" "at_plan_revision_id q = tk_plan_revision_id task"
    and latest: "map_option at_attempt_id (latest_attempt s (tk_task_id task)) = Some i"
    using assms(1) by (auto simp: resume_source_def lineage_mismatch_def split: option.split_asm if_split_asm)
  then show "at_plan_id q = tk_plan_id task" "at_plan_revision_id q = tk_plan_revision_id task" "attempt_of s i = Some q" by simp_all
  show i: "at_attempt_id q = i" using attempt_of_SomeD [OF q(1)] by simp
  obtain l where l: "latest_attempt s (tk_task_id task) = Some l" "at_attempt_id l = at_attempt_id q" using latest i by auto
  then have "l = q"
    using latest_attempt_Some [OF l(1)] attempt_of_SomeD [OF q(1)] assms(2) by (auto simp: distinct_map dest: inj_onD)
  then show "latest_attempt s (tk_task_id task) = Some q" using l(1) by simp
qed

lemma anchor_lookup:
  "dget (anchor_entries p i pl rv t cursor digest policy knowledge @ extra) ''attempt_id'' = JStr i"
  "dget (anchor_entries p i pl rv t cursor digest policy knowledge @ [(''resume_from_attempt_id'', v)]) ''resume_from_attempt_id'' = v"
  by (simp_all add: anchor_entries_def)

lemma resume_handle_Inr:
  assumes "resume_handle nfc c composed = Inr ps" and "resume_state_of composed = Inr s"
    and distinct: "distinct (map at_attempt_id (er_attempts s))"
  shows "\<exists>p. ps = [p] \<and> proposes nfc c composed s p"
proof -
  obtain u task anchor where active: "require_active_runtime composed c = Inr u" and task: "require_task composed c = Inr task"
    and anchor: "context_anchor nfc c = Inr anchor" and known: "c_type c \<in> set ER_COMMAND_TYPES"
    and fresh: "attempt_of s (py_str (dget anchor ''attempt_id'')) = None"
    and rest: "(if c_type c = ''START_EXECUTION_ATTEMPT'' then
          if attempts_for_task s (tk_task_id task) \<noteq> [] then
            runtime_error ''EXECUTION_ATTEMPT_ALREADY_EXISTS'' (''Task already has an Attempt: '' @ tk_task_id task)
          else Inr [attempt_event c anchor (py_str (dget anchor ''attempt_id'')) None]
        else
          and_then (resume_source s (c_mission_id c) (py_str (dget anchor ''resume_from_attempt_id'')) task) (\<lambda>q.
          Inr [attempt_event c anchor (py_str (dget anchor ''attempt_id'')) (Some q)])) = Inr ps"
    using assms(1,2) unfolding resume_handle_def Let_def and_then_Inr_iff if_Inl_eq_Inr_iff not_not by auto
  obtain i pl rv t cursor digest policy knowledge extra where ok: "anchor_ok nfc c i pl rv t cursor digest policy knowledge"
    and shape: "anchor = anchor_entries (c_payload c) i pl rv t cursor digest policy knowledge @ extra"
    and resuming: "c_type c = ''RESUME_EXECUTION_ATTEMPT'' \<Longrightarrow> \<exists>source. extra = [(''resume_from_attempt_id'', JStr source)]"
    and starting: "c_type c \<noteq> ''RESUME_EXECUTION_ATTEMPT'' \<Longrightarrow> extra = []"
    by (rule context_anchor_Inr [OF anchor]) blast
  have i: "py_str (dget anchor ''attempt_id'') = i" by (simp add: shape anchor_lookup)
  have texts: "dget (c_payload c) ''plan_id'' = JStr pl" "dget (c_payload c) ''plan_revision_id'' = JStr rv"
      "dget (c_payload c) ''task_id'' = JStr t" using ok by (simp_all add: anchor_ok_def)
  obtain g where g: "work_graph_of composed = Inr g" "runnable_task g pl rv t = Inr task"
    using task by (auto simp: require_task_def and_then_Inr_iff command_text_Inr texts)
  obtain session where session: "c_session_id c = Some session" "runnable composed session pl rv t"
    using active g by (auto simp: require_active_Inr runnable_task_Inr runnable_def)
  have named: "tk_task_id task = t" "tk_plan_id task = pl" "tk_plan_revision_id task = rv"
    using g(2) by (auto simp: runnable_task_Inr dest: task_of_id)
  let ?proposal = "\<lambda>previous. attempt_event c (anchor_entries (c_payload c) i pl rv t cursor digest policy knowledge @ resume_entry previous) i previous"
  have "\<exists>previous. previous = latest_attempt s t \<and> ps = [?proposal previous] \<and>
     (\<forall>q. previous = Some q \<longrightarrow> at_plan_id q = pl \<and> at_plan_revision_id q = rv \<and> attempt_of s (at_attempt_id q) = Some q)"
  proof (cases "c_type c = ''START_EXECUTION_ATTEMPT''")
    case True
    then have "latest_attempt s t = None" "ps = [?proposal None]"
      using rest starting i by (simp_all add: latest_attempt_def named shape resume_entry_def split: if_split_asm)
    then show ?thesis by simp
  next
    case False
    then have "c_type c = ''RESUME_EXECUTION_ATTEMPT''" using known by (simp add: ER_COMMAND_TYPES_def)
    then obtain source where extra: "extra = [(''resume_from_attempt_id'', JStr source)]" using resuming by blast
    then obtain q where q: "resume_source s (c_mission_id c) source task = Inr q" and ps: "ps = [attempt_event c anchor i (Some q)]"
      using rest False i by (auto simp: and_then_Inr_iff shape anchor_lookup)
    note source = resume_source_Inr [OF q distinct, unfolded named]
    then show ?thesis using ps by (intro exI [of _ "Some q"]) (simp add: shape extra resume_entry_def)
  qed
  then show ?thesis using ok session fresh i unfolding proposes_def by metis
qed

section \<open>The handlers are sound for the reducer\<close>

text \<open>The payload of a proposed event, as the bus stores it.\<close>

abbreviation proposal ::
  "command_envelope \<Rightarrow> string \<Rightarrow> string \<Rightarrow> string \<Rightarrow> string \<Rightarrow> event_cursor \<Rightarrow> string \<Rightarrow> string \<Rightarrow> string \<Rightarrow>
   attempt_record option \<Rightarrow> pending_event" where
  "proposal c i pl rv t cursor digest policy knowledge previous \<equiv>
     attempt_event c (anchor_entries (c_payload c) i pl rv t cursor digest policy knowledge @ resume_entry previous) i previous"

lemma proposal_fields:
  "dget (pe_payload (proposal c i pl rv t cursor digest policy knowledge previous)) ''attempt_id'' = JStr i"
  "dget (pe_payload (proposal c i pl rv t cursor digest policy knowledge previous)) ''mission_id'' = JStr (c_mission_id c)"
  "dget (pe_payload (proposal c i pl rv t cursor digest policy knowledge previous)) ''plan_id'' = JStr pl"
  "dget (pe_payload (proposal c i pl rv t cursor digest policy knowledge previous)) ''plan_revision_id'' = JStr rv"
  "dget (pe_payload (proposal c i pl rv t cursor digest policy knowledge previous)) ''task_id'' = JStr t"
  "dget (pe_payload (proposal c i pl rv t cursor digest policy knowledge previous)) ''attempt_kind'' =
     JStr (if previous = None then ''START'' else ''RESUME'')"
  "dget (pe_payload (proposal c i pl rv t cursor digest policy knowledge previous)) ''predecessor_attempt_id'' =
     jopt (map_option at_attempt_id previous)"
  "dget (pe_payload (proposal c i pl rv t cursor digest policy knowledge previous)) ''root_attempt_id'' =
     JStr (case previous of None \<Rightarrow> i | Some q \<Rightarrow> at_root_attempt_id q)"
  "dget (pe_payload (proposal c i pl rv t cursor digest policy knowledge previous)) ''ordinal'' =
     JInt (case previous of None \<Rightarrow> 1 | Some q \<Rightarrow> at_ordinal q + 1)"
  "dget (pe_payload (proposal c i pl rv t cursor digest policy knowledge previous)) ''context_cursor'' = JObj (cursor_to_dict cursor)"
  "dget (pe_payload (proposal c i pl rv t cursor digest policy knowledge previous)) ''context_semantic_digest'' = JStr digest"
  "dget (pe_payload (proposal c i pl rv t cursor digest policy knowledge previous)) ''knowledge_set_digest'' = JStr knowledge"
  "dget (pe_payload (proposal c i pl rv t cursor digest policy knowledge previous)) ''policy_id'' = JStr policy"
  "previous \<noteq> None \<Longrightarrow> dget (pe_payload (proposal c i pl rv t cursor digest policy knowledge previous)) ''resume_from_attempt_id'' =
     jopt (map_option at_attempt_id previous)"
  by (cases previous; simp add: attempt_event_def anchor_entries_def resume_entry_def anchor_versions_def)+

lemma proposal_versions:
  assumes "k \<in> set anchor_versions"
  shows "dget (pe_payload (proposal c i pl rv t cursor digest policy knowledge previous)) k = dget (c_payload c) k"
proof -
  have "k = ''context_schema_version'' \<or> k = ''context_builder_version'' \<or> k = ''context_canonicalization_version'' \<or>
      k = ''policy_version''" using assms by (simp add: anchor_versions_def)
  then show ?thesis by (elim disjE) (simp_all add: attempt_event_def anchor_entries_def)
qed

lemma proposal_keys:
  "fst ` set (pe_payload (proposal c i pl rv t cursor digest policy knowledge previous)) =
     set attempt_payload_fields \<union> (if previous = None then {} else {''resume_from_attempt_id''})"
  by (cases previous)
     (simp_all add: set_eq_subset attempt_event_def anchor_entries_def resume_entry_def attempt_payload_fields_def)

lemma kind_suffix:
  "ends_with ''resumed.v1'' ''execution.attempt_started.v1'' = False" "ends_with ''resumed.v1'' ''execution.attempt_resumed.v1'' = True"
  "ends_with ''started.v1'' ''execution.attempt_started.v1'' = True" "ends_with ''started.v1'' ''execution.attempt_resumed.v1'' = False"
  by (simp_all add: ends_with_def starts_with_def)

text \<open>An event that the bus makes of a proposal.\<close>

definition made_of :: "command_envelope \<Rightarrow> pending_event \<Rightarrow> event_envelope \<Rightarrow> bool" where
  "made_of c p e \<longleftrightarrow>
     ev_mission_id e = c_mission_id c \<and> ev_seq e = c_expected_seq c + 1 \<and> ev_event_type e = pe_event_type p \<and>
     ev_entity_type e = pe_entity_type p \<and> ev_entity_id e = pe_entity_id p \<and> ev_payload e = canon_dict (pe_payload p) \<and>
     ev_session_id e = pe_session_id p \<and> nonblank (ev_command_id e) \<and> nonblank (ev_created_at e) \<and>
     nonblank (ev_initiator_type e) \<and> nonblank (ev_initiator_id e)"

definition proposed_attempt ::
  "command_envelope \<Rightarrow> event_envelope \<Rightarrow> string \<Rightarrow> string \<Rightarrow> string \<Rightarrow> string \<Rightarrow> event_cursor \<Rightarrow> string \<Rightarrow> string \<Rightarrow> string \<Rightarrow>
   string \<Rightarrow> attempt_record option \<Rightarrow> attempt_record" where
  "proposed_attempt c e i pl rv t cursor digest policy knowledge session previous =
     \<lparr>at_attempt_id = i, at_mission_id = c_mission_id c, at_runtime_session_id = session, at_plan_id = pl,
      at_plan_revision_id = rv, at_task_id = t, at_attempt_kind = (if previous = None then START else RESUME),
      at_predecessor_attempt_id = map_option at_attempt_id previous,
      at_root_attempt_id = (case previous of None \<Rightarrow> i | Some q \<Rightarrow> at_root_attempt_id q),
      at_ordinal = (case previous of None \<Rightarrow> 1 | Some q \<Rightarrow> at_ordinal q + 1), at_context_cursor = cursor,
      at_context_semantic_digest = digest, at_context_schema_version = 1, at_context_builder_version = 1,
      at_context_canonicalization_version = 1, at_policy_id = policy, at_policy_version = 1,
      at_knowledge_set_digest = knowledge, at_command_id = ev_command_id e, at_created_seq = ev_seq e,
      at_created_at = ev_created_at e, at_created_by = (ev_initiator_type e, ev_initiator_id e)\<rparr>"

lemma check_payload_versions:
  "check_all (check_payload_version p) ns = Inr () \<longleftrightarrow> (\<forall>n \<in> set ns. py_eq (dget p n) (JInt 1) \<and> \<not> is_bool (dget p n))"
  by (induction ns) (auto simp: check_payload_version_def and_then_Inr_iff)

text \<open>The payload of a proposal passes the reducer's checks, and the record built from it is the proposed attempt.\<close>

lemma proposal_accepted:
  assumes nfc: "idempotent nfc" and ok: "anchor_ok nfc c i pl rv t cursor digest policy knowledge"
    and made: "made_of c (proposal c i pl rv t cursor digest policy knowledge previous) e"
    and session: "c_session_id c = Some session" "nonblank session" and mission: "nonblank (c_mission_id c)"
    and previous: "\<And>q. previous = Some q \<Longrightarrow> attempt_ok nfc q"
  shows "require_event_payload nfc e = Inr (ev_payload e)"
    and "event_record nfc e (ev_payload e) = Inr (proposed_attempt c e i pl rv t cursor digest policy knowledge session previous)"
    and "attempt_ok nfc (proposed_attempt c e i pl rv t cursor digest policy knowledge session previous)"
proof -
  let ?a = "proposed_attempt c e i pl rv t cursor digest policy knowledge session previous"
  note anchor = ok [unfolded anchor_ok_def] and event = made [unfolded made_of_def]
  have cursor: "cursor_ok nfc cursor" using cursor_from_dict_ok [OF nfc] anchor by blast
  then have read: "cursor_from_dict nfc (canon (JObj (cursor_to_dict cursor))) = Inr cursor"
    unfolding cursor_from_canon by (rule cursor_round_trip)
  have payload: "dget (ev_payload e) k = canon (dget (pe_payload (proposal c i pl rv t cursor digest policy knowledge previous)) k)" for k
    using event by (simp add: dget_canon_dict)
  have keys: "fst ` set (ev_payload e) = set attempt_payload_fields \<union> (if previous = None then {} else {''resume_from_attempt_id''})"
    using event proposal_keys by (simp add: canon_dict_keys)
  have version: "dget (ev_payload e) k = JInt 1" if "k \<in> set anchor_versions" for k
    using anchor that by (simp add: payload proposal_versions)
  have versions: "check_all (check_payload_version (ev_payload e)) anchor_versions = Inr ()"
    by (simp add: check_payload_versions version py_eq_def)
  have type: "ev_event_type e = (if previous = None then ''execution.attempt_started.v1'' else ''execution.attempt_resumed.v1'')"
    "ev_entity_type e = ''EXECUTION_ATTEMPT''" "ev_entity_id e = i" "ev_session_id e = Some session"
    using event session by (simp_all add: attempt_event_def)
  have seq: "ev_seq e = c_expected_seq c + 1" "0 \<le> c_expected_seq c" "ev_mission_id e = c_mission_id c"
    using event anchor cursor by (auto simp: cursor_ok_def)
  have root: "nonblank (at_root_attempt_id ?a)" using anchor previous by (cases previous) (auto simp: proposed_attempt_def attempt_ok_def)
  have texts: "payload_text (dget (ev_payload e) ''plan_id'') n = Inr pl" "payload_text (dget (ev_payload e) ''plan_revision_id'') n = Inr rv"
      "payload_text (dget (ev_payload e) ''task_id'') n = Inr t" "payload_text (dget (ev_payload e) ''policy_id'') n = Inr policy"
      "payload_digest (dget (ev_payload e) ''context_semantic_digest'') n = Inr digest"
      "payload_digest (dget (ev_payload e) ''knowledge_set_digest'') n = Inr knowledge"
      "payload_text (dget (ev_payload e) ''root_attempt_id'') n = Inr (at_root_attempt_id ?a)"
      "cursor_from_dict nfc (dget (ev_payload e) ''context_cursor'') = Inr cursor" for n
    using anchor root
    by (simp_all only: payload proposal_fields read) (simp_all add: payload_text_def payload_digest_def proposed_attempt_def)
  show "require_event_payload nfc e = Inr (ev_payload e)"
  proof -
    have plain: "payload_text (JStr session) n = Inr session" for n using session by (simp add: payload_text_def)
    have absent: "dhas (ev_payload e) ''runtime_session_id'' = False"
    proof -
      have "''runtime_session_id'' \<notin> fst ` set (ev_payload e)" unfolding keys by (simp add: attempt_payload_fields_def)
      then show ?thesis by (simp add: dhas_def map_of_eq_None_iff)
    qed
    show ?thesis
      unfolding require_event_payload_def Let_def texts versions [unfolded anchor_versions_def] absent keys type
      using anchor seq
      by (cases previous)
         (simp_all add: ER_EVENT_TYPES_def kind_suffix payload proposal_fields py_eq_JStr plain)
  qed
  have "nonblank (at_attempt_id q) \<and> nonblank (at_root_attempt_id q) \<and> 1 \<le> at_ordinal q" if "previous = Some q" for q
    using previous [OF that] by (simp add: attempt_ok_def)
  then show ok: "attempt_ok nfc ?a"
    using anchor event session mission cursor seq
    by (cases previous) (simp_all add: attempt_ok_def proposed_attempt_def)
  have versions: "dget (ev_payload e) ''context_schema_version'' = JInt 1" "dget (ev_payload e) ''context_builder_version'' = JInt 1"
      "dget (ev_payload e) ''context_canonicalization_version'' = JInt 1" "dget (ev_payload e) ''policy_version'' = JInt 1"
    by (rule version, simp add: anchor_versions_def)+
  have fields: "dget (ev_payload e) ''attempt_id'' = JStr i"
      "dget (ev_payload e) ''attempt_kind'' = JStr (attempt_kind_value (at_attempt_kind ?a))"
      "dget (ev_payload e) ''predecessor_attempt_id'' = jopt (at_predecessor_attempt_id ?a)"
      "dget (ev_payload e) ''ordinal'' = JInt (at_ordinal ?a)" "dget (ev_payload e) ''context_semantic_digest'' = JStr digest"
      "dget (ev_payload e) ''knowledge_set_digest'' = JStr knowledge" "dget (ev_payload e) ''policy_id'' = JStr policy"
    unfolding payload proposal_fields by (cases previous, simp_all add: proposed_attempt_def)
  show "event_record nfc e (ev_payload e) = Inr ?a"
    unfolding event_record_def texts and_then_simps fields versions type option.case
  proof -
    let ?d = "[(''attempt_id'', JStr (py_str (JStr i))), (''mission_id'', JStr (ev_mission_id e)),
        (''runtime_session_id'', JStr session), (''plan_id'', JStr pl), (''plan_revision_id'', JStr rv), (''task_id'', JStr t),
        (''attempt_kind'', JStr (py_str (JStr (attempt_kind_value (at_attempt_kind ?a))))),
        (''predecessor_attempt_id'', jopt (at_predecessor_attempt_id ?a)), (''root_attempt_id'', JStr (at_root_attempt_id ?a)),
        (''ordinal'', JInt (at_ordinal ?a)), (''context_semantic_digest'', JStr digest), (''context_schema_version'', JInt 1),
        (''context_builder_version'', JInt 1), (''context_canonicalization_version'', JInt 1), (''policy_id'', JStr policy),
        (''policy_version'', JInt 1), (''knowledge_set_digest'', JStr knowledge), (''command_id'', JStr (ev_command_id e)),
        (''created_seq'', JInt (ev_seq e)), (''created_at'', JStr (ev_created_at e)),
        (''created_by'', JObj [(''type'', JStr (ev_initiator_type e)), (''id'', JStr (ev_initiator_id e))])]"
    have "ExecutionAttemptRecord ?d (at_context_cursor ?a) = Inr ?a"
    proof (rule ExecutionAttemptRecord_total [OF ok])
      show "created_by_fields (dget ?d ''created_by'') = Inr (at_created_by ?a)"
        using event by (simp add: created_by_Inr proposed_attempt_def)
      show "dget ?d k = dget (attempt_to_dict ?a) k" if "k \<notin> {''context_cursor'', ''created_by''}" for k
        using that event by (simp add: attempt_to_dict_def proposed_attempt_def)
    qed
    then show "ExecutionAttemptRecord ?d cursor = Inr ?a" by (simp add: proposed_attempt_def)
  qed
qed

lemma latest_None: "latest_attempt s t = None \<longleftrightarrow> attempts_for_task s t = []"
  by (simp add: latest_attempt_def Let_def)

lemma canon_jopt: "canon (jopt x) = jopt x"
  by (cases x) simp_all

lemma proposal_reduced:
  assumes nfc: "idempotent nfc" and proposes: "proposes nfc c composed s p" and made: "made_of c p e"
    and state: "resume_ok nfc s" "er_mission_id s = c_mission_id c" and earlier: "\<And>a. a \<in> set (er_attempts s) \<Longrightarrow> at_created_seq a \<le> c_expected_seq c"
    and session: "\<And>i. c_session_id c = Some i \<Longrightarrow> nonblank i"
    and core: "mission_open core" "rs_mission_id core = c_mission_id c" "rs_seq core = ev_seq e"
  shows "\<exists>s'. resume_reduce nfc s e core = Inr s'"
proof -
  obtain i pl rv t cursor digest policy knowledge session_id previous where
      ok: "anchor_ok nfc c i pl rv t cursor digest policy knowledge" and fresh: "attempt_of s i = None"
      and session_id: "c_session_id c = Some session_id" and previous: "previous = latest_attempt s t"
      and source: "\<And>q. previous = Some q \<Longrightarrow> at_plan_id q = pl \<and> at_plan_revision_id q = rv \<and> attempt_of s (at_attempt_id q) = Some q"
      and p: "p = proposal c i pl rv t cursor digest policy knowledge previous"
    using proposes unfolding proposes_def by (elim exE conjE) (rule that, blast+)
  let ?a = "proposed_attempt c e i pl rv t cursor digest policy knowledge session_id previous"
  have member: "q \<in> set (er_attempts s)" "at_task_id q = t" if "previous = Some q" for q
    using latest_attempt_Some that previous by auto
  note accepted = proposal_accepted [OF nfc ok made [unfolded p] session_id session [OF session_id]]
  have facts: "nonblank (c_mission_id c)" "attempt_ok nfc q" if "previous = Some q" for q
    using state member(1) [OF that] by (auto simp: resume_ok_def)
  have mission: "nonblank (c_mission_id c)" using state by (simp add: resume_ok_def)
  have accepted: "require_event_payload nfc e = Inr (ev_payload e)" "event_record nfc e (ev_payload e) = Inr ?a"
    by (rule accepted [OF mission]; rule facts(2); assumption)+
  have event: "ev_mission_id e = c_mission_id c" "ev_seq e = c_expected_seq c + 1"
    and payload: "dget (ev_payload e) k = canon (dget (pe_payload (proposal c i pl rv t cursor digest policy knowledge previous)) k)" for k
    using made by (simp_all add: made_of_def p dget_canon_dict)
  have fields: "dget (ev_payload e) ''attempt_id'' = JStr i"
      "dget (ev_payload e) ''attempt_kind'' = JStr (if previous = None then ''START'' else ''RESUME'')"
      "dget (ev_payload e) ''predecessor_attempt_id'' = jopt (map_option at_attempt_id previous)"
      "dget (ev_payload e) ''root_attempt_id'' = JStr (case previous of None \<Rightarrow> i | Some q \<Rightarrow> at_root_attempt_id q)"
      "dget (ev_payload e) ''ordinal'' = JInt (case previous of None \<Rightarrow> 1 | Some q \<Rightarrow> at_ordinal q + 1)"
      "dget (ev_payload e) ''plan_id'' = JStr pl" "dget (ev_payload e) ''plan_revision_id'' = JStr rv"
      "dget (ev_payload e) ''task_id'' = JStr t"
    unfolding payload proposal_fields by (simp_all add: canon_jopt)
  have resumed: "dget (ev_payload e) ''resume_from_attempt_id'' = jopt (map_option at_attempt_id previous)" if "previous \<noteq> None"
    unfolding payload proposal_fields(14) [OF that] by (rule canon_jopt)
  have predecessor: "find_predecessor s (jopt (map_option at_attempt_id previous)) = previous"
    using source by (cases previous) (simp_all add: find_predecessor_def)
  have checked: "(if py_str (dget (ev_payload e) ''attempt_kind'') = ''START'' then check_start s (ev_payload e) i previous
      else check_resume s (ev_payload e) previous) = Inr ()"
  proof (cases previous)
    case None
    then have "attempts_for_task s t = []" using previous latest_None by metis
    then show ?thesis using None by (simp add: fields check_start_def py_eq_def)
  next
    case (Some q)
    then show ?thesis using previous source [OF Some] member(2) [OF Some] resumed
      by (simp add: fields check_resume_Inr py_eq_def)
  qed
  have "ExecutionResumeState (er_mission_id s) (er_attempts s @ [?a]) = Inr (s\<lparr>er_attempts := er_attempts s @ [?a]\<rparr>)"
    using state event fresh order_trans [OF earlier, of _ "c_expected_seq c + 1"]
    by (auto simp: ExecutionResumeState_Inr resume_ok_def proposed_attempt_def attempt_of_None sorted_append)
  then have "resume_reduce nfc s e core = Inr (s\<lparr>er_attempts := er_attempts s @ [?a]\<rparr>)"
    unfolding resume_reduce_def Let_def accepted(1) and_then_simps fields(1,3) py_str.simps(1) predecessor
    using core state event fresh checked accepted(2) by (simp split del: if_split)
  then show ?thesis ..
qed

text \<open>The handlers of attempts are sound for the reducer.\<close>

lemma resume_handle_sound:
  assumes "idempotent nfc" and "resume_handle nfc c composed = Inr ps" and "resume_state_of composed = Inr s"
    and "resume_ok nfc s" and "er_mission_id s = c_mission_id c"
    and "\<And>a. a \<in> set (er_attempts s) \<Longrightarrow> at_created_seq a \<le> c_expected_seq c"
    and "\<And>i. c_session_id c = Some i \<Longrightarrow> nonblank i"
  shows "\<exists>p. ps = [p] \<and> proposes nfc c composed s p \<and>
    (\<forall>e core. made_of c p e \<longrightarrow> mission_open core \<longrightarrow> rs_mission_id core = c_mission_id c \<longrightarrow> rs_seq core = ev_seq e \<longrightarrow>
       (\<exists>s'. resume_reduce nfc s e core = Inr s'))"
proof -
  have "distinct (map at_attempt_id (er_attempts s))" using assms(4) by (simp add: resume_ok_def)
  then obtain p where p: "ps = [p]" "proposes nfc c composed s p" using resume_handle_Inr [OF assms(2,3)] by blast
  then show ?thesis using proposal_reduced [OF assms(1) p(2) _ assms(4-7)] by blast
qed

end
