(* ===== verification/ResumeProjections.thy ===== *)
theory ResumeProjections
  imports ResumeHandlers WgProjections
begin

text \<open>
  execution_resume/projections.py: the projection table of execution attempts with its migration, and the callbacks
  that clear, write, read and check it.  Main result: reading the table back after a write gives the attempts that
  were written, in their order (\<open>er_read_apply\<close>).
\<close>

section \<open>The table\<close>

definition ER_PROJECTION_TABLES :: "string list" where
  "ER_PROJECTION_TABLES = [''execution_attempt_projection'']"

definition attempt_table :: table_def where
  "attempt_table =
     projection_table
       [(''mission_id'', True), (''attempt_id'', True), (''task_id'', True), (''plan_id'', True), (''plan_revision_id'', True),
        (''attempt_kind'', True), (''predecessor_attempt_id'', False), (''root_attempt_id'', True), (''ordinal'', True),
        (''context_cursor_seq'', True), (''context_semantic_digest'', True), (''context_schema_version'', True),
        (''context_builder_version'', True), (''context_canonicalization_version'', True), (''policy_id'', True),
        (''policy_version'', True), (''knowledge_set_digest'', True), (''state_json'', True), (''projection_seq'', True)]
       [''mission_id'', ''attempt_id'']"

definition ER_MIGRATION_SQL :: "string list" where
  "ER_MIGRATION_SQL =
     [sql_text
       [''    CREATE TABLE execution_attempt_projection ('',
        ''        mission_id TEXT NOT NULL,'',
        ''        attempt_id TEXT NOT NULL,'',
        ''        task_id TEXT NOT NULL,'',
        ''        plan_id TEXT NOT NULL,'',
        ''        plan_revision_id TEXT NOT NULL,'',
        ''        attempt_kind TEXT NOT NULL,'',
        ''        predecessor_attempt_id TEXT,'',
        ''        root_attempt_id TEXT NOT NULL,'',
        ''        ordinal INTEGER NOT NULL,'',
        ''        context_cursor_seq INTEGER NOT NULL,'',
        ''        context_semantic_digest TEXT NOT NULL,'',
        ''        context_schema_version INTEGER NOT NULL,'',
        ''        context_builder_version INTEGER NOT NULL,'',
        ''        context_canonicalization_version INTEGER NOT NULL,'',
        ''        policy_id TEXT NOT NULL,'',
        ''        policy_version INTEGER NOT NULL,'',
        ''        knowledge_set_digest TEXT NOT NULL,'',
        ''        state_json TEXT NOT NULL,'',
        ''        projection_seq INTEGER NOT NULL,'',
        ''        PRIMARY KEY(mission_id, attempt_id)'',
        ''    )'', ''    '']]"

definition er_apply_schema :: "unit callback" where
  "er_apply_schema =
     ([SqlCreate ''table'' ''execution_attempt_projection'' ''execution_attempt_projection'' (TableDef attempt_table)], Inr ())"

definition er_migrations :: "(string \<Rightarrow> string) \<Rightarrow> migration_step list py" where
  "er_migrations sha =
     and_then (make_MigrationStep 1 (canonical_sha256 sha (JList (map JStr ER_MIGRATION_SQL))) er_apply_schema) (\<lambda>step.
     Inr [step])"

section \<open>Writing\<close>

definition er_clear :: "db \<Rightarrow> string option \<Rightarrow> unit callback" where
  "er_clear d mission_id =
     ([SqlDelete ''execution_attempt_projection''
         (case mission_id of None \<Rightarrow> [] | Some m \<Rightarrow> [(''mission_id'', JStr m)])], Inr ())"

definition attempt_row :: "string \<Rightarrow> int \<Rightarrow> attempt_record \<Rightarrow> dict" where
  "attempt_row m n a =
     [(''mission_id'', JStr m), (''attempt_id'', JStr (at_attempt_id a)), (''task_id'', JStr (at_task_id a)),
      (''plan_id'', JStr (at_plan_id a)), (''plan_revision_id'', JStr (at_plan_revision_id a)),
      (''attempt_kind'', JStr (attempt_kind_value (at_attempt_kind a))),
      (''predecessor_attempt_id'', jopt (at_predecessor_attempt_id a)), (''root_attempt_id'', JStr (at_root_attempt_id a)),
      (''ordinal'', JInt (at_ordinal a)), (''context_cursor_seq'', JInt (ec_through_seq (at_context_cursor a))),
      (''context_semantic_digest'', JStr (at_context_semantic_digest a)),
      (''context_schema_version'', JInt (at_context_schema_version a)),
      (''context_builder_version'', JInt (at_context_builder_version a)),
      (''context_canonicalization_version'', JInt (at_context_canonicalization_version a)),
      (''policy_id'', JStr (at_policy_id a)), (''policy_version'', JInt (at_policy_version a)),
      (''knowledge_set_digest'', JStr (at_knowledge_set_digest a)),
      (''state_json'', JStr (canonical_json (JObj (attempt_to_dict a)))), (''projection_seq'', JInt n)]"

definition er_apply :: "db \<Rightarrow> extension_value composed_state \<Rightarrow> unit callback" where
  "er_apply d composed =
     (case extension_state composed ER_EXTENSION_ID of
        Inl e \<Rightarrow> ([], Inl e)
      | Inr (GraphState g) \<Rightarrow> ([], schema_mismatch ''invalid Execution Resume projection input'')
      | Inr (ResumeState s) \<Rightarrow>
          (fst (er_clear d (Some (cs_mission_id composed))) @
             map (SqlInsert ''execution_attempt_projection'')
               (map (attempt_row (cs_mission_id composed) (cs_seq composed)) (er_attempts s)), Inr ()))"

section \<open>Reading\<close>

text \<open>\<open>ORDER BY context_cursor_seq, attempt_id\<close>\<close>

definition attempt_order :: "dict \<Rightarrow> int \<times> string" where
  "attempt_order r = (case dget r ''context_cursor_seq'' of JInt n \<Rightarrow> n | _ \<Rightarrow> 0, text_of r ''attempt_id'')"

definition er_read_state :: "(string \<Rightarrow> string) \<Rightarrow> db \<Rightarrow> string \<Rightarrow> resume_state py" where
  "er_read_state nfc d m =
     and_then (map_res (\<lambda>r. and_then (read_json r) (attempt_from_dict nfc))
       (sort_key attempt_order (select_rows d ''execution_attempt_projection'' [(''mission_id'', JStr m)]))) (\<lambda>attempts.
     ExecutionResumeState m attempts)"

definition er_projection_seq :: "db \<Rightarrow> string \<Rightarrow> int option callback" where
  "er_projection_seq d m =
     ([], and_then (map_res (\<lambda>r. py_int (dget r ''projection_seq''))
                     (select_rows d ''execution_attempt_projection'' [(''mission_id'', JStr m)])) (\<lambda>ns.
          Inr (case remdups ns of [] \<Rightarrow> None | [n] \<Rightarrow> Some n | _ \<Rightarrow> Some (- 1))))"

section \<open>Running the statements\<close>

definition er_writes :: "action \<Rightarrow> bool" where
  "er_writes = projection_authorize ER_PROJECTION_TABLES"

lemma er_writes_rows [simp]:
  "run_sql er_writes d (SqlInsert ''execution_attempt_projection'' r) = insert_row d ''execution_attempt_projection'' r"
  "run_sql er_writes d (SqlDelete ''execution_attempt_projection'' cs) = delete_rows d ''execution_attempt_projection'' cs"
  by (simp_all add: run_sql_def er_writes_def projection_authorize_def SCHEMA_ACTIONS_def CONTROL_ACTIONS_def ER_PROJECTION_TABLES_def)

lemma fold_attempts:
  "fold_res (run_sql er_writes) d (map (SqlInsert ''execution_attempt_projection'') rows) =
     insert_rows ''execution_attempt_projection'' d rows"
  by (induction rows arbitrary: d) (simp_all cong: and_then_cong)

lemma er_apply_Inr:
  assumes run: "run_callback er_writes d (er_apply d composed) = Inr (d', u)"
    and s: "extension_state composed ER_EXTENSION_ID = Inr (ResumeState s)"
  shows "db_rows d' ''execution_attempt_projection'' =
      without_mission (cs_mission_id composed) (db_rows d ''execution_attempt_projection'') @
      map (attempt_row (cs_mission_id composed) (cs_seq composed)) (er_attempts s)"
proof -
  let ?t = "''execution_attempt_projection''" and ?m = "cs_mission_id composed"
  obtain d1 where del: "delete_rows d ?t [(''mission_id'', JStr ?m)] = Inr d1"
    and ins: "insert_rows ?t d1 (map (attempt_row ?m (cs_seq composed)) (er_attempts s)) = Inr d'"
    using run by (auto simp: run_callback_def er_apply_def s er_clear_def fold_attempts and_then_Inr_iff simp del: map_map)
  show ?thesis using delete_rows_Inr [OF del] insert_rows_Inr [OF ins] by (simp add: without_mission_def)
qed

lemma er_apply_selected:
  assumes "run_callback er_writes d (er_apply d composed) = Inr (d', u)"
    and "extension_state composed ER_EXTENSION_ID = Inr (ResumeState s)"
  shows "select_rows d' ''execution_attempt_projection'' [(''mission_id'', JStr k)] =
    (if k = cs_mission_id composed then map (attempt_row k (cs_seq composed)) (er_attempts s)
     else select_rows d ''execution_attempt_projection'' [(''mission_id'', JStr k)])"
proof -
  have "filter (row_matches [(''mission_id'', JStr k)]) (map (attempt_row m n) as) = (if k = m then map (attempt_row m n) as else [])" for m n as
    by (rule select_own) (auto simp: attempt_row_def)
  then show ?thesis by (simp add: select_rows_def er_apply_Inr [OF assms] select_without)
qed

section \<open>Reading the table back\<close>

text \<open>The attempts of a state are stored in the order in which they are read.\<close>

lemma attempt_ok_through: "attempt_ok nfc a \<Longrightarrow> ec_through_seq (at_context_cursor a) = at_created_seq a - 1"
  by (simp add: attempt_ok_def)

lemma resume_ok_attempt: "resume_ok nfc s \<Longrightarrow> a \<in> set (er_attempts s) \<Longrightarrow> attempt_ok nfc a"
  by (simp add: resume_ok_def)

lemma attempts_in_order:
  assumes inv: "resume_inv n s" and ok: "resume_ok nfc s"
  shows "sort_key (\<lambda>a. (ec_through_seq (at_context_cursor a), at_attempt_id a)) (er_attempts s) = er_attempts s"
proof (rule sort_key_id_if_sorted)
  let ?key = "\<lambda>a. (ec_through_seq (at_context_cursor a), at_attempt_id a)"
  have "?key a \<le> ?key b" if "a \<in> set (er_attempts s)" "b \<in> set (er_attempts s)" "at_created_seq a < at_created_seq b" for a b
    using attempt_ok_through [OF resume_ok_attempt [OF ok that(1)]] attempt_ok_through [OF resume_ok_attempt [OF ok that(2)]] that(3)
    by (simp only: less_eq_prod_def fst_conv snd_conv) linarith
  moreover have "sorted_wrt (\<lambda>a b. at_created_seq a < at_created_seq b) (er_attempts s)"
    using inv unfolding resume_inv_def sorted_wrt_map by blast
  ultimately have "sorted_wrt (\<lambda>a b. ?key a \<le> ?key b) (er_attempts s)"
    using sorted_wrt_mono_rel [of "er_attempts s" "\<lambda>a b. at_created_seq a < at_created_seq b" "\<lambda>a b. ?key a \<le> ?key b"] by blast
  then show "sorted (map ?key (er_attempts s))" unfolding sorted_map .
qed

lemma attempt_row_json: "dget (attempt_row m n a) ''state_json'' = JStr (canonical_json (JObj (attempt_to_dict a)))"
  by (simp add: attempt_row_def)

lemma attempt_row_read:
  assumes "attempt_ok nfc a"
  shows "and_then (read_json (attempt_row m n a)) (attempt_from_dict nfc) = Inr a"
proof -
  have "read_json (attempt_row m n a) = Inr (canon (JObj (attempt_to_dict a)))"
    unfolding read_json_def attempt_row_json by (simp add: json_loads_canonical del: canon.simps)
  then show ?thesis using attempt_round_trip [OF assms] by (simp only: and_then_simps)
qed

lemma attempt_row_order: "attempt_order (attempt_row m n a) = (ec_through_seq (at_context_cursor a), at_attempt_id a)"
  by (simp add: attempt_order_def attempt_row_def text_of_def)

lemma er_read_rows:
  assumes rows: "select_rows d ''execution_attempt_projection'' [(''mission_id'', JStr (er_mission_id s))] =
      map (attempt_row (er_mission_id s) n) (er_attempts s)"
    and inv: "resume_inv k s" and ok: "resume_ok nfc s"
  shows "er_read_state nfc d (er_mission_id s) = Inr s"
proof -
  let ?read = "\<lambda>r. and_then (read_json r) (attempt_from_dict nfc)"
  have "(?read \<circ> attempt_row (er_mission_id s) n) a = Inr a" if "a \<in> set (er_attempts s)" for a
    using attempt_row_read [OF resume_ok_attempt [OF ok that]] by (simp only: o_apply)
  then have "map_res (?read \<circ> attempt_row (er_mission_id s) n) (er_attempts s) = Inr (map (\<lambda>a. a) (er_attempts s))"
    by (rule map_res_total)
  then have parsed: "map_res ?read (map (attempt_row (er_mission_id s) n) (er_attempts s)) = Inr (er_attempts s)"
    by (simp only: map_res_map list.map_ident)
  have order: "sort_key attempt_order (map (attempt_row (er_mission_id s) n) (er_attempts s)) =
      map (attempt_row (er_mission_id s) n) (er_attempts s)"
    by (simp only: sort_key_map attempt_row_order attempts_in_order [OF inv ok])
  have "ExecutionResumeState (er_mission_id s) (er_attempts s) = Inr s"
    using ok by (simp add: ExecutionResumeState_Inr resume_ok_def)
  then show ?thesis by (simp only: er_read_state_def rows order parsed and_then_simps)
qed

lemma er_read_apply:
  assumes "run_callback er_writes d (er_apply d composed) = Inr (d', u)"
    and "extension_state composed ER_EXTENSION_ID = Inr (ResumeState s)"
    and "resume_inv k s" and "resume_ok nfc s" and m: "er_mission_id s = cs_mission_id composed"
  shows "er_read_state nfc d' (cs_mission_id composed) = Inr s"
  unfolding m [symmetric]
  by (rule er_read_rows [OF _ assms(3,4), where n = "cs_seq composed"])
     (simp only: er_apply_selected [OF assms(1,2)] m simp_thms if_True)

lemma er_read_other:
  assumes "run_callback er_writes d (er_apply d composed) = Inr (d', u)"
    and "extension_state composed ER_EXTENSION_ID = Inr (ResumeState s)" and "k \<noteq> cs_mission_id composed"
  shows "er_read_state nfc d' k = er_read_state nfc d k"
  unfolding er_read_state_def er_apply_selected [OF assms(1,2)] if_not_P [OF assms(3)] ..

lemma er_read_frame:
  assumes "db_rows d' ''execution_attempt_projection'' = db_rows d ''execution_attempt_projection''"
  shows "er_read_state nfc d' m = er_read_state nfc d m"
  unfolding er_read_state_def select_rows_frame [OF assms] ..

lemma er_clear_other:
  assumes "run_callback er_writes d (er_clear d (Some k)) = Inr (d', u)" and "m \<noteq> k"
  shows "er_read_state nfc d' m = er_read_state nfc d m"
proof -
  have "delete_rows d ''execution_attempt_projection'' [(''mission_id'', JStr k)] = Inr d'"
    using assms(1) by (auto simp: run_callback_def er_clear_def and_then_Inr_iff)
  from delete_rows_Inr [OF this] have "select_rows d' ''execution_attempt_projection'' [(''mission_id'', JStr m)] =
      select_rows d ''execution_attempt_projection'' [(''mission_id'', JStr m)]"
    using select_without [of m k] assms(2) by (simp add: select_rows_def without_mission_def)
  then show ?thesis unfolding er_read_state_def by (simp only:)
qed

end
