(* ===== verification/ResumeExtension.thy ===== *)
theory ResumeExtension
  imports ResumeProjections WgExtension ExtensionStorage
begin

text \<open>
  execution_resume/extension.py: the manifest of execution attempts, for a registry whose extension states are the
  values of \<open>extension_value\<close>.  The manifest satisfies the laws of an extension's storage (\<open>resume_laws\<close>), so with
  any registry that contains it a service's database shows the attempts that the log replays to, and they form
  chains (\<open>reachable_attempts\<close>).
\<close>

section \<open>The manifest\<close>

text \<open>\<open>state.to_dict()\<close>: each class of states has its own.\<close>

fun extension_to_dict :: "extension_value \<Rightarrow> dict" where
  "extension_to_dict (GraphState g) = wg_to_dict g"
| "extension_to_dict (ResumeState s) = resume_to_dict s"

definition value_hash :: "(string \<Rightarrow> string) \<Rightarrow> extension_value \<Rightarrow> string" where
  "value_hash sha v = canonical_sha256 sha (JObj (extension_to_dict v))"

definition er_initial_state :: "string \<Rightarrow> extension_value py" where
  "er_initial_state m = and_then (ExecutionResumeState m []) (\<lambda>s. Inr (ResumeState s))"

definition er_decode :: "(string \<Rightarrow> string) \<Rightarrow> dict \<Rightarrow> extension_value py" where
  "er_decode nfc d = and_then (resume_from_dict nfc (JObj d)) (\<lambda>s. Inr (ResumeState s))"

definition er_reduce :: "(string \<Rightarrow> string) \<Rightarrow> extension_value \<Rightarrow> event_envelope \<Rightarrow> runtime_state \<Rightarrow> extension_value py" where
  "er_reduce nfc v e core =
     (case v of
        ResumeState s \<Rightarrow> and_then (resume_reduce nfc s e core) (\<lambda>s'. Inr (ResumeState s'))
      | GraphState g \<Rightarrow> schema_mismatch ''invalid Execution Resume state'')"

definition er_read_value :: "(string \<Rightarrow> string) \<Rightarrow> db \<Rightarrow> string \<Rightarrow> extension_value py" where
  "er_read_value nfc d m = and_then (er_read_state nfc d m) (\<lambda>s. Inr (ResumeState s))"

definition er_verify :: "(string \<Rightarrow> string) \<Rightarrow> extension_value \<Rightarrow> extension_value option \<Rightarrow> dict py" where
  "er_verify sha replayed projected =
     (let replay_hash = value_hash sha replayed; projection_hash = map_option (value_hash sha) projected
      in Inr [(''ok'', JBool (Some replay_hash = projection_hash)), (''replay_hash'', JStr replay_hash),
              (''projection_hash'', jopt projection_hash)])"

definition er_manifest :: "(string \<Rightarrow> string) \<Rightarrow> (string \<Rightarrow> string) \<Rightarrow> migration_step list \<Rightarrow> extension_value manifest" where
  "er_manifest sha nfc steps =
     \<lparr>x_extension_id = ER_EXTENSION_ID, x_extension_version = ER_EXTENSION_VERSION, x_command_types = ER_COMMAND_TYPES,
      x_event_types = ER_EVENT_TYPES, x_initial_state = er_initial_state,
      x_to_dict = (\<lambda>v. Inr (extension_to_dict v)), x_encode = (\<lambda>v. Inr (extension_to_dict v)), x_decode = er_decode nfc,
      x_hash = (\<lambda>v. Inr (value_hash sha v)), x_handle = resume_handle nfc, x_reduce = er_reduce nfc,
      x_projection_tables = Some ER_PROJECTION_TABLES, x_apply = er_apply, x_read = (\<lambda>d m. ([], er_read_value nfc d m)),
      x_clear = er_clear, x_verify = er_verify sha, x_projection_seq = Some er_projection_seq,
      x_migration_owner = Some ER_EXTENSION_ID, x_migrations = steps\<rparr>"

definition execution_resume_extension :: "(string \<Rightarrow> string) \<Rightarrow> (string \<Rightarrow> string) \<Rightarrow> extension_value manifest py" where
  "execution_resume_extension sha nfc =
     and_then (er_migrations sha) (\<lambda>steps. make_ExtensionManifest (er_manifest sha nfc steps))"

definition er_step :: "(string \<Rightarrow> string) \<Rightarrow> migration_step" where
  "er_step sha =
     \<lparr>mg_version = 1, mg_checksum = canonical_sha256 sha (JList (map JStr ER_MIGRATION_SQL)), mg_apply = er_apply_schema\<rparr>"

lemma execution_resume_extension_Inr:
  assumes "hex_digest sha"
  shows "execution_resume_extension sha nfc = Inr (er_manifest sha nfc [er_step sha])"
proof -
  have "make_MigrationStep 1 (canonical_sha256 sha (JList (map JStr ER_MIGRATION_SQL))) er_apply_schema = Inr (er_step sha)"
    using assms lower_hex by (simp add: make_MigrationStep_def hex_digest_def canonical_sha256_def er_step_def)
  then show ?thesis
    by (simp add: execution_resume_extension_def er_migrations_def make_ExtensionManifest_def er_manifest_def ER_EXTENSION_ID_def
        ER_EXTENSION_VERSION_def nonblank_def is_space_def ER_COMMAND_TYPES_def ER_EVENT_TYPES_def)
qed

lemma execution_resume_extensionE:
  assumes "execution_resume_extension sha nfc = Inr x"
  obtains steps where "x = er_manifest sha nfc steps" and "\<And>step. step \<in> set steps \<Longrightarrow> mg_apply step = er_apply_schema"
proof -
  obtain steps where steps: "er_migrations sha = Inr steps" and made: "make_ExtensionManifest (er_manifest sha nfc steps) = Inr x"
    using assms unfolding execution_resume_extension_def and_then_Inr_iff by blast
  have "x = er_manifest sha nfc steps" using made by (simp add: make_ExtensionManifest_def split: if_split_asm)
  moreover have "mg_apply step = er_apply_schema" if "step \<in> set steps" for step
    using steps that by (auto simp: er_migrations_def make_MigrationStep_def and_then_Inr_iff split: if_split_asm)
  ultimately show thesis by (rule that)
qed

section \<open>The laws of the manifest\<close>

definition resume_holds :: "(string \<Rightarrow> string) \<Rightarrow> int \<Rightarrow> string \<Rightarrow> extension_value \<Rightarrow> bool" where
  "resume_holds nfc n m v \<longleftrightarrow> (\<exists>s. v = ResumeState s \<and> resume_inv n s \<and> resume_ok nfc s \<and> er_mission_id s = m)"

definition value_evolves :: "extension_value \<Rightarrow> extension_value \<Rightarrow> bool" where
  "value_evolves v w \<longleftrightarrow> v = w \<or> (\<exists>s t. v = ResumeState s \<and> w = ResumeState t \<and> resume_evolves s t)"

lemma resume_reduce_keeps:
  assumes "idempotent nfc" and red: "resume_reduce nfc s e core = Inr s'" and "resume_inv n s" and "resume_ok nfc s"
    and "ev_seq e = n + 1"
  shows "resume_inv (n + 1) s'" and "resume_ok nfc s'" and "er_mission_id s' = er_mission_id s" and "resume_evolves s s'"
proof -
  obtain a where a: "attempt_added (ev_seq e) a s s'" "attempt_ok nfc a" using resume_reduce_Inr(1) [OF red] assms(1) by blast
  show inv: "resume_inv (n + 1) s'" using attempt_added_inv a(1) assms(3,5) by simp
  show "er_mission_id s' = er_mission_id s" using a(1) by (simp add: attempt_added_def)
  show "resume_evolves s s'" by (rule attempt_added_evolves [OF a(1)])
  have "sorted (map at_created_seq (er_attempts s'))" using inv by (simp add: resume_inv_def strict_sorted_imp_sorted)
  then show "resume_ok nfc s'"
    using assms(4) a resume_reduce_Inr(6,7) [OF red] by (auto simp: resume_ok_def attempt_added_def)
qed

lemma er_manifest_simps [simp]:
  "x_extension_id (er_manifest sha nfc steps) = ER_EXTENSION_ID" "x_projection_tables (er_manifest sha nfc steps) = Some ER_PROJECTION_TABLES"
  "x_apply (er_manifest sha nfc steps) = er_apply" "x_clear (er_manifest sha nfc steps) = er_clear"
  "x_migrations (er_manifest sha nfc steps) = steps" "x_reduce (er_manifest sha nfc steps) = er_reduce nfc"
  "x_initial_state (er_manifest sha nfc steps) = er_initial_state" "x_handle (er_manifest sha nfc steps) = resume_handle nfc"
  "x_event_types (er_manifest sha nfc steps) = ER_EVENT_TYPES" "x_command_types (er_manifest sha nfc steps) = ER_COMMAND_TYPES"
  by (simp_all add: er_manifest_def)

lemma er_reduce_Inr: "er_reduce nfc v e core = Inr w \<longleftrightarrow> (\<exists>s s'. v = ResumeState s \<and> w = ResumeState s' \<and> resume_reduce nfc s e core = Inr s')"
  by (cases v) (auto simp: er_reduce_def schema_mismatch_def and_then_Inr_iff)

lemma er_initial_Inr: "er_initial_state m = Inr v \<longleftrightarrow> nonblank m \<and> v = ResumeState \<lparr>er_mission_id = m, er_attempts = []\<rparr>"
  by (auto simp: er_initial_state_def and_then_Inr_iff ExecutionResumeState_Inr)

lemma resume_reduce_evolves: "resume_reduce nfc s e core = Inr s' \<Longrightarrow> resume_evolves s s'"
  using resume_reduce_Inr(1) attempt_added_evolves by blast

lemma er_call: "projection_call d (er_manifest sha nfc steps) True c = Inr p \<longleftrightarrow> run_callback er_writes d c = Inr p"
  by (simp add: projection_call_def guarded_call_Inr allowed_tables_def er_writes_def)

lemma er_state_map_of: "extension_state s i = Inr v \<longleftrightarrow> map_of (cs_extension_states s) i = Some v"
  by (auto simp: extension_state_def not_registered_def split: option.split)

lemma er_apply_value:
  "run_callback er_writes d (er_apply d s) = Inr (d', u) \<Longrightarrow> extension_state s ER_EXTENSION_ID = Inr v \<Longrightarrow> \<exists>t. v = ResumeState t"
  by (cases v) (auto simp: er_apply_def run_callback_def schema_mismatch_def)

lemma resume_laws:
  assumes nfc: "idempotent nfc" and steps: "\<And>step. step \<in> set steps \<Longrightarrow> mg_apply step = er_apply_schema"
  shows "storage_laws (er_manifest sha nfc steps) (resume_holds nfc) value_evolves (er_read_value nfc) (\<lambda>v. v) ER_PROJECTION_TABLES"
proof
  let ?x = "er_manifest sha nfc steps"
  show "resume_holds nfc 0 m v" if "x_initial_state ?x m = Inr v" for m v
    using that resume_inv_empty by (auto simp: er_initial_Inr resume_holds_def resume_ok_def)
  show "resume_holds nfc n' m v" if "resume_holds nfc n m v" "n \<le> n'" for n m v n'
    using that resume_inv_mono unfolding resume_holds_def by blast
  show "resume_holds nfc (n + 1) m w" if "resume_holds nfc n m v" "x_reduce ?x v e core = Inr w" "ev_seq e = n + 1" for n m v e core w
    using that resume_reduce_keeps [OF nfc] unfolding er_manifest_simps er_reduce_Inr resume_holds_def by blast
  show "value_evolves v v" for v by (simp add: value_evolves_def)
  show "value_evolves u w" if "value_evolves u v" "value_evolves v w" for u v w
    using that resume_evolves_trans unfolding value_evolves_def by blast
  show "value_evolves v w" if "x_reduce ?x v e core = Inr w" for v e core w
    using that resume_reduce_evolves unfolding er_manifest_simps er_reduce_Inr value_evolves_def by blast
  show "x_projection_tables ?x = Some ER_PROJECTION_TABLES" by simp
  show "er_read_value nfc d' m = er_read_value nfc d m"
    if "\<And>t. t \<in> set ER_PROJECTION_TABLES \<Longrightarrow> db_rows d' t = db_rows d t" for d d' m
    unfolding er_read_value_def using er_read_frame [of d' d nfc m] that by (simp add: ER_PROJECTION_TABLES_def)
next
  let ?x = "er_manifest sha nfc steps"
  fix d d' :: db and s :: "extension_value composed_state" and v u
  assume call: "projection_call d ?x True (x_apply ?x d s) = Inr (d', u)"
    and v: "map_of (cs_extension_states s) (x_extension_id ?x) = Some v"
  have run: "run_callback er_writes d (er_apply d s) = Inr (d', u)" and state: "extension_state s ER_EXTENSION_ID = Inr v"
    using call v by (simp_all add: er_call er_state_map_of)
  obtain t where t: "v = ResumeState t" using er_apply_value [OF run state] by blast
  show "er_read_value nfc d' (cs_mission_id s) = Inr v" if "resume_holds nfc (cs_seq s) (cs_mission_id s) v"
    using that er_read_apply [OF run state [unfolded t]] by (auto simp: resume_holds_def t er_read_value_def)
  show "er_read_value nfc d' k = er_read_value nfc d k" if "k \<noteq> cs_mission_id s" for k
    unfolding er_read_value_def er_read_other [OF run state [unfolded t] that] ..
next
  let ?x = "er_manifest sha nfc steps"
  show "er_read_value nfc d' m = er_read_value nfc d m"
    if "projection_call d ?x True (x_clear ?x d (Some k)) = Inr (d', u)" "m \<noteq> k" for d d' k m u
    using that er_clear_other [of d k d' u m nfc] by (simp add: er_call er_read_value_def)
  show "db_rows d' = db_rows d"
    if "step \<in> set (x_migrations ?x)" "run_callback allowed d (mg_apply step) = Inr (d', u)" for step allowed d d' u
    using that steps by (auto simp: run_callback_def er_apply_schema_def run_sql_def and_then_Inr_iff split: if_split_asm)
qed

section \<open>Reachable databases\<close>

text \<open>The laws of a registry that could be built and contains the manifest.\<close>

lemma resume_storage:
  assumes nfc: "idempotent nfc" and steps: "\<And>step. step \<in> set steps \<Longrightarrow> mg_apply step = er_apply_schema"
    and built: "ExtensionRegistry xs = Inr r" and x: "er_manifest sha nfc steps \<in> set xs"
  shows "extension_storage r (er_manifest sha nfc steps) (resume_holds nfc) value_evolves (er_read_value nfc) (\<lambda>v. v)
    ER_PROJECTION_TABLES"
proof -
  let ?x = "er_manifest sha nfc steps"
  have reg: "make_ExtensionRegistry SUPPORTED_COMMANDS SUPPORTED_EVENTS xs = Inr r"
    using built by (simp add: ExtensionRegistry_def)
  note inv = make_registry_inv [OF reg]
  have events: "owners_ok x_event_types (set SUPPORTED_EVENTS) (set xs) (r_event_owners r)"
    and tables: "owners_ok (\<lambda>x. the (x_projection_tables x)) (set CORE_PROJECTION_TABLES \<union> {''extension_migrations''})
       (set xs) (r_table_owners r)"
    using inv(1) by (simp_all add: registry_inv_def inv(3-5))
  have "extension_contract_axioms r ?x"
  proof
    show "?x \<in> set (r_manifests r)" using x inv(2) by simp
    show "distinct (map x_extension_id (r_manifests r))" by (rule inv(6))
    show "y = ?x" if "event_owner r t = Some (ExtensionOwner y)" "x_extension_id y = x_extension_id ?x" for t y
    proof -
      have "y \<in> set (r_manifests r)"
        using that(1) owners_lookup [OF events, of t y] inv(2) by (auto simp: event_owner_def split: if_split_asm)
      moreover have "inj_on x_extension_id (set (r_manifests r))" using inv(6) by (simp add: distinct_map)
      ultimately show ?thesis using that(2) x inv(2) by (metis inj_onD)
    qed
  qed
  moreover have laws: "storage_laws ?x (resume_holds nfc) value_evolves (er_read_value nfc) (\<lambda>v. v) ER_PROJECTION_TABLES"
    by (rule resume_laws [OF nfc]) (rule steps)
  ultimately have contract: "extension_contract r ?x (resume_holds nfc) value_evolves"
    by (intro extension_contract.intro [OF storage_laws.axioms(1)])
  show ?thesis
  proof (rule extension_storage.intro [OF contract laws], unfold_locales)
    show "t \<notin> set (the (x_projection_tables y))" if "y \<in> set (r_manifests r)" "y \<noteq> ?x" "t \<in> set ER_PROJECTION_TABLES" for y t
      using owners_unique [OF tables x, of y t] that inv(2) by auto
    show "core_tables_safe r" using reg by (rule registry_core_tables_safe)
    show "''extension_migrations'' \<notin> set ER_PROJECTION_TABLES" "''sqlite_master'' \<notin> set ER_PROJECTION_TABLES"
      by (simp_all add: ER_PROJECTION_TABLES_def)
  qed
qed

lemma reachable_storage:
  assumes "idempotent nfc" and "service_reachable h r d" and "execution_resume_extension sha nfc = Inr x" and "x \<in> set (r_manifests r)"
  obtains steps xs where "x = er_manifest sha nfc steps" and "ExtensionRegistry xs = Inr r" and "x \<in> set xs"
    and "extension_storage r x (resume_holds nfc) value_evolves (er_read_value nfc) (\<lambda>v. v) ER_PROJECTION_TABLES"
proof -
  obtain xs where built: "ExtensionRegistry xs = Inr r" using reachable_registry [OF assms(2)] by blast
  have x: "x \<in> set xs" using make_registry_inv(2) [OF built [unfolded ExtensionRegistry_def]] assms(4) by simp
  obtain steps where steps: "x = er_manifest sha nfc steps" "\<And>step. step \<in> set steps \<Longrightarrow> mg_apply step = er_apply_schema"
    by (rule execution_resume_extensionE [OF assms(3)]) blast
  show thesis
    by (rule that [OF steps(1) built x]) (use resume_storage [OF assms(1) steps(2) built] x steps(1) in simp)
qed

text \<open>In every database that a service with the manifest can reach, the log replays to attempts that satisfy the
  invariant of attempts, and the projection shows them.\<close>

lemma reachable_attempts:
  assumes nfc: "idempotent nfc" and reach: "service_reachable h r d"
    and manifest: "execution_resume_extension sha nfc = Inr x" and member: "x \<in> set (r_manifests r)" and log: "stream d m \<noteq> []"
  obtains s a where "replay_composed_state d m r None = Inr s" and "resume_state_of s = Inr a" and "er_read_state nfc d m = Inr a"
    and "resume_inv (cs_seq s) a" and "er_mission_id a = m"
proof -
  obtain steps where x: "x = er_manifest sha nfc steps"
    and storage: "extension_storage r x (resume_holds nfc) value_evolves (er_read_value nfc) (\<lambda>v. v) ER_PROJECTION_TABLES"
    by (rule reachable_storage [OF nfc reach manifest member]) blast
  note contract = extension_storage.axioms(1) [OF storage] and id = er_manifest_simps(1) [of sha nfc steps, folded x]
  obtain b where "load_state d m r = Inr b" by (rule reachable_mission [OF reach log])
  then obtain s where replay: "replay_composed_state d m r None = Inr s"
    using extension_contract.enabled [OF contract] by (auto simp: load_state_def and_then_Inr_iff)
  obtain v where v: "map_of (cs_extension_states s) ER_EXTENSION_ID = Some v" "er_read_value nfc d m = Inr v"
    using extension_storage.reachable_shown [OF storage reach] log replay
    unfolding extension_storage.shown_def [OF storage] id by blast
  have "resume_holds nfc (cs_seq s) m v" using extension_contract.replayed [OF contract replay] v(1) id by auto
  then show thesis
    using v by (auto simp: resume_holds_def resume_state_of_def extension_state_def er_read_value_def and_then_Inr_iff
        intro: that [OF replay])
qed

section \<open>The attempts are the logged ones\<close>

definition attempt_event_in :: "event_envelope \<Rightarrow> bool" where
  "attempt_event_in e \<longleftrightarrow> ev_event_type e \<in> set ER_EVENT_TYPES"

lemma owner_of_attempts:
  assumes built: "ExtensionRegistry xs = Inr r" and x: "x = er_manifest sha nfc steps" "x \<in> set xs" and owner: "event_owner r t = Some w"
  shows "t \<in> set ER_EVENT_TYPES \<longleftrightarrow> w = ExtensionOwner x"
proof -
  have reg: "make_ExtensionRegistry SUPPORTED_COMMANDS SUPPORTED_EVENTS xs = Inr r" using built by (simp add: ExtensionRegistry_def)
  note inv = make_registry_inv [OF reg]
  have events: "owners_ok x_event_types (set SUPPORTED_EVENTS) (set xs) (r_event_owners r)"
    using inv(1) by (simp add: registry_inv_def inv(3-5))
  show ?thesis
  proof (cases "t \<in> set SUPPORTED_EVENTS")
    case True
    then show ?thesis using owner owners_reserved [OF events x(2), of t] x(1) by (auto simp: event_owner_def inv(3-5))
  next
    case False
    then obtain y where y: "w = ExtensionOwner y" "y \<in> set xs" "t \<in> set (x_event_types y)"
      using owner owners_lookup [OF events, of t] by (auto simp: event_owner_def inv(3-5))
    then show ?thesis using owners_unique [OF events y(2) x(2) y(3)] x(1) by auto
  qed
qed

definition sole_owner :: "extension_value registry \<Rightarrow> extension_value manifest \<Rightarrow> bool" where
  "sole_owner r x \<longleftrightarrow>
     (\<forall>t w. event_owner r t = Some w \<longrightarrow> (t \<in> set ER_EVENT_TYPES \<longleftrightarrow> w = ExtensionOwner x)) \<and>
     (\<forall>t y. event_owner r t = Some (ExtensionOwner y) \<longrightarrow> x_extension_id y = x_extension_id x \<longrightarrow> y = x)"

lemma step_records:
  assumes sole: "sole_owner r x"
    and x: "x = er_manifest sha nfc steps" and step: "reduce_composed s e r = Inr s'"
    and state: "map_of (cs_extension_states s) ER_EXTENSION_ID = Some (ResumeState a)"
  shows "\<exists>a' new. map_of (cs_extension_states s') ER_EXTENSION_ID = Some (ResumeState a') \<and> er_attempts a' = er_attempts a @ new \<and>
    list_all2 records_event (filter attempt_event_in [e]) new"
proof -
  note owner = sole [unfolded sole_owner_def, THEN conjunct1, rule_format]
    and id = sole [unfolded sole_owner_def, THEN conjunct2, rule_format]
  show ?thesis using step
  proof (cases rule: reduce_composed_cases)
    case (core c)
    then show ?thesis using owner [OF core(1)] state by (auto simp: make_composed_Inr attempt_event_in_def)
  next
    case (extension y c current changed)
    show ?thesis
    proof (cases "y = x")
      case True
      then obtain b where red: "resume_reduce nfc a e c = Inr b" and changed: "changed = ResumeState b"
        using extension(3,4) state x by (auto simp: er_reduce_Inr)
      obtain new where "er_attempts b = er_attempts a @ [new]" "records_event e new"
        using resume_reduce_Inr(1) [OF red] by (auto simp: attempt_added_def)
      then show ?thesis using extension(5) True x changed resume_reduce_Inr(5) [OF red]
        by (auto simp: make_composed_Inr update_conv attempt_event_in_def)
    next
      case False
      then have "x_extension_id y \<noteq> x_extension_id x" using id [OF extension(1)] by blast
      then show ?thesis using owner [OF extension(1)] False extension(5) state x
        by (auto simp: make_composed_Inr update_conv attempt_event_in_def)
    qed
  qed
qed

lemma run_records:
  assumes "sole_owner r x" and "x = er_manifest sha nfc steps" and "fold_res (\<lambda>s e. reduce_composed s e r) s es = Inr s'"
    and "map_of (cs_extension_states s) ER_EXTENSION_ID = Some (ResumeState a)"
  shows "\<exists>a' new. map_of (cs_extension_states s') ER_EXTENSION_ID = Some (ResumeState a') \<and> er_attempts a' = er_attempts a @ new \<and>
    list_all2 records_event (filter attempt_event_in es) new"
  using assms(3,4)
proof (induction es arbitrary: s a)
  case (Cons e es)
  obtain t where t: "reduce_composed s e r = Inr t" "fold_res (\<lambda>s e. reduce_composed s e r) t es = Inr s'"
    using Cons.prems(1) by (auto simp: res_simps)
  obtain b new where b: "map_of (cs_extension_states t) ER_EXTENSION_ID = Some (ResumeState b)" "er_attempts b = er_attempts a @ new"
      "list_all2 records_event (filter attempt_event_in [e]) new"
    using step_records [OF assms(1,2) t(1) Cons.prems(2)] by blast
  obtain a' rest where a': "map_of (cs_extension_states s') ER_EXTENSION_ID = Some (ResumeState a')" "er_attempts a' = er_attempts b @ rest"
      "list_all2 records_event (filter attempt_event_in es) rest"
    using Cons.IH [OF t(2) b(1)] by blast
  have "list_all2 records_event (filter attempt_event_in [e] @ filter attempt_event_in es) (new @ rest)"
    by (rule list_all2_appendI [OF b(3) a'(3)])
  then show ?case using a'(1,2) b(2) by (metis append.assoc append_Cons append_Nil filter_append)
qed auto

text \<open>The attempts that the log of a reachable database replays to are its attempt events, in their order.\<close>

lemma replayed_attempts:
  assumes nfc: "idempotent nfc" and reach: "service_reachable h r d"
    and manifest: "execution_resume_extension sha nfc = Inr x" and member: "x \<in> set (r_manifests r)"
    and replay: "replay_composed_state d m r None = Inr s" and listed: "list_events d m 0 None = Inr es"
    and a: "resume_state_of s = Inr a"
  shows "list_all2 records_event (filter attempt_event_in es) (er_attempts a)"
proof -
  obtain steps xs where x: "x = er_manifest sha nfc steps" and built: "ExtensionRegistry xs = Inr r" and x': "x \<in> set xs"
    and storage: "extension_storage r x (resume_holds nfc) value_evolves (er_read_value nfc) (\<lambda>v. v) ER_PROJECTION_TABLES"
    by (rule reachable_storage [OF nfc reach manifest member]) blast
  note contract = extension_storage.axioms(1) [OF storage]
  obtain s0 where s0: "initial_composed_state m r = Inr s0" and run: "fold_res (\<lambda>s e. reduce_composed s e r) s0 es = Inr s"
    using replay listed by (auto simp: replay_composed_state_def and_then_Inr_iff)
  have start: "map_of (cs_extension_states s0) ER_EXTENSION_ID = Some (ResumeState \<lparr>er_mission_id = m, er_attempts = []\<rparr>)"
    using initial_composed_member [OF s0 member extension_contract.ids [OF contract]] by (auto simp: x er_initial_Inr)
  have "sole_owner r x"
    unfolding sole_owner_def using owner_of_attempts [OF built x x'] extension_contract.owner_id [OF contract] by blast
  from run_records [OF this x run start] obtain b where
      "map_of (cs_extension_states s) ER_EXTENSION_ID = Some (ResumeState b)"
      "list_all2 records_event (filter attempt_event_in es) (er_attempts b)"
    by auto
  then show ?thesis using a by (auto simp: resume_state_of_def extension_state_def)
qed

section \<open>Where attempts come from\<close>

lemma made_single: "e \<in> set (make_events env c head [p]) \<Longrightarrow> e = make_event env c head 1 p"
  by (simp add: make_events_def)

text \<open>Every attempt event in the log of a reachable database was proposed on the state right before it, in which the
  mission was active, its session open, and the task an active task of the open plan's current revision.\<close>

lemma attempt_was_runnable:
  assumes nfc: "idempotent nfc" and reach: "service_reachable h r d"
    and manifest: "execution_resume_extension sha nfc = Inr x" and member: "x \<in> set (r_manifests r)"
    and listed: "list_events d m k through = Inr es" "e \<in> set es" and type: "ev_event_type e \<in> set ER_EVENT_TYPES"
  shows "\<exists>s session pl rv t. state_through r d m (ev_seq e - 1) = Inr (Composed s) \<and> runnable s session pl rv t \<and>
    ev_session_id e = Some session \<and> dget (ev_payload e) ''plan_id'' = JStr pl \<and>
    dget (ev_payload e) ''plan_revision_id'' = JStr rv \<and> dget (ev_payload e) ''task_id'' = JStr t"
proof -
  obtain steps xs where x: "x = er_manifest sha nfc steps" and built: "ExtensionRegistry xs = Inr r" and x': "x \<in> set xs"
    and storage: "extension_storage r x (resume_holds nfc) value_evolves (er_read_value nfc) (\<lambda>v. v) ER_PROJECTION_TABLES"
    by (rule reachable_storage [OF nfc reach manifest member]) blast
  obtain env c state head pending where m: "c_mission_id c = m" and state: "state_through r d m head = Inr state"
    and proposed: "propose r c state head = Inr pending" and made: "e \<in> set (make_events env c head pending)"
    using listed_decided [OF reach listed] by (auto simp: decided_def)
  obtain p where p: "p \<in> set pending" "ev_event_type e = pe_event_type p"
    using made by (auto simp: make_events_def make_event_def dest: set_zip_rightD)
  obtain owner where owner: "command_owner r (c_type c) = Some owner"
    and answer: "(case owner of CoreOwner \<Rightarrow> handle c (core_part state) | ExtensionOwner y \<Rightarrow> extension_pending y c state) = Inr pending"
    using proposed by (auto simp: propose_def and_then_Inr_iff split: option.split_asm if_split_asm)
  have reg: "make_ExtensionRegistry SUPPORTED_COMMANDS SUPPORTED_EVENTS xs = Inr r" using built by (simp add: ExtensionRegistry_def)
  note inv = make_registry_inv [OF reg]
  have owners: "owners_ok x_event_types (set SUPPORTED_EVENTS) (set xs) (r_event_owners r)"
    "owners_ok x_command_types (set SUPPORTED_COMMANDS) (set xs) (r_command_owners r)"
    using inv(1) by (simp_all add: registry_inv_def inv(3-5))
  have "ev_event_type e \<notin> set SUPPORTED_EVENTS" using owners_reserved [OF owners(1) x'] type x by simp
  then have "owner \<noteq> CoreOwner" using answer handle_event_types p by fastforce
  then obtain y where y: "owner = ExtensionOwner y" by (cases owner) simp_all
  obtain s where s: "state = Composed s" "x_handle y c s = Inr pending" "pe_event_type p \<in> set (x_event_types y)"
    using answer p(1) by (cases state) (auto simp: y extension_pending_def not_registered_def and_then_Inr_iff check_all_Inr split: if_split_asm)
  have "y \<in> set xs" using owner y owners_lookup [OF owners(2)] by (auto simp: command_owner_def split: if_split_asm)
  then have "y = x" using owners_unique [OF owners(1) _ x', of y "ev_event_type e"] s(3) type p(2) x by simp
  then have handled: "resume_handle nfc c s = Inr pending" using s(2) x by simp
  have "registry_enabled r" using member by (auto simp: registry_enabled_def)
  then have "replay_composed_state d m r (Some head) = Inr s" using state by (auto simp: state_through_composed s(1) and_then_Inr_iff)
  from extension_contract.replayed [OF extension_storage.axioms(1) [OF storage] this] obtain a where
      a: "resume_state_of s = Inr a" "resume_ok nfc a"
    by (auto simp: x resume_holds_def resume_state_of_def extension_state_def and_then_Inr_iff)
  obtain q where q: "pending = [q]" "proposes nfc c s a q" using resume_handle_Inr [OF handled a(1)] a(2) by (auto simp: resume_ok_def)
  have e: "e = make_event env c head 1 q" using made q(1) made_single by blast
  obtain i pl rv t cursor digest policy knowledge session previous where
      "c_session_id c = Some session" "runnable s session pl rv t" "q = proposal c i pl rv t cursor digest policy knowledge previous"
    using q(2) unfolding proposes_def by (elim exE conjE) (rule that, assumption+)
  moreover from this(3) have "dget (pe_payload q) ''plan_id'' = JStr pl" "dget (pe_payload q) ''plan_revision_id'' = JStr rv"
      "dget (pe_payload q) ''task_id'' = JStr t" "pe_session_id q = c_session_id c"
    by (simp_all only: proposal_fields) (simp add: attempt_event_def)
  ultimately show ?thesis using state s(1) by (auto simp: e make_event_def dget_canon_dict)
qed

end
