(* ===== verification/ResumeSamples.thy ===== *)
theory ResumeSamples
  imports ResumeExtension WgSamples
begin

text \<open>
  A service with execution attempts: its registry holds their manifest and an extension that serves one fixed graph
  under the work graph's identifier, whose plan is open and whose task is active.  A mission is created and
  activated, a session opened, and the task's execution started and resumed.
\<close>

definition served_graph :: work_graph where
  "served_graph = (empty_work_graph ''m'')
     \<lparr>wg_plans := [\<lparr>pl_plan_id = ''p'', pl_lifecycle_state = Plan_OPEN, pl_current_revision_id = Some ''r'', pl_created_at = ''now'', pl_created_by = []\<rparr>],
      wg_tasks := [\<lparr>tk_task_id = ''t'', tk_task_key = ''k'', tk_plan_id = ''p'', tk_plan_revision_id = ''r'', tk_intent = ''do'',
         tk_acceptance_criteria = [], tk_lifecycle_state = Task_ACTIVE, tk_outcome = None, tk_created_seq = 3, tk_updated_seq = 3\<rparr>]\<rparr>"

definition served_step :: migration_step where
  "served_step = \<lparr>mg_version = 1, mg_checksum = replicate 64 (CHR ''a''),
     mg_apply = ([SqlCreate ''table'' ''served'' ''served'' (TableDef (projection_table [(''mission_id'', True)] [''mission_id'']))], Inr ())\<rparr>"

definition serving_extension :: "extension_value manifest" where
  "serving_extension =
     \<lparr>x_extension_id = EXTENSION_ID, x_extension_version = ''1'', x_command_types = [''SERVE''],
      x_event_types = [''graph.served''], x_initial_state = (\<lambda>_. Inr (GraphState served_graph)),
      x_to_dict = (\<lambda>_. Inr []), x_encode = (\<lambda>_. Inr []), x_decode = (\<lambda>_. Inr (GraphState served_graph)),
      x_hash = (\<lambda>_. Inr []), x_handle = (\<lambda>c s. Inr []), x_reduce = (\<lambda>v e core. Inr v),
      x_projection_tables = Some [''served''], x_apply = (\<lambda>d s. ([], Inr ())),
      x_read = (\<lambda>d m. ([], Inr (GraphState served_graph))), x_clear = (\<lambda>d m. ([], Inr ())), x_verify = (\<lambda>n p. Inr []),
      x_projection_seq = None, x_migration_owner = Some EXTENSION_ID, x_migrations = [served_step]\<rparr>"

definition resume_manifest :: "extension_value manifest" where
  "resume_manifest = er_manifest sample_sha id [er_step sample_sha]"

lemma resume_manifest_code [code]:
  "resume_manifest = er_manifest sample_sha id [\<lparr>mg_version = 1, mg_checksum = replicate 64 (CHR ''0''), mg_apply = er_apply_schema\<rparr>]"
  by (simp add: resume_manifest_def er_step_def canonical_sha256_def sample_sha_def)

definition resume_r :: "extension_value registry" where
  "resume_r = projr (ExtensionRegistry [serving_extension, resume_manifest])"

definition session_command_in :: "string \<Rightarrow> string \<Rightarrow> int \<Rightarrow> dict \<Rightarrow> raw_command" where
  "session_command_in i t n p = RawValue (JObj
     [(''command_id'', JStr i), (''type'', JStr t), (''mission_id'', JStr ''m''), (''session_id'', JStr ''x''), (''expected_seq'', JInt n),
      (''actor'', JObj [(''type'', JStr ''user''), (''id'', JStr ''u'')]), (''payload'', JObj p)])"

definition attempt_payload :: "string \<Rightarrow> int \<Rightarrow> dict" where
  "attempt_payload i n =
     [(''attempt_id'', JStr i), (''plan_id'', JStr ''p''), (''plan_revision_id'', JStr ''r''), (''task_id'', JStr ''t''),
      (''context_cursor'', JObj [(''mission_id'', JStr ''m''), (''through_seq'', JInt n), (''stream_schema_version'', JInt 1)]),
      (''context_semantic_digest'', JStr (replicate 64 (CHR ''0''))), (''context_schema_version'', JInt 1),
      (''context_builder_version'', JInt 1), (''context_canonicalization_version'', JInt 1), (''policy_id'', JStr ''q''),
      (''policy_version'', JInt 1), (''knowledge_set_digest'', JStr (replicate 64 (CHR ''0'')))]"

definition attempt_commands :: "raw_command list" where
  "attempt_commands =
     [create_command, goal_create_command, sample_command ''c3'' ''ACTIVATE_MISSION'' 2 [], session_command_in ''c4'' ''OPEN_SESSION'' 3 [],
      session_command_in ''c5'' ''START_EXECUTION_ATTEMPT'' 4 (attempt_payload ''a'' 4),
      session_command_in ''c6'' ''RESUME_EXECUTION_ATTEMPT'' 5 (attempt_payload ''b'' 5 @ [(''resume_from_attempt_id'', JStr ''a'')])]"

definition attempt_calls :: "(environment \<times> raw_command) list" where
  "attempt_calls = zip (map sample_env [''a'', ''b'', ''c'', ''d'', ''e'', ''f'']) attempt_commands"

definition attempts_db :: db where
  "attempts_db = run_history sample_sha resume_r attempt_calls (fst (open_service ''db'' [serving_extension, resume_manifest] ''now'' empty_db))"

lemma attempts_run:
  "(isl (ExtensionRegistry [serving_extension, resume_manifest]),
    isl (snd (open_service ''db'' [serving_extension, resume_manifest] ''now'' empty_db)),
    case list_events attempts_db ''m'' 0 None of
      Inl _ \<Rightarrow> []
    | Inr es \<Rightarrow> map (\<lambda>e. (ev_event_type e, ev_seq e)) es) =
   (False, False,
    [(''mission.created'', 1), (''goal.created'', 2), (''mission.activated'', 3), (''session.opened'', 4),
     (''execution.attempt_started.v1'', 5), (''execution.attempt_resumed.v1'', 6)])"
  by code_simp

lemma resume_registered:
  "execution_resume_extension sample_sha id = Inr resume_manifest" "ExtensionRegistry [serving_extension, resume_manifest] = Inr resume_r"
proof -
  show "execution_resume_extension sample_sha id = Inr resume_manifest"
    unfolding resume_manifest_def by (rule execution_resume_extension_Inr [OF sample_sha_hex])
  show "ExtensionRegistry [serving_extension, resume_manifest] = Inr resume_r"
    using attempts_run by (cases "ExtensionRegistry [serving_extension, resume_manifest]") (simp_all add: resume_r_def)
qed

lemma resume_member: "resume_manifest \<in> set (r_manifests resume_r)"
  using make_registry_inv(2) [OF resume_registered(2) [unfolded ExtensionRegistry_def]] by simp

lemma attempts_db_reachable: "service_reachable sample_sha resume_r attempts_db"
proof -
  obtain d o' where opened: "open_service ''db'' [serving_extension, resume_manifest] ''now'' empty_db = (d, o')" by (rule prod.exhaust)
  then obtain r where "o' = Inr r" using attempts_run by (cases o') simp_all
  moreover from this have "r = resume_r"
    using opened open_service_Inr(1) [of "''db''" "[serving_extension, resume_manifest]" "''now''" empty_db d r] resume_registered(2) by simp
  ultimately have "service_reachable sample_sha resume_r d" using opened service_reachable.created by fastforce
  then show ?thesis unfolding attempts_db_def opened fst_conv by (rule reachable_history)
qed

lemma attempts_listed:
  obtains es where "list_events attempts_db ''m'' 0 None = Inr es"
    and "map (\<lambda>e. (ev_event_type e, ev_seq e)) es =
      [(''mission.created'', 1), (''goal.created'', 2), (''mission.activated'', 3), (''session.opened'', 4),
       (''execution.attempt_started.v1'', 5), (''execution.attempt_resumed.v1'', 6)]"
  using attempts_run by (cases "list_events attempts_db ''m'' 0 None") simp_all

lemma attempts_stream: "stream attempts_db ''m'' \<noteq> []"
  by (rule attempts_listed) (auto simp: list_events_def)

end
