(* ===== verification/Spec2Isabelle.thy ===== *)
theory Spec2Isabelle
  imports Samples WgSamples WgAcceleration WgProgress ResumeSamples "HOL-Library.Sublist"
begin

text \<open>
  The durable runtime core of the test employee and its work graph, as Isabelle definitions with the theorems
  that make them correct.  The code is the Python package aitest_runtime under
  src/workspace-template/ai-test/runtime/aitest_runtime/, of which \<open>durable_core/\<close> and \<open>work_graph/\<close> are modelled
  completely, and \<open>execution_resume/\<close> except its service.

  \<^bold>\<open>The program.\<close>  A mission is a stream of events in SQLite.  A command goes to the command bus
  (durable_core/command_bus.py), which opens a write transaction, answers repeated commands from the commands
  table, replays the mission, asks the handler of the command's owner for events, reduces them, and writes the
  command's result, the events and the materialized projections.  The owner is the core (missions, goals,
  sessions) or an extension registered through a manifest, which brings its own state, handlers, reducer,
  projection tables and migrations.  Work graphs (plans, revisions, tasks, dependencies, snapshots) are such an
  extension; execution attempts (execution_resume/), which start and resume the execution of a task, are another.
  The service (durable_core/service.py) opens the database, registers the extensions and offers the
  bus, replay, verification and rebuilding; work_graph/queries.py reads graphs over it.

  \<^bold>\<open>Theories, in the order of their imports.\<close>
    \<^item> Prelude: results of fallible code (\<open>Inl\<close> the exception, \<open>Inr\<close> the value) with the collection \<open>res_simps\<close>,
      keyed tuples with \<open>keyed_simps\<close>, and the locales of an event-sourced machine (\<open>event_machine\<close>,
      \<open>invariant_machine\<close>, \<open>monotone_machine\<close>): a replay is numbered without gaps, keeps an invariant and a
      relation between earlier and later states.
    \<^item> PyValues, CanonicalJson: JSON documents, Python's exceptions, equality, truthiness and conversions;
      canonical.py with a parser of the canonical texts, so that text identifies value up to key order.
    \<^item> CoreContracts, CoreReducer, CoreHandlers: contracts.py, reducer.py and handlers.py of the core.  The
      locale \<open>dict_codec\<close> is the contract of a pair \<open>to_dict\<close> and \<open>from_dict\<close>, interpreted by every record of the
      core and of the work graph.  \<open>core_step\<close> is the abstract mission machine, \<open>core_inv\<close> its invariant.
    \<^item> Database, Schema, EventStore: the part of SQLite that is used (tables, keys, triggers, the authorizer
      hook, transactions), schema.py with the migrations of extensions, event_store.py with the log.
    \<^item> Registry: the registry of manifests and the composed reducer.
    \<^item> CoreProjections, ComposedProjections: projections.py; the locale \<open>rebuilder\<close> is the loop of a rebuild,
      interpreted by the core's and by the composed one.
    \<^item> CommandBus, BusCorrectness, RuntimeService: command_bus.py and service.py; \<open>bus_inv\<close> is the invariant of
      the database, \<open>service_reachable\<close> the databases that a service can reach.
    \<^item> EventOrigin, ExtensionContract, ExtensionStorage: every logged event was proposed by the handler of its
      owner on the state its log prefix replays to (\<open>reachable_decided\<close>); the locales \<open>extension_contract\<close> and
      \<open>extension_storage\<close> are what an extension owes the composed replay and the database, and conclude that a
      service's database always shows the extension's replayed state (\<open>reachable_shown\<close>).
    \<^item> WgContracts, WgGraph, WgReducer, WgInvariant, WgHandlers, WgProjections, WgExtension, WgQueries: the files
      of work_graph/.  \<open>graph_step\<close> is the abstract machine of a graph, \<open>graph_inv\<close> its invariant, \<open>graph_evolves\<close>
      what a later graph keeps of an earlier one.
    \<^item> WgService, WgReads: the graph through the life of a database, by the interpretations \<open>graph_laws\<close> and
      \<open>graph_storage\<close> of those locales, and the reads.  WgEffect, WgDecode and
      WgAcceleration: an accepted event changes the graph as a function of the event alone (\<open>graph_effect\<close>), a
      snapshot decodes to the state it was taken of, hence a read from a snapshot equals a replay.
      WgProgress: the lifecycle moves that are left.
    \<^item> EventCursors, ResumeContracts, ResumeReducer, ResumeHandlers, ResumeProjections, ResumeExtension: the cursor of
      execution_context/contracts.py, and contracts.py, reducer.py, handlers.py, projections.py and extension.py of
      execution_resume/.  \<open>attempt_step\<close> is the abstract machine of attempts, \<open>resume_inv\<close> its invariant: the attempts
      of a task form one chain.  Its handlers read the states of two extensions, so extension states are values of
      \<open>extension_value\<close>; what they propose the reducer accepts (\<open>resume_handle_sound\<close>).  ResumeExtension places the
      manifest in any registry through \<open>extension_storage\<close>.
    \<^item> Samples, WgSamples, ResumeSamples: concrete services, databases and logs, on which the witnesses apply the properties.

  \<^bold>\<open>Correspondence.\<close>  A definition has the name of the function, method or class it models, with a suffix or the
  prefix \<open>wg_\<close>, \<open>core_\<close> or \<open>service_\<close> where a name would clash; a dataclass is a record, an enum a datatype, a
  constructor with checks (\<open>__post_init__\<close>) a function \<open>make_\<close>; every \<open>raise\<close> is an \<open>Inl\<close> with the exception's
  class, code and message.  State is passed explicitly: \<open>execute\<close> maps a database to a database and a result.
  The callbacks of an extension are fields of its manifest; a callback on the database is the list of its
  statements with its result, run under the authorizer.  What comes from outside is a parameter: the hash
  function \<open>sha\<close> (\<open>hashlib.sha256\<close>, of which only the form of its digests is assumed, \<open>hex_digest\<close>, and only where
  a migration's checksum is checked), Unicode normalization \<open>nfc\<close> (\<open>unicodedata.normalize\<close>, of which only
  \<open>idempotent\<close> is assumed), and the \<open>environment\<close> of a call: clock, generated identifiers, failure
  injector, and whether BEGIN and COMMIT fail.

  \<^bold>\<open>Properties.\<close>  C1 to C8: the service and its database, over all reachable databases and every environment,
  failing calls included (projections are replays, commands apply at most once, stale commands append nothing,
  the log only grows, ended entities stay as they are, failing calls leave no trace).  C9 to C12: the core
  machine and its handlers.  C13 to C18: canonical text, commands, storing and reading back.  C19 to C21:
  verification, rebuilding, the confinement of callbacks.  C22 to C25: registry, migrations, the composed
  reducer.  C26 to C28: graphs in a service, through every opening, call and rebuild.  C29 to C37: the graph's
  machine, cycle search, availability, handlers, storage, registration, listing, the bound on lifecycle moves.
  C38: reading the log by windows.  C39 and C40: execution attempts in a service, what is stored of them and when
  they are recorded.

  \<^bold>\<open>Bounds.\<close>  Fuel occurs in one place, the parser of JSON text (\<open>json_loads\<close>), which gets one more than the
  length of the text; that is enough for every text the runtime writes (\<open>json_loads_canonical\<close>, C13).  The
  depth-first search terminates by the number of nodes that are not on its path (\<open>visit\<close>).  Python's
  integers are \<open>int\<close>; sequence numbers beyond SQLite's 64 bits, the recursion limit of CPython and memory are
  outside the model.

  \<^bold>\<open>Not modelled.\<close>  Floating-point numbers in payloads, and characters that are not UTF-8; \<open>connect\<close> (opening the
  file, pragmas), locking and concurrent writers (SQLite serializes write transactions, a call is one
  transaction); the service of execution_resume with its request and result records, and the context
  capsules of execution_context beyond the cursor; the other extensions of the core (tool_execution,
  provider_binding, r2_5, r3_1 and so on), which have the shape of the work graph and run on the modelled core, for which the theorems
  over every registry (C1 to C8, C19 to C25) hold as they stand; the orchestrators, the browser, the servers,
  installers and the earlier file-based runtime, which are input, output and processes.
\<close>

section \<open>The service and its database\<close>

text \<open>C1: In every database a runtime service can reach (created and opened, then any sequence of
  command executions and rebuilds, failing ones included, and of re-openings), the projection of each
  mission is exactly the state its event log replays to, in its stored form; the replay succeeds,
  satisfies the core invariant, and its sequence number is the number of logged events.\<close>

theorem projection_is_replay:
  assumes "service_reachable sha r d"
  shows "if stream d m = [] then projection_state d m = Inr None
         else \<exists>s. service_replay r d m None = Inr s \<and> projection_state d m = Inr (Some (norm_state s)) \<and>
                  core_inv s \<and> rs_seq s = int (length (stream d m))"
proof (cases "stream d m = []")
  case True
  then show ?thesis using reachable_inv [OF assms] by (simp add: bus_inv_def mission_consistent_def)
next
  case False
  from reachable_mission [OF assms False] show ?thesis
    using False by cases (auto simp: shows_state_def)
qed

theorem projection_is_replay_witness:
  "\<exists>s. service_replay sample_registry goal_db ''m'' None = Inr s \<and>
       projection_state goal_db ''m'' = Inr (Some (norm_state s)) \<and> rs_seq s = 2"
proof -
  have "stream goal_db ''m'' \<noteq> []" using sample_lengths(2) by auto
  then show ?thesis
    using projection_is_replay [OF sample_goal_reachable, of "''m''"] sample_lengths(2) by auto
qed

text \<open>C2: A command that was applied is applied at most once.  Executing it again at any later time,
  after any other calls, returns the recorded result and leaves the database as it is, as long as
  the transaction itself can be opened and committed.\<close>

theorem applied_command_is_final:
  assumes "service_reachable sha r d"
    and "execute sha r env d raw = (d1, Inr res)" and "cr_outcome res = ''APPLIED''"
    and "env_begin env' = Inr ()" and "env_commit env' = Inr ()"
  shows "execute sha r env' (run_history sha r calls d1) raw = (run_history sha r calls d1, Inr res)"
proof (rule execute_again [OF assms(2,3) _ _ assms(4,5)])
  show "core_tables_safe r" using reachable_inv [OF assms(1)] by blast
  then show "grows d1 (run_history sha r calls d1) ''commands''" by (intro history_grows) simp_all
qed

theorem applied_command_is_final_witness:
  "execute id sample_registry (sample_env ''z'') (run_history id sample_registry [(sample_env ''b'', goal_create_command)] created_db)
     create_command =
   (run_history id sample_registry [(sample_env ''b'', goal_create_command)] created_db, Inr created_result)"
  by (rule applied_command_is_final [OF sample_opened_reachable sample_create sample_create_applied])
     (simp_all add: sample_env_def)

text \<open>C3: A call that is newly applied appends a non-empty block of events to the mission's log,
  numbered from the old head without gaps and carrying the command's identifier; the reported first
  and last sequence numbers are those of the block and the reported hash is that of the replay of
  the new log.\<close>

theorem applied_command_appends:
  assumes "service_reachable sha r d" and "execute sha r env d raw = (d', Inr res)"
    and "cr_outcome res = ''APPLIED''" and "normalize_command raw = Inr c" and "d' \<noteq> d"
  shows "\<exists>old events state' h.
    list_events d (c_mission_id c) 0 None = Inr old \<and>
    list_events d' (c_mission_id c) 0 None = Inr (old @ events) \<and> events \<noteq> [] \<and>
    map ev_seq events = map (\<lambda>i. int (length old) + int i) [1..<Suc (length events)] \<and>
    ev_command_id ` set events = {c_command_id c} \<and>
    load_state d' (c_mission_id c) r = Inr state' \<and> bus_state_hash sha r state' = Inr h \<and>
    cr_first_seq res = Some (int (length old) + 1) \<and>
    cr_last_seq res = Some (int (length old) + int (length events)) \<and> cr_state_hash res = Some h"
proof -
  have "newly_applied sha r d d' c res"
    using execute_applied [OF assms(2,3) _ _ assms(4)] reachable_inv [OF assms(1)] assms(5) by blast
  then obtain old events state' h where log: "list_events d (c_mission_id c) 0 None = Inr old"
      "list_events d' (c_mission_id c) 0 None = Inr (old @ events)" and some: "events \<noteq> []"
    and seqs: "map ev_seq events = map (\<lambda>i. int (length old) + int i) [1..<Suc (length events)]"
    and ids: "\<forall>e \<in> set events. ev_command_id e = c_command_id c"
    and state: "load_state d' (c_mission_id c) r = Inr state'" "bus_state_hash sha r state' = Inr h"
    and res: "res = applied_result c events h"
    by (auto simp: newly_applied_def)
  have "ev_seq (hd events) = hd (map ev_seq events)" "ev_seq (last events) = last (map ev_seq events)"
    using some by (simp_all add: hd_map last_map)
  then have "ev_seq (hd events) = int (length old) + 1" "ev_seq (last events) = int (length old) + int (length events)"
    using some unfolding seqs by (simp_all add: hd_map last_map hd_upt last_upt Suc_le_eq del: upt_Suc)
  moreover have "ev_command_id ` set events = {c_command_id c}" using ids some by (cases events) auto
  ultimately show ?thesis
    using log some seqs state res by (intro exI [of _ old] exI [of _ events] exI [of _ state'] exI [of _ h])
      (simp add: applied_result_def)
qed

theorem applied_command_appends_witness:
  "\<exists>old events. list_events created_db ''m'' 0 None = Inr old \<and>
     list_events goal_db ''m'' 0 None = Inr (old @ events) \<and> events \<noteq> [] \<and>
     ev_command_id ` set events = {''c2''}"
proof -
  obtain old events where "list_events created_db (c_mission_id (sample_envelope goal_create_command)) 0 None = Inr old"
      "list_events goal_db (c_mission_id (sample_envelope goal_create_command)) 0 None = Inr (old @ events)"
      "events \<noteq> []" "ev_command_id ` set events = {c_command_id (sample_envelope goal_create_command)}"
    using applied_command_appends [OF sample_created_reachable sample_goal sample_goal_applied sample_envelopes(2)
        sample_changed(2)] by (elim exE conjE)
  then show ?thesis unfolding sample_fields by (intro exI conjI)
qed

text \<open>C4: Optimistic concurrency.  After a command that named the head \<open>n\<close> of a mission's stream has
  been newly applied, no later command of that mission that names the same \<open>n\<close> is applied any more, whatever
  happened in between: it changes nothing but the commands table, where a refusal may be recorded, and if its
  outcome is APPLIED it changes nothing at all and was answered from the record that the commands table holds
  under its identifier and intent.\<close>

theorem stale_command_appends_nothing:
  assumes "service_reachable sha r d" and "execute sha r env d raw = (d1, Inr res)"
    and "cr_outcome res = ''APPLIED''" and "d1 \<noteq> d" and "normalize_command raw = Inr c"
    and "d2 = run_history sha r calls d1" and "execute sha r env' d2 raw' = (d3, out)"
    and "normalize_command raw' = Inr c'"
    and "c_mission_id c' = c_mission_id c" and "c_expected_seq c' = c_expected_seq c"
  shows "(\<forall>t. t \<noteq> ''commands'' \<longrightarrow> db_rows d3 t = db_rows d2 t) \<and>
    (case out of Inl e \<Rightarrow> d3 = d2
     | Inr res' \<Rightarrow> cr_outcome res' = ''APPLIED'' \<longrightarrow> d3 = d2 \<and> recorded_answer sha d2 c' res')"
proof -
  have safe: "core_tables_safe r" and inv: "bus_inv r d" using reachable_inv [OF assms(1)] by blast+
  note called = service_reachable.called [OF assms(1,2)]
  have reach: "service_reachable sha r d2" unfolding assms(6) by (intro reachable_history called)
  obtain state pending where new: "newly_applied sha r d d1 c res"
    and decided: "load_state d (c_mission_id c) r = Inr state" "propose r c state (get_head_seq d (c_mission_id c)) = Inr pending"
    using execute_answered [OF assms(2,3) inv safe assms(5)] assms(4) by blast
  have grown: "length (stream d1 (c_mission_id c)) \<le> length (stream d2 (c_mission_id c))"
    by (rule grows_stream) (simp add: assms(6) history_grows [OF safe])
  have head: "c_expected_seq c < int (length (stream d2 (c_mission_id c)))"
    using applied_names_head [OF assms(1) new decided] newly_applied_longer [OF new inv reachable_log [OF called]] grown
    by linarith
  show ?thesis
  proof (cases out)
    case (Inl e)
    then have "d3 = d2" using execute_raised assms(7) by blast
    then show ?thesis using Inl by simp
  next
    case (Inr res')
    have inv2: "bus_inv r d2" using reachable_inv [OF reach] by blast
    have "d3 = d2 \<and> recorded_answer sha d2 c' res'" if applied: "cr_outcome res' = ''APPLIED''"
      using execute_answered [OF assms(7) [unfolded Inr] applied inv2 safe assms(8)] applied_names_head [OF reach, of d3 c' res']
        head assms(9,10) by auto
    then show ?thesis
      using execute_not_applied [OF assms(7) [unfolded Inr] _ safe] Inr by (cases "cr_outcome res' = ''APPLIED''") simp_all
  qed
qed

theorem stale_command_appends_nothing_witness:
  "db_rows stale_db ''events'' = db_rows goal_db ''events'' \<and> db_rows stale_db ''goal_projection'' = db_rows goal_db ''goal_projection''"
proof -
  have "\<forall>t. t \<noteq> ''commands'' \<longrightarrow> db_rows stale_db t = db_rows goal_db t"
    by (rule conjunct1 [OF stale_command_appends_nothing [OF sample_created_reachable sample_goal sample_goal_applied sample_changed(2)
          sample_envelopes(2) _ sample_stale sample_envelopes(3), where calls = "[]"]])
       (simp_all add: sample_fields)
  then show ?thesis by simp
qed

text \<open>C5: The event log is append-only and gap-free: after any history of calls each mission's stream
  extends its earlier stream, and the sequence numbers of the stream are 1, 2, ..., n in order.\<close>

theorem log_is_append_only:
  assumes "service_reachable sha r d"
  shows "(\<exists>rows. stream (run_history sha r calls d) m = stream d m @ rows) \<and>
         map row_seq (stream (run_history sha r calls d) m) =
           map int [1..<Suc (length (stream (run_history sha r calls d) m))]"
proof -
  have "grows d (run_history sha r calls d) ''events''"
    using reachable_inv [OF assms] by (intro history_grows) auto
  moreover have "log_ok (run_history sha r calls d)" by (rule reachable_log [OF reachable_history [OF assms]])
  ultimately show ?thesis by (auto simp: grows_def stream_def select_rows_def log_ok_def)
qed

theorem log_is_append_only_witness:
  "map row_seq (stream (run_history id sample_registry [(sample_env ''b'', goal_create_command)] created_db) ''m'') =
     map int [1..<Suc (length (stream (run_history id sample_registry [(sample_env ''b'', goal_create_command)] created_db) ''m''))]"
  by (rule conjunct2 [OF log_is_append_only [OF sample_created_reachable]])

text \<open>C6: Over any history of calls a mission that is COMPLETED, FAILED or CANCELLED keeps its status, a
  goal that is no longer ACTIVE never changes again, a CLOSED or FAILED session never changes again,
  no mission, goal or session disappears, and the revision of a goal never decreases.\<close>

theorem terminal_entities_are_frozen:
  assumes "service_reachable sha r d" and "service_replay r d m None = Inr s"
  shows "\<exists>t. service_replay r (run_history sha r calls d) m None = Inr t \<and> rs_seq s \<le> rs_seq t \<and>
    (\<forall>mi. rs_mission s = Some mi \<longrightarrow> (\<exists>mi'. rs_mission t = Some mi' \<and>
        (ms_status mi \<in> {Mission_COMPLETED, Mission_FAILED, Mission_CANCELLED} \<longrightarrow> ms_status mi' = ms_status mi))) \<and>
    (\<forall>k g. goal_of s k = Some g \<longrightarrow> (\<exists>g'. goal_of t k = Some g' \<and> gs_revision g \<le> gs_revision g' \<and>
        (gs_status g \<noteq> Goal_ACTIVE \<longrightarrow> g' = g))) \<and>
    (\<forall>k x. session_of s k = Some x \<longrightarrow> (\<exists>x'. session_of t k = Some x' \<and>
        (ss_status x \<in> {Session_CLOSED, Session_FAILED} \<longrightarrow> x' = x)))"
proof -
  have inv: "bus_inv r d" "core_tables_safe r" using reachable_inv [OF assms(1)] by blast+
  obtain b where b: "load_state d m r = Inr b" "core_part b = s"
    using assms(2) by (auto simp: service_replay_load and_then_Inr_iff)
  obtain t where t: "load_state (run_history sha r calls d) m r = Inr t" "bus_evolves b t"
    using history_evolves [OF inv b(1)] by blast
  have evolves: "core_evolves s (core_part t)" using t(2) b(2) by (simp add: bus_evolves_def)
  have replay: "service_replay r (run_history sha r calls d) m None = Inr (core_part t)"
    using t(1) by (simp add: service_replay_load)
  show ?thesis
    by (rule exI [of _ "core_part t"], intro conjI replay)
       (use evolves in \<open>fastforce simp: core_evolves_def mission_evolves_def goal_evolves_def session_evolves_def mission_terminal_def\<close>)+
qed

theorem terminal_entities_are_frozen_witness:
  "\<exists>s t. service_replay sample_registry created_db ''m'' None = Inr s \<and>
     service_replay sample_registry (run_history id sample_registry [(sample_env ''b'', goal_create_command)] created_db) ''m'' None = Inr t \<and>
     rs_seq s \<le> rs_seq t"
proof -
  have "stream created_db ''m'' \<noteq> []" using sample_lengths(1) by auto
  then obtain s where s: "service_replay sample_registry created_db ''m'' None = Inr s"
    by (rule reachable_mission [OF sample_created_reachable])
  show ?thesis using terminal_entities_are_frozen [OF sample_created_reachable s] s by blast
qed

section \<open>Failing and refused calls\<close>

text \<open>C7: Failing calls leave no trace.  A call whose exception escapes, or whose transaction cannot be opened or
  committed, leaves the database exactly as it was.  A failure injected at any point between the first write and
  the commit leaves it as it was too, unless the command is refused: then a row with status REJECTED is added to
  the commands table, the outcome is REJECTED, and nothing else changes.\<close>

theorem failing_call_leaves_no_trace:
  assumes "execute sha r env d raw = (d', out)"
  shows "((\<exists>e. out = Inl e) \<or> env_begin env \<noteq> Inr () \<or> env_commit env \<noteq> Inr () \<longrightarrow> d' = d) \<and>
    (\<forall>point \<in> {''after_command_insert'', ''after_event_insert'', ''after_projection_apply'', ''before_commit''}.
       env_inject env point \<noteq> Inr () \<longrightarrow>
         d' = d \<or> (\<exists>res row. out = Inr res \<and> cr_outcome res = ''REJECTED'' \<and> dget row ''status'' = JStr ''REJECTED'' \<and>
           db_rows d' = (db_rows d)(''commands'' := db_rows d ''commands'' @ [row])))"
proof (intro conjI ballI impI)
  show "d' = d" if "(\<exists>e. out = Inl e) \<or> env_begin env \<noteq> Inr () \<or> env_commit env \<noteq> Inr ()"
    using that assms execute_raised execute_aborted by blast
qed (rule execute_injected [OF assms])

theorem failing_call_leaves_no_trace_witness:
  "fst (execute id sample_registry ((sample_env ''b'')\<lparr>env_commit := Inl (OperationalErr ''database is locked'')\<rparr>)
     created_db goal_create_command) = created_db \<and>
   (let (d', out) = execute id sample_registry (failing_env ''b'') created_db goal_create_command
    in d' = created_db \<or> (\<exists>res. out = Inr res \<and> cr_outcome res = ''REJECTED''))"
proof -
  have "fst (execute id sample_registry ((sample_env ''b'')\<lparr>env_commit := Inl (OperationalErr ''database is locked'')\<rparr>)
     created_db goal_create_command) = created_db"
    by (rule mp [OF conjunct1 [OF failing_call_leaves_no_trace [OF prod.collapse [symmetric]]]]) simp
  moreover have "env_inject (failing_env ''b'') ''after_event_insert'' \<noteq> Inr ()" by (simp add: failing_env_def)
  ultimately show ?thesis
    using failing_call_leaves_no_trace [OF prod.collapse [symmetric], of id sample_registry "failing_env ''b''" created_db goal_create_command]
    by (fastforce simp: case_prod_beta)
qed

text \<open>C8: A call with any outcome but APPLIED (rejected, duplicate, conflict, storage failure) changes no
  table except the commands table, and both the log and the commands table only ever grow.\<close>

theorem refused_call_is_recorded_only:
  assumes "execute sha r env d raw = (d', Inr res)" and "service_reachable sha r d"
  shows "(\<exists>rows. db_rows d' ''commands'' = db_rows d ''commands'' @ rows) \<and>
         (\<exists>rows. db_rows d' ''events'' = db_rows d ''events'' @ rows) \<and>
         (cr_outcome res \<noteq> ''APPLIED'' \<longrightarrow> (\<forall>t. t \<noteq> ''commands'' \<longrightarrow> db_rows d' t = db_rows d t))"
proof -
  have safe: "core_tables_safe r" using reachable_inv [OF assms(2)] by blast
  show ?thesis using execute_grows [OF assms(1) safe] execute_not_applied [OF assms(1) _ safe] by (simp add: grows_def)
qed

theorem refused_call_is_recorded_only_witness:
  "db_rows stale_db ''mission_projection'' = db_rows goal_db ''mission_projection''"
  using refused_call_is_recorded_only [OF sample_stale sample_goal_reachable] sample_stale_rejected by simp

section \<open>The core state machine\<close>

text \<open>C9: The reducer implements the abstract mission machine: every event it accepts is one step of
  \<open>core_step\<close>, it is the next in sequence and belongs to the mission, and the step preserves the
  core invariant and freezes terminal entities.\<close>

theorem reduce_refines_machine:
  assumes "reduce s e = Inr s'"
  shows "core_step s s' \<and> ev_seq e = rs_seq s + 1 \<and> rs_seq s' = ev_seq e \<and>
         ev_mission_id e = rs_mission_id s \<and> rs_mission_id s' = rs_mission_id s \<and>
         core_evolves s s' \<and> (core_inv s \<longrightarrow> core_inv s')"
proof -
  have step: "core_step s s'" by (rule reduce_refines_core_step [OF assms])
  moreover have "ev_mission_id e = rs_mission_id s" using assms unfolding reduce_Inr by blast
  ultimately show ?thesis
    using core_machine.step_number [OF assms] core_machine.step_seq [OF assms] core_step_mission_id [OF step] core_step_evolves [OF step]
      core_step_inv [OF step] by simp
qed

definition sample_created_event :: event_envelope where
  "sample_created_event =
     \<lparr>ev_event_id = ''e1'', ev_mission_id = ''m'', ev_seq = 1, ev_event_type = ''mission.created'',
      ev_entity_type = ''mission'', ev_entity_id = ''m'', ev_command_id = ''c1'', ev_correlation_id = ''c1'',
      ev_initiator_type = ''user'', ev_initiator_id = ''u'', ev_payload = [(''attributes'', JObj [])], ev_created_at = ''t'',
      ev_session_id = None, ev_schema_version = 1\<rparr>"

definition sample_goal_event :: event_envelope where
  "sample_goal_event = sample_created_event\<lparr>ev_event_id := ''e2'', ev_seq := 2, ev_event_type := ''goal.created'',
     ev_payload := [(''status'', JStr ''ACTIVE''), (''revision'', JInt 1)]\<rparr>"

definition sample_initial :: runtime_state where
  "sample_initial = \<lparr>rs_mission_id = ''m'', rs_seq = 0, rs_mission = None, rs_goals = [], rs_sessions = []\<rparr>"

definition sample_created :: runtime_state where
  "sample_created = projr (reduce sample_initial sample_created_event)"

lemma sample_initial_state: "initial_state ''m'' = Inr sample_initial"
  by (simp add: initial_state_def sample_initial_def nonblank_def is_space_def)

lemma sample_reduced: "reduce sample_initial sample_created_event = Inr sample_created"
proof -
  have "\<not> isl (reduce sample_initial sample_created_event)" by code_simp
  then show ?thesis by (simp add: sample_created_def)
qed

lemma sample_created_mission: "\<exists>mi. rs_mission sample_created = Some mi \<and> ms_status mi = Mission_CREATED"
proof -
  have "map_option ms_status (rs_mission sample_created) = Some Mission_CREATED" by code_simp
  then show ?thesis by auto
qed

theorem reduce_refines_machine_witness: "core_step sample_initial sample_created \<and> core_inv sample_created"
  using reduce_refines_machine [OF sample_reduced] core_inv_initial [OF sample_initial_state] by simp

text \<open>C10: A state that any list of events replays to from the initial state has at most one active
  goal, which is the mission's \<open>active_goal_id\<close>; a completed mission has an achieved goal; a mission
  that is active, paused or blocked has a goal; and its identifiers are unique.\<close>

theorem replayed_state_is_sound:
  assumes "initial_state m = Inr s0" and "fold_res reduce s0 es = Inr s" and "rs_mission s = Some mi"
  shows "distinct (map gs_goal_id (rs_goals s)) \<and> distinct (map ss_session_id (rs_sessions s)) \<and>
    (\<forall>g. g \<in> set (rs_goals s) \<and> gs_status g = Goal_ACTIVE \<longrightarrow> ms_active_goal_id mi = Some (gs_goal_id g)) \<and>
    (\<forall>k. ms_active_goal_id mi = Some k \<longrightarrow> (\<exists>g. goal_of s k = Some g \<and> gs_status g = Goal_ACTIVE)) \<and>
    (ms_status mi = Mission_COMPLETED \<longrightarrow> (\<exists>g \<in> set (rs_goals s). gs_status g = Goal_ACHIEVED)) \<and>
    (ms_status mi \<in> {Mission_ACTIVE, Mission_PAUSED, Mission_BLOCKED} \<longrightarrow> rs_goals s \<noteq> [])"
proof -
  have "core_inv s" by (rule core_machine.run_inv [OF core_inv_initial [OF assms(1)] assms(2)])
  then have inv: "state_ids_distinct s" "active_goal_ok mi (rs_goals s)"
      "ms_status mi = Mission_COMPLETED \<longrightarrow> has_achieved_goal s"
      "ms_status mi = Mission_CREATED \<or> ms_status mi = Mission_CANCELLED \<or> rs_goals s \<noteq> []"
    using assms(3) by (simp_all add: core_inv_def)
  then have ids: "distinct (map gs_goal_id (rs_goals s))" "distinct (map ss_session_id (rs_sessions s))"
    by (simp_all add: state_ids_distinct_def)
  have "\<exists>g. goal_of s k = Some g \<and> gs_status g = Goal_ACTIVE" if "ms_active_goal_id mi = Some k" for k
    using inv(2) that ids(1) by (auto simp: active_goal_ok_def goal_of_def find_by_Some_iff)
  then show ?thesis using inv ids by (auto simp: active_goal_ok_def has_achieved_goal_def list_ex_iff)
qed

theorem replayed_state_is_sound_witness:
  "\<exists>mi. rs_mission sample_created = Some mi \<and> distinct (map gs_goal_id (rs_goals sample_created))"
proof -
  have run: "fold_res reduce sample_initial [sample_created_event] = Inr sample_created"
    by (simp add: sample_reduced)
  obtain mi where mi: "rs_mission sample_created = Some mi" using sample_created_mission by blast
  show ?thesis using replayed_state_is_sound [OF sample_initial_state run mi] mi by blast
qed

text \<open>C11: The handler never proposes what the reducer refuses: in a state satisfying the core invariant a
  command is refused or answered with exactly one event, and every envelope the bus can build for
  that event is accepted by the reducer.\<close>

theorem handler_agrees_with_reducer:
  assumes "handle c s = Inr ps" and "core_inv s"
  shows "\<exists>p. ps = [p] \<and> pe_event_type p \<in> set SUPPORTED_EVENTS \<and>
             (\<forall>e. event_for s p e \<longrightarrow> (\<exists>s'. reduce s e = Inr s' \<and> core_inv s'))"
proof -
  obtain p where p: "ps = [p]" "\<forall>e. event_for s p e \<longrightarrow> (\<exists>s'. reduce s e = Inr s')"
    using handle_sound [OF assms] by blast
  have "\<exists>e. event_for s p e"
    by (rule exI [of _ "sample_created_event\<lparr>ev_mission_id := rs_mission_id s, ev_seq := rs_seq s + 1,
          ev_event_type := pe_event_type p, ev_entity_id := pe_entity_id p, ev_payload := canon_dict (pe_payload p)\<rparr>"])
       (simp add: event_for_def sample_created_event_def)
  then obtain e s' where "event_for s p e" "reduce s e = Inr s'" using p(2) by blast
  then have "pe_event_type p \<in> set SUPPORTED_EVENTS" using reduce_supported [of s e s'] by (auto simp: event_for_def)
  then show ?thesis using p core_machine.inv_step assms(2) by blast
qed

theorem handler_agrees_with_reducer_witness:
  "\<exists>p. handle (sample_envelope create_command) sample_initial = Inr [p] \<and> pe_event_type p \<in> set SUPPORTED_EVENTS"
proof -
  have "\<not> isl (handle (sample_envelope create_command) sample_initial)" by code_simp
  then obtain ps where ps: "handle (sample_envelope create_command) sample_initial = Inr ps"
    by (auto simp: isl_def) (metis obj_sumE)
  show ?thesis using handler_agrees_with_reducer [OF ps core_inv_initial [OF sample_initial_state]] ps by blast
qed

text \<open>C12: A mission that has not ended can always be cancelled: in every state satisfying the core
  invariant the handler answers a CANCEL_MISSION command with one event, and the reducer takes it to
  a state whose mission is CANCELLED.\<close>

theorem open_mission_can_be_cancelled:
  assumes "core_inv s" and "rs_mission s = Some mi" and "ms_status mi \<notin> {Mission_COMPLETED, Mission_FAILED, Mission_CANCELLED}"
    and "c_type c = ''CANCEL_MISSION''"
  shows "\<exists>p. handle c s = Inr [p] \<and>
    (\<forall>e. event_for s p e \<longrightarrow> (\<exists>s' mi'. reduce s e = Inr s' \<and> rs_mission s' = Some mi' \<and> ms_status mi' = Mission_CANCELLED))"
proof -
  have "mission_target c s mi = Inr (Mission_CANCELLED, ''mission.cancelled'')"
    using assms(3,4) by (cases "ms_status mi") (simp_all add: mission_target_def transition_def)
  then have handled: "handle c s = Inr [\<lparr>pe_event_type = ''mission.cancelled'', pe_entity_type = ''MISSION'',
      pe_entity_id = c_mission_id c, pe_payload = [(''from_status'', JStr (mission_status_value (ms_status mi))),
        (''to_status'', JStr (mission_status_value Mission_CANCELLED)), (''reason'', dget (c_payload c) ''reason'')],
      pe_session_id = None\<rparr>]"
    using assms(2,4) by (simp add: handle_def SUPPORTED_COMMANDS_def mission_transition_def handler_mission_def)
  have "\<exists>s' mi'. reduce s e = Inr s' \<and> rs_mission s' = Some mi' \<and> ms_status mi' = Mission_CANCELLED"
    if "ev_mission_id e = rs_mission_id s" "ev_seq e = rs_seq s + 1" "ev_schema_version e = 1"
      "ev_event_type e = ''mission.cancelled''" for e
    using that assms(2,3)
    by (cases "ms_status mi")
       (simp_all add: reduce_def SUPPORTED_EVENTS_def reduce_parts_def starts_with_def reduce_mission_lifecycle_def
         require_mission_def allowed_sources_def target_by_event_def)
  then show ?thesis unfolding handled by (auto simp: event_for_def)
qed

theorem open_mission_can_be_cancelled_witness:
  "\<exists>p. handle (sample_envelope cancel_command) sample_created = Inr [p]"
proof -
  obtain mi where mi: "rs_mission sample_created = Some mi" "ms_status mi = Mission_CREATED"
    using sample_created_mission by blast
  have "core_inv sample_created"
    by (rule core_machine.inv_step [OF core_inv_initial [OF sample_initial_state] sample_reduced])
  moreover have "c_type (sample_envelope cancel_command) = ''CANCEL_MISSION''" by code_simp
  moreover have "ms_status mi \<notin> {Mission_COMPLETED, Mission_FAILED, Mission_CANCELLED}" using mi(2) by simp
  ultimately show ?thesis using open_mission_can_be_cancelled [OF _ mi(1)] by blast
qed

section \<open>Stored data\<close>

text \<open>C13: Canonical JSON is a faithful normal form: the text the runtime stores for a value reads back as
  the value with its keys sorted and later duplicates resolved, and two values have the same text
  exactly when these normal forms agree.\<close>

theorem canonical_text_is_normal_form:
  "json_loads (canonical_json v) = Inr (canon v) \<and>
   (canonical_json v = canonical_json w \<longleftrightarrow> canon v = canon w) \<and> canon (canon v) = canon v"
  by (simp add: json_loads_canonical canonical_json_eq_iff)

theorem canonical_text_is_normal_form_witness:
  "json_loads (canonical_json (JObj [(''b'', JInt 1), (''a'', JStr ''x'')])) = Inr (JObj [(''a'', JStr ''x''), (''b'', JInt 1)])"
proof -
  have "canon (JObj [(''b'', JInt 1), (''a'', JStr ''x'')]) = JObj [(''a'', JStr ''x''), (''b'', JInt 1)]" by code_simp
  then show ?thesis using canonical_text_is_normal_form [of "JObj [(''b'', JInt 1), (''a'', JStr ''x'')]"] by simp
qed

text \<open>C14: A normalized command is well-formed: its identifiers are non-blank, its expected sequence
  number is not negative, its schema version is 1, its correlation identifier is set; and normalizing
  it again gives it back.\<close>

theorem normalized_command_is_well_formed:
  assumes "normalize_command raw = Inr c"
  shows "nonblank (c_command_id c) \<and> nonblank (c_type c) \<and> nonblank (c_mission_id c) \<and> 0 \<le> c_expected_seq c \<and>
    nonblank (actor_type (c_actor c)) \<and> nonblank (actor_id (c_actor c)) \<and> c_schema_version c = 1 \<and>
    (\<exists>k. c_correlation_id c = Some k \<and> nonblank k) \<and> normalize_command (Envelope c) = Inr c"
  using normalize_facts [OF assms] normalize_again [OF assms] by blast

theorem normalized_command_is_well_formed_witness:
  "normalize_command (Envelope (sample_envelope goal_create_command)) = Inr (sample_envelope goal_create_command)"
  using normalized_command_is_well_formed [OF sample_envelopes(2)] by blast

text \<open>C15: Two commands have the same fingerprint exactly when they have the same intent: type, mission,
  session, expected sequence number, actor, schema version, and payload up to the order of keys (for
  a hash that does not collide on the two texts).\<close>

theorem fingerprint_identifies_intent:
  assumes "sha (canonical_json (JObj (command_intent c))) = sha (canonical_json (JObj (command_intent c'))) \<Longrightarrow>
           canonical_json (JObj (command_intent c)) = canonical_json (JObj (command_intent c'))"
  shows "command_fingerprint sha c = command_fingerprint sha c' \<longleftrightarrow>
    c_type c = c_type c' \<and> c_mission_id c = c_mission_id c' \<and> c_session_id c = c_session_id c' \<and>
    c_expected_seq c = c_expected_seq c' \<and> c_actor c = c_actor c' \<and> c_schema_version c = c_schema_version c' \<and>
    canon_dict (c_payload c) = canon_dict (c_payload c')"
proof -
  have "command_fingerprint sha c = command_fingerprint sha c' \<longleftrightarrow>
      canonical_json (JObj (command_intent c)) = canonical_json (JObj (command_intent c'))"
    using assms by (auto simp: command_fingerprint_def canonical_sha256_def)
  then show ?thesis by (simp add: canonical_json_eq_iff canon_JObj intent_eq_iff)
qed

theorem fingerprint_identifies_intent_witness:
  "command_fingerprint id (sample_envelope goal_create_command) \<noteq> command_fingerprint id (sample_envelope stale_command)"
proof -
  have "canon_dict (c_payload (sample_envelope goal_create_command)) \<noteq> canon_dict (c_payload (sample_envelope stale_command))"
    by code_simp
  then show ?thesis
    using fingerprint_identifies_intent [of id "sample_envelope goal_create_command" "sample_envelope stale_command"] by simp
qed

text \<open>C16: Appending events to a mission's log and listing them gives the old list followed by the appended
  events in their stored form (payload keys sorted), numbering stays gap-free, and no other mission's
  stream and no other table changes.\<close>

theorem event_log_round_trip:
  assumes "insert_events d es = Inr d'" and "service_reachable sha r d"
    and "\<And>e. e \<in> set es \<Longrightarrow> ev_mission_id e = m" and "list_events d m 0 None = Inr old"
  shows "list_events d' m 0 None = Inr (old @ map event_norm es) \<and> log_ok d' \<and>
    (\<forall>k. k \<noteq> m \<longrightarrow> stream d' k = stream d k) \<and> (\<forall>t. t \<noteq> ''events'' \<longrightarrow> db_rows d' t = db_rows d t)"
proof -
  have ok: "log_ok d" by (rule reachable_log [OF assms(2)])
  note effect = insert_events_ok [OF assms(1) ok assms(3)]
  show ?thesis
    using list_events_insert [OF assms(1) ok assms(3,4)] effect(1,3,4) by simp
qed

theorem event_log_round_trip_witness:
  "list_events (projr (insert_events created_db [sample_goal_event])) ''m'' 0 None =
     Inr (projr (list_events created_db ''m'' 0 None) @ [event_norm sample_goal_event])"
proof -
  have "(isl (insert_events created_db [sample_goal_event]), isl (list_events created_db ''m'' 0 None)) = (False, False)"
    by code_simp
  then have run: "insert_events created_db [sample_goal_event] = Inr (projr (insert_events created_db [sample_goal_event]))"
      "list_events created_db ''m'' 0 None = Inr (projr (list_events created_db ''m'' 0 None))" by simp_all
  have mine: "ev_mission_id e = ''m''" if "e \<in> set [sample_goal_event]" for e
    using that by (simp add: sample_goal_event_def sample_created_event_def)
  show ?thesis using event_log_round_trip [OF run(1) sample_created_reachable mine run(2)] by simp
qed

text \<open>C17: Writing the projection of a state that satisfies the core invariant, as every state the runtime
  writes does, and reading it back gives the state in its stored form, with the same hash; the projections of other missions, the log and the commands table stay as they
  are.\<close>

theorem projection_round_trip:
  assumes "apply_projection sha d s = Inr d'" and "core_inv s"
  shows "projection_state d' (rs_mission_id s) = Inr (Some (norm_state s)) \<and>
    state_hash sha (norm_state s) = state_hash sha s \<and>
    (\<forall>k. k \<noteq> rs_mission_id s \<longrightarrow> projection_state d' k = projection_state d k) \<and>
    db_rows d' ''events'' = db_rows d ''events'' \<and> db_rows d' ''commands'' = db_rows d ''commands''"
proof -
  have ids: "state_ids_distinct s" using assms(2) by (simp add: core_inv_def)
  obtain h where "state_hash sha s = Inr h" "state_hash sha (norm_state s) = Inr h"
    by (rule norm_state_hash [OF ids apply_projection_encodable [OF assms(1)]])
  then show ?thesis
    using projection_state_apply [OF assms(1) ids] projection_state_other [OF assms(1)] apply_projection_frame(1) [OF assms(1)]
    by simp
qed

theorem projection_round_trip_witness:
  "projection_state (projr (apply_projection id opened_db sample_created)) ''m'' = Inr (Some (norm_state sample_created))"
proof -
  have "\<not> isl (apply_projection id opened_db sample_created)" by code_simp
  then have run: "apply_projection id opened_db sample_created = Inr (projr (apply_projection id opened_db sample_created))" by simp
  have inv: "core_inv sample_created"
    by (rule core_machine.inv_step [OF core_inv_initial [OF sample_initial_state] sample_reduced])
  have "rs_mission_id sample_created = ''m''"
    using core_step_mission_id [OF reduce_refines_core_step [OF sample_reduced]] by (simp add: sample_initial_def)
  then show ?thesis using projection_round_trip [OF run inv] by simp
qed

text \<open>C18: A state whose goals and sessions have distinct identifiers, encoded, stored as canonical text and
  decoded again, comes back in its stored form: mission, goals and sessions with their payloads' keys sorted; the
  same holds for the result recorded with a command, if its error, where it has one, has a non-blank code.\<close>

theorem stored_values_read_back:
  assumes "state_ids_distinct s" and "state_to_dict s = Inr v" and "result_wf res"
  shows "and_then (json_loads (canonical_json (JObj v))) (\<lambda>j. and_then (as_dict j) state_from_dict) = Inr (norm_state s) \<and>
    stored_result (command_row c fp res received_at) = Inr (norm_result res)"
  using state_codec.read_stored [OF assms(1,2)] stored_result_row [OF assms(3)] by blast

theorem stored_values_read_back_witness:
  "stored_result (command_row (sample_envelope create_command) ''fp'' created_result ''now'') = Inr (norm_result created_result)"
proof -
  have inv: "core_inv sample_created"
    by (rule core_machine.inv_step [OF core_inv_initial [OF sample_initial_state] sample_reduced])
  have "\<not> isl (state_to_dict sample_created)" by code_simp
  then have v: "state_to_dict sample_created = Inr (projr (state_to_dict sample_created))" by simp
  have "cr_error created_result = None" by code_simp
  then have "result_wf created_result" by (simp add: result_wf_def)
  then show ?thesis using stored_values_read_back [OF _ v] inv by (simp add: core_inv_def)
qed

section \<open>Verification and rebuilding\<close>

text \<open>C19: In every reachable database of a service without extensions, verifying a mission that has events
  succeeds, with equal replay and projection hashes.\<close>

theorem verification_succeeds:
  assumes "service_reachable sha r d" and "\<not> registry_enabled r" and "stream d m \<noteq> []"
  shows "\<exists>h. service_verify sha r d m =
    Inr [(''ok'', JBool True), (''mission_id'', JStr m), (''replay_hash'', JStr h), (''projection_hash'', JStr h)]"
  using consistent_verify [of r d m sha] reachable_inv [OF assms(1)] assms(2,3) by (simp add: service_verify_def)

theorem verification_succeeds_witness:
  "\<exists>h. service_verify id sample_registry goal_db ''m'' =
    Inr [(''ok'', JBool True), (''mission_id'', JStr ''m''), (''replay_hash'', JStr h), (''projection_hash'', JStr h)]"
  by (rule verification_succeeds [OF sample_goal_reachable sample_disabled]) (use sample_lengths(2) in auto)

text \<open>C20: A rebuild restores the projections from the log alone.  Whatever the projection tables hold, after
  a successful rebuild every mission in its scope that has a replayed mission shows exactly the state
  its log replays to, the log is untouched, and with no scope given every other mission's projection
  is gone.\<close>

theorem rebuild_restores_projections:
  assumes "service_rebuild sha r d scope = (d', Inr report)" and "ExtensionRegistry xs = Inr r"
  shows "db_rows d' ''events'' = db_rows d ''events'' \<and>
    (\<forall>m \<in> set (rebuild_scope d scope). \<exists>s. service_replay r d m None = Inr s \<and>
        (rs_mission s \<noteq> None \<longrightarrow> projection_state d' m = Inr (Some (norm_state s)))) \<and>
    (scope = None \<longrightarrow> (\<forall>m. m \<notin> set (logged_missions d) \<longrightarrow> projection_state d' m = Inr None))"
proof -
  have safe: "core_tables_safe r" using assms(2) registry_core_tables_safe by (auto simp: ExtensionRegistry_def)
  note view = service_rebuild_shows [OF assms(1) safe]
  have "\<exists>s. service_replay r d m None = Inr s \<and> (rs_mission s \<noteq> None \<longrightarrow> projection_state d' m = Inr (Some (norm_state s)))"
    if "m \<in> set (rebuild_scope d scope)" for m
    using view(5) [OF that] view(2) [OF that] by (force simp: shows_state_def)
  moreover have "projection_state d' m = Inr None" if "scope = None" "m \<notin> set (logged_missions d)" for m
    using view(4) [of m] that by (simp add: rebuild_scope_def)
  ultimately show ?thesis using view(1) by blast
qed

text \<open>The projection rows of the mission are lost.\<close>

definition damaged_db :: db where
  "damaged_db = created_db\<lparr>db_rows := (db_rows created_db)(''mission_projection'' := [])\<rparr>"

theorem rebuild_restores_projections_witness:
  "\<exists>s. projection_state (fst (service_rebuild id sample_registry damaged_db (Some ''m''))) ''m'' = Inr (Some (norm_state s))"
proof -
  let ?run = "service_rebuild id sample_registry damaged_db (Some ''m'')"
  have eval: "(isl (snd ?run), isl (service_replay sample_registry damaged_db ''m'' None),
      rs_mission (projr (service_replay sample_registry damaged_db ''m'' None)) = None) = (False, False, False)"
    by code_simp
  obtain d' report where run: "?run = (d', Inr report)"
    using eval by (cases ?run; cases "snd ?run") auto
  have "''m'' \<in> set (rebuild_scope damaged_db (Some ''m''))" by (simp add: rebuild_scope_def)
  then obtain s where s: "service_replay sample_registry damaged_db ''m'' None = Inr s"
      "rs_mission s \<noteq> None \<longrightarrow> projection_state d' ''m'' = Inr (Some (norm_state s))"
    using rebuild_restores_projections [OF run sample_registered] by blast
  then show ?thesis using eval run by auto
qed

section \<open>Extensions\<close>

text \<open>C21: An extension's projection callback cannot leave its own tables: a call that succeeds leaves every
  table the extension did not declare and the whole schema as they were, and a read-only call leaves
  the database as it was, whatever statements the callback executes.\<close>

theorem projection_callback_is_confined:
  assumes "projection_call d x allow_writes c = Inr (d', v)"
  shows "(\<forall>t. t \<notin> set (the (x_projection_tables x)) \<longrightarrow> db_rows d' t = db_rows d t) \<and>
    db_schema d' = db_schema d \<and> (\<not> allow_writes \<longrightarrow> d' = d)"
  using projection_call_frame [OF assms] projection_read_only [of d x c d' v] assms
  by (cases allow_writes) (auto simp: allowed_tables_def)

theorem projection_callback_is_confined_witness:
  "db_rows (fst (projr (projection_call notes_db notes_extension True
      ([SqlInsert ''notes'' [(''mission_id'', JStr ''m''), (''count'', JInt 1)]], Inr ())))) ''events'' =
   db_rows notes_db ''events''"
proof -
  let ?call = "projection_call notes_db notes_extension True
      ([SqlInsert ''notes'' [(''mission_id'', JStr ''m''), (''count'', JInt 1)]], Inr ())"
  have "\<not> isl ?call" by code_simp
  then obtain d' where run: "?call = Inr (d', ())" by (cases ?call) auto
  then show ?thesis using projection_callback_is_confined [OF run] by (simp add: notes_extension_def)
qed

text \<open>C22: A registry that could be built assigns every command type, event type and projection table to
  one owner at most: the command and event types of the core belong to the core, a type an extension declares
  belongs to that extension, a type that neither declares has no owner, no extension owns a core type or a core
  table or another extension's table, and the extensions are listed once each in order of their identifiers.\<close>

theorem registry_owners_are_unique:
  assumes "ExtensionRegistry xs = Inr r"
  shows "(\<forall>x \<in> set xs.
      (t \<in> set (x_command_types x) \<longrightarrow> command_owner r t = Some (ExtensionOwner x) \<and> t \<notin> set SUPPORTED_COMMANDS) \<and>
      (t \<in> set (x_event_types x) \<longrightarrow> event_owner r t = Some (ExtensionOwner x) \<and> t \<notin> set SUPPORTED_EVENTS) \<and>
      (t \<in> set (the (x_projection_tables x)) \<longrightarrow> t \<notin> set CORE_PROJECTION_TABLES \<and>
         (\<forall>y \<in> set xs. t \<in> set (the (x_projection_tables y)) \<longrightarrow> x = y))) \<and>
    (t \<in> set SUPPORTED_COMMANDS \<longrightarrow> command_owner r t = Some CoreOwner) \<and>
    (t \<in> set SUPPORTED_EVENTS \<longrightarrow> event_owner r t = Some CoreOwner) \<and>
    (t \<notin> set SUPPORTED_COMMANDS \<and> (\<forall>z \<in> set xs. t \<notin> set (x_command_types z)) \<longrightarrow> command_owner r t = None) \<and>
    (t \<notin> set SUPPORTED_EVENTS \<and> (\<forall>z \<in> set xs. t \<notin> set (x_event_types z)) \<longrightarrow> event_owner r t = None) \<and>
    distinct (map x_extension_id (r_manifests r)) \<and> sorted (map x_extension_id (r_manifests r)) \<and>
    set (r_manifests r) = set xs"
proof -
  have reg: "make_ExtensionRegistry SUPPORTED_COMMANDS SUPPORTED_EVENTS xs = Inr r"
    using assms(1) by (simp add: ExtensionRegistry_def)
  note built = make_registry_inv [OF reg]
  have commands: "owners_ok x_command_types (set SUPPORTED_COMMANDS) (set xs) (r_command_owners r)"
    and events: "owners_ok x_event_types (set SUPPORTED_EVENTS) (set xs) (r_event_owners r)"
    and tables: "owners_ok (\<lambda>x. the (x_projection_tables x)) (set CORE_PROJECTION_TABLES \<union> {''extension_migrations''})
       (set xs) (r_table_owners r)"
    using built(1) by (simp_all add: registry_inv_def built(3-5))
  have c: "command_owner r t = Some (ExtensionOwner x) \<and> t \<notin> set SUPPORTED_COMMANDS"
    if "x \<in> set xs" "t \<in> set (x_command_types x)" for x
    using owners_lookup [OF commands, of t x] owners_reserved [OF commands that] that built(4) by (simp add: command_owner_def)
  have e: "event_owner r t = Some (ExtensionOwner x) \<and> t \<notin> set SUPPORTED_EVENTS"
    if "x \<in> set xs" "t \<in> set (x_event_types x)" for x
    using owners_lookup [OF events, of t x] owners_reserved [OF events that] that built(5) by (simp add: event_owner_def)
  have p: "t \<notin> set CORE_PROJECTION_TABLES \<and> (\<forall>y \<in> set xs. t \<in> set (the (x_projection_tables y)) \<longrightarrow> x = y)"
    if "x \<in> set xs" "t \<in> set (the (x_projection_tables x))" for x
    using owners_reserved [OF tables that] owners_unique [OF tables that(1) _ that(2)] by blast
  have core: "command_owner r t = Some CoreOwner" if "t \<in> set SUPPORTED_COMMANDS"
    using that by (simp add: command_owner_def built(4))
  have core_events: "event_owner r t = Some CoreOwner" if "t \<in> set SUPPORTED_EVENTS"
    using that by (simp add: event_owner_def built(5))
  have unowned: "command_owner r t = None" if "t \<notin> set SUPPORTED_COMMANDS" "\<forall>z \<in> set xs. t \<notin> set (x_command_types z)"
    using that owners_lookup [OF commands, of t] by (cases "map_of (r_command_owners r) t") (auto simp: command_owner_def built(4))
  have unowned_events: "event_owner r t = None" if "t \<notin> set SUPPORTED_EVENTS" "\<forall>z \<in> set xs. t \<notin> set (x_event_types z)"
    using that owners_lookup [OF events, of t] by (cases "map_of (r_event_owners r) t") (auto simp: event_owner_def built(5))
  show ?thesis using c e p core core_events unowned unowned_events built(2,6,7) by simp
qed

theorem registry_owners_are_unique_witness:
  "command_owner notes_registry ''ADD_NOTE'' = Some (ExtensionOwner notes_extension)"
  using bspec [OF conjunct1 [OF registry_owners_are_unique [OF notes_registered, of "''ADD_NOTE''"]], of notes_extension]
  by (simp add: notes_extension_def)

text \<open>C23: Migrations are applied once.  After the extensions of a service were initialized over a database with
  the core schema, initializing them again, with whatever time stamp, changes nothing and succeeds.\<close>

theorem migrations_apply_once:
  assumes "ExtensionRegistry xs = Inr r" and "registry_enabled r" and "schema_ok d"
    and "initialize_extensions d r applied_at = (d', Inr ())"
  shows "initialize_extensions d' r later = (d', Inr ())"
  using initialize_extensions_settles [OF _ assms(2-4)] assms(1) by (simp add: ExtensionRegistry_def)

theorem migrations_apply_once_witness:
  "initialize_extensions notes_db notes_registry ''later'' = (notes_db, Inr ())"
proof (rule migrations_apply_once [OF notes_registered])
  show "registry_enabled notes_registry" "schema_ok (initialize empty_db)" using notes_evaluation by simp_all
  show "initialize_extensions (initialize empty_db) notes_registry ''now'' = (notes_db, Inr ())"
    using open_service_Inr(3) [OF notes_opened] notes_evaluation by simp
qed

text \<open>C24: Migrations and opening are confined.  A migration that succeeds changes no table and no schema
  object outside the tables the extension declares (apart from recording itself), so opening a
  service over a database leaves commands, events and the core projections as they were.\<close>

theorem opening_keeps_core_tables:
  assumes "open_service path xs now d = (d', Inr r)"
  shows "(t \<in> set CORE_PROJECTION_TABLES \<and> t \<noteq> ''schema_migrations'' \<longrightarrow> db_rows d' t = db_rows d t) \<and>
    (migrate_extension now d1 x = Inr d2 \<longrightarrow>
       (u \<notin> set (the (x_projection_tables x)) \<union> {''sqlite_master'', ''extension_migrations''} \<longrightarrow> db_rows d2 u = db_rows d1 u) \<and>
       (outside (the (x_projection_tables x)) k \<longrightarrow> map_of (visible_schema d2) k = map_of (visible_schema d1) k))"
  using open_service_rows [OF assms] migrate_extension_rows migrate_extension_schema by blast

theorem opening_keeps_core_tables_witness: "db_rows notes_db ''events'' = db_rows empty_db ''events''"
proof -
  have "''events'' \<in> set CORE_PROJECTION_TABLES \<and> ''events'' \<noteq> ''schema_migrations''" by (simp add: CORE_PROJECTION_TABLES_def)
  then show ?thesis using opening_keeps_core_tables [OF notes_opened] by blast
qed

text \<open>C25: The composed reducer routes an event to its owner only: it is the next of the shared sequence, an
  extension's event changes that extension's state and the core's sequence number and nothing else,
  a core event leaves all extension states as they are, and the composed invariant is preserved.\<close>

theorem composed_event_reaches_owner_only:
  assumes "reduce_composed s e r = Inr s'" and "composed_inv r s"
  shows "ev_seq e = cs_seq s + 1 \<and> cs_seq s' = ev_seq e \<and> composed_inv r s' \<and>
    (event_owner r (ev_event_type e) = Some CoreOwner \<longrightarrow>
       reduce (cs_core_state s) e = Inr (cs_core_state s') \<and> cs_extension_states s' = cs_extension_states s) \<and>
    (\<forall>x. event_owner r (ev_event_type e) = Some (ExtensionOwner x) \<longrightarrow>
       cs_core_state s' = (cs_core_state s)\<lparr>rs_seq := cs_seq s'\<rparr> \<and>
       (\<forall>i. i \<noteq> x_extension_id x \<longrightarrow> map_of (cs_extension_states s') i = map_of (cs_extension_states s) i) \<and>
       (\<exists>old new. map_of (cs_extension_states s) (x_extension_id x) = Some old \<and>
          x_reduce x old e (cs_core_state s') = Inr new \<and>
          map_of (cs_extension_states s') (x_extension_id x) = Some new))"
proof -
  note number = reduce_composed_number [OF assms(1)] and inv = conjunct1 [OF reduce_composed_core [OF assms]]
  show ?thesis using assms(1)
  proof (cases rule: reduce_composed_cases)
    case (core c)
    then show ?thesis using number inv by (simp add: make_composed_Inr)
  next
    case (extension x c current changed)
    have s': "cs_core_state s' = c" "cs_seq s' = ev_seq e"
        "cs_extension_states s' = AList.update (x_extension_id x) changed (cs_extension_states s)"
      using extension(5) by (simp_all add: make_composed_Inr)
    have "c = (cs_core_state s)\<lparr>rs_seq := ev_seq e\<rparr>" using extension(2) by (simp add: advance_Inr)
    then show ?thesis using extension number inv s' by (simp add: update_conv')
  qed
qed

definition notes_start :: "int composed_state" where
  "notes_start = projr (initial_composed_state ''m'' notes_registry)"

theorem composed_event_reaches_owner_only_witness:
  "cs_seq (projr (reduce_composed notes_start sample_created_event notes_registry)) = 1"
proof -
  have eval: "(isl (initial_composed_state ''m'' notes_registry),
      isl (reduce_composed notes_start sample_created_event notes_registry), cs_seq notes_start) = (False, False, 0)"
    by code_simp
  then have start: "initial_composed_state ''m'' notes_registry = Inr notes_start" by (simp add: notes_start_def)
  have step: "reduce_composed notes_start sample_created_event notes_registry =
      Inr (projr (reduce_composed notes_start sample_created_event notes_registry))" using eval by simp
  have "composed_inv notes_registry notes_start" using initial_composed_inv [OF start] by simp
  from composed_event_reaches_owner_only [OF step this] show ?thesis using eval by simp
qed

section \<open>The work graph\<close>

lemma graph_service:
  assumes "hex_digest sha" and "work_graph_extension sha = Inr x" and "ExtensionRegistry [x] = Inr r"
  shows "r = graph_registry sha [wg_step sha]"
  using wg_registry_built [OF assms(1)] assms(2,3) by simp

text \<open>C26: A service that runs with the work graph as its extension.  In every database it can reach, every
  mission with a log has a graph: reading the state of the graph succeeds, at the sequence number that is
  the length of the log; the graph satisfies its invariant (unique identifiers, tasks of recorded revisions,
  outcomes exactly for ended tasks, no open task in a closed plan, acyclic dependencies, snapshots anchored
  at the number before their own); and the stored projection of the extension is that graph in stored form.\<close>

theorem served_graph_is_replay:
  assumes "hex_digest sha" and "work_graph_extension sha = Inr x" and "ExtensionRegistry [x] = Inr r"
    and "service_reachable h r d" and "stream d m \<noteq> []"
  shows "\<exists>g. get_work_graph_state r d m None = Inr (wg_query_read m (int (length (stream d m))) (GraphValue g) ''REPLAY'') \<and>
     graph_inv (int (length (stream d m))) g \<and> wg_mission_id g = m \<and>
     get_extension_projection r d EXTENSION_ID m = Inr (norm_graph g)"
proof -
  have r: "r = graph_registry sha [wg_step sha]" by (rule graph_service [OF assms(1-3)])
  show ?thesis
    by (rule reachable_read [OF assms(4) [unfolded r] assms(5)]) (auto simp: r get_work_graph_state_def)
qed

theorem served_graph_is_replay_witness:
  "\<exists>g. get_work_graph_state graph_r graph_db ''m'' None = Inr (wg_query_read ''m'' 4 (GraphValue g) ''REPLAY'') \<and> graph_inv 4 g"
  using served_graph_is_replay [OF sample_sha_hex graph_registered graph_db_reachable graph_db_stream(2)]
  by (auto simp: graph_db_stream)

text \<open>C27: Reading from a snapshot is reading the log.  In every reachable database, a read of a mission's
  graph or of one plan of it that may start from the latest snapshot and returns a value returns what the
  replay of the whole log returns, at the same sequence number and equal in Python's sense; the read that
  replays does not fail where the other does not.\<close>

theorem snapshot_read_equals_replay:
  assumes "hex_digest sha" and "work_graph_extension sha = Inr x" and "ExtensionRegistry [x] = Inr r"
    and "service_reachable h r d" and "read_work_graph h r d m scope plan_id through True = Inr read"
  shows "\<exists>full. read_work_graph h r d m scope plan_id through False = Inr full \<and>
     rm_as_of_seq (wr_meta read) = rm_as_of_seq (wr_meta full) \<and>
     py_eq (encode_value (wr_value read)) (encode_value (wr_value full))"
proof -
  have r: "r = graph_registry sha [wg_step sha]" by (rule graph_service [OF assms(1-3)])
  show ?thesis using accelerated_read_replays [OF assms(4,5) [unfolded r]] by (simp only: r)
qed

theorem snapshot_read_equals_replay_witness:
  "\<exists>read full. read_work_graph sample_sha graph_r graph_db ''m'' ''MISSION'' None None True = Inr read \<and>
     rm_source (wr_meta read) = ''SNAPSHOT_PLUS_TAIL'' \<and>
     read_work_graph sample_sha graph_r graph_db ''m'' ''MISSION'' None None False = Inr full \<and>
     rm_as_of_seq (wr_meta full) = 4 \<and> py_eq (encode_value (wr_value read)) (encode_value (wr_value full))"
proof -
  obtain read where read: "read_work_graph sample_sha graph_r graph_db ''m'' ''MISSION'' None None True = Inr read"
      "rm_source (wr_meta read) = ''SNAPSHOT_PLUS_TAIL''" "rm_as_of_seq (wr_meta read) = 4"
    using graph_outcomes by (auto split: sum.split_asm)
  from snapshot_read_equals_replay [OF sample_sha_hex graph_registered graph_db_reachable read(1)] read show ?thesis by auto
qed

text \<open>C28: A later read goes on from an earlier one.  If the log of a mission replays and a read up to \<open>k\<close>
  returned a graph, a read up to any later point (or of the whole log) succeeds, its graph satisfies the
  invariant, the earlier revisions, dependencies and snapshots are a prefix of the later ones, a task that
  had ended is unchanged, and no task or plan went back in its lifecycle.\<close>

theorem later_read_goes_on:
  assumes "hex_digest sha" and "work_graph_extension sha = Inr x" and "ExtensionRegistry [x] = Inr r"
    and "service_replay_composed r d m None = Inr whole"
    and "full_state r d m (Some k) = Inr (g, n)" and "0 \<le> k" and "\<And>j. through = Some j \<Longrightarrow> k \<le> j"
  shows "\<exists>h n'. full_state r d m through = Inr (h, n') \<and> n \<le> n' \<and> graph_inv n' h \<and>
     prefix (wg_revisions g) (wg_revisions h) \<and> prefix (wg_dependencies g) (wg_dependencies h) \<and>
     prefix (wg_snapshots g) (wg_snapshots h) \<and>
     (\<forall>i t. task_of g i = Some t \<longrightarrow> (\<exists>u. task_of h i = Some u \<and> tk_lifecycle_state t \<le> tk_lifecycle_state u \<and>
        (tk_lifecycle_state t \<in> set TASK_TERMINAL \<longrightarrow> u = t))) \<and>
     (\<forall>i p. plan_of g i = Some p \<longrightarrow> (\<exists>q. plan_of h i = Some q \<and> pl_lifecycle_state p \<le> pl_lifecycle_state q \<and>
        (pl_lifecycle_state p \<noteq> Plan_OPEN \<longrightarrow> pl_current_revision_id q = pl_current_revision_id p)))"
proof -
  have r: "r = graph_registry sha [wg_step sha]" by (rule graph_service [OF assms(1-3)])
  obtain h n' where h: "full_state r d m through = Inr (h, n')" "n \<le> n'" "graph_evolves g h" "graph_inv n' h"
    using later_read [OF assms(5) [unfolded r] assms(6) assms(4) [unfolded r], of through] assms(7) unfolding r by blast
  have "\<exists>u. task_of h i = Some u \<and> tk_lifecycle_state t \<le> tk_lifecycle_state u \<and>
        (tk_lifecycle_state t \<in> set TASK_TERMINAL \<longrightarrow> u = t)" if "task_of g i = Some t" for i t
    using h(3) that unfolding graph_evolves_def task_evolves_def by metis
  moreover have "\<exists>q. plan_of h i = Some q \<and> pl_lifecycle_state p \<le> pl_lifecycle_state q \<and>
        (pl_lifecycle_state p \<noteq> Plan_OPEN \<longrightarrow> pl_current_revision_id q = pl_current_revision_id p)" if "plan_of g i = Some p" for i p
    using h(3) that unfolding graph_evolves_def plan_evolves_def by metis
  moreover have "prefix (wg_revisions g) (wg_revisions h)" "prefix (wg_dependencies g) (wg_dependencies h)"
      "prefix (wg_snapshots g) (wg_snapshots h)"
    using h(3) unfolding graph_evolves_def by (auto simp: prefix_def)
  ultimately show ?thesis using h by blast
qed

theorem later_read_goes_on_witness:
  "\<exists>g h. full_state graph_r log_db ''m'' (Some 4) = Inr (g, 4) \<and> full_state graph_r log_db ''m'' None = Inr (h, 5) \<and>
     (\<exists>t. task_of g ''t'' = Some t \<and> task_of h ''t'' = Some t) \<and> graph_inv 5 h"
proof -
  obtain g where g: "full_state graph_r log_db ''m'' (Some 4) = Inr (g, 4)"
      "map (\<lambda>t. (tk_task_id t, task_lifecycle_value (tk_lifecycle_state t))) (wg_tasks g) = [(''t'', ''CANCELLED''), (''u'', ''PENDING'')]"
    using log_run(1) by (auto split: sum.split_asm)
  obtain h where h: "full_state graph_r log_db ''m'' None = Inr (h, 5)" using log_run(2) by (auto split: sum.split_asm)
  then obtain whole where whole: "service_replay_composed graph_r log_db ''m'' None = Inr whole"
    by (auto simp: full_state_def and_then_Inr_iff)
  obtain t where t: "task_of g ''t'' = Some t" "tk_lifecycle_state t \<in> set TASK_TERMINAL"
  proof -
    obtain a rest where "wg_tasks g = a # rest" "tk_task_id a = ''t''" "task_lifecycle_value (tk_lifecycle_state a) = ''CANCELLED''"
      using g(2) by auto
    then show ?thesis using that [of a]
      by (cases "tk_lifecycle_state a") (simp_all add: task_of_def find_by_def TASK_TERMINAL_def)
  qed
  show ?thesis
    using later_read_goes_on [OF sample_sha_hex graph_registered whole g(1), of None] g(1) h t by auto
qed

text \<open>C29: The reducer of the work graph implements its state machine: an accepted event is one step of
  \<open>graph_step\<close> with the event's sequence number, belongs to the mission of the graph and of a mission that
  has not ended, keeps the invariant, and changes the graph as a function of the event alone.\<close>

theorem graph_reducer_refines_machine:
  assumes "wg_reduce sha g e core = Inr g'"
  shows "graph_step (ev_seq e) g g' \<and> ev_mission_id e = wg_mission_id g \<and> rs_seq core = ev_seq e \<and> mission_open core \<and>
     graph_evolves g g' \<and> (\<forall>n \<le> ev_seq e. graph_inv n g \<longrightarrow> graph_inv (ev_seq e) g' \<and> g' = graph_effect e g)"
  using wg_reduce_Inr [OF assms] graph_step_evolves [OF wg_reduce_Inr(1) [OF assms]]
    graph_step_inv [OF wg_reduce_Inr(1) [OF assms]] wg_reduce_effect [OF assms graph_inv_distinct] by blast

definition sample_plan_event :: event_envelope where
  "sample_plan_event = sample_event 2 ''plan.created.v1'' ''p'' [(''plan_id'', JStr ''p'')]"

definition sample_graph :: work_graph where
  "sample_graph = projr (wg_reduce sample_sha (empty_work_graph ''m'') sample_plan_event (sample_created\<lparr>rs_seq := 2\<rparr>))"

lemma sample_graph_reduced:
  "wg_reduce sample_sha (empty_work_graph ''m'') sample_plan_event (sample_created\<lparr>rs_seq := 2\<rparr>) = Inr sample_graph"
proof -
  have "\<not> isl (wg_reduce sample_sha (empty_work_graph ''m'') sample_plan_event (sample_created\<lparr>rs_seq := 2\<rparr>))" by code_simp
  then show ?thesis by (simp add: sample_graph_def)
qed

theorem graph_reducer_refines_machine_witness:
  "graph_step 2 (empty_work_graph ''m'') sample_graph \<and> graph_inv 2 sample_graph"
proof -
  have "ev_seq sample_plan_event = 2" by (simp add: sample_plan_event_def sample_event_def)
  then show ?thesis
    using graph_reducer_refines_machine [OF sample_graph_reduced] graph_inv_empty [of 2 "''m''"] order_refl [of "2 :: int"] by metis
qed

text \<open>C30: The search for cycles that the handler and the reducer share is exact: when every edge starts at
  a listed task, it reports a cycle if and only if some task reaches itself.\<close>

theorem cycle_search_is_exact:
  assumes "fst ` set es \<subseteq> set ids"
  shows "has_cycle ids es \<longleftrightarrow> (\<exists>t. (t, t) \<in> (set es)\<^sup>+)"
  by (rule has_cycle_iff) (use assms in force)

theorem cycle_search_is_exact_witness:
  "\<exists>t. (t, t) \<in> (set [(''a'', ''b''), (''b'', ''c''), (''c'', ''b'')])\<^sup>+"
proof -
  have "has_cycle [''a'', ''b'', ''c''] [(''a'', ''b''), (''b'', ''c''), (''c'', ''b'')]" by code_simp
  then show ?thesis using cycle_search_is_exact [of "[(''a'', ''b''), (''b'', ''c''), (''c'', ''b'')]" "[''a'', ''b'', ''c'']"] by simp
qed

text \<open>C31: A task is READY exactly when it is pending in the current revision of its open plan and every
  predecessor of it in that revision has succeeded.\<close>

theorem ready_task_iff:
  "task_availability s i = Inr READY \<longleftrightarrow>
     (\<exists>t p. task_of s i = Some t \<and> tk_lifecycle_state t = Task_PENDING \<and>
        plan_of s (tk_plan_id t) = Some p \<and> pl_lifecycle_state p = Plan_OPEN \<and>
        pl_current_revision_id p = Some (tk_plan_revision_id t) \<and>
        (\<forall>d. d \<in> set (wg_dependencies s) \<and> dep_revision_id d = tk_plan_revision_id t \<and> dep_successor_task_id d = i \<longrightarrow>
           (\<exists>u. task_of s (dep_predecessor_task_id d) = Some u \<and> tk_lifecycle_state u = Task_SUCCEEDED)))"
  unfolding ready_iff by blast

definition ready_graph :: work_graph where
  "ready_graph = (empty_work_graph ''m'')
     \<lparr>wg_plans := [\<lparr>pl_plan_id = ''p'', pl_lifecycle_state = Plan_OPEN, pl_current_revision_id = Some ''r'', pl_created_at = ''now'', pl_created_by = []\<rparr>],
      wg_tasks := [\<lparr>tk_task_id = ''t'', tk_task_key = ''k'', tk_plan_id = ''p'', tk_plan_revision_id = ''r'', tk_intent = ''do'',
         tk_acceptance_criteria = [], tk_lifecycle_state = Task_PENDING, tk_outcome = None, tk_created_seq = 3, tk_updated_seq = 3\<rparr>]\<rparr>"

theorem ready_task_iff_witness:
  "task_availability ready_graph ''t'' = Inr READY"
  unfolding ready_task_iff
  by (simp add: ready_graph_def empty_work_graph_def task_of_def plan_of_def find_by_def)

text \<open>C32: The handler of the work graph agrees with its reducer: for a composed state whose parts belong to one
  mission and have one sequence number, the one the command expects, an accepted command yields exactly one event of the work graph, and every event
  that the bus can make of it is accepted by the reducer.\<close>

theorem graph_handler_agrees_with_reducer:
  assumes "wg_handle sha c composed = Inr ps" and "wg_state composed = Inr g"
    and "wg_mission_id g = rs_mission_id (cs_core_state composed)"
    and "cs_mission_id composed = rs_mission_id (cs_core_state composed)" and "cs_seq composed = rs_seq (cs_core_state composed)"
    and "c_expected_seq c = cs_seq composed"
  shows "\<exists>p. ps = [p] \<and> pe_event_type p \<in> set WG_EVENT_TYPES \<and>
     (\<forall>e. event_for (cs_core_state composed) p e \<longrightarrow>
        (\<exists>g'. wg_reduce sha g e ((cs_core_state composed)\<lparr>rs_seq := cs_seq composed + 1\<rparr>) = Inr g'))"
  using wg_handle_sound [OF assms] assms(5) by (auto simp: wg_accepts_def)

definition sample_composed :: "work_graph composed_state" where
  "sample_composed = \<lparr>cs_mission_id = ''m'', cs_seq = 1, cs_core_state = sample_created,
     cs_extension_states = [(EXTENSION_ID, empty_work_graph ''m'')]\<rparr>"

theorem graph_handler_agrees_with_reducer_witness:
  "\<exists>p. wg_handle sample_sha (sample_envelope create_plan_command) sample_composed = Inr [p] \<and> pe_event_type p \<in> set WG_EVENT_TYPES"
proof -
  have "(isl (wg_handle sample_sha (sample_envelope create_plan_command) sample_composed), rs_mission_id sample_created,
      rs_seq sample_created, c_expected_seq (sample_envelope create_plan_command)) = (False, ''m'', 1, 1)" by code_simp
  then have run: "wg_handle sample_sha (sample_envelope create_plan_command) sample_composed =
        Inr (projr (wg_handle sample_sha (sample_envelope create_plan_command) sample_composed))"
    and facts: "rs_mission_id sample_created = ''m''" "rs_seq sample_created = 1" "c_expected_seq (sample_envelope create_plan_command) = 1"
    by simp_all
  have state: "wg_state sample_composed = Inr (empty_work_graph ''m'')"
    by (simp add: sample_composed_def wg_state_def extension_state_def)
  show ?thesis
    using graph_handler_agrees_with_reducer [OF run state] run facts
    by (auto simp: sample_composed_def empty_work_graph_def)
qed

text \<open>C33: A graph with distinct identifiers that is written as canonical JSON text and read back is the graph in stored form (entities
  in the order of their identifiers, the keys of payloads sorted), and writing it again gives the same text.\<close>

theorem graph_text_round_trip:
  assumes "graph_ids_distinct g"
  shows "and_then (json_loads (canonical_json (JObj (wg_to_dict g)))) (\<lambda>j. and_then (as_dict j) wg_from_dict) = Inr (norm_graph g) \<and>
     canonical_json (JObj (wg_to_dict (norm_graph g))) = canonical_json (JObj (wg_to_dict g))"
  using graph_codec.read_stored [OF assms] norm_graph_text [OF assms] by simp

theorem graph_text_round_trip_witness:
  "and_then (json_loads (canonical_json (JObj (wg_to_dict sample_graph)))) (\<lambda>j. and_then (as_dict j) wg_from_dict) =
     Inr (norm_graph sample_graph) \<and> wg_plans sample_graph \<noteq> []"
proof -
  have "graph_inv 2 sample_graph"
    using graph_step_inv [OF wg_reduce_Inr(1) [OF sample_graph_reduced] graph_inv_empty [of 2]]
    by (simp add: sample_plan_event_def sample_event_def)
  moreover have "wg_plans sample_graph \<noteq> []" by code_simp
  ultimately show ?thesis using graph_text_round_trip [OF graph_inv_distinct] by blast
qed

text \<open>C34: Writing the graph of a composed state, a graph of the same mission with distinct identifiers, to the
  projection tables and reading it back gives the graph in stored form; the graphs of other missions stay as they are; and the stored sequence number is that of the
  state when the graph holds anything at all (a plan, revision, task, dependency or snapshot), and absent
  otherwise.  With the tables of the migration in place the write never fails for a graph that satisfies the
  invariant, whatever rows the tables hold.\<close>

theorem graph_projection_round_trip:
  assumes "wg_state composed = Inr g" and "graph_ids_distinct g" and "wg_mission_id g = cs_mission_id composed"
  shows "(\<forall>d' u. run_callback (projection_authorize PROJECTION_TABLES) d (wg_apply d composed) = Inr (d', u) \<longrightarrow>
       wg_read_state d' (cs_mission_id composed) = Inr (norm_graph g) \<and>
       (\<forall>k. k \<noteq> cs_mission_id composed \<longrightarrow> wg_read_state d' k = wg_read_state d k) \<and>
       snd (wg_projection_seq d' (cs_mission_id composed)) =
         Inr (if wg_plans g = [] \<and> wg_revisions g = [] \<and> wg_tasks g = [] \<and> wg_dependencies g = [] \<and> wg_snapshots g = [] then None
              else Some (cs_seq composed))) \<and>
     (graph_schema d \<and> graph_inv n g \<longrightarrow>
       (\<exists>d'. run_callback (projection_authorize PROJECTION_TABLES) d (wg_apply d composed) = Inr (d', ())))"
proof (intro conjI allI impI)
  show "\<exists>d'. run_callback (projection_authorize PROJECTION_TABLES) d (wg_apply d composed) = Inr (d', ())"
    if "graph_schema d \<and> graph_inv n g"
    using wg_apply_total [OF conjunct1 [OF that] assms(1,2)] that
    by (simp add: graph_writes_def graph_inv_def graph_dependencies_ok_def)
next
  fix d' u assume "run_callback (projection_authorize PROJECTION_TABLES) d (wg_apply d composed) = Inr (d', u)"
  note run = this [folded graph_writes_def]
  show "wg_read_state d' (cs_mission_id composed) = Inr (norm_graph g)" using wg_read_apply [OF run assms] assms(3) by simp
  show "snd (wg_projection_seq d' (cs_mission_id composed)) =
      Inr (if wg_plans g = [] \<and> wg_revisions g = [] \<and> wg_tasks g = [] \<and> wg_dependencies g = [] \<and> wg_snapshots g = [] then None
           else Some (cs_seq composed))" by (rule wg_projection_seq_apply [OF run assms(1)])
  show "wg_read_state d' k = wg_read_state d k" if "k \<noteq> cs_mission_id composed" for k
    by (rule wg_read_other [OF run assms(1) that])
qed

definition tables_db :: db where
  "tables_db = \<lparr>db_schema = map (\<lambda>(t, def). ((''table'', t, t), TableDef def)) wg_tables, db_rows = (\<lambda>_. [])\<rparr>"

definition planned_composed :: "work_graph composed_state" where
  "planned_composed = sample_composed\<lparr>cs_seq := 2, cs_extension_states := [(EXTENSION_ID, sample_graph)]\<rparr>"

lemma planned_facts:
  "wg_state planned_composed = Inr sample_graph" "cs_mission_id planned_composed = ''m''" "cs_seq planned_composed = 2"
  "graph_inv 2 sample_graph" "wg_mission_id sample_graph = ''m''" "wg_plans sample_graph \<noteq> []" "graph_schema tables_db"
proof -
  show "wg_state planned_composed = Inr sample_graph" "cs_mission_id planned_composed = ''m''" "cs_seq planned_composed = 2"
    by (simp_all add: planned_composed_def sample_composed_def wg_state_def extension_state_def)
  show "graph_inv 2 sample_graph"
    using graph_step_inv [OF wg_reduce_Inr(1) [OF sample_graph_reduced] graph_inv_empty [of 2]]
    by (simp add: sample_plan_event_def sample_event_def)
  show "wg_mission_id sample_graph = ''m''" "wg_plans sample_graph \<noteq> []" by code_simp+
  have "list_all (\<lambda>(t, def). table_of tables_db t = Some def \<and> unique_keys tables_db t = map (\<lambda>k. (k, [])) (td_keys def) \<and>
      abort_message tables_db t ''DELETE'' = None) wg_tables"
    by code_simp
  then show "graph_schema tables_db" by (simp add: graph_schema_def list_all_iff)
qed

theorem graph_projection_round_trip_witness:
  "\<exists>d'. wg_read_state d' ''m'' = Inr (norm_graph sample_graph) \<and> snd (wg_projection_seq d' ''m'') = Inr (Some 2)"
proof -
  have "graph_ids_distinct sample_graph" using planned_facts(4) by (rule graph_inv_distinct)
  note trip = graph_projection_round_trip [OF planned_facts(1) this, of tables_db 2]
  from trip obtain d' where "run_callback (projection_authorize PROJECTION_TABLES) tables_db (wg_apply tables_db planned_composed) = Inr (d', ())"
    using planned_facts by auto
  then show ?thesis using trip planned_facts by auto
qed

text \<open>C35: The manifest of the work graph is well-formed and can be registered with the core, and then owns
  exactly its command and event types: the core keeps its own, and every other type has no owner.\<close>

theorem work_graph_registers:
  assumes "hex_digest sha"
  shows "\<exists>x r. work_graph_extension sha = Inr x \<and> ExtensionRegistry [x] = Inr r \<and>
     (\<forall>t. command_owner r t = (if t \<in> set SUPPORTED_COMMANDS then Some CoreOwner
        else if t \<in> set WG_COMMAND_TYPES then Some (ExtensionOwner x) else None)) \<and>
     (\<forall>t. event_owner r t = (if t \<in> set SUPPORTED_EVENTS then Some CoreOwner
        else if t \<in> set WG_EVENT_TYPES then Some (ExtensionOwner x) else None))"
proof -
  let ?x = "wg_manifest sha [wg_step sha]"
  have built: "work_graph_extension sha = Inr ?x" "ExtensionRegistry [?x] = Inr (wg_registry ?x)"
    using wg_registry_built [OF assms] by (simp_all add: work_graph_extension_Inr [OF assms])
  have owners: "map_of (rev (map (\<lambda>t. (t, y)) ts)) t = (if t \<in> set ts then Some y else None)" for y :: "work_graph manifest" and ts t
  proof (cases "t \<in> set ts")
    case True
    then show ?thesis
      by (cases "map_of (rev (map (\<lambda>t. (t, y)) ts)) t") (auto simp: map_of_eq_None_iff image_iff dest: map_of_SomeD)
  qed (simp add: map_of_eq_None_iff image_iff)
  show ?thesis
    using built by (intro exI [of _ ?x] exI [of _ "wg_registry ?x"]) (simp add: command_owner_def event_owner_def wg_registry_def owners)
qed

theorem work_graph_registers_witness:
  "\<exists>x r. work_graph_extension sample_sha = Inr x \<and> ExtensionRegistry [x] = Inr r \<and>
     command_owner r ''CREATE_PLAN'' = Some (ExtensionOwner x)"
proof -
  have "''CREATE_PLAN'' \<notin> set SUPPORTED_COMMANDS" "''CREATE_PLAN'' \<in> set WG_COMMAND_TYPES"
    by (simp_all add: SUPPORTED_COMMANDS_def WG_COMMAND_TYPES_def)
  then show ?thesis using work_graph_registers [OF sample_sha_hex] by (elim exE conjE) metis
qed

text \<open>C36: Listing tasks with filters returns, in the order of the graph, exactly the tasks that pass the given
  filters by plan, revision, lifecycle state and availability, each by equality of the text; an unknown
  availability is refused, and no other filter is.\<close>

theorem listed_tasks_pass_filters:
  assumes "full_state r d m through = Inr (s, n)"
  shows "list_tasks r d m (Some f) through =
    (if dhas f ''availability'' \<and> py_str (dget f ''availability'') \<notin> set [''READY'', ''BLOCKED'', ''NOT_ELIGIBLE''] then
       runtime_error ''COMMAND_SCHEMA_INVALID'' ''unsupported availability filter''
     else Inr (wg_query_read m n (TaskValues (filter (passes_filters f s) (wg_tasks s))) ''REPLAY''))"
  by (rule list_tasks_filters [OF assms])

theorem listed_tasks_pass_filters_witness:
  "\<exists>s :: work_graph. list_tasks graph_r log_db ''m'' (Some [(''lifecycle_state'', JStr ''CANCELLED'')]) None =
     Inr (wg_query_read ''m'' 5 (TaskValues (filter (\<lambda>t. task_lifecycle_value (tk_lifecycle_state t) = ''CANCELLED'') (wg_tasks s))) ''REPLAY'')"
proof -
  obtain s where s: "full_state graph_r log_db ''m'' None = Inr (s, 5)" using log_run(2) by (auto split: sum.split_asm)
  have "passes_filters [(''lifecycle_state'', JStr ''CANCELLED'')] s = (\<lambda>t. task_lifecycle_value (tk_lifecycle_state t) = ''CANCELLED'')"
    by (auto simp: passes_filters_def passes_texts_def dhas_def dget_def fun_eq_iff)
  then have "list_tasks graph_r log_db ''m'' (Some [(''lifecycle_state'', JStr ''CANCELLED'')]) None =
     Inr (wg_query_read ''m'' 5 (TaskValues (filter (\<lambda>t. task_lifecycle_value (tk_lifecycle_state t) = ''CANCELLED'') (wg_tasks s))) ''REPLAY'')"
    using listed_tasks_pass_filters [OF s, of "[(''lifecycle_state'', JStr ''CANCELLED'')]"] by (simp add: dhas_def)
  then show ?thesis by blast
qed

text \<open>C37: The lifecycles of a graph run out.  In a run of lifecycle events (of plans and tasks) that the reducer
  accepts one after the other, each event uses up at least one move of its plan or task: the moves left at the
  end and the events accepted are together no more than the moves left before (a task that is cancelled while it
  is pending gives up two at once), so the run is no longer than twice the number of tasks and plans.\<close>

theorem lifecycle_moves_run_out:
  assumes "fold_res (\<lambda>g (e, core). wg_reduce sha g e core) g steps = Inr g'" and "list_all (\<lambda>(e, _). lifecycle_event e) steps"
    and "graph_inv n g"
  shows "length steps + moves_left g' \<le> moves_left g \<and> length steps \<le> 2 * (length (wg_tasks g) + length (wg_plans g))"
  using moves_run_out [OF assms(1,2) graph_inv_distinct [OF assms(3)]] moves_left_bound [of g] by simp

theorem lifecycle_moves_run_out_witness:
  "\<exists>g g'. wg_reduce sample_sha g (sample_log ! 3) (sample_created\<lparr>rs_seq := 4\<rparr>) = Inr g' \<and> moves_left g' < moves_left g"
proof -
  have eval: "(case full_state graph_r log_db ''m'' (Some 3) of Inl _ \<Rightarrow> True
      | Inr (g, n) \<Rightarrow> isl (wg_reduce sample_sha g (sample_log ! 3) (sample_created\<lparr>rs_seq := 4\<rparr>))) = False"
    by code_simp
  then obtain g n g' where g: "full_state graph_r log_db ''m'' (Some 3) = Inr (g, n)"
    and step: "wg_reduce sample_sha g (sample_log ! 3) (sample_created\<lparr>rs_seq := 4\<rparr>) = Inr g'"
    by (auto split: sum.split_asm prod.split_asm elim!: notE [where P = "isl _"] simp: isl_def) (metis sum.exhaust isl_def)
  obtain s where "replay_composed_state log_db ''m'' graph_r (Some 3) = Inr s" "wg_state s = Inr g" using g by (auto simp: full_state_Inr)
  then have inv: "graph_inv (cs_seq s) g" using graph_replayed unfolding graph_r_def graph_manifest_def by fastforce
  have moves: "list_all (\<lambda>(e, _). lifecycle_event e) [(sample_log ! 3, sample_created\<lparr>rs_seq := 4\<rparr>)]"
    by (simp add: lifecycle_event_def sample_log_def sample_event_def numeral_3_eq_3)
  have "fold_res (\<lambda>g (e, core). wg_reduce sample_sha g e core) g [(sample_log ! 3, sample_created\<lparr>rs_seq := 4\<rparr>)] = Inr g'"
    by (simp add: step)
  from lifecycle_moves_run_out [OF this moves inv] have "moves_left g' < moves_left g" by simp
  then show ?thesis using step by blast
qed

text \<open>C38: The log is read by windows without loss.  In every reachable database, reading the events of a mission
  after \<open>k\<close>, zero or more, and up to \<open>n\<close> succeeds and returns the events numbered \<open>k + 1\<close> to \<open>n\<close>, or to the end of the log
  when \<open>n\<close> lies beyond it; no number is missing, repeated or out of bounds.\<close>

theorem event_window_is_exact:
  assumes "service_reachable sha r d" and "0 \<le> k"
  shows "\<exists>es. list_events d m k (Some n) = Inr es \<and>
     map ev_seq es = map int [Suc (nat k)..<Suc (min (nat n) (length (stream d m)))]"
  by (rule list_events_window [OF reachable_log [OF assms(1)] assms(2)])

theorem event_window_is_exact_witness:
  "\<exists>es. list_events goal_db ''m'' 1 (Some 9) = Inr es \<and> map ev_seq es = [2]"
  using event_window_is_exact [OF sample_goal_reachable, of 1 "''m''" 9] sample_lengths(2) by (simp add: upt_rec)

text \<open>C39: A service's record of execution attempts is what its log says, and the attempts of a task form a chain.
  In every reachable database of a service that has registered the manifest of execution attempts, for a mission
  with events: the replay of the log and the stored projection give the same state of attempts; its attempts are
  the logged attempt events, one each, in their order, with the identity, sequence number, session, plan, revision
  and task of the event; no identity occurs twice; and the attempts of every task are numbered 1, 2, 3 without a
  gap, the first a START without a predecessor, every other one a RESUME of the attempt right before it, with the
  first one's root, plan and revision.\<close>

theorem served_attempts_form_chains:
  assumes "idempotent nfc" and "service_reachable h r d" and "execution_resume_extension sha nfc = Inr x" and "x \<in> set (r_manifests r)"
    and "list_events d m 0 None = Inr es" and "stream d m \<noteq> []"
  shows "\<exists>s a. replay_composed_state d m r None = Inr s \<and> resume_state_of s = Inr a \<and> er_read_state nfc d m = Inr a \<and>
     er_mission_id a = m \<and> list_all2 records_event (filter attempt_event_in es) (er_attempts a) \<and>
     distinct (map at_attempt_id (er_attempts a)) \<and>
     (\<forall>t i. i < length (attempts_for_task a t) \<longrightarrow>
        (let chain = attempts_for_task a t; attempt = chain ! i in
           at_ordinal attempt = int i + 1 \<and> at_root_attempt_id attempt = at_attempt_id (chain ! 0) \<and>
           at_plan_id attempt = at_plan_id (chain ! 0) \<and> at_plan_revision_id attempt = at_plan_revision_id (chain ! 0) \<and>
           at_predecessor_attempt_id attempt = (if i = 0 then None else Some (at_attempt_id (chain ! (i - 1)))) \<and>
           at_attempt_kind attempt = (if i = 0 then START else RESUME)))"
proof -
  obtain s a where a: "replay_composed_state d m r None = Inr s" "resume_state_of s = Inr a" "er_read_state nfc d m = Inr a"
      "resume_inv (cs_seq s) a" "er_mission_id a = m"
    by (rule reachable_attempts [OF assms(1-4,6)])
  have "list_all2 records_event (filter attempt_event_in es) (er_attempts a)"
    by (rule replayed_attempts [OF assms(1-4) a(1) assms(5) a(2)])
  moreover have "distinct (map at_attempt_id (er_attempts a))" "attempt_chain None (attempts_for_task a t)" for t
    using a(4) by (simp_all add: resume_inv_def)
  ultimately show ?thesis using a(1-3,5) attempt_chain_nth unfolding Let_def by blast
qed

theorem served_attempts_form_chains_witness:
  "\<exists>a. er_read_state id attempts_db ''m'' = Inr a \<and> map at_created_seq (er_attempts a) = [5, 6]"
proof -
  obtain es where es: "list_events attempts_db ''m'' 0 None = Inr es"
    and types: "map (\<lambda>e. (ev_event_type e, ev_seq e)) es =
      [(''mission.created'', 1), (''goal.created'', 2), (''mission.activated'', 3), (''session.opened'', 4),
       (''execution.attempt_started.v1'', 5), (''execution.attempt_resumed.v1'', 6)]"
    by (rule attempts_listed)
  have id: "idempotent id" by (simp add: idempotent_def)
  have "map ev_seq (filter attempt_event_in es) = [5, 6]"
    using types by (auto simp: map_eq_Cons_conv attempt_event_in_def ER_EVENT_TYPES_def)
  moreover obtain a where a: "er_read_state id attempts_db ''m'' = Inr a"
      "list_all2 records_event (filter attempt_event_in es) (er_attempts a)"
    using served_attempts_form_chains [OF id attempts_db_reachable resume_registered(1) resume_member es attempts_stream] by blast
  moreover have "map at_created_seq as = map ev_seq fs" if "list_all2 records_event fs as" for fs as
    using that by induction (simp_all add: records_event_def)
  ultimately show ?thesis by auto
qed

text \<open>C40: The execution of a task is started or resumed only when the task may run.  In every reachable database of
  a service with the manifest of execution attempts, every listed attempt event was recorded when, in the state
  right before it, the mission was ACTIVE, the event's session was open, the event's plan was open with the
  event's revision as its current one, and the event's task was an ACTIVE task of that plan and revision.\<close>

theorem attempt_recorded_when_runnable:
  assumes "idempotent nfc" and "service_reachable h r d" and "execution_resume_extension sha nfc = Inr x" and "x \<in> set (r_manifests r)"
    and "list_events d m k through = Inr es" and "e \<in> set es" and "ev_event_type e \<in> set ER_EVENT_TYPES"
  shows "\<exists>s ms sid x g plan task.
     replay_composed_state d m r (Some (ev_seq e - 1)) = Inr s \<and> work_graph_of s = Inr g \<and>
     rs_mission (cs_core_state s) = Some ms \<and> ms_status ms = Mission_ACTIVE \<and>
     ev_session_id e = Some sid \<and> session_of (cs_core_state s) sid = Some x \<and> ss_status x = Session_OPEN \<and>
     plan_of g (pl_plan_id plan) = Some plan \<and> dget (ev_payload e) ''plan_id'' = JStr (pl_plan_id plan) \<and>
     pl_lifecycle_state plan = Plan_OPEN \<and> task_of g (tk_task_id task) = Some task \<and>
     dget (ev_payload e) ''task_id'' = JStr (tk_task_id task) \<and> tk_lifecycle_state task = Task_ACTIVE \<and>
     tk_plan_id task = pl_plan_id plan \<and> pl_current_revision_id plan = Some (tk_plan_revision_id task) \<and>
     dget (ev_payload e) ''plan_revision_id'' = JStr (tk_plan_revision_id task)"
proof -
  obtain s sid pl rv t where s: "state_through r d m (ev_seq e - 1) = Inr (Composed s)" "runnable s sid pl rv t"
      "ev_session_id e = Some sid" "dget (ev_payload e) ''plan_id'' = JStr pl"
      "dget (ev_payload e) ''plan_revision_id'' = JStr rv" "dget (ev_payload e) ''task_id'' = JStr t"
    using attempt_was_runnable [OF assms] by blast
  have "registry_enabled r" using assms(4) by (auto simp: registry_enabled_def)
  then have "replay_composed_state d m r (Some (ev_seq e - 1)) = Inr s"
    using s(1) by (auto simp: state_through_composed and_then_Inr_iff)
  moreover obtain ms x g plan task where run: "rs_mission (cs_core_state s) = Some ms" "ms_status ms = Mission_ACTIVE"
      "session_of (cs_core_state s) sid = Some x" "ss_status x = Session_OPEN" "work_graph_of s = Inr g" "plan_of g pl = Some plan"
      "pl_lifecycle_state plan = Plan_OPEN" "pl_current_revision_id plan = Some rv" "task_of g t = Some task" "tk_plan_id task = pl"
      "tk_plan_revision_id task = rv" "tk_lifecycle_state task = Task_ACTIVE"
    using s(2) unfolding runnable_def by blast
  moreover have "pl_plan_id plan = pl" "tk_task_id task = t" using plan_ofD [OF run(6)] task_ofD [OF run(9)] by simp_all
  ultimately show ?thesis using s(3-6)
    by (intro exI [of _ s] exI [of _ ms] exI [of _ sid] exI [of _ x] exI [of _ g] exI [of _ plan] exI [of _ task]) simp
qed

theorem attempt_recorded_when_runnable_witness:
  "\<exists>s ms. replay_composed_state attempts_db ''m'' resume_r (Some 4) = Inr s \<and>
     rs_mission (cs_core_state s) = Some ms \<and> ms_status ms = Mission_ACTIVE"
proof -
  obtain es where es: "list_events attempts_db ''m'' 0 None = Inr es"
    and types: "map (\<lambda>e. (ev_event_type e, ev_seq e)) es =
      [(''mission.created'', 1), (''goal.created'', 2), (''mission.activated'', 3), (''session.opened'', 4),
       (''execution.attempt_started.v1'', 5), (''execution.attempt_resumed.v1'', 6)]"
    by (rule attempts_listed)
  have "es ! 4 \<in> set es" "ev_event_type (es ! 4) \<in> set ER_EVENT_TYPES" "ev_seq (es ! 4) - 1 = 4"
    using types by (auto simp: map_eq_Cons_conv ER_EVENT_TYPES_def)
  moreover have "idempotent id" by (simp add: idempotent_def)
  ultimately show ?thesis
    using attempt_recorded_when_runnable [OF _ attempts_db_reachable resume_registered(1) resume_member es, of "es ! 4"] by metis
qed

end
